(* ===== verification/Prelude.thy ===== *)
theory Prelude
  imports Main "HOL-Library.Multiset" "HOL-Library.Word" "HOL-Library.AList"
    "HOL-Library.Char_ord" "HOL-Library.List_Lexorder"
begin

text \<open>
  What every theory of the development shares: the collections of rewrite rules the component
  proofs use, the identifier and exception types, and generic facts about lists, maps and
  sorting that are not about any one component.

  \<^item> \<open>uuid\<close> stands for \<open>repo::lib::RepoUUID\<close>
    (\<open>bouncer/src/repo/lib/datastructure/repo_uuid.h\<close>): sixteen bytes, compared and ordered as
    an unsigned big-endian number, hence a 128-bit word.
  \<^item> \<open>exn\<close> is the C++ exception a function leaves with; \<open>NullDeref\<close> and \<open>OutOfRange\<close> mark
    undefined behaviour (a null or freed pointer, an index past the end) that the source does not
    guard, \<open>AssertionFailed\<close> an \<open>assert\<close> that does not hold, \<open>StackOverflow\<close> a recursion that used up its fuel, \<open>Diverges\<close> a loop that never ends,
    \<open>ExitProcess\<close> a call of \<open>exit\<close>.
\<close>

named_theorems frame_simps \<open>what an operation leaves unchanged\<close>
named_theorems inv_intros \<open>operations keep the component's invariant\<close>

type_synonym uuid = "128 word"

abbreviation default_uuid :: uuid where
  "default_uuid \<equiv> 0"

datatype exn =
    RepoException string
  | RepoInvalidConfigException string
  | RepoImportException int
  | RepoFieldNotFoundException string
  | RepoFieldTypeException string
  | RepoBSONException string
  | BsoncxxException
  | RepoSceneProcessingException string
  | RepoGeometryProcessingException string
  | RepoRefMissingException string
  | RepoFileUploadException string
  | DatabaseException string
  | RuntimeError string
  | LogicError string \<comment> \<open>\<open>std::out_of_range\<close>, \<open>std::length_error\<close>\<close>
  | InvalidArgument string \<comment> \<open>\<open>std::invalid_argument\<close>\<close>
  | DivisionByZero
  | NullDeref
  | OutOfRange
  | AssertionFailed
  | StackOverflow
  | Diverges
  | ExitProcess

text \<open>What \<open>catch (const RepoException&)\<close> and \<open>catch (const std::exception&)\<close> catch.\<close>

fun is_RepoException :: "exn \<Rightarrow> bool" where
  "is_RepoException (RepoException _) = True"
| "is_RepoException (RepoInvalidConfigException _) = True"
| "is_RepoException (RepoImportException _) = True"
| "is_RepoException (RepoFieldNotFoundException _) = True"
| "is_RepoException (RepoFieldTypeException _) = True"
| "is_RepoException (RepoBSONException _) = True"
| "is_RepoException (RepoSceneProcessingException _) = True"
| "is_RepoException (RepoGeometryProcessingException _) = True"
| "is_RepoException (RepoRefMissingException _) = True"
| "is_RepoException (RepoFileUploadException _) = True"
| "is_RepoException _ = False"

definition undefined_behaviour :: "exn \<Rightarrow> bool" where
  "undefined_behaviour e \<longleftrightarrow> e \<in> {NullDeref, OutOfRange, AssertionFailed, StackOverflow, Diverges, DivisionByZero}"

definition is_std_exception :: "exn \<Rightarrow> bool" where
  "is_std_exception e \<longleftrightarrow> \<not> undefined_behaviour e \<and> e \<noteq> ExitProcess"

subsection \<open>Results\<close>

text \<open>
  A function that can throw returns a sum: \<open>Inl\<close> the exception it leaves with, \<open>Inr\<close> its
  value. \<open>rbind\<close> is sequencing, \<open>rtraverse\<close> a loop that collects, \<open>rfold\<close> a loop over a state;
  all stop at the first exception.
\<close>

type_synonym 'a result = "exn + 'a"

definition rbind :: "'a result \<Rightarrow> ('a \<Rightarrow> 'b result) \<Rightarrow> 'b result" where
  "rbind r f = (case r of Inl e \<Rightarrow> Inl e | Inr x \<Rightarrow> f x)"

fun rtraverse :: "('a \<Rightarrow> 'b result) \<Rightarrow> 'a list \<Rightarrow> 'b list result" where
  "rtraverse f [] = Inr []"
| "rtraverse f (x # xs) = rbind (f x) (\<lambda>y. rbind (rtraverse f xs) (\<lambda>ys. Inr (y # ys)))"

fun rfold :: "('a \<Rightarrow> 's \<Rightarrow> 's result) \<Rightarrow> 'a list \<Rightarrow> 's \<Rightarrow> 's result" where
  "rfold f [] s = Inr s"
| "rfold f (x # xs) s = rbind (f x s) (rfold f xs)"

lemma rbind_simps [simp]: "rbind (Inl e) f = Inl e" "rbind (Inr x) f = f x"
  by (simp_all add: rbind_def)

lemma rbind_Inr_iff: "rbind r f = Inr y \<longleftrightarrow> (\<exists>x. r = Inr x \<and> f x = Inr y)"
  by (cases r) auto

lemma rtraverse_map [simp]: "rtraverse f (map g xs) = rtraverse (\<lambda>x. f (g x)) xs"
  by (induction xs) simp_all

lemma rtraverse_all_Inr: "(\<And>x. x \<in> set xs \<Longrightarrow> f x = Inr (g x)) \<Longrightarrow> rtraverse f xs = Inr (map g xs)"
  by (induction xs) simp_all

lemma rtraverse_Inl: "rtraverse f xs = Inl e \<Longrightarrow> \<exists>x \<in> set xs. f x = Inl e"
proof (induction xs)
  case (Cons x xs)
  then show ?case by (cases "f x"; cases "rtraverse f xs") auto
qed simp

lemma rtraverse_Inr_all: "rtraverse f xs = Inr ys \<Longrightarrow> x \<in> set xs \<Longrightarrow> \<exists>y. f x = Inr y"
  by (induction xs arbitrary: ys) (auto simp: rbind_Inr_iff)

lemma rfold_append: "rfold f (xs @ ys) s = rbind (rfold f xs s) (rfold f ys)"
  by (induction xs arbitrary: s) (auto simp: rbind_def split: sum.splits)

definition the_result :: "'a result \<Rightarrow> 'a \<Rightarrow> 'a" where
  "the_result r d = (case r of Inl _ \<Rightarrow> d | Inr x \<Rightarrow> x)"

subsection \<open>Identifiers as bytes\<close>

text \<open>\<open>RepoUUID::data()\<close> and the copy of sixteen bytes back into an identifier.\<close>

type_synonym byte = "8 word"

definition uuid_data :: "uuid \<Rightarrow> byte list" where
  "uuid_data u = map (\<lambda>i. ucast (drop_bit (8 * (15 - i)) u)) [0..<16]"

definition uuid_of_data :: "byte list \<Rightarrow> uuid" where
  "uuid_of_data bs = word_rcat bs"

lemma length_uuid_data [simp]: "length (uuid_data u) = 16"
  by (simp add: uuid_data_def)

lemma uuid_of_data_data [simp]: "uuid_of_data (uuid_data u) = u"
proof (rule bit_word_eqI)
  fix n assume n: "n < LENGTH(128)"
  then have d: "n div 8 < 16" by (auto simp: div_less_iff_less_mult)
  have r: "rev (uuid_data u) ! (n div 8) = ucast (drop_bit (8 * (n div 8)) u)"
    using d nth_upt [of 0 "15 - n div 8" 16] by (simp add: uuid_data_def rev_nth)
  have "bit (word_rcat (uuid_data u) :: uuid) n \<longleftrightarrow>
        bit (horner_sum uint (2 ^ LENGTH(8)) (rev (uuid_data u))) n"
    using n by (simp add: word_rcat_def bit_word_of_int_iff)
  also have "\<dots> \<longleftrightarrow> bit (rev (uuid_data u) ! (n div 8)) (n mod 8)"
    using d by (simp only: bit_horner_sum_uint_exp_iff) simp
  also have "\<dots> \<longleftrightarrow> bit u n"
    by (simp only: r) (simp add: bit_simps)
  finally show "bit (uuid_of_data (uuid_data u)) n = bit u n"
    by (simp add: uuid_of_data_def)
qed

subsection \<open>Lists\<close>

lemma filter_removeAll_not [simp]:
  "\<not> P e \<Longrightarrow> filter P (removeAll e xs) = filter P xs"
  by (induction xs) auto

lemma filter_removeAll_commute: "filter P (removeAll e xs) = removeAll e (filter P xs)"
  by (induction xs) auto

lemma mset_filter_partition: "mset (filter P xs) + mset (filter (\<lambda>x. \<not> P x) xs) = mset xs"
  by (induction xs) auto

lemma sum_list_update_le:
  assumes "i < length xs" and "(y::nat) \<le> xs ! i"
  shows "sum_list (xs[i := y]) \<le> sum_list xs"
  using assms by (simp add: sum_list_update)

lemma sum_list_pointwise_le:
  "length xs = length ys \<Longrightarrow> (\<And>i. i < length xs \<Longrightarrow> xs ! i \<le> (ys ! i :: nat)) \<Longrightarrow>
   sum_list xs \<le> sum_list ys"
  by (simp add: list_all2_conv_all_nth sum_list_mono2)

lemma update_fresh: "k \<notin> fst ` set al \<Longrightarrow> AList.update k v al = al @ [(k, v)]"
  by (induction al) auto

subsection \<open>Sorting with a key\<close>

text \<open>
  \<open>std::sort\<close> and \<open>std::ranges::sort\<close> promise a permutation that is ordered by the comparator
  and say nothing about equal elements. A model that sorts takes the sorting function as an
  argument, and its properties hold for every function that keeps this promise.
\<close>

definition key_sort :: "(('b \<Rightarrow> nat) \<Rightarrow> 'b list \<Rightarrow> 'b list) \<Rightarrow> bool" where
  "key_sort srt \<longleftrightarrow> (\<forall>k xs. mset (srt k xs) = mset xs \<and> sorted (map k (srt k xs)))"

locale cpp_sort =
  fixes srt :: "('b \<Rightarrow> nat) \<Rightarrow> 'b list \<Rightarrow> 'b list"
  assumes sort_perm: "mset (srt k xs) = mset xs"
    and sort_sorted: "sorted (map k (srt k xs))"
begin

lemma sort_set: "set (srt k xs) = set xs"
  using sort_perm by (metis set_mset_mset)

lemma sort_length: "length (srt k xs) = length xs"
  using sort_perm by (metis size_mset)

lemma sort_distinct: "distinct (srt k xs) = distinct xs"
  using sort_perm by (metis mset_eq_imp_distinct_iff)

lemma sort_Nil_iff: "srt k xs = [] \<longleftrightarrow> xs = []"
  using sort_length by (metis length_0_conv)

lemma sort_hd_least: "x \<in> set xs \<Longrightarrow> k (hd (srt k xs)) \<le> k x"
  using sort_sorted [of k xs]
  by (cases "srt k xs") (auto simp flip: sort_set [of k xs])

end

lemma key_sort_iff_cpp_sort: "key_sort srt \<longleftrightarrow> cpp_sort srt"
  unfolding key_sort_def cpp_sort_def by blast

interpretation stable_sort: cpp_sort "sort_key :: ('b \<Rightarrow> nat) \<Rightarrow> 'b list \<Rightarrow> 'b list"
  by unfold_locales simp_all

lemma key_sort_sort_key [simp, intro]: "key_sort sort_key"
  by (simp add: key_sort_def)

end
