(* ===== verification/Scheduler.thy ===== *)
theory Scheduler
  imports Prelude
begin

text \<open>
  The clash scheduler, \<open>modelutility/clashdetection/clash_scheduler.cpp\<close>: it orders the pairs of
  the broad phase so that all the tests of one mesh are adjacent. A \<open>Node*\<close> is the node's index
  in the vector \<open>nodes\<close>, which does not move once the graph is built; a \<open>void*\<close> identifier is
  a value of the type \<open>'a\<close>, never dereferenced.

  \<open>drain\<close> is the inner \<open>while (!next.empty())\<close> and \<open>run\<close> the outer
  \<open>while (allNodes.size())\<close>; neither has a bound in the code, so both return an option and
  \<open>schedule_total\<close> proves that they stop. \<open>sortN\<close> and \<open>sortO\<close> are \<open>std::ranges::sort\<close> at
  its two types.
\<close>

type_synonym edge = "nat \<times> nat"
type_synonym other = "nat \<times> bool" \<comment> \<open>\<open>node\<close> and \<open>direction\<close>\<close>

record 'a sched =
  ids :: "'a list"
  edges :: "edge list list"
  allNodes :: "nat list"
  results :: "('a \<times> 'a) list"

abbreviation node_edges :: "('a, 'm) sched_scheme \<Rightarrow> nat \<Rightarrow> edge list" where
  "node_edges s i \<equiv> edges s ! i"

definition degree :: "('a, 'm) sched_scheme \<Rightarrow> nat \<Rightarrow> nat" where
  "degree s i = length (node_edges s i)"

definition empty_sched :: "'a sched" where
  "empty_sched = \<lparr>ids = [], edges = [], allNodes = [], results = []\<rparr>"

fun addNode :: "'a \<Rightarrow> ('a \<rightharpoonup> nat) \<times> 'a sched \<Rightarrow> ('a \<rightharpoonup> nat) \<times> 'a sched" where
  "addNode x (m, s) =
     (case m x of
        Some _ \<Rightarrow> (m, s)
      | None \<Rightarrow> (m(x \<mapsto> length (ids s)), s\<lparr>ids := ids s @ [x], edges := edges s @ [[]]\<rparr>))"

fun addEndNodes :: "('a \<times> 'a) list \<Rightarrow> ('a \<rightharpoonup> nat) \<times> 'a sched \<Rightarrow> ('a \<rightharpoonup> nat) \<times> 'a sched" where
  "addEndNodes [] ms = ms"
| "addEndNodes (e # es) ms = addEndNodes es (addNode (snd e) (addNode (fst e) ms))"

definition push_edge :: "nat \<Rightarrow> edge \<Rightarrow> 'a sched \<Rightarrow> 'a sched" where
  "push_edge i e s = s\<lparr>edges := (edges s)[i := node_edges s i @ [e]]\<rparr>"

text \<open>\<open>map[e.first]\<close> finds the entry that \<open>addNode\<close> made.\<close>

fun addEdges :: "('a \<rightharpoonup> nat) \<Rightarrow> ('a \<times> 'a) list \<Rightarrow> 'a sched \<Rightarrow> 'a sched" where
  "addEdges m [] s = s"
| "addEdges m (e # es) s =
     (let edge = (the (m (fst e)), the (m (snd e)));
          s = push_edge (fst edge) edge s
      in addEdges m es
           (if fst edge = snd edge then s else push_edge (snd edge) edge s))"

definition createGraph :: "('a \<times> 'a) list \<Rightarrow> 'a sched" where
  "createGraph es =
     (let (m, s) = addEndNodes es (Map.empty, empty_sched);
          s = addEdges m es s
      in s\<lparr>allNodes := [0..<length (ids s)]\<rparr>)"

definition remove_node :: "nat \<Rightarrow> 'a sched \<Rightarrow> 'a sched" where
  "remove_node i s = s\<lparr>allNodes := removeAll i (allNodes s)\<rparr>"

text \<open>\<open>Node::remove\<close>, and the node leaves \<open>allNodes\<close> when it has no edge left.\<close>

definition remove_edge_at :: "nat \<Rightarrow> edge \<Rightarrow> 'a sched \<Rightarrow> 'a sched" where
  "remove_edge_at i e s =
     (let s = s\<lparr>edges := (edges s)[i := removeAll e (node_edges s i)]\<rparr>
      in if node_edges s i = [] then remove_node i s else s)"

definition remove_edge :: "edge \<Rightarrow> 'a sched \<Rightarrow> 'a sched" where
  "remove_edge e s = remove_edge_at (snd e) e (remove_edge_at (fst e) e s)"

definition other_of :: "nat \<Rightarrow> edge \<Rightarrow> other" where
  "other_of i e = (let direction = (i = fst e) in (if direction then snd e else fst e, direction))"

definition edge_of :: "nat \<Rightarrow> other \<Rightarrow> edge" where
  "edge_of i ot = (if snd ot then (i, fst ot) else (fst ot, i))"

definition id_pair :: "'a sched \<Rightarrow> edge \<Rightarrow> 'a \<times> 'a" where
  "id_pair s e = (ids s ! fst e, ids s ! snd e)"

fun take_others :: "nat \<Rightarrow> other list \<Rightarrow> nat list \<Rightarrow> 'a sched \<Rightarrow> nat list \<times> 'a sched" where
  "take_others i [] q s = (q, s)"
| "take_others i (ot # ots) q s =
     (let e = edge_of i ot;
          s = s\<lparr>results := results s @ [id_pair s e]\<rparr>
      in take_others i ots (q @ [fst ot]) (remove_edge e s))"

type_synonym sort_nodes = "(nat \<Rightarrow> nat) \<Rightarrow> nat list \<Rightarrow> nat list"
type_synonym sort_others = "(other \<Rightarrow> nat) \<Rightarrow> other list \<Rightarrow> other list"

definition visit :: "sort_others \<Rightarrow> nat \<Rightarrow> nat list \<Rightarrow> 'a sched \<Rightarrow> nat list \<times> 'a sched" where
  "visit sortO i q s =
     (if node_edges s i = [] then (q, s)
      else take_others i
             (sortO (\<lambda>ot. degree s (fst ot)) (map (other_of i) (node_edges s i))) q s)"

partial_function (option) drain :: "sort_others \<Rightarrow> nat list \<Rightarrow> 'a sched \<Rightarrow> 'a sched option" where
  "drain sortO q s =
     (case q of
        [] \<Rightarrow> Some s
      | i # q \<Rightarrow> (case visit sortO i q s of (q, s) \<Rightarrow> drain sortO q s))"

partial_function (option) run :: "sort_others \<Rightarrow> 'a sched \<Rightarrow> 'a sched option" where
  "run sortO s =
     (case allNodes s of
        [] \<Rightarrow> Some s
      | i # _ \<Rightarrow> (case drain sortO [i] s of None \<Rightarrow> None | Some s \<Rightarrow> run sortO s))"

definition sortByEdges :: "sort_nodes \<Rightarrow> 'a sched \<Rightarrow> 'a sched" where
  "sortByEdges sortN s = s\<lparr>allNodes := sortN (degree s) (allNodes s)\<rparr>"

definition schedule ::
  "sort_nodes \<Rightarrow> sort_others \<Rightarrow> ('a \<times> 'a) list \<Rightarrow> ('a \<times> 'a) list option" where
  "schedule sortN sortO broadphase =
     map_option results (run sortO (sortByEdges sortN (createGraph broadphase)))"


subsection \<open>The graph invariant\<close>

text \<open>
  \<open>live\<close> is the list of edges not yet scheduled, in input order: every node holds exactly the
  live edges that touch it, and \<open>allNodes\<close> is exactly the set of nodes that still hold one.
\<close>

definition incident :: "nat \<Rightarrow> edge \<Rightarrow> bool" where
  "incident i e \<longleftrightarrow> fst e = i \<or> snd e = i"

definition graph_inv :: "'a sched \<Rightarrow> edge list \<Rightarrow> bool" where
  "graph_inv s live \<longleftrightarrow>
     length (edges s) = length (ids s) \<and> distinct (ids s) \<and>
     (\<forall>i < length (ids s). node_edges s i = filter (incident i) live) \<and>
     (\<forall>e \<in> set live. fst e < length (ids s) \<and> snd e < length (ids s))"

definition sched_inv :: "'a sched \<Rightarrow> edge list \<Rightarrow> bool" where
  "sched_inv s live \<longleftrightarrow>
     graph_inv s live \<and>
     set (allNodes s) = {i. i < length (ids s) \<and> filter (incident i) live \<noteq> []}"

lemma sched_inv_edges: "sched_inv s live \<Longrightarrow> i < length (ids s) \<Longrightarrow> node_edges s i = filter (incident i) live"
  by (simp add: sched_inv_def graph_inv_def)

lemma sched_inv_allNodes:
  "sched_inv s live \<Longrightarrow> i \<in> set (allNodes s) \<longleftrightarrow> i < length (ids s) \<and> filter (incident i) live \<noteq> []"
  by (simp add: sched_inv_def)

lemma sched_inv_bounds:
  "sched_inv s live \<Longrightarrow> e \<in> set live \<Longrightarrow> fst e < length (ids s) \<and> snd e < length (ids s)"
  by (simp add: sched_inv_def graph_inv_def)

lemma sched_inv_allNodes_Nil: "sched_inv s live \<Longrightarrow> allNodes s = [] \<Longrightarrow> live = []"
proof (rule ccontr)
  assume inv: "sched_inv s live" and nil: "allNodes s = []" and "live \<noteq> []"
  then obtain e where e: "e \<in> set live" by (cases live) auto
  then have "fst e \<in> set (allNodes s)"
    using sched_inv_bounds [OF inv e]
    by (auto simp: sched_inv_allNodes [OF inv] filter_empty_conv incident_def)
  with nil show False by simp
qed

lemma remove_edge_frame [frame_simps]:
  "ids (remove_edge e s) = ids s" "results (remove_edge e s) = results s"
  "length (edges (remove_edge e s)) = length (edges s)"
  by (simp_all add: remove_edge_def remove_edge_at_def remove_node_def Let_def)

lemma remove_edge_edges:
  assumes "fst e < length (edges s)" "snd e < length (edges s)" "i < length (edges s)"
  shows "node_edges (remove_edge e s) i =
           (if incident i e then removeAll e (node_edges s i) else node_edges s i)"
  using assms
  by (auto simp: remove_edge_def remove_edge_at_def remove_node_def Let_def incident_def
      nth_list_update)

lemma remove_edge_allNodes:
  assumes "fst e < length (edges s)" "snd e < length (edges s)"
  shows "set (allNodes (remove_edge e s)) =
           {i \<in> set (allNodes s). incident i e \<longrightarrow> removeAll e (node_edges s i) \<noteq> []}"
  using assms
  by (auto simp: remove_edge_def remove_edge_at_def remove_node_def Let_def incident_def
      nth_list_update split: if_splits)

lemma remove_edge_inv [inv_intros]:
  assumes inv: "sched_inv s live"
    and e: "fst e < length (ids s)" "snd e < length (ids s)"
  shows "sched_inv (remove_edge e s) (removeAll e live)"
proof -
  have len: "length (edges s) = length (ids s)"
    using inv by (simp add: sched_inv_def graph_inv_def)
  have kept: "filter (incident i) (removeAll e live) =
        (if incident i e then removeAll e (filter (incident i) live) else filter (incident i) live)" for i
    by (simp add: filter_removeAll_commute)
  have edges: "node_edges (remove_edge e s) i = filter (incident i) (removeAll e live)"
    if "i < length (ids s)" for i
    using that e len sched_inv_edges [OF inv that] by (simp add: remove_edge_edges kept)
  have "set (allNodes (remove_edge e s)) =
        {i. i < length (ids s) \<and> filter (incident i) (removeAll e live) \<noteq> []}"
    using e len by (auto simp: remove_edge_allNodes sched_inv_allNodes [OF inv] kept
        sched_inv_edges [OF inv])
  then show ?thesis
    using inv edges len by (auto simp: sched_inv_def graph_inv_def frame_simps)
qed

lemma take_others_frame:
  "take_others i ots q s = (q', s') \<Longrightarrow>
   q' = q @ map fst ots \<and> ids s' = ids s \<and>
   results s' = results s @ map (id_pair s) (map (edge_of i) ots)"
proof (induction ots arbitrary: q s)
  case Nil
  then show ?case by simp
next
  case (Cons ot ots)
  from Cons.prems show ?case
    by (simp add: Let_def, drule_tac Cons.IH) (simp add: frame_simps id_pair_def)
qed

lemma sched_inv_results [simp]: "sched_inv (s\<lparr>results := r\<rparr>) live = sched_inv s live"
  by (simp add: sched_inv_def graph_inv_def)

lemma take_others_inv:
  assumes "take_others i ots q s = (q', s')" and "sched_inv s live"
    and "\<forall>ot \<in> set ots. fst (edge_of i ot) < length (ids s) \<and> snd (edge_of i ot) < length (ids s)"
  shows "sched_inv s' (filter (\<lambda>e. e \<notin> edge_of i ` set ots) live)"
  using assms
proof (induction ots arbitrary: q s live)
  case Nil
  then show ?case by simp
next
  case (Cons ot ots)
  let ?e = "edge_of i ot"
  let ?s = "remove_edge ?e (s\<lparr>results := results s @ [id_pair s ?e]\<rparr>)"
  have "sched_inv ?s (removeAll ?e live)"
    using Cons.prems by (intro remove_edge_inv) auto
  moreover have "take_others i ots (q @ [fst ot]) ?s = (q', s')"
    using Cons.prems(1) by (simp add: Let_def)
  ultimately have "sched_inv s' (filter (\<lambda>e. e \<notin> edge_of i ` set ots) (removeAll ?e live))"
    using Cons.IH [of "q @ [fst ot]" ?s "removeAll ?e live"] Cons.prems(3) by (simp add: frame_simps)
  moreover have "filter (\<lambda>e. e \<notin> edge_of i ` set ots) (removeAll ?e live) =
                 filter (\<lambda>e. e \<notin> edge_of i ` set (ot # ots)) live"
    by (induction live) auto
  ultimately show ?case by simp
qed

lemma edge_of_other_of [simp]: "incident i e \<Longrightarrow> edge_of i (other_of i e) = e"
  by (auto simp: incident_def edge_of_def other_of_def Let_def prod_eq_iff)

lemma other_of_bound:
  "sched_inv s live \<Longrightarrow> e \<in> set live \<Longrightarrow> fst (other_of i e) < length (ids s)"
  using sched_inv_bounds by (fastforce simp: other_of_def Let_def)

text \<open>One visit of a node that still has edges: exactly its edges are scheduled.\<close>

lemma visit_node:
  assumes srt: "key_sort sortO" and inv: "sched_inv s live" and i: "i < length (ids s)"
    and ne: "filter (incident i) live \<noteq> []" and v: "visit sortO i q s = (q', s')"
  obtains b where "mset b = mset (filter (incident i) live)"
    and "results s' = results s @ map (id_pair s) b" and "ids s' = ids s"
    and "sched_inv s' (filter (\<lambda>e. \<not> incident i e) live)"
    and "\<forall>j \<in> set q'. j \<in> set q \<or> j < length (ids s)"
proof -
  define ots where "ots = sortO (\<lambda>ot. degree s (fst ot)) (map (other_of i) (node_edges s i))"
  let ?b = "map (edge_of i) ots"
  have ne': "node_edges s i = filter (incident i) live"
    using inv i by (rule sched_inv_edges)
  have m: "mset ots = mset (map (other_of i) (filter (incident i) live))"
    using srt by (simp add: ots_def key_sort_def ne')
  then have set_ots: "set ots = other_of i ` set (filter (incident i) live)"
    by (metis set_map set_mset_mset)
  have "mset ?b = image_mset (edge_of i) (mset ots)" by simp
  also have "\<dots> = mset (map (edge_of i \<circ> other_of i) (filter (incident i) live))"
    by (simp add: m multiset.map_comp)
  also have "map (edge_of i \<circ> other_of i) (filter (incident i) live) = filter (incident i) live"
    by (rule map_idI) auto
  finally have b: "mset ?b = mset (filter (incident i) live)" .
  have set_b: "edge_of i ` set ots = set (filter (incident i) live)"
    using b by (metis set_map set_mset_mset)
  have t: "take_others i ots q s = (q', s')"
    using v ne ne' by (simp add: visit_def ots_def)
  note f = take_others_frame [OF t]
  have "edge_of i ot \<in> set live" if "ot \<in> set ots" for ot
    using that set_b by (metis filter_is_subset imageI subsetD)
  then have "sched_inv s' (filter (\<lambda>e. e \<notin> edge_of i ` set ots) live)"
    using t inv sched_inv_bounds [OF inv] by (blast intro: take_others_inv)
  moreover have "filter (\<lambda>e. e \<notin> edge_of i ` set ots) live = filter (\<lambda>e. \<not> incident i e) live"
    unfolding set_b by (rule filter_cong) auto
  ultimately have inv': "sched_inv s' (filter (\<lambda>e. \<not> incident i e) live)" by simp
  have q: "\<forall>j \<in> set q'. j \<in> set q \<or> j < length (ids s)"
    using f set_ots other_of_bound [OF inv] by auto
  show thesis
    using that [of ?b] b f inv' q by simp
qed


subsection \<open>Termination, and what the schedule is\<close>

text \<open>
  \<open>clustered\<close> is what \<open>clash_scheduler.h\<close> asks for, on node indices: each block of tests shares
  a node, and no later test (and no edge still live) uses that node again.
\<close>

fun clustered :: "edge list list \<Rightarrow> edge list \<Rightarrow> bool" where
  "clustered [] live = True"
| "clustered (b # bs) live =
     (b \<noteq> [] \<and>
      (\<exists>m. (\<forall>e \<in> set b. incident m e) \<and> (\<forall>e \<in> set (concat bs) \<union> set live. \<not> incident m e)) \<and>
      clustered bs live)"

lemma clustered_append:
  "clustered bs live \<Longrightarrow> clustered cs live' \<Longrightarrow> set live = set (concat cs) \<union> set live' \<Longrightarrow>
   clustered (bs @ cs) live'"
  by (induction bs) (auto simp: Un_assoc)

text \<open>What a loop of the scheduler does to the state, for some list of blocks.\<close>

definition scheduled :: "'a sched \<Rightarrow> edge list \<Rightarrow> edge list list \<Rightarrow> 'a sched \<Rightarrow> edge list \<Rightarrow> bool" where
  "scheduled s live bs s' live' \<longleftrightarrow>
     sched_inv s' live' \<and> ids s' = ids s \<and>
     results s' = results s @ map (id_pair s) (concat bs) \<and>
     mset live = mset (concat bs) + mset live' \<and> clustered bs live'"

lemma scheduled_refl: "sched_inv s live \<Longrightarrow> scheduled s live [] s live"
  by (simp add: scheduled_def)

lemma scheduled_trans:
  assumes "scheduled s live bs s' live'" and "scheduled s' live' cs s'' live''"
  shows "scheduled s live (bs @ cs) s'' live''"
proof -
  have "set live' = set (concat cs) \<union> set live''"
    using assms(2) by (metis scheduled_def set_mset_mset set_mset_union)
  moreover have "id_pair s' = id_pair s"
    using assms(1) by (simp add: scheduled_def id_pair_def fun_eq_iff)
  ultimately show ?thesis
    using assms by (auto simp: scheduled_def intro: clustered_append)
qed

lemma scheduled_visit:
  assumes srt: "key_sort sortO" and inv: "sched_inv s live" and i: "i < length (ids s)"
    and v: "visit sortO i q s = (q', s')" and q: "\<forall>j \<in> set q. j < length (ids s)"
    and ne: "filter (incident i) live \<noteq> []"
  shows "\<exists>b. scheduled s live [b] s' (filter (\<lambda>e. \<not> incident i e) live) \<and>
             mset b = mset (filter (incident i) live) \<and> (\<forall>j \<in> set q'. j < length (ids s))"
proof -
  obtain b where b: "mset b = mset (filter (incident i) live)"
    and r: "results s' = results s @ map (id_pair s) b" and ids: "ids s' = ids s"
    and inv': "sched_inv s' (filter (\<lambda>e. \<not> incident i e) live)"
    and q': "\<forall>j \<in> set q'. j \<in> set q \<or> j < length (ids s)"
    using srt inv i ne v by (rule visit_node)
  have "b \<noteq> []" using b ne by (metis mset.simps(1) mset_zero_iff)
  moreover have "set b = set (filter (incident i) live)" using b by (metis set_mset_mset)
  ultimately have "clustered [b] (filter (\<lambda>e. \<not> incident i e) live)"
    by (auto intro!: exI [of _ i])
  moreover have "mset live = mset b + mset (filter (\<lambda>e. \<not> incident i e) live)"
    unfolding b by (rule mset_filter_partition [symmetric])
  ultimately have "scheduled s live [b] s' (filter (\<lambda>e. \<not> incident i e) live)"
    using inv' ids r by (simp add: scheduled_def)
  with b q q' show ?thesis by blast
qed

lemma drain_scheduled:
  assumes srt: "key_sort sortO"
  shows "sched_inv s live \<Longrightarrow> \<forall>j \<in> set q. j < length (ids s) \<Longrightarrow>
    \<exists>s' live' bs. drain sortO q s = Some s' \<and> scheduled s live bs s' live'"
proof (induction "length live" arbitrary: live q s rule: less_induct)
  case less
  note outer = less.hyps and inv = less.prems(1)
  show ?case
    using less.prems(2)
  proof (induction q)
    case Nil
    then show ?case
      using inv scheduled_refl [OF inv] by (subst drain.simps) auto
  next
    case (Cons i q)
    have i: "i < length (ids s)" using Cons.prems by simp
    show ?case
    proof (cases "filter (incident i) live = []")
      case True
      then have "visit sortO i q s = (q, s)"
        by (simp add: visit_def sched_inv_edges [OF inv i])
      then show ?thesis
        using Cons by (subst drain.simps) simp
    next
      case False
      obtain q' s' where v: "visit sortO i q s = (q', s')" by fastforce
      let ?live = "filter (\<lambda>e. \<not> incident i e) live"
      obtain b where b: "scheduled s live [b] s' ?live" and q': "\<forall>j \<in> set q'. j < length (ids s)"
        using scheduled_visit [OF srt inv i v _ False] Cons.prems by auto
      have "length ?live < length live"
        using False by (auto simp: filter_empty_conv intro!: length_filter_less)
      moreover have "sched_inv s' ?live" "\<forall>j \<in> set q'. j < length (ids s')"
        using b q' by (simp_all add: scheduled_def)
      ultimately obtain s'' live'' bs
        where "drain sortO q' s' = Some s''" and "scheduled s' ?live bs s'' live''"
        using outer by blast
      moreover from this have "scheduled s live ([b] @ bs) s'' live''"
        by (intro scheduled_trans [OF b])
      ultimately show ?thesis
        using v by (subst drain.simps) auto
    qed
  qed
qed

text \<open>The first node popped is the first block, when it has an edge.\<close>

lemma drain_progress:
  assumes srt: "key_sort sortO" and inv: "sched_inv s live" and i: "i < length (ids s)"
    and ne: "filter (incident i) live \<noteq> []"
  shows "\<exists>s' live' b bs. drain sortO [i] s = Some s' \<and> scheduled s live (b # bs) s' live' \<and>
           mset b = mset (filter (incident i) live)"
proof -
  obtain q' s' where v: "visit sortO i [] s = (q', s')" by fastforce
  obtain b where b: "scheduled s live [b] s' (filter (\<lambda>e. \<not> incident i e) live)"
    and m: "mset b = mset (filter (incident i) live)" and q': "\<forall>j \<in> set q'. j < length (ids s)"
    using scheduled_visit [OF srt inv i v _ ne] by auto
  have "sched_inv s' (filter (\<lambda>e. \<not> incident i e) live)" "\<forall>j \<in> set q'. j < length (ids s')"
    using b q' by (simp_all add: scheduled_def)
  then obtain s'' live'' bs where d: "drain sortO q' s' = Some s''"
    and sch: "scheduled s' (filter (\<lambda>e. \<not> incident i e) live) bs s'' live''"
    using drain_scheduled [OF srt] by blast
  have "drain sortO [i] s = Some s''"
    using v d by (subst drain.simps) simp
  moreover have "scheduled s live (b # bs) s'' live''"
    using scheduled_trans [OF b sch] by simp
  ultimately show ?thesis using m by blast
qed

lemma run_scheduled:
  assumes srt: "key_sort sortO"
  shows "sched_inv s live \<Longrightarrow> \<exists>s' bs. run sortO s = Some s' \<and> scheduled s live bs s' [] \<and>
    (allNodes s \<noteq> [] \<longrightarrow> bs \<noteq> [] \<and> mset (hd bs) = mset (filter (incident (hd (allNodes s))) live))"
proof (induction "length live" arbitrary: live s rule: less_induct)
  case less
  note inv = less.prems
  show ?case
  proof (cases "allNodes s")
    case Nil
    then have "live = []" using inv by (rule_tac sched_inv_allNodes_Nil)
    then show ?thesis
      using Nil scheduled_refl [OF inv] by (subst run.simps) auto
  next
    case (Cons i rest)
    then have i: "i < length (ids s)" and ne: "filter (incident i) live \<noteq> []"
      using sched_inv_allNodes [OF inv, of i] by auto
    obtain s' live' b bs where d: "drain sortO [i] s = Some s'"
      and sch: "scheduled s live (b # bs) s' live'"
      and m: "mset b = mset (filter (incident i) live)"
      using drain_progress [OF srt inv i ne] by blast
    have "size (mset live') < size (mset live)"
      using sch by (auto simp: scheduled_def)
    then have "length live' < length live" by simp
    moreover have "sched_inv s' live'" using sch by (simp add: scheduled_def)
    ultimately obtain s'' cs where r: "run sortO s' = Some s''" and sch': "scheduled s' live' cs s'' []"
      using less.hyps by blast
    have "run sortO s = Some s''"
      using r d Cons by (subst run.simps) simp
    moreover have "scheduled s live (b # bs @ cs) s'' []"
      using scheduled_trans [OF sch sch'] by simp
    ultimately show ?thesis using m Cons by fastforce
  qed
qed


subsection \<open>The graph built from the broad phase\<close>

definition index_inv :: "('a \<rightharpoonup> nat) \<Rightarrow> 'a sched \<Rightarrow> bool" where
  "index_inv m s \<longleftrightarrow>
     (\<forall>x k. m x = Some k \<longleftrightarrow> k < length (ids s) \<and> ids s ! k = x) \<and>
     distinct (ids s) \<and> edges s = replicate (length (ids s)) []"

lemma addNode_index_inv [inv_intros]:
  assumes "index_inv m s" and "addNode x (m, s) = (m', s')"
  shows "index_inv m' s' \<and> dom m' = insert x (dom m)"
proof (cases "m x")
  case None
  have "x \<notin> set (ids s)"
  proof
    assume "x \<in> set (ids s)"
    then obtain k where "k < length (ids s)" "ids s ! k = x" by (auto simp: in_set_conv_nth)
    then have "m x = Some k" using assms(1) by (simp add: index_inv_def)
    with None show False by simp
  qed
  moreover have "m' = m(x \<mapsto> length (ids s))"
    "s' = s\<lparr>ids := ids s @ [x], edges := edges s @ [[]]\<rparr>"
    using assms(2) None by auto
  moreover have "(m(x \<mapsto> length (ids s))) y = Some k \<longleftrightarrow>
      k < Suc (length (ids s)) \<and> (ids s @ [x]) ! k = y" for y k
    using assms(1) \<open>x \<notin> set (ids s)\<close>
    by (auto simp: index_inv_def nth_append less_Suc_eq)
  ultimately show ?thesis
    using assms(1) by (simp add: index_inv_def replicate_append_same)
next
  case (Some k)
  then show ?thesis using assms by auto
qed

lemma addNode_results [frame_simps]: "results (snd (addNode x ms)) = results (snd ms)"
  by (cases ms) (simp split: option.split)

lemma addEndNodes_results [frame_simps]: "results (snd (addEndNodes es ms)) = results (snd ms)"
  by (induction es arbitrary: ms) (simp_all del: addNode.simps add: frame_simps)

lemma addEdges_results [frame_simps]: "results (addEdges m es s) = results s"
  by (induction es arbitrary: s) (simp_all add: Let_def push_edge_def)

lemma addEndNodes_index_inv:
  assumes "index_inv m s" and "addEndNodes es (m, s) = (m', s')"
  shows "index_inv m' s' \<and> dom m' = dom m \<union> fst ` set es \<union> snd ` set es"
  using assms
proof (induction es arbitrary: m s)
  case Nil
  then show ?case by simp
next
  case (Cons e es)
  obtain m1 s1 where one: "addNode (fst e) (m, s) = (m1, s1)" by fastforce
  obtain m2 s2 where two: "addNode (snd e) (m1, s1) = (m2, s2)" by fastforce
  have "addEndNodes es (m2, s2) = (m', s')" using Cons.prems(2) one two by simp
  with Cons.IH [of m2 s2] addNode_index_inv [OF Cons.prems(1) one]
    addNode_index_inv [OF _ two]
  show ?case by auto
qed

lemma push_edge_inv:
  assumes "i < length (edges s)"
  shows "node_edges (push_edge i e s) j = (if i = j then node_edges s j @ [e] else node_edges s j)"
  using assms by (auto simp: push_edge_def nth_list_update)

lemma addEdges_inv:
  assumes "graph_inv s live" and "\<forall>x k. m x = Some k \<longleftrightarrow> k < length (ids s) \<and> ids s ! k = x"
    and "fst ` set es \<union> snd ` set es \<subseteq> dom m"
  shows "\<exists>live'. graph_inv (addEdges m es s) (live @ live') \<and> map (id_pair s) live' = es \<and>
           ids (addEdges m es s) = ids s"
  using assms
proof (induction es arbitrary: s live)
  case Nil
  then show ?case by (auto intro!: exI [of _ "[]"])
next
  case (Cons e es)
  obtain a b where ab: "m (fst e) = Some a" "m (snd e) = Some b"
    using Cons.prems(3) by auto
  then have bound: "a < length (ids s)" "b < length (ids s)"
    and named: "ids s ! a = fst e" "ids s ! b = snd e"
    using Cons.prems(2) by auto
  define s' where "s' = (if a = b then push_edge a (a, b) s
                         else push_edge b (a, b) (push_edge a (a, b) s))"
  have len: "length (edges s) = length (ids s)" using Cons.prems(1) by (simp add: graph_inv_def)
  have ids': "ids s' = ids s" by (simp add: s'_def push_edge_def)
  have "length (edges s') = length (ids s)" using len by (simp add: s'_def push_edge_def)
  moreover have "node_edges s' i = filter (incident i) (live @ [(a, b)])" if "i < length (ids s)" for i
    using that bound len Cons.prems(1)
    by (auto simp: s'_def push_edge_inv graph_inv_def incident_def push_edge_def nth_list_update)
  ultimately have "graph_inv s' (live @ [(a, b)])"
    using Cons.prems(1) bound ids' by (auto simp: graph_inv_def)
  then obtain live' where l: "graph_inv (addEdges m es s') ((live @ [(a, b)]) @ live')"
    "map (id_pair s') live' = es" "ids (addEdges m es s') = ids s'"
    using Cons.IH [of s' "live @ [(a, b)]"] Cons.prems(2,3) ids' by auto
  moreover have "addEdges m (e # es) s = addEdges m es s'"
    by (simp add: ab s'_def Let_def)
  moreover have "id_pair s' = id_pair s" by (simp add: id_pair_def ids' fun_eq_iff)
  moreover have "id_pair s (a, b) = e" by (simp add: id_pair_def named)
  ultimately show ?case
    by (intro exI [of _ "(a, b) # live'"]) (simp add: ids')
qed

lemma createGraph_inv:
  "\<exists>live. sched_inv (createGraph es) live \<and> map (id_pair (createGraph es)) live = es \<and>
          allNodes (createGraph es) = [0..<length (ids (createGraph es))] \<and>
          set (ids (createGraph es)) = fst ` set es \<union> snd ` set es \<and>
          results (createGraph es) = []"
proof -
  obtain m s where n: "addEndNodes es (Map.empty, empty_sched) = (m, s)" by fastforce
  have "index_inv Map.empty (empty_sched :: 'a sched)"
    by (simp add: index_inv_def empty_sched_def)
  from addEndNodes_index_inv [OF this n]
  have ix: "index_inv m s" and dm: "dom m = fst ` set es \<union> snd ` set es" by auto
  have "graph_inv s []"
    using ix by (auto simp: graph_inv_def index_inv_def)
  then obtain live where l: "graph_inv (addEdges m es s) live" "map (id_pair s) live = es"
    and ids: "ids (addEdges m es s) = ids s"
    using addEdges_inv [of s "[]" m es] ix dm by (auto simp: index_inv_def)
  have set_ids: "set (ids s) = dom m"
    using ix by (auto simp: index_inv_def in_set_conv_nth dom_def)
  have res: "results (addEdges m es s) = []"
    using addEndNodes_results [of es "(Map.empty, empty_sched)"] unfolding n
    by (simp add: frame_simps) (simp add: empty_sched_def)
  have "fst ` set es \<union> snd ` set es \<subseteq> set (ids s)" by (simp add: set_ids dm)
  have c: "createGraph es = (addEdges m es s)\<lparr>allNodes := [0..<length (ids s)]\<rparr>"
    by (simp add: createGraph_def n ids Let_def)
  have id_c: "id_pair (createGraph es) = id_pair s"
    by (simp add: c id_pair_def ids fun_eq_iff)
  have touched: "filter (incident i) live \<noteq> []" if i: "i < length (ids s)" for i
  proof -
    have "set es = id_pair s ` set live"
      using l(2) by auto
    moreover have "ids s ! i \<in> fst ` set es \<union> snd ` set es"
      using i set_ids dm nth_mem by blast
    ultimately have "ids s ! i \<in> fst ` id_pair s ` set live \<union> snd ` id_pair s ` set live"
      by simp
    then obtain e
      where e: "e \<in> set live" "ids s ! i = fst (id_pair s e) \<or> ids s ! i = snd (id_pair s e)"
      by (elim UnE imageE) auto
    moreover have "fst e < length (ids s)" "snd e < length (ids s)"
      using l(1) e(1) ids by (auto simp: graph_inv_def)
    moreover have dist: "distinct (ids s)" using ix by (simp add: index_inv_def)
    ultimately have "i = fst e \<or> i = snd e"
      using i nth_eq_iff_index_eq [OF dist i] by (auto simp: id_pair_def)
    then have "incident i e" by (auto simp: incident_def)
    with e(1) show ?thesis by (auto simp: filter_empty_conv)
  qed
  have "sched_inv (createGraph es) live"
    using l(1) touched by (auto simp: sched_inv_def graph_inv_def c ids)
  then show ?thesis
    using l(2) id_c c ids set_ids dm res by auto
qed


subsection \<open>Properties\<close>

text \<open>The promise of \<open>clash_scheduler.h\<close> on the identifiers themselves.\<close>

fun unload_order :: "('a \<times> 'a) list list \<Rightarrow> bool" where
  "unload_order [] = True"
| "unload_order (b # bs) =
     (b \<noteq> [] \<and>
      (\<exists>m. (\<forall>e \<in> set b. fst e = m \<or> snd e = m) \<and>
           (\<forall>e \<in> set (concat bs). fst e \<noteq> m \<and> snd e \<noteq> m)) \<and>
      unload_order bs)"

definition references :: "('a \<times> 'a) list \<Rightarrow> 'a \<Rightarrow> nat" where
  "references es x = length (filter (\<lambda>e. fst e = x \<or> snd e = x) es)"

lemma id_pair_incident:
  assumes "distinct (ids s)" "m < length (ids s)" "fst e < length (ids s)" "snd e < length (ids s)"
  shows "fst (id_pair s e) = ids s ! m \<or> snd (id_pair s e) = ids s ! m \<longleftrightarrow> incident m e"
  using assms by (auto simp: id_pair_def incident_def nth_eq_iff_index_eq)

lemma clustered_unload_order:
  assumes "clustered bs []" and "distinct (ids s)"
    and "\<forall>e \<in> set (concat bs). fst e < length (ids s) \<and> snd e < length (ids s)"
  shows "unload_order (map (map (id_pair s)) bs)"
  using assms
proof (induction bs)
  case Nil
  then show ?case by simp
next
  case (Cons b bs)
  then obtain m where m: "\<forall>e \<in> set b. incident m e" "\<forall>e \<in> set (concat bs). \<not> incident m e"
    and "b \<noteq> []" by auto
  then obtain e0 where "e0 \<in> set b" "incident m e0" by (cases b) auto
  then have "m < length (ids s)"
    using Cons.prems(3) by (auto simp: incident_def)
  then have pt: "fst (id_pair s e) = ids s ! m \<or> snd (id_pair s e) = ids s ! m \<longleftrightarrow> incident m e"
    if "e \<in> set (concat (b # bs))" for e
    using that Cons.prems(2,3) by (intro id_pair_incident) blast+
  have "\<forall>e \<in> set b. fst (id_pair s e) = ids s ! m \<or> snd (id_pair s e) = ids s ! m"
    using m(1) pt by simp
  moreover have "\<forall>e \<in> set (concat bs). fst (id_pair s e) \<noteq> ids s ! m \<and> snd (id_pair s e) \<noteq> ids s ! m"
    using m(2) pt by fastforce
  ultimately show ?case
    using Cons \<open>b \<noteq> []\<close> by (auto simp: ball_Un intro!: exI [of _ "ids s ! m"])
qed

lemma schedule_scheduled:
  assumes "key_sort sortN" and "key_sort sortO"
  obtains s live bs where "sched_inv s live" and "map (id_pair s) live = es"
    and "s = sortByEdges sortN (createGraph es)" and "clustered bs []"
    and "mset (concat bs) = mset live"
    and "schedule sortN sortO es = Some (map (id_pair s) (concat bs))"
    and "es \<noteq> [] \<longrightarrow> bs \<noteq> [] \<and> mset (hd bs) = mset (filter (incident (hd (allNodes s))) live)"
proof -
  obtain live where l: "sched_inv (createGraph es) live" "map (id_pair (createGraph es)) live = es"
    "results (createGraph es) = []"
    using createGraph_inv [of es] by (elim exE conjE) (rule that)
  define s where "s = sortByEdges sortN (createGraph es)"
  have "set (sortN k xs) = set xs" for k xs
    using assms(1) by (metis key_sort_def set_mset_mset)
  then have inv: "sched_inv s live"
    using l(1) by (auto simp: s_def sortByEdges_def sched_inv_def graph_inv_def)
  have idp: "id_pair s = id_pair (createGraph es)"
    by (simp add: s_def sortByEdges_def id_pair_def fun_eq_iff)
  obtain s' bs where r: "run sortO s = Some s'" and sch: "scheduled s live bs s' []"
    and hd: "allNodes s \<noteq> [] \<longrightarrow>
      bs \<noteq> [] \<and> mset (hd bs) = mset (filter (incident (hd (allNodes s))) live)"
    using run_scheduled [OF assms(2) inv] by blast
  have sched: "schedule sortN sortO es = Some (map (id_pair s) (concat bs))"
    using r sch l(3) by (simp add: schedule_def scheduled_def flip: s_def)
      (simp add: s_def sortByEdges_def)
  have ne: "allNodes s \<noteq> []" if "es \<noteq> []"
    using that sched_inv_allNodes_Nil [OF inv] l(2) by auto
  have "clustered bs []" and "mset (concat bs) = mset live"
    using sch by (simp_all add: scheduled_def)
  from that [OF inv _ s_def this sched] show thesis
    using l(2) idp hd ne by simp
qed

lemma schedule_result:
  assumes "key_sort sortN" and "key_sort sortO"
  obtains bs where "schedule sortN sortO es = Some (concat bs)" and "unload_order bs"
    and "mset (concat bs) = mset es"
    and "es \<noteq> [] \<longrightarrow> bs \<noteq> [] \<and> (\<exists>m \<in> fst ` set es \<union> snd ` set es.
           (\<forall>e \<in> set (hd bs). fst e = m \<or> snd e = m) \<and>
           (\<forall>x \<in> fst ` set es \<union> snd ` set es. references es m \<le> references es x))"
proof -
  obtain s live bs where inv: "sched_inv s live" and live: "map (id_pair s) live = es"
    and s: "s = sortByEdges sortN (createGraph es)" and cl: "clustered bs []"
    and m: "mset (concat bs) = mset live"
    and sch: "schedule sortN sortO es = Some (map (id_pair s) (concat bs))"
    and hd: "es \<noteq> [] \<longrightarrow> bs \<noteq> [] \<and> mset (hd bs) = mset (filter (incident (hd (allNodes s))) live)"
    by (rule schedule_scheduled [OF assms, of es])
  let ?bs = "map (map (id_pair s)) bs"
  have dist: "distinct (ids s)" using inv by (simp add: sched_inv_def graph_inv_def)
  have set_live: "set (concat bs) = set live" using m by (metis set_mset_mset)
  then have bounds: "\<forall>e \<in> set (concat bs). fst e < length (ids s) \<and> snd e < length (ids s)"
    using sched_inv_bounds [OF inv] by blast
  have pt: "fst (id_pair s e) = ids s ! i \<or> snd (id_pair s e) = ids s ! i \<longleftrightarrow> incident i e"
    if "e \<in> set live" "i < length (ids s)" for e i
    using that dist sched_inv_bounds [OF inv] by (intro id_pair_incident) auto
  have refs: "references es (ids s ! i) = degree s i" if i: "i < length (ids s)" for i
  proof -
    have "references es (ids s ! i) =
        length (filter (\<lambda>e. fst (id_pair s e) = ids s ! i \<or> snd (id_pair s e) = ids s ! i) live)"
      by (simp add: references_def filter_map o_def flip: live)
    also have "\<dots> = length (filter (incident i) live)"
      using pt i by (metis (mono_tags, lifting) filter_cong)
    finally show ?thesis using sched_inv_edges [OF inv i] by (simp add: degree_def)
  qed
  have named: "set (ids s) = fst ` set es \<union> snd ` set es"
    using createGraph_inv [of es] by (elim exE conjE) (simp add: s sortByEdges_def)
  have first: "bs \<noteq> [] \<and> (\<exists>m \<in> set (ids s). (\<forall>e \<in> set (hd ?bs). fst e = m \<or> snd e = m) \<and>
       (\<forall>x \<in> set (ids s). references es m \<le> references es x))" if ne: "es \<noteq> []"
  proof -
    let ?c = "hd (allNodes s)"
    have nodes: "allNodes s = sortN (degree s) [0..<length (ids s)]"
      using createGraph_inv [of es] by (elim exE conjE) (simp add: s sortByEdges_def degree_def [abs_def])
    have "allNodes s \<noteq> []" using ne live sched_inv_allNodes_Nil [OF inv] by auto
    then have c: "?c < length (ids s)"
      using sched_inv_allNodes [OF inv, of ?c] by simp
    have least: "degree s ?c \<le> degree s i" if "i < length (ids s)" for i
      using that cpp_sort.sort_hd_least [of sortN i "[0..<length (ids s)]" "degree s"] assms(1)
      by (simp add: nodes key_sort_iff_cpp_sort)
    have "set (hd bs) = set (filter (incident ?c) live)"
      using hd ne by (metis set_mset_mset)
    then have "\<forall>e \<in> set (hd ?bs). fst e = ids s ! ?c \<or> snd e = ids s ! ?c"
      using hd ne pt c by (auto simp: hd_map)
    moreover have "\<forall>x \<in> set (ids s). references es (ids s ! ?c) \<le> references es x"
      using least refs c by (auto simp: in_set_conv_nth)
    ultimately show ?thesis using hd ne c nth_mem by blast
  qed
  have "mset (concat ?bs) = mset es"
    using m by (simp flip: live map_concat)
  moreover have "schedule sortN sortO es = Some (concat ?bs)"
    using sch by (simp add: map_concat)
  ultimately show thesis
    using that [of ?bs] clustered_unload_order [OF cl dist bounds] first named by simp
qed

text \<open>
  C22: for every input the scheduler returns, and what it returns is the same tests, each as often
  as in the input: no test is lost, added or turned around.
\<close>

theorem schedule_permutes:
  assumes "key_sort sortN" and "key_sort sortO"
  shows "\<exists>rs. schedule sortN sortO es = Some rs \<and> mset rs = mset es"
  by (rule schedule_result [OF assms, of es]) blast

theorem schedule_permutes_witness:
  "\<exists>rs. schedule sort_key sort_key [(1::int, 5::int), (1, 6), (2, 5), (1, 5), (3, 3)] = Some rs \<and>
        mset rs = mset [(1, 5), (1, 6), (2, 5), (1, 5), (3, 3)]"
  by (rule schedule_permutes [OF key_sort_sort_key key_sort_sort_key])

text \<open>
  C24: the order lets meshes be unloaded early, as \<open>clash_scheduler.h\<close> promises: the result is a
  sequence of non-empty blocks, all tests of a block use one common mesh, and no later block
  uses that mesh.
\<close>

theorem schedule_unloads:
  assumes "key_sort sortN" and "key_sort sortO"
  shows "\<exists>bs. schedule sortN sortO es = Some (concat bs) \<and> unload_order bs"
  by (rule schedule_result [OF assms, of es]) blast

theorem schedule_unloads_witness:
  "\<exists>bs. schedule sort_key sort_key [(1::int, 5::int), (1, 6), (2, 5)] = Some (concat bs) \<and>
        unload_order bs"
  by (rule schedule_unloads [OF key_sort_sort_key key_sort_sort_key])

text \<open>
  A non-empty schedule starts with a test of a mesh that has the fewest tests of all, and the
  first block is about that mesh.
\<close>

theorem schedule_starts_least:
  assumes "key_sort sortN" and "key_sort sortO" and "es \<noteq> []"
  shows "\<exists>b bs m. schedule sortN sortO es = Some (concat (b # bs)) \<and> b \<noteq> [] \<and>
           m \<in> fst ` set es \<union> snd ` set es \<and> (\<forall>e \<in> set b. fst e = m \<or> snd e = m) \<and>
           (\<forall>x \<in> fst ` set es \<union> snd ` set es. references es m \<le> references es x)"
proof -
  obtain bs where bs: "schedule sortN sortO es = Some (concat bs)" "unload_order bs"
    and "bs \<noteq> [] \<and> (\<exists>m \<in> fst ` set es \<union> snd ` set es.
           (\<forall>e \<in> set (hd bs). fst e = m \<or> snd e = m) \<and>
           (\<forall>x \<in> fst ` set es \<union> snd ` set es. references es m \<le> references es x))"
    by (rule schedule_result [OF assms(1,2), of es]) (use assms(3) that in blast)
  then show ?thesis by (cases bs) auto
qed

theorem schedule_starts_least_witness:
  "\<exists>b bs m. schedule sort_key sort_key [(1::int, 5::int), (1, 6), (2, 5)] = Some (concat (b # bs)) \<and>
     b \<noteq> [] \<and> m \<in> {1, 2, 5, 6} \<and> (\<forall>e \<in> set b. fst e = m \<or> snd e = m)"
proof -
  have "[(1::int, 5::int), (1, 6), (2, 5)] \<noteq> []" by simp
  from schedule_starts_least [OF key_sort_sort_key key_sort_sort_key this]
  obtain b bs m where "schedule sort_key sort_key [(1::int, 5), (1, 6), (2, 5)] = Some (concat (b # bs))"
    "b \<noteq> []" "m \<in> fst ` set [(1::int, 5::int), (1, 6), (2, 5)] \<union> snd ` set [(1::int, 5::int), (1, 6), (2, 5)]"
    "\<forall>e \<in> set b. fst e = m \<or> snd e = m"
    by (elim exE conjE) (rule that)
  moreover from this(3) have "m \<in> {1, 2, 5, 6}" by auto
  ultimately show ?thesis by (intro exI conjI)
qed

end
