(* ===== verification/Floats.thy ===== *)
theory Floats
  imports Prelude
begin

text \<open>
  The floating point numbers of the program, as far as it needs them: comparison and conversion
  between \<open>float\<close> and \<open>double\<close>. A \<open>double\<close> is its 64 bits and a \<open>float\<close> its 32 bits.
  Comparing two IEEE numbers is comparing their sign-and-magnitude readings: \<open>mag\<close> drops the
  sign bit, \<open>fkey\<close> puts the sign rep, so that both zeros have key 0; a NaN, whose magnitude is
  above infinity's, compares false with everything. A conversion reads a magnitude as a
  significand and a binary exponent and writes it at the other width, rounding to nearest even
  where it narrows.
\<close>

type_synonym double = "64 word"
type_synonym cfloat = "32 word"

subsection \<open>IEEE comparison on bits\<close>

definition mag :: "'a::len word \<Rightarrow> int" where
  "mag w = uint (take_bit (LENGTH('a) - 1) w)"

definition fkey :: "'a::len word \<Rightarrow> int" where
  "fkey w = (if bit w (LENGTH('a) - 1) then - mag w else mag w)"

definition d_nan :: "double \<Rightarrow> bool" where "d_nan d = (mag d > 0x7FF0000000000000)"
definition f_nan :: "cfloat \<Rightarrow> bool" where "f_nan f = (mag f > 0x7F800000)"

definition d_lt :: "double \<Rightarrow> double \<Rightarrow> bool" where
  "d_lt a b = (\<not> d_nan a \<and> \<not> d_nan b \<and> fkey a < fkey b)"
definition d_le :: "double \<Rightarrow> double \<Rightarrow> bool" where
  "d_le a b = (\<not> d_nan a \<and> \<not> d_nan b \<and> fkey a \<le> fkey b)"
definition d_eq :: "double \<Rightarrow> double \<Rightarrow> bool" where
  "d_eq a b = (\<not> d_nan a \<and> \<not> d_nan b \<and> fkey a = fkey b)"
definition f_eq :: "cfloat \<Rightarrow> cfloat \<Rightarrow> bool" where
  "f_eq a b = (\<not> f_nan a \<and> \<not> f_nan b \<and> fkey a = fkey b)"
definition f_lt :: "cfloat \<Rightarrow> cfloat \<Rightarrow> bool" where
  "f_lt a b = (\<not> f_nan a \<and> \<not> f_nan b \<and> fkey a < fkey b)"

definition DBL_MAX :: double where "DBL_MAX = 0x7FEFFFFFFFFFFFFF"
definition minus_DBL_MAX :: double where "minus_DBL_MAX = 0xFFEFFFFFFFFFFFFF"


lemma mag_range: "0 \<le> mag w" "mag (w :: 'a::len word) < 2 ^ (LENGTH('a) - 1)"
  by (simp_all add: mag_def unsigned_take_bit_eq)

lemma f_eq_sym: "f_eq a b \<longleftrightarrow> f_eq b a"
  by (auto simp: f_eq_def)

lemma f_eq_trans: "f_eq a b \<Longrightarrow> f_eq b c \<Longrightarrow> f_eq a c"
  by (auto simp: f_eq_def)

subsection \<open>Conversion\<close>

fun bit_len :: "nat \<Rightarrow> nat" where
  "bit_len n = (if n = 0 then 0 else Suc (bit_len (n div 2)))"

declare bit_len.simps [simp del]

text \<open>The value of a magnitude is its significand times two to the exponent.\<close>

definition decode32 :: "nat \<Rightarrow> nat \<times> int" where
  "decode32 w = (if w div 2 ^ 23 = 0 then (w, -149) else (w mod 2 ^ 23 + 2 ^ 23, int (w div 2 ^ 23) - 150))"

definition decode64 :: "nat \<Rightarrow> nat \<times> int" where
  "decode64 w = (if w div 2 ^ 52 = 0 then (w, -1074) else (w mod 2 ^ 52 + 2 ^ 52, int (w div 2 ^ 52) - 1075))"

text \<open>\<open>m * 2 ^ e\<close> as a multiple of \<open>2 ^ q\<close>, to nearest, ties to even.\<close>

definition round_shift :: "nat \<Rightarrow> int \<Rightarrow> int \<Rightarrow> nat" where
  "round_shift m e q =
     (if q \<le> e then m * 2 ^ nat (e - q)
      else let d = 2 ^ nat (q - e); n = m div d; r = m mod d
           in if 2 * r > d \<or> 2 * r = d \<and> odd n then Suc n else n)"

definition encode32 :: "nat \<Rightarrow> int \<Rightarrow> nat" where
  "encode32 m e =
     (let q = max (e + int (bit_len m) - 24) (-149)
      in min (nat (q + 149) * 2 ^ 23 + round_shift m e q) 0x7F800000)"

definition encode64 :: "nat \<Rightarrow> int \<Rightarrow> nat" where
  "encode64 m e =
     (let q = max (e + int (bit_len m) - 53) (-1074)
      in min (nat (q + 1074) * 2 ^ 52 + round_shift m e q) 0x7FF0000000000000)"

text \<open>A NaN becomes a quiet NaN with the payload's high bits.\<close>

definition widen_mag :: "nat \<Rightarrow> nat" where
  "widen_mag w =
     (if w > 0x7F800000 then 0x7FF8000000000000 + (w mod 2 ^ 22) * 2 ^ 29
      else if w = 0x7F800000 then 0x7FF0000000000000
      else if w = 0 then 0
      else case decode32 w of (m, e) \<Rightarrow> encode64 m e)"

definition narrow_mag :: "nat \<Rightarrow> nat" where
  "narrow_mag w =
     (if w > 0x7FF0000000000000 then 0x7FC00000 + (w mod 2 ^ 51) div 2 ^ 29
      else if w = 0x7FF0000000000000 then 0x7F800000
      else if w = 0 then 0
      else case decode64 w of (m, e) \<Rightarrow> encode32 m e)"

definition float_to_double :: "cfloat \<Rightarrow> double" where
  "float_to_double f =
     of_nat (widen_mag (nat (mag f)) + (if bit f 31 then 2 ^ 63 else 0))"

definition double_to_float :: "double \<Rightarrow> cfloat" where
  "double_to_float d =
     of_nat (narrow_mag (nat (mag d)) + (if bit d 63 then 2 ^ 31 else 0))"

definition float_of_size :: "nat \<Rightarrow> cfloat" where
  "float_of_size n = of_nat (if n = 0 then 0 else encode32 n 0)"

subsection \<open>Widening loses nothing\<close>

lemma bit_len_0 [simp]: "bit_len 0 = 0"
  by (simp add: bit_len.simps)

lemma bit_len_unique: "2 ^ k \<le> n \<Longrightarrow> n < 2 ^ Suc k \<Longrightarrow> bit_len n = Suc k"
proof (induction k arbitrary: n)
  case 0
  then have "n = 1" by simp
  then show ?case by (simp add: bit_len.simps)
next
  case (Suc k)
  then have "bit_len (n div 2) = Suc k" by simp
  with Suc.prems show ?case by (subst bit_len.simps) auto
qed

lemma bit_len_bounds:
  assumes "0 < n"
  obtains k where "bit_len n = Suc k" "2 ^ k \<le> n" "n < 2 ^ Suc k"
proof -
  have "\<exists>k. 2 ^ k \<le> n \<and> n < 2 ^ Suc k"
    using assms ex_power_ivl1 [of 2 n] by auto
  then show ?thesis using that bit_len_unique by blast
qed

lemma bit_len_shift: "0 < n \<Longrightarrow> bit_len (n * 2 ^ k) = bit_len n + k"
  by (rule bit_len_bounds) (auto intro!: bit_len_unique simp: power_add)

lemma widen_exact:
  assumes m: "0 < m" "m < 2 ^ 24" and e: "-149 \<le> e" "e \<le> 104"
  defines "k \<equiv> 53 - bit_len m" and "q \<equiv> e + int (bit_len m) - 53"
  shows "encode64 m e = nat (q + 1074) * 2 ^ 52 + m * 2 ^ k \<and> q = e - int k \<and>
         2 ^ 52 \<le> m * 2 ^ k \<and> m * 2 ^ k < 2 ^ 53 \<and> bit_len m \<le> 24 \<and> 1 \<le> bit_len m \<and>
         nat (q + 1074) * 2 ^ 52 + m * 2 ^ k < 0x7FF0000000000000"
proof -
  obtain j where j: "bit_len m = Suc j" "2 ^ j \<le> m" "m < 2 ^ Suc j" using bit_len_bounds m by blast
  have "j < 24" by (rule power_less_imp_less_exp [OF _ le_less_trans [OF j(2) m(2)]]) simp
  then have k: "k = 52 - j" by (simp add: k_def j)
  have "2 ^ j * 2 ^ k \<le> m * 2 ^ k" "m * 2 ^ k < 2 ^ Suc j * 2 ^ k"
    by (rule mult_right_mono [OF j(2)], simp, rule mult_strict_right_mono [OF j(3)], simp)
  moreover have "(2::nat) ^ j * 2 ^ k = 2 ^ 52" "(2::nat) ^ Suc j * 2 ^ k = 2 ^ 53"
    using \<open>j < 24\<close> by (simp_all add: k flip: power_add)
  ultimately have r: "2 ^ 52 \<le> m * 2 ^ k" "m * 2 ^ k < 2 ^ 53" by (simp_all only:)
  have q: "q = e - int k" using \<open>j < 24\<close> by (simp add: q_def k j)
  have "nat (q + 1074) \<le> 1149" using e(2) \<open>j < 24\<close> by (simp add: q_def j)
  then have b: "nat (q + 1074) * 2 ^ 52 + m * 2 ^ k < 0x7FF0000000000000" using r(2) by simp
  have "max q (-1074) = q" using e(1) \<open>j < 24\<close> by (simp add: q_def j)
  moreover have "round_shift m e q = m * 2 ^ k" by (simp add: round_shift_def q)
  ultimately have "encode64 m e = nat (q + 1074) * 2 ^ 52 + m * 2 ^ k"
    using b by (simp add: encode64_def q_def [symmetric] Let_def)
  with q r b j \<open>j < 24\<close> show ?thesis by simp
qed

lemma narrow_exact:
  assumes m: "0 < m" "m < 2 ^ 24" and e: "-149 \<le> e" "e \<le> 104"
    and norm: "e = -149 \<or> 2 ^ 23 \<le> m"
  shows "(case decode64 (encode64 m e) of (n, f) \<Rightarrow> encode32 n f) =
         min (nat (e + 149) * 2 ^ 23 + m) 0x7F800000"
proof -
  let ?k = "53 - bit_len m" and ?q = "e + int (bit_len m) - 53"
  let ?n = "m * 2 ^ ?k"
  have w: "encode64 m e = nat (?q + 1074) * 2 ^ 52 + ?n" and q: "?q = e - int ?k"
    and n: "2 ^ 52 \<le> ?n" "?n < 2 ^ 53" and l: "bit_len m \<le> 24" "1 \<le> bit_len m"
    using widen_exact [OF m e] by blast+
  obtain r where r: "?n = 2 ^ 52 + r" "r < 2 ^ 52" using n by (auto simp: le_iff_add)
  obtain a where a: "a = nat (?q + 1074) + 1" by blast
  have "encode64 m e = a * 2 ^ 52 + r" using w r unfolding a by simp
  then have "encode64 m e div 2 ^ 52 = a" "encode64 m e mod 2 ^ 52 = r"
    using r(2) by simp_all
  moreover have "int a - 1075 = ?q" "a \<noteq> 0" using e l by (simp_all add: a)
  ultimately have d: "decode64 (encode64 m e) = (?n, ?q)"
    using r(1) by (simp add: decode64_def)
  have bn: "bit_len ?n = 53" using l(1) by (subst bit_len_shift [OF m(1)]) simp
  have "e = -149 \<or> bit_len m = 24"
    using norm m(2) bit_len_unique [of 23 m] by auto
  then have mx: "max (?q + int (bit_len ?n) - 24) (-149) = e"
    unfolding bn using e l(1) by auto
  have "\<not> e \<le> ?q" using l(1) by simp
  moreover have "nat (e - ?q) = ?k" using l(1) by simp
  ultimately have "round_shift ?n ?q e = m" using q l(1) by (simp add: round_shift_def)
  then show ?thesis unfolding d encode32_def mx Let_def prod.case by simp
qed

lemma narrow_widen_mag:
  assumes "w \<le> 0x7F800000"
  shows "narrow_mag (widen_mag w) = w \<and> widen_mag w \<le> 0x7FF0000000000000"
proof -
  consider "w = 0" | "w = 0x7F800000" | "0 < w" "w < 0x7F800000" using assms by linarith
  then show ?thesis
  proof cases
    case 3
    obtain m e where me: "decode32 w = (m, e)" by fastforce
    obtain a r where w: "w = a * 2 ^ 23 + r" "r < 2 ^ 23" "a = w div 2 ^ 23" "r = w mod 2 ^ 23" by simp
    have "a < 255" using 3(2) w(1) by simp
    have d32: "decode32 w = (if a = 0 then (w, -149) else (r + 2 ^ 23, int a - 150))"
      by (simp only: decode32_def w(3,4))
    have me2: "m = (if a = 0 then r else r + 2 ^ 23)" "e = (if a = 0 then -149 else int a - 150)"
      using me d32 w(1) by (simp_all split: if_splits)
    have m: "0 < m" "m < 2 ^ 24" using 3(1) w(1,2) me2(1) by (simp_all split: if_splits)
    have e: "-149 \<le> e" "e \<le> 104" using \<open>a < 255\<close> me2(2) by (simp_all split: if_splits)
    have norm: "e = -149 \<or> 2 ^ 23 \<le> m" using me2 by (simp split: if_splits)
    have "nat (e + 149) = (if a = 0 then 0 else a - 1)" using me2(2) by (simp split: if_splits)
    then have rep: "nat (e + 149) * 2 ^ 23 + m = w"
      using w(1) me2(1) by (cases a) simp_all
    have b: "encode64 m e < 0x7FF0000000000000" "0 < encode64 m e"
      using widen_exact [OF m e] by auto
    have "widen_mag w = encode64 m e" using 3 me by (simp add: widen_mag_def)
    moreover have "narrow_mag (encode64 m e) = w"
      using b narrow_exact [OF m e norm] 3 rep by (simp add: narrow_mag_def)
    ultimately show ?thesis using b by simp
  qed (simp_all add: widen_mag_def narrow_mag_def)
qed

lemma nat_mag: "nat (mag w) = take_bit (LENGTH('a) - 1) (unat w)" for w :: "'a::len word"
  by (simp add: mag_def unsigned_take_bit_eq nat_take_bit_eq)

lemma sign_magnitude:
  fixes w :: "'a::len word"
  assumes "LENGTH('a) = Suc n"
  shows "unat w = nat (mag w) + (if bit w n then 2 ^ n else 0)"
proof -
  have "take_bit (Suc n) (unat w) = unat w" using assms by (simp add: take_bit_nat_eq_self flip: assms)
  then show ?thesis
    using assms by (cases "bit w n") (simp_all add: nat_mag take_bit_Suc_from_most bit_unsigned_iff)
qed

lemma magnitude_of:
  assumes "m < 2 ^ n" "LENGTH('a) = Suc n"
  shows "nat (mag (of_nat (m + (if s then 2 ^ n else 0)) :: 'a::len word)) = m \<and>
         (bit (of_nat (m + (if s then 2 ^ n else 0)) :: 'a word) n \<longleftrightarrow> s)"
proof -
  obtain x where x: "x = m + (if s then 2 ^ n else 0)" by blast
  have "x < 2 ^ LENGTH('a)" using assms by (simp add: x)
  then have u: "unat (of_nat x :: 'a word) = x" by (simp add: unat_of_nat take_bit_nat_eq_self)
  have "bit (of_nat x :: 'a word) n \<longleftrightarrow> bit x n"
    using assms(2) bit_unsigned_iff [of "of_nat x :: 'a word" n, where 'a = nat] by (simp add: u)
  moreover have "take_bit n x = m" "bit x n \<longleftrightarrow> s"
    using assms(1) by (simp_all add: x take_bit_eq_mod bit_iff_odd div_add_self2)
  ultimately show ?thesis
    using assms(2) by (simp add: nat_mag u flip: x)
qed

lemma double_to_float_to_double:
  assumes "\<not> f_nan f"
  shows "double_to_float (float_to_double f) = f"
proof -
  let ?w = "nat (mag f)"
  have le: "?w \<le> 0x7F800000" using assms by (simp add: f_nan_def)
  note nw = narrow_widen_mag [OF le]
  have "widen_mag ?w < 2 ^ 63" using nw by simp
  from magnitude_of [OF this, of "bit f 31", where 'a = 64]
  have d: "nat (mag (float_to_double f)) = widen_mag ?w" "bit (float_to_double f) 63 \<longleftrightarrow> bit f 31"
    by (simp_all add: float_to_double_def)
  have "double_to_float (float_to_double f) = of_nat (?w + (if bit f 31 then 2 ^ 31 else 0))"
    using nw by (simp add: double_to_float_def d)
  also have "\<dots> = of_nat (unat f)" using sign_magnitude [of 31 f] by simp
  finally show ?thesis by simp
qed

end
