(* ===== verification/Bounds.thy ===== *)
theory Bounds
  imports Floats
begin

text \<open>
  Axis-aligned boxes: \<open>lib/datastructure/repo_vector3d.h\<close>, \<open>repo_vector.h\<close> and
  \<open>repo_bounds.cpp\<close>.
\<close>

subsection \<open>Vectors and boxes\<close>

text \<open>\<open>std::min\<close> and \<open>std::max\<close> return their first argument unless the second is strictly better.\<close>

definition std_min :: "double \<Rightarrow> double \<Rightarrow> double" where
  "std_min a b = (if d_lt b a then b else a)"
definition std_max :: "double \<Rightarrow> double \<Rightarrow> double" where
  "std_max a b = (if d_lt a b then b else a)"

type_synonym vec3d = "double \<times> double \<times> double"

fun vec_min :: "vec3d \<Rightarrow> vec3d \<Rightarrow> vec3d" where
  "vec_min (ax, ay, az) (bx, by', bz) = (std_min ax bx, std_min ay by', std_min az bz)"

fun vec_max :: "vec3d \<Rightarrow> vec3d \<Rightarrow> vec3d" where
  "vec_max (ax, ay, az) (bx, by', bz) = (std_max ax bx, std_max ay by', std_max az bz)"

fun vec_eq :: "vec3d \<Rightarrow> vec3d \<Rightarrow> bool" where
  "vec_eq (ax, ay, az) (bx, by', bz) = (d_eq ax bx \<and> d_eq ay by' \<and> d_eq az bz)"

record RepoBounds =
  bmin :: vec3d
  bmax :: vec3d

definition empty_bounds :: RepoBounds where
  "empty_bounds = \<lparr>bmin = (DBL_MAX, DBL_MAX, DBL_MAX),
                   bmax = (minus_DBL_MAX, minus_DBL_MAX, minus_DBL_MAX)\<rparr>"

definition encapsulate :: "RepoBounds \<Rightarrow> vec3d \<Rightarrow> RepoBounds" where
  "encapsulate b p = \<lparr>bmin = vec_min (bmin b) p, bmax = vec_max (bmax b) p\<rparr>"

definition encapsulate_bounds :: "RepoBounds \<Rightarrow> RepoBounds \<Rightarrow> RepoBounds" where
  "encapsulate_bounds b v = \<lparr>bmin = vec_min (bmin b) (bmin v), bmax = vec_max (bmax b) (bmax v)\<rparr>"

definition bounds_of :: "vec3d \<Rightarrow> vec3d \<Rightarrow> RepoBounds" where
  "bounds_of mn mx = encapsulate (encapsulate empty_bounds mn) mx"

definition bounds_of_points :: "vec3d list \<Rightarrow> RepoBounds" where
  "bounds_of_points points = foldl encapsulate empty_bounds points"

definition bounds_eq :: "RepoBounds \<Rightarrow> RepoBounds \<Rightarrow> bool" where
  "bounds_eq a b = (vec_eq (bmin a) (bmin b) \<and> vec_eq (bmax a) (bmax b))"

definition bounds_contains :: "RepoBounds \<Rightarrow> vec3d \<Rightarrow> bool" where
  "bounds_contains b p =
     (case (bmin b, bmax b, p) of ((lx, ly, lz), (hx, hy, hz), (x, y, z)) \<Rightarrow>
        d_le lx x \<and> d_le x hx \<and> d_le ly y \<and> d_le y hy \<and> d_le lz z \<and> d_le z hz)"

subsection \<open>Order facts\<close>

lemmas d_cmp = d_lt_def d_le_def d_eq_def

lemma not_nan_DBL_MAX [simp]: "\<not> d_nan DBL_MAX" "\<not> d_nan minus_DBL_MAX"
  by (simp_all add: d_nan_def mag_def DBL_MAX_def minus_DBL_MAX_def)

lemma d_le_refl [simp]: "d_le a a \<longleftrightarrow> \<not> d_nan a"
  by (simp add: d_le_def)

lemma d_le_trans: "d_le a b \<Longrightarrow> d_le b c \<Longrightarrow> d_le a c"
  by (simp add: d_le_def)

lemma std_min_le: "\<not> d_nan a \<Longrightarrow> d_le (std_min a b) a"
  by (auto simp: std_min_def d_cmp)

lemma std_min_le2: "\<not> d_nan a \<Longrightarrow> \<not> d_nan b \<Longrightarrow> d_le (std_min a b) b"
  by (auto simp: std_min_def d_cmp)

lemma std_max_ge: "\<not> d_nan a \<Longrightarrow> d_le a (std_max a b)"
  by (auto simp: std_max_def d_cmp)

lemma std_max_ge2: "\<not> d_nan a \<Longrightarrow> \<not> d_nan b \<Longrightarrow> d_le b (std_max a b)"
  by (auto simp: std_max_def d_cmp)

lemma std_min_greatest: "d_le c a \<Longrightarrow> d_le c b \<Longrightarrow> d_le c (std_min a b)"
  by (simp add: std_min_def)

lemma std_max_least: "d_le a c \<Longrightarrow> d_le b c \<Longrightarrow> d_le (std_max a b) c"
  by (simp add: std_max_def)

lemma std_min_not_nan [simp]: "\<not> d_nan a \<Longrightarrow> \<not> d_nan (std_min a b)"
  by (auto simp: std_min_def d_lt_def)

lemma std_max_not_nan [simp]: "\<not> d_nan a \<Longrightarrow> \<not> d_nan (std_max a b)"
  by (auto simp: std_max_def d_lt_def)

text \<open>\<open>within lo p hi\<close>: componentwise order, the reference reading of a box.\<close>

fun vec_le :: "vec3d \<Rightarrow> vec3d \<Rightarrow> bool" where
  "vec_le (ax, ay, az) (bx, by', bz) \<longleftrightarrow> d_le ax bx \<and> d_le ay by' \<and> d_le az bz"

fun vec_num :: "vec3d \<Rightarrow> bool" where
  "vec_num (x, y, z) \<longleftrightarrow> \<not> d_nan x \<and> \<not> d_nan y \<and> \<not> d_nan z"

lemma vec_le_trans: "vec_le a b \<Longrightarrow> vec_le b c \<Longrightarrow> vec_le a c"
  by (cases a; cases b; cases c) (auto intro: d_le_trans)

lemma vec_le_refl [simp]: "vec_le a a \<longleftrightarrow> vec_num a"
  by (cases a) auto

lemma bounds_contains_iff: "bounds_contains b p \<longleftrightarrow> vec_le (bmin b) p \<and> vec_le p (bmax b)"
  by (cases "bmin b"; cases "bmax b"; cases p) (auto simp: bounds_contains_def)

lemma vec_min_num [simp]: "vec_num a \<Longrightarrow> vec_num (vec_min a b)"
  by (cases a; cases b) auto

lemma vec_max_num [simp]: "vec_num a \<Longrightarrow> vec_num (vec_max a b)"
  by (cases a; cases b) auto

lemma vec_min_le: "vec_num a \<Longrightarrow> vec_le (vec_min a b) a"
  by (cases a; cases b) (auto simp: std_min_le)

lemma vec_min_le2: "vec_num a \<Longrightarrow> vec_num b \<Longrightarrow> vec_le (vec_min a b) b"
  by (cases a; cases b) (auto simp: std_min_le2)

lemma vec_max_ge: "vec_num a \<Longrightarrow> vec_le a (vec_max a b)"
  by (cases a; cases b) (auto simp: std_max_ge)

lemma vec_max_ge2: "vec_num a \<Longrightarrow> vec_num b \<Longrightarrow> vec_le b (vec_max a b)"
  by (cases a; cases b) (auto simp: std_max_ge2)

lemma vec_min_greatest: "vec_le c a \<Longrightarrow> vec_le c b \<Longrightarrow> vec_le c (vec_min a b)"
  by (cases a; cases b; cases c) (auto simp: std_min_greatest)

lemma vec_max_least: "vec_le a c \<Longrightarrow> vec_le b c \<Longrightarrow> vec_le (vec_max a b) c"
  by (cases a; cases b; cases c) (auto simp: std_max_least)

subsection \<open>Boxes grow, and hold what was put in\<close>

definition bounds_num :: "RepoBounds \<Rightarrow> bool" where
  "bounds_num b \<longleftrightarrow> vec_num (bmin b) \<and> vec_num (bmax b)"

lemma bounds_num_empty [inv_intros, simp]: "bounds_num empty_bounds"
  by (simp add: bounds_num_def empty_bounds_def)

lemma bounds_num_encapsulate [inv_intros]: "bounds_num b \<Longrightarrow> bounds_num (encapsulate b p)"
  by (simp add: bounds_num_def encapsulate_def)

lemma bounds_num_foldl [inv_intros]: "bounds_num b \<Longrightarrow> bounds_num (foldl encapsulate b ps)"
  by (induction ps arbitrary: b) (simp_all add: bounds_num_encapsulate)

lemma encapsulate_keeps:
  assumes "bounds_num b" "bounds_contains b q"
  shows "bounds_contains (encapsulate b p) q"
  using assms vec_min_le [of "bmin b" p] vec_max_ge [of "bmax b" p]
  by (auto simp: bounds_contains_iff encapsulate_def bounds_num_def intro: vec_le_trans)

lemma encapsulate_adds:
  assumes "bounds_num b" "vec_num p"
  shows "bounds_contains (encapsulate b p) p"
  using assms by (simp add: bounds_contains_iff encapsulate_def bounds_num_def vec_min_le2 vec_max_ge2)

lemma foldl_encapsulate_keeps:
  "bounds_num b \<Longrightarrow> bounds_contains b q \<Longrightarrow> bounds_contains (foldl encapsulate b ps) q"
  by (induction ps arbitrary: b) (simp_all add: bounds_num_encapsulate encapsulate_keeps)

lemma foldl_encapsulate_adds:
  "bounds_num b \<Longrightarrow> p \<in> set ps \<Longrightarrow> vec_num p \<Longrightarrow> bounds_contains (foldl encapsulate b ps) p"
  by (induction ps arbitrary: b)
    (auto simp: bounds_num_encapsulate encapsulate_adds foldl_encapsulate_keeps)

lemma foldl_encapsulate_least:
  assumes "\<And>p. p \<in> set ps \<Longrightarrow> bounds_contains c p"
    and "vec_le (bmin c) (bmin b)" "vec_le (bmax b) (bmax c)"
  shows "vec_le (bmin c) (bmin (foldl encapsulate b ps)) \<and> vec_le (bmax (foldl encapsulate b ps)) (bmax c)"
  using assms
proof (induction ps arbitrary: b)
  case (Cons p ps)
  then have "vec_le (bmin c) (bmin (encapsulate b p)) \<and> vec_le (bmax (encapsulate b p)) (bmax c)"
    by (simp add: encapsulate_def bounds_contains_iff vec_min_greatest vec_max_least)
  then show ?case using Cons by simp
qed simp

text \<open>A point, and a box, in the range of finite numbers.\<close>

definition vec_finite :: "vec3d \<Rightarrow> bool" where
  "vec_finite p \<longleftrightarrow> vec_le p (bmin empty_bounds) \<and> vec_le (bmax empty_bounds) p"

definition bounds_proper :: "RepoBounds \<Rightarrow> bool" where
  "bounds_proper b \<longleftrightarrow> vec_le (bmin b) (bmax b) \<and> vec_finite (bmin b) \<and> vec_finite (bmax b)"

lemma vec_eq_le: "vec_eq a b \<longleftrightarrow> vec_le a b \<and> vec_le b a"
  by (cases a; cases b) (auto simp: d_cmp)

lemma bounds_of_foldl: "bounds_of mn mx = foldl encapsulate empty_bounds [mn, mx]"
  by (simp add: bounds_of_def)

lemma vec_le_num: "vec_le a b \<Longrightarrow> vec_num a \<and> vec_num b"
  by (cases a; cases b) (auto simp: d_cmp)

lemma bounds_of_proper:
  assumes "bounds_proper b"
  shows "bounds_eq (bounds_of (bmin b) (bmax b)) b"
proof -
  let ?c = "bounds_of (bmin b) (bmax b)"
  have n: "vec_num (bmin b)" "vec_num (bmax b)"
    using assms vec_le_num [of "bmin b" "bmax b"] by (simp_all only: bounds_proper_def)
  have c: "bounds_contains b (bmin b)" "bounds_contains b (bmax b)"
    using assms n by (auto simp: bounds_contains_iff bounds_proper_def)
  have f: "vec_le (bmin b) (bmin empty_bounds)" "vec_le (bmax empty_bounds) (bmax b)"
    using assms by (auto simp: bounds_proper_def vec_finite_def)
  have "vec_le (bmin b) (bmin ?c) \<and> vec_le (bmax ?c) (bmax b)"
    unfolding bounds_of_foldl by (rule foldl_encapsulate_least) (use c f in auto)
  moreover have "bounds_contains ?c (bmin b)" "bounds_contains ?c (bmax b)"
    unfolding bounds_of_foldl by (rule foldl_encapsulate_adds; use n in simp)+
  ultimately show ?thesis
    by (auto simp: bounds_eq_def vec_eq_le bounds_contains_iff)
qed

lemma bounds_of_empty:
  "bounds_of (bmin empty_bounds) (bmax empty_bounds) =
     \<lparr>bmin = bmax empty_bounds, bmax = bmin empty_bounds\<rparr>"
proof -
  have "d_lt minus_DBL_MAX DBL_MAX" "\<not> d_lt DBL_MAX DBL_MAX" "\<not> d_lt DBL_MAX minus_DBL_MAX"
    by (simp_all add: d_lt_def d_nan_def fkey_def mag_def DBL_MAX_def minus_DBL_MAX_def)
  then show ?thesis
    by (simp add: bounds_of_def encapsulate_def empty_bounds_def std_min_def std_max_def)
qed

subsection \<open>Properties\<close>

text \<open>
  The box of a set of points is the smallest one: it contains every point that has no NaN
  coordinate, and every box that contains all of the points encloses it, as long as one of the
  points is finite.
\<close>

theorem bounds_of_points_tight:
  assumes "p \<in> set points" and "vec_num p"
  shows "bounds_contains (bounds_of_points points) p \<and>
    (vec_finite p \<longrightarrow> (\<forall>c. (\<forall>q \<in> set points. bounds_contains c q) \<longrightarrow>
       vec_le (bmin c) (bmin (bounds_of_points points)) \<and>
       vec_le (bmax (bounds_of_points points)) (bmax c)))"
proof (intro conjI allI impI)
  show "bounds_contains (bounds_of_points points) p"
    unfolding bounds_of_points_def using assms by (simp add: foldl_encapsulate_adds)
next
  fix c assume f: "vec_finite p" and c: "\<forall>q \<in> set points. bounds_contains c q"
  then have "vec_le (bmin c) p" "vec_le p (bmax c)"
    using assms(1) by (auto simp: bounds_contains_iff)
  then have "vec_le (bmin c) (bmin empty_bounds)" "vec_le (bmax empty_bounds) (bmax c)"
    using f vec_le_trans [of "bmin c" p "bmin empty_bounds"]
      vec_le_trans [of "bmax empty_bounds" p "bmax c"] by (simp_all only: vec_finite_def)
  with c have "vec_le (bmin c) (bmin (bounds_of_points points)) \<and>
      vec_le (bmax (bounds_of_points points)) (bmax c)"
    unfolding bounds_of_points_def by (intro foldl_encapsulate_least) auto
  then show "vec_le (bmin c) (bmin (bounds_of_points points))"
    "vec_le (bmax (bounds_of_points points)) (bmax c)" by simp_all
qed

text \<open>1.0, 2.0 and -1.0 as bits.\<close>

definition d_one :: double where "d_one = 0x3FF0000000000000"
definition d_two :: double where "d_two = 0x4000000000000000"
definition d_minus_one :: double where "d_minus_one = 0xBFF0000000000000"

lemmas d_consts = d_one_def d_two_def d_minus_one_def DBL_MAX_def minus_DBL_MAX_def
lemmas d_eval = d_cmp d_nan_def fkey_def mag_def d_consts

theorem bounds_of_points_tight_witness:
  "bounds_contains (bounds_of_points [(d_one, d_minus_one, 0), (d_two, d_one, d_one)]) (d_two, d_one, d_one) \<and>
   \<not> bounds_contains (bounds_of_points [(d_one, d_minus_one, 0)]) (d_two, d_one, d_one)"
proof
  have "(d_two, d_one, d_one) \<in> set [(d_one, d_minus_one, 0), (d_two, d_one, d_one)]"
    "vec_num (d_two, d_one, d_one)" by (simp_all add: d_eval)
  from bounds_of_points_tight [OF this]
  show "bounds_contains (bounds_of_points [(d_one, d_minus_one, 0), (d_two, d_one, d_one)])
      (d_two, d_one, d_one)" by (rule conjunct1)
  show "\<not> bounds_contains (bounds_of_points [(d_one, d_minus_one, 0)]) (d_two, d_one, d_one)"
    by (simp add: bounds_of_points_def encapsulate_def empty_bounds_def bounds_contains_def
        std_min_def std_max_def d_eval)
qed

end
