(* ===== verification/Bson.thy ===== *)
theory Bson
  imports Bounds
begin

text \<open>
  BSON documents and the wrapper the program reads and writes them through:
  \<open>core/model/bson/repo_bson.cpp\<close>, \<open>repo_bson_element.cpp\<close> and \<open>repo_bson_builder.cpp\<close>.
  A document is an ordered list of labelled values, as \<open>bsoncxx\<close> stores it: \<open>find\<close> gives the
  first value with a label, an access with the wrong type or past the end of an array throws
  \<open>bsoncxx::exception\<close>. A double is its 64 bits. \<open>bigFiles\<close>, an \<open>unordered_map\<close>, is an
  association list whose order is the map's iteration order.
\<close>

type_synonym bytes = "byte list"

datatype bson =
    BDouble double
  | BString string
  | BDocument "(string \<times> bson) list"
  | BArray "bson list"
  | BBinary byte bytes \<comment> \<open>subtype and content\<close>
  | BBool bool
  | BInt32 "32 word"
  | BInt64 "64 word"
  | BDate "64 word" \<comment> \<open>milliseconds since the epoch\<close>
  | BOid bytes
  | BNull

type_synonym document = "(string \<times> bson) list"

record RepoBSON =
  doc :: document
  bigFiles :: "(string \<times> bytes) list"

definition k_uuid :: byte where "k_uuid = 4"
definition k_uuid_deprecated :: byte where "k_uuid_deprecated = 3"

definition REPO_LABEL_BINARY_REFERENCE :: string where "REPO_LABEL_BINARY_REFERENCE = ''_blobRef''"
definition REPO_LABEL_BINARY_ELEMENTS :: string where "REPO_LABEL_BINARY_ELEMENTS = ''elements''"
definition REPO_LABEL_BINARY_BUFFER :: string where "REPO_LABEL_BINARY_BUFFER = ''buffer''"
definition REPO_LABEL_BINARY_START :: string where "REPO_LABEL_BINARY_START = ''start''"
definition REPO_LABEL_BINARY_SIZE :: string where "REPO_LABEL_BINARY_SIZE = ''size''"
definition REPO_LABEL_BINARY_FILENAME :: string where "REPO_LABEL_BINARY_FILENAME = ''name''"

lemmas binary_labels = REPO_LABEL_BINARY_REFERENCE_def REPO_LABEL_BINARY_ELEMENTS_def
  REPO_LABEL_BINARY_BUFFER_def REPO_LABEL_BINARY_START_def REPO_LABEL_BINARY_SIZE_def
  REPO_LABEL_BINARY_FILENAME_def

subsection \<open>Elements\<close>

datatype ElementType =
  ET_ARRAY | ET_UUID | ET_BINARY | ET_BOOL | ET_DATE | ET_OBJECTID | ET_DOUBLE | ET_INT | ET_LONG | ET_OBJECT | ET_STRING | ET_UNKNOWN

fun element_type :: "bson \<Rightarrow> ElementType" where
  "element_type (BArray _) = ET_ARRAY"
| "element_type (BBinary sub _) = (if sub = k_uuid \<or> sub = k_uuid_deprecated then ET_UUID else ET_BINARY)"
| "element_type (BBool _) = ET_BOOL"
| "element_type (BDate _) = ET_DATE"
| "element_type (BOid _) = ET_OBJECTID"
| "element_type (BDouble _) = ET_DOUBLE"
| "element_type (BInt32 _) = ET_INT"
| "element_type (BInt64 _) = ET_LONG"
| "element_type (BDocument _) = ET_OBJECT"
| "element_type (BString _) = ET_STRING"
| "element_type BNull = ET_UNKNOWN"

fun el_String :: "bson \<Rightarrow> string result" where
  "el_String (BString s) = Inr s"
| "el_String _ = Inl BsoncxxException"

text \<open>\<open>duration_cast\<close> from milliseconds to seconds rounds towards zero.\<close>

definition trunc_div :: "int \<Rightarrow> int \<Rightarrow> int" where
  "trunc_div a b = sgn a * sgn b * (\<bar>a\<bar> div \<bar>b\<bar>)"

fun el_TimeT :: "bson \<Rightarrow> int result" where
  "el_TimeT (BDate ms) = Inr (trunc_div (sint ms) 1000)"
| "el_TimeT _ = Inl BsoncxxException"

fun el_Bool :: "bson \<Rightarrow> bool result" where
  "el_Bool (BBool b) = Inr b"
| "el_Bool _ = Inl BsoncxxException"

fun el_Int :: "bson \<Rightarrow> 32 word result" where
  "el_Int (BInt32 i) = Inr i"
| "el_Int _ = Inl BsoncxxException"

fun el_Long :: "bson \<Rightarrow> 64 word result" where
  "el_Long (BInt64 i) = Inr i"
| "el_Long _ = Inl BsoncxxException"

fun el_Double :: "bson \<Rightarrow> double result" where
  "el_Double (BDouble d) = Inr d"
| "el_Double _ = Inl BsoncxxException"

text \<open>
  The \<open>memcpy\<close> copies the binary's own size into sixteen bytes: any other size overruns the
  identifier or leaves part of it uninitialised.
\<close>

fun el_UUID :: "bson \<Rightarrow> uuid result" where
  "el_UUID (BBinary sub bs) =
     (if sub = k_uuid \<or> sub = k_uuid_deprecated
      then if length bs = 16 then Inr (uuid_of_data bs) else Inl OutOfRange
      else Inl (RepoFieldTypeException ''Cannot convert UUID because the binary has the wrong subtype''))"
| "el_UUID _ = Inl BsoncxxException"

fun el_Object :: "bson \<Rightarrow> RepoBSON result" where
  "el_Object (BDocument d) = Inr \<lparr>doc = d, bigFiles = []\<rparr>"
| "el_Object _ = Inl BsoncxxException"

fun el_Array :: "bson \<Rightarrow> bson list result" where
  "el_Array (BArray xs) = Inr xs"
| "el_Array _ = Inl BsoncxxException"

text \<open>An array view past its end gives an invalid element, and every access to that throws.\<close>

definition arr_at :: "bson list \<Rightarrow> nat \<Rightarrow> bson result" where
  "arr_at xs i = (if i < length xs then Inr (xs ! i) else Inl BsoncxxException)"

subsection \<open>Reading a document\<close>

definition make_RepoBSON :: "RepoBSON \<Rightarrow> (string \<times> bytes) list \<Rightarrow> RepoBSON" where
  "make_RepoBSON obj binMapping =
     \<lparr>doc = doc obj,
      bigFiles = foldl (\<lambda>fs (k, v). if k \<in> fst ` set fs then fs else AList.update k v fs)
                   binMapping (bigFiles obj)\<rparr>"

definition hasField :: "RepoBSON \<Rightarrow> string \<Rightarrow> bool" where
  "hasField b label = (map_of (doc b) label \<noteq> None)"

definition getField :: "RepoBSON \<Rightarrow> string \<Rightarrow> bson result" where
  "getField b label =
     (case map_of (doc b) label of
        Some v \<Rightarrow> Inr v
      | None \<Rightarrow> Inl (RepoFieldNotFoundException label))"

text \<open>\<open>catch (bsoncxx::exception)\<close>: only that exception is turned into a field type exception.\<close>

definition field_as :: "(bson \<Rightarrow> 'a result) \<Rightarrow> RepoBSON \<Rightarrow> string \<Rightarrow> 'a result" where
  "field_as conv b label =
     (case rbind (getField b label) conv of
        Inl BsoncxxException \<Rightarrow> Inl (RepoFieldTypeException label)
      | r \<Rightarrow> r)"

definition getBoolField :: "RepoBSON \<Rightarrow> string \<Rightarrow> bool result" where
  "getBoolField = field_as el_Bool"
definition getStringField :: "RepoBSON \<Rightarrow> string \<Rightarrow> string result" where
  "getStringField = field_as el_String"
definition getObjectField :: "RepoBSON \<Rightarrow> string \<Rightarrow> RepoBSON result" where
  "getObjectField = field_as el_Object"
definition getIntField :: "RepoBSON \<Rightarrow> string \<Rightarrow> 32 word result" where
  "getIntField = field_as el_Int"
definition getUUIDField :: "RepoBSON \<Rightarrow> string \<Rightarrow> uuid result" where
  "getUUIDField = field_as el_UUID"
definition getTimeStampField :: "RepoBSON \<Rightarrow> string \<Rightarrow> int result" where
  "getTimeStampField = field_as el_TimeT"
definition getDoubleField :: "RepoBSON \<Rightarrow> string \<Rightarrow> double result" where
  "getDoubleField = field_as el_Double"

lemmas getters = getBoolField_def getStringField_def getObjectField_def getIntField_def
  getUUIDField_def getTimeStampField_def getDoubleField_def

definition getLongField :: "RepoBSON \<Rightarrow> string \<Rightarrow> 64 word result" where
  "getLongField b label =
     field_as (\<lambda>f. if element_type f = ET_INT then rbind (el_Int f) (\<lambda>i. Inr (scast i)) else el_Long f)
       b label"

text \<open>
  \<open>getArray\<close>: each element's exception becomes a field type exception; that the field is not an
  array at all is not caught.
\<close>

definition getArray :: "(bson \<Rightarrow> 'a result) \<Rightarrow> RepoBSON \<Rightarrow> string \<Rightarrow> bool \<Rightarrow> 'a list result" where
  "getArray conv b label missingIsEmpty =
     (case map_of (doc b) label of
        Some v \<Rightarrow> rbind (el_Array v) (rtraverse (\<lambda>e.
          case conv e of Inl OutOfRange \<Rightarrow> Inl OutOfRange
                       | Inl _ \<Rightarrow> Inl (RepoFieldTypeException label)
                       | Inr x \<Rightarrow> Inr x))
      | None \<Rightarrow> if missingIsEmpty then Inr [] else Inl (RepoFieldNotFoundException label))"

fun getValue_UUID :: "bson \<Rightarrow> uuid result" where
  "getValue_UUID (BBinary sub bs) =
     (if sub = k_uuid \<or> sub = k_uuid_deprecated
      then if length bs = 16 then Inr (uuid_of_data bs) else Inl OutOfRange
      else Inl (RepoBSONException
        ''Cannot convert binary field to RepoUUID because it has the wrong subtype''))"
| "getValue_UUID _ = Inl (RepoBSONException
        ''Cannot convert binary field to RepoUUID because it has the wrong subtype'')"

definition getMatrixFromArray :: "bson list \<Rightarrow> double list result" where
  "getMatrixFromArray rows =
     rbind (rtraverse (\<lambda>rowInd.
         rbind (rbind (arr_at rows rowInd) el_Array) (\<lambda>cols.
           rtraverse (\<lambda>colInd. rbind (arr_at cols colInd) el_Double) [0..<4])) [0..<4])
       (\<lambda>rs. Inr (concat rs))"

fun getValue_Matrix :: "bson \<Rightarrow> double list result" where
  "getValue_Matrix (BArray rows) = getMatrixFromArray rows"
| "getValue_Matrix _ = Inl (RepoBSONException
        ''Cannot convert array field to RepoMatrix because it has the wrong subtype'')"

definition getObjectArray :: "RepoBSON \<Rightarrow> string \<Rightarrow> (RepoBSON) list result" where
  "getObjectArray b label = getArray el_Object b label False"
definition getFileList :: "RepoBSON \<Rightarrow> string \<Rightarrow> (string) list result" where
  "getFileList b label = getArray el_String b label False"
definition getStringArray :: "RepoBSON \<Rightarrow> string \<Rightarrow> (string) list result" where
  "getStringArray b label = getArray el_String b label True"
definition getDoubleVectorField :: "RepoBSON \<Rightarrow> string \<Rightarrow> (double) list result" where
  "getDoubleVectorField b label = getArray el_Double b label False"
definition getUUIDFieldArray :: "RepoBSON \<Rightarrow> string \<Rightarrow> (uuid) list result" where
  "getUUIDFieldArray b label = getArray getValue_UUID b label True"
definition getMatrixFieldArray :: "RepoBSON \<Rightarrow> string \<Rightarrow> (double list) list result" where
  "getMatrixFieldArray b label = getArray getValue_Matrix b label True"

definition getMatrixField :: "RepoBSON \<Rightarrow> string \<Rightarrow> double list result" where
  "getMatrixField b label = rbind (rbind (getField b label) el_Array) getMatrixFromArray"

definition vec3_of_array :: "bson list \<Rightarrow> vec3d result" where
  "vec3_of_array xs =
     rbind (rbind (arr_at xs 0) el_Double) (\<lambda>x.
     rbind (rbind (arr_at xs 1) el_Double) (\<lambda>y.
     rbind (rbind (arr_at xs 2) el_Double) (\<lambda>z. Inr (x, y, z))))"

definition getBoundsField :: "RepoBSON \<Rightarrow> string \<Rightarrow> RepoBounds result" where
  "getBoundsField b label =
     rbind (rbind (getField b label) el_Array) (\<lambda>outer.
     rbind (rbind (arr_at outer 0) el_Array) (\<lambda>mn.
     rbind (rbind (arr_at outer 1) el_Array) (\<lambda>mx.
     rbind (vec3_of_array mn) (\<lambda>lo. rbind (vec3_of_array mx) (\<lambda>hi. Inr (bounds_of lo hi))))))"

definition isEmpty :: "RepoBSON \<Rightarrow> bool" where
  "isEmpty b = (doc b = [] \<and> bigFiles b = [])"

text \<open>A \<open>std::set\<close> of strings, in its iteration order.\<close>

definition getFieldNames :: "RepoBSON \<Rightarrow> string list" where
  "getFieldNames b = sorted_list_of_set (fst ` set (doc b))"

definition bson_eq :: "RepoBSON \<Rightarrow> RepoBSON \<Rightarrow> bool" where
  "bson_eq a b = (doc a = doc b \<and> map_of (bigFiles a) = map_of (bigFiles b))"


subsection \<open>Building a document\<close>

record builder =
  core :: document
  binMapping :: "(string \<times> bytes) list"

definition RepoBSONBuilder :: builder where
  "RepoBSONBuilder = \<lparr>core = [], binMapping = []\<rparr>"

definition obj :: "builder \<Rightarrow> RepoBSON" where
  "obj b = \<lparr>doc = core b, bigFiles = binMapping b\<rparr>"

text \<open>\<open>key_owned(label); append(value)\<close>.\<close>

definition append_field :: "string \<Rightarrow> bson \<Rightarrow> builder \<Rightarrow> builder" where
  "append_field label v b = b\<lparr>core := core b @ [(label, v)]\<rparr>"

definition bson_of_uuid :: "uuid \<Rightarrow> bson" where
  "bson_of_uuid u = BBinary k_uuid_deprecated (uuid_data u)"

definition bson_of_array :: "('a \<Rightarrow> bson) \<Rightarrow> 'a list \<Rightarrow> bson" where
  "bson_of_array f xs = BArray (map f xs)"

definition bson_of_vec3 :: "vec3d \<Rightarrow> bson" where
  "bson_of_vec3 v = (case v of (x, y, z) \<Rightarrow> BArray [BDouble x, BDouble y, BDouble z])"

definition bson_of_bounds :: "RepoBounds \<Rightarrow> bson" where
  "bson_of_bounds b = BArray [bson_of_vec3 (bmin b), bson_of_vec3 (bmax b)]"

definition bson_of_matrix :: "double list \<Rightarrow> bson" where
  "bson_of_matrix data =
     BArray (map (\<lambda>i. BArray (map (\<lambda>j. BDouble (data ! (i * 4 + j))) [0..<4])) [0..<4])"

definition bson_of_time :: "int \<Rightarrow> bson" where
  "bson_of_time ts = BDate (word_of_int (ts * 1000))"

record tm =
  tm_sec :: int
  tm_min :: int
  tm_hour :: int
  tm_mday :: int
  tm_mon :: int
  tm_year :: int
  tm_wday :: int
  tm_yday :: int
  tm_isdst :: int

text \<open>\<open>mktime\<close> depends on the process's time zone: it is an argument.\<close>

definition bson_of_tm :: "(tm \<Rightarrow> int) \<Rightarrow> tm \<Rightarrow> bson result" where
  "bson_of_tm mktime t =
     (let time = mktime t
      in if time = -1
         then Inl (RepoException ''Failed converting date to mongo compatible format. tm malformed or date pre 1970?'')
         else Inr (bson_of_time time))"

datatype RepoVariant =
  VBool bool | VInt "32 word" | VLong "64 word" | VDouble double | VString string | VTm tm | VUUID uuid

fun bson_of_variant :: "(tm \<Rightarrow> int) \<Rightarrow> RepoVariant \<Rightarrow> bson result" where
  "bson_of_variant mktime (VBool b) = Inr (BBool b)"
| "bson_of_variant mktime (VInt i) = Inr (BInt32 i)"
| "bson_of_variant mktime (VLong ll) = Inr (BInt64 ll)"
| "bson_of_variant mktime (VDouble d) = Inr (BDouble d)"
| "bson_of_variant mktime (VString s) = Inr (BString s)"
| "bson_of_variant mktime (VTm t) = bson_of_tm mktime t"
| "bson_of_variant mktime (VUUID u) = Inr (bson_of_uuid u)"

text \<open>\<open>gmtime\<close> is the calendar the standard library has: an argument, too.\<close>

definition repoVariant :: "(int \<Rightarrow> tm) \<Rightarrow> bson \<Rightarrow> RepoVariant result" where
  "repoVariant gmtime e =
     (case element_type e of
        ET_BOOL \<Rightarrow> rbind (el_Bool e) (\<lambda>v. Inr (VBool v))
      | ET_DATE \<Rightarrow> rbind (el_TimeT e) (\<lambda>t. Inr (VTm (gmtime t)))
      | ET_INT \<Rightarrow> rbind (el_Int e) (\<lambda>v. Inr (VInt v))
      | ET_LONG \<Rightarrow> rbind (el_Long e) (\<lambda>v. Inr (VLong v))
      | ET_DOUBLE \<Rightarrow> rbind (el_Double e) (\<lambda>v. Inr (VDouble v))
      | ET_STRING \<Rightarrow> rbind (el_String e) (\<lambda>v. Inr (VString v))
      | ET_UUID \<Rightarrow> rbind (el_UUID e) (\<lambda>v. Inr (VUUID v))
      | _ \<Rightarrow> Inl (RepoException
          ''Cannot convert BSONElement to Variant because Variant will not accept the type.''))"

definition appendLargeArray :: "string \<Rightarrow> bytes \<Rightarrow> builder \<Rightarrow> builder" where
  "appendLargeArray name data b = b\<lparr>binMapping := AList.update name data (binMapping b)\<rparr>"

definition appendElements :: "RepoBSON \<Rightarrow> builder \<Rightarrow> builder" where
  "appendElements b bld = bld\<lparr>core := core bld @ doc b\<rparr>"

definition appendElementsUnique :: "RepoBSON \<Rightarrow> builder \<Rightarrow> builder" where
  "appendElementsUnique b bld =
     foldl (\<lambda>bld (k, v). if map_of (core bld) k = None then append_field k v bld else bld)
       bld (doc b)"

subsection \<open>Large binaries\<close>

text \<open>
  \<open>getBinariesAsBuffer\<close>: the buffers one after the other, and for each name where it starts and
  how long it is. The loop over \<open>bigFiles\<close> carries the document and the buffer built so far.
\<close>

definition binary_entry :: "nat \<Rightarrow> bytes \<Rightarrow> bson" where
  "binary_entry start data =
     BDocument (core (append_field REPO_LABEL_BINARY_SIZE (BInt64 (of_nat (length data)))
                 (append_field REPO_LABEL_BINARY_START (BInt64 (of_nat start)) RepoBSONBuilder)))"

fun collect_binaries :: "(string \<times> bytes) list \<Rightarrow> builder \<times> bytes \<Rightarrow> builder \<times> bytes" where
  "collect_binaries [] acc = acc"
| "collect_binaries ((name, data) # rest) (elems, buffer) =
     collect_binaries rest
       (append_field name (binary_entry (length buffer) data) elems, buffer @ data)"

definition getBinariesAsBuffer :: "RepoBSON \<Rightarrow> RepoBSON \<times> bytes" where
  "getBinariesAsBuffer b =
     (if bigFiles b \<noteq> []
      then case collect_binaries (bigFiles b) (RepoBSONBuilder, []) of
             (elems, buffer) \<Rightarrow> (obj elems, buffer)
      else (\<lparr>doc = [], bigFiles = []\<rparr>, []))"

definition replaceBinaryWithReference :: "RepoBSON \<Rightarrow> RepoBSON \<Rightarrow> RepoBSON \<Rightarrow> RepoBSON" where
  "replaceBinaryWithReference fileRef elemRef b =
     (let ob = append_field REPO_LABEL_BINARY_BUFFER (BDocument (doc fileRef))
                 (append_field REPO_LABEL_BINARY_ELEMENTS (BDocument (doc elemRef)) RepoBSONBuilder);
          builder = appendElementsUnique b
                 (append_field REPO_LABEL_BINARY_REFERENCE (BDocument (doc (obj ob))) RepoBSONBuilder)
      in (obj builder)\<lparr>bigFiles := []\<rparr>)"

definition getBinaryReference :: "RepoBSON \<Rightarrow> RepoBSON result" where
  "getBinaryReference b =
     (if hasField b REPO_LABEL_BINARY_REFERENCE
      then rbind (getObjectField b REPO_LABEL_BINARY_REFERENCE)
             (\<lambda>extRef. getObjectField extRef REPO_LABEL_BINARY_BUFFER)
      else Inr \<lparr>doc = [], bigFiles = []\<rparr>)"

text \<open>
  \<open>vector(buffer.begin() + start, buffer.begin() + start + size)\<close>: outside the buffer it is
  undefined behaviour. The fields are 64-bit integers converted to \<open>size_t\<close>.
\<close>

definition buffer_slice :: "bytes \<Rightarrow> 64 word \<Rightarrow> 64 word \<Rightarrow> bytes result" where
  "buffer_slice buffer start sz =
     (if unat start + unat sz \<le> length buffer
      then Inr (take (unat sz) (drop (unat start) buffer))
      else Inl OutOfRange)"

definition init_element :: "bytes \<Rightarrow> RepoBSON \<Rightarrow> string \<Rightarrow> RepoBSON \<Rightarrow> RepoBSON result" where
  "init_element buffer elemRefs elem b =
     rbind (getObjectField elemRefs elem) (\<lambda>elemRefBson.
     rbind (getLongField elemRefBson REPO_LABEL_BINARY_START) (\<lambda>start.
     rbind (getLongField elemRefBson REPO_LABEL_BINARY_SIZE) (\<lambda>size.
     rbind (buffer_slice buffer start size) (\<lambda>data.
       Inr (b\<lparr>bigFiles := AList.update elem data (bigFiles b)\<rparr>)))))"

definition initBinaryBuffer :: "bytes \<Rightarrow> RepoBSON \<Rightarrow> RepoBSON result" where
  "initBinaryBuffer buffer b =
     (if hasField b REPO_LABEL_BINARY_REFERENCE
      then rbind (getObjectField b REPO_LABEL_BINARY_REFERENCE) (\<lambda>extRef.
           rbind (getObjectField extRef REPO_LABEL_BINARY_ELEMENTS) (\<lambda>elemRefs.
             rfold (init_element buffer elemRefs) (getFieldNames elemRefs) b))
      else Inr b)"

definition getBinary :: "RepoBSON \<Rightarrow> string \<Rightarrow> bytes result" where
  "getBinary b field =
     (case map_of (bigFiles b) field of
        Some data \<Rightarrow> Inr data
      | None \<Rightarrow> if hasField b field then Inl (RepoFieldTypeException field)
                else Inl (RepoFieldNotFoundException field))"

definition hasBinField :: "RepoBSON \<Rightarrow> string \<Rightarrow> bool" where
  "hasBinField b label = (map_of (bigFiles b) label \<noteq> None)"

definition unloadBinaryBuffers :: "RepoBSON \<Rightarrow> RepoBSON" where
  "unloadBinaryBuffers b = b\<lparr>bigFiles := []\<rparr>"

definition hasFileReference :: "RepoBSON \<Rightarrow> bool" where
  "hasFileReference b = hasField b REPO_LABEL_BINARY_REFERENCE"

definition hasOversizeFiles :: "RepoBSON \<Rightarrow> bool" where
  "hasOversizeFiles b = (length (bigFiles b) > 0)"


subsection \<open>Reading what was written\<close>

lemma obj_simps [simp]: "doc (obj b) = core b" "bigFiles (obj b) = binMapping b"
  by (simp_all add: obj_def)

lemma RepoBSONBuilder_simps [simp]: "core RepoBSONBuilder = []" "binMapping RepoBSONBuilder = []"
  by (simp_all add: RepoBSONBuilder_def)

lemma append_field_simps [simp]:
  "core (append_field l v b) = core b @ [(l, v)]"
  "binMapping (append_field l v b) = binMapping b"
  by (simp_all add: append_field_def)

lemma el_UUID_bson_of_uuid [simp]: "el_UUID (bson_of_uuid u) = Inr u"
  by (simp add: bson_of_uuid_def)

lemma getValue_UUID_bson_of_uuid [simp]: "getValue_UUID (bson_of_uuid u) = Inr u"
  by (simp add: bson_of_uuid_def)

lemma field_as_found [simp]:
  "map_of (doc b) l = Some v \<Longrightarrow> conv v = Inr x \<Longrightarrow> field_as conv b l = Inr x"
  by (simp add: field_as_def getField_def)

lemma hasField_iff [simp]: "hasField b l \<longleftrightarrow> map_of (doc b) l \<noteq> None"
  by (simp add: hasField_def)

lemma getArray_found:
  assumes "map_of (doc b) l = Some (bson_of_array g xs)" and "\<And>x. x \<in> set xs \<Longrightarrow> conv (g x) = Inr (h x)"
  shows "getArray conv b l m = Inr (map h xs)"
  using assms by (simp add: getArray_def bson_of_array_def rtraverse_all_Inr)

lemma getArray_missing [simp]: "map_of (doc b) l = None \<Longrightarrow> getArray conv b l True = Inr []"
  by (simp add: getArray_def)

lemma getMatrixField_bson_of_matrix:
  assumes "map_of (doc b) l = Some (bson_of_matrix m)" and "length m = 16"
  shows "getMatrixField b l = Inr m"
proof -
  have u: "[0..<4] = [0, 1, 2, 3::nat]" by (simp add: upt_conv_Cons)
  obtain a0 a1 a2 a3 a4 a5 a6 a7 a8 a9 a10 a11 a12 a13 a14 a15
    where "m = [a0, a1, a2, a3, a4, a5, a6, a7, a8, a9, a10, a11, a12, a13, a14, a15]"
    using assms(2) by (auto simp: length_Suc_conv eval_nat_numeral)
  then show ?thesis
    using assms(1)
    by (simp add: getMatrixField_def getField_def bson_of_matrix_def getMatrixFromArray_def
        arr_at_def u)
qed

lemma getBoundsField_bson_of_bounds:
  "map_of (doc b) l = Some (bson_of_bounds bb) \<Longrightarrow>
     getBoundsField b l = Inr (bounds_of (bmin bb) (bmax bb))"
  by (cases bb) (auto simp: getBoundsField_def getField_def bson_of_bounds_def bson_of_vec3_def
      vec3_of_array_def arr_at_def split: prod.splits)

text \<open>A time of whole seconds survives as long as its milliseconds fit in 64 bits.\<close>

lemma trunc_div_mult_1000 [simp]: "trunc_div (ts * 1000) 1000 = ts"
  by (simp add: trunc_div_def abs_mult sgn_mult flip: mult.assoc) (simp add: mult_sgn_abs)

lemma el_TimeT_bson_of_time:
  "- (2 ^ 63) \<le> ts * 1000 \<Longrightarrow> ts * 1000 < 2 ^ 63 \<Longrightarrow> el_TimeT (bson_of_time ts) = Inr ts"
proof -
  assume "- (2 ^ 63) \<le> ts * 1000" "ts * 1000 < 2 ^ 63"
  then have "sint (word_of_int (ts * 1000) :: 64 word) = ts * 1000"
    unfolding sint_sbintrunc' by (intro signed_take_bit_int_eq_self) simp_all
  then show ?thesis by (simp only: bson_of_time_def el_TimeT.simps trunc_div_mult_1000)
qed

text \<open>The fields of the document keep their values unless the builder already has the label.\<close>

lemma map_of_appendElementsUnique:
  "map_of (core (appendElementsUnique b bld)) l =
     (case map_of (core bld) l of Some v \<Rightarrow> Some v | None \<Rightarrow> map_of (doc b) l)"
proof -
  have "map_of (core (foldl (\<lambda>bld (k, v). if map_of (core bld) k = None then append_field k v bld else bld)
           bld kvs)) l =
      (case map_of (core bld) l of Some v \<Rightarrow> Some v | None \<Rightarrow> map_of kvs l)" for kvs
  proof (induction kvs arbitrary: bld)
    case Nil
    then show ?case by (simp split: option.split)
  next
    case (Cons kv kvs)
    then show ?case
      by (cases kv; cases "map_of (core bld) (fst kv)")
        (auto simp: map_add_def split: option.split)
  qed
  then show ?thesis by (simp add: appendElementsUnique_def)
qed

lemma binMapping_appendElementsUnique [simp]:
  "binMapping (appendElementsUnique b bld) = binMapping bld"
proof -
  have "binMapping (foldl (\<lambda>bld (k, v). if map_of (core bld) k = None then append_field k v bld else bld)
           bld kvs) = binMapping bld" for kvs
    by (induction kvs arbitrary: bld) (auto)
  then show ?thesis by (simp add: appendElementsUnique_def)
qed


subsection \<open>Binaries survive being stored\<close>

text \<open>
  \<open>placed pos bigs name data\<close>: in the buffer of \<open>bigs\<close> laid out from \<open>pos\<close> on, \<open>name\<close> starts
  where \<open>start_of\<close> says.
\<close>

fun start_of :: "(string \<times> bytes) list \<Rightarrow> string \<Rightarrow> nat" where
  "start_of [] name = 0"
| "start_of ((n, d) # rest) name = (if n = name then 0 else length d + start_of rest name)"

lemma collect_binaries_buffer:
  "snd (collect_binaries bigs (elems, buffer)) = buffer @ concat (map snd bigs)"
  by (induction bigs arbitrary: elems buffer) auto

lemma collect_binaries_elems:
  "core (fst (collect_binaries bigs (elems, buffer))) =
     core elems @ core (fst (collect_binaries bigs (RepoBSONBuilder, buffer)))"
proof (induction bigs arbitrary: elems buffer)
  case Nil
  then show ?case by simp
next
  case (Cons nd bigs)
  obtain n d where nd: "nd = (n, d)" by fastforce
  show ?case
    unfolding nd collect_binaries.simps
    by (subst (1 2) Cons.IH) simp
qed

lemma collect_binaries_names:
  "map fst (core (fst (collect_binaries bigs (RepoBSONBuilder, buffer)))) = map fst bigs"
proof (induction bigs arbitrary: buffer)
  case (Cons nd bigs)
  then show ?case by (cases nd) (simp, subst collect_binaries_elems, simp)
qed simp

lemma collect_binaries_entry:
  assumes "map_of bigs name = Some data"
  shows "map_of (core (fst (collect_binaries bigs (RepoBSONBuilder, buffer)))) name =
           Some (binary_entry (length buffer + start_of bigs name) data)"
  using assms
proof (induction bigs arbitrary: buffer)
  case Nil
  then show ?case by simp
next
  case (Cons nd bigs)
  obtain n d where nd: "nd = (n, d)" by fastforce
  show ?case
  proof (cases "n = name")
    case True
    then show ?thesis
      using Cons.prems by (simp add: nd, subst collect_binaries_elems, simp)
  next
    case False
    then have "map_of (core (fst (collect_binaries bigs (RepoBSONBuilder, buffer @ d)))) name =
          Some (binary_entry (length (buffer @ d) + start_of bigs name) data)"
      using Cons.prems Cons.IH by (simp add: nd)
    then show ?thesis
      using False by (simp add: nd, subst collect_binaries_elems, simp add: add.assoc)
  qed
qed

lemma start_of_slice:
  assumes "map_of bigs name = Some data"
  shows "start_of bigs name + length data \<le> length (concat (map snd bigs)) \<and>
         take (length data) (drop (start_of bigs name) (concat (map snd bigs))) = data"
  using assms by (induction bigs) (auto split: if_splits)

lemma binary_entry_fields:
  assumes "map_of (doc b) name = Some (binary_entry start data)"
  shows "getObjectField b name = Inr \<lparr>doc = [(REPO_LABEL_BINARY_START, BInt64 (of_nat start)),
           (REPO_LABEL_BINARY_SIZE, BInt64 (of_nat (length data)))], bigFiles = []\<rparr>"
  using assms by (simp add: getters binary_entry_def)

lemma init_element_entry:
  assumes e: "map_of (doc elemRefs) name = Some (binary_entry start data)"
    and fits: "start + length data \<le> length buffer" and small: "length buffer < 2 ^ 64"
    and slice: "take (length data) (drop start buffer) = data"
  shows "init_element buffer elemRefs name b =
           Inr (b\<lparr>bigFiles := AList.update name data (bigFiles b)\<rparr>)"
proof -
  have "unat (of_nat start :: 64 word) = start" "unat (of_nat (length data) :: 64 word) = length data"
    using fits small by (simp_all add: unat_of_nat take_bit_nat_eq_self)
  then have "buffer_slice buffer (of_nat start) (of_nat (length data)) = Inr data"
    using fits slice by (simp add: buffer_slice_def)
  then show ?thesis
    unfolding init_element_def binary_entry_fields [OF e]
    by (simp add: getLongField_def binary_labels)
qed

lemma init_element_doc: "init_element buffer \<lparr>doc = doc r, bigFiles = bs\<rparr> = init_element buffer r"
  by (intro ext) (simp add: init_element_def getters field_as_def getField_def)

lemma rfold_init_elements:
  assumes "\<And>name. name \<in> set names \<Longrightarrow> \<exists>data. map_of bigs name = Some data"
    and "doc elemRefs = core (fst (collect_binaries bigs (RepoBSONBuilder, [])))"
    and "length (concat (map snd bigs)) < 2 ^ 64"
  shows "\<exists>b'. rfold (init_element (concat (map snd bigs)) elemRefs) names b = Inr b' \<and>
           doc b' = doc b \<and>
           map_of (bigFiles b') = (\<lambda>n. if n \<in> set names then map_of bigs n else map_of (bigFiles b) n)"
  using assms(1)
proof (induction names arbitrary: b)
  case Nil
  then show ?case by simp
next
  case (Cons name names)
  obtain data where d: "map_of bigs name = Some data" using Cons.prems by auto
  have "init_element (concat (map snd bigs)) elemRefs name b =
          Inr (b\<lparr>bigFiles := AList.update name data (bigFiles b)\<rparr>)"
    using collect_binaries_entry [OF d, of "[]"] start_of_slice [OF d] assms(2,3)
    by (intro init_element_entry) auto
  with Cons.IH [of "b\<lparr>bigFiles := AList.update name data (bigFiles b)\<rparr>"] Cons.prems d
  show ?case by (auto simp: fun_eq_iff update_conv')
qed

lemma initBinaryBuffer_restores:
  assumes small: "length buffer < 2 ^ 64"
    and ser: "getBinariesAsBuffer b = (elemRefs, buffer)"
  shows "\<exists>b'. initBinaryBuffer buffer (replaceBinaryWithReference fileRef elemRefs b) = Inr b' \<and>
           map_of (bigFiles b') = map_of (bigFiles b) \<and>
           getBinaryReference b' = Inr \<lparr>doc = doc fileRef, bigFiles = []\<rparr> \<and>
           (\<forall>l. l \<noteq> REPO_LABEL_BINARY_REFERENCE \<longrightarrow> map_of (doc b') l = map_of (doc b) l)"
proof -
  let ?r = "replaceBinaryWithReference fileRef elemRefs b"
  let ?ref = "\<lparr>doc = [(REPO_LABEL_BINARY_ELEMENTS, BDocument (doc elemRefs)),
                    (REPO_LABEL_BINARY_BUFFER, BDocument (doc fileRef))], bigFiles = []\<rparr>"
  have core: "doc elemRefs = core (fst (collect_binaries (bigFiles b) (RepoBSONBuilder, [])))"
    and buf: "buffer = concat (map snd (bigFiles b))"
    using ser collect_binaries_buffer [of "bigFiles b" RepoBSONBuilder "[]"]
    by (auto simp: getBinariesAsBuffer_def split: if_splits prod.splits)
  have lookup: "map_of (doc ?r) l =
      (if l = REPO_LABEL_BINARY_REFERENCE then Some (BDocument (doc ?ref)) else map_of (doc b) l)" for l
    by (simp add: replaceBinaryWithReference_def map_of_appendElementsUnique Let_def)
  have "set (getFieldNames elemRefs) = fst ` set (bigFiles b)"
    using arg_cong [OF collect_binaries_names [of "bigFiles b" "[]"], of set]
    by (simp add: getFieldNames_def core)
  moreover have "\<exists>data. map_of (bigFiles b) name = Some data" if "name \<in> fst ` set (bigFiles b)" for name
    using that by (metis map_of_eq_None_iff not_None_eq)
  moreover have none: "bigFiles ?r = []"
    by (simp add: replaceBinaryWithReference_def Let_def)
  ultimately obtain b' where b': "rfold (init_element buffer elemRefs) (getFieldNames elemRefs) ?r = Inr b'"
      "doc b' = doc ?r"
      "map_of (bigFiles b') = (\<lambda>n. if n \<in> fst ` set (bigFiles b) then map_of (bigFiles b) n else None)"
    using rfold_init_elements [of "getFieldNames elemRefs" "bigFiles b" elemRefs ?r] core small
    unfolding buf by (auto simp: none cong: if_cong)
  have "(\<lambda>n. if n \<in> fst ` set (bigFiles b) then map_of (bigFiles b) n else None) = map_of (bigFiles b)"
    by (rule ext) (metis map_of_eq_None_iff)
  moreover have "initBinaryBuffer buffer ?r = Inr b'"
    using b'(1) lookup [of REPO_LABEL_BINARY_REFERENCE]
    by (simp add: initBinaryBuffer_def getters binary_labels init_element_doc getFieldNames_def)
  moreover have "getBinaryReference b' = Inr \<lparr>doc = doc fileRef, bigFiles = []\<rparr>"
    using b'(2) lookup [of REPO_LABEL_BINARY_REFERENCE]
    by (simp add: getBinaryReference_def getters binary_labels)
  ultimately show ?thesis using b'(2,3) lookup by auto
qed


subsection \<open>Properties\<close>

text \<open>
  C25: what is taken out of a document comes back: when the binaries of a document are collected
  into one buffer and replaced by a reference, the stored document leads to the reference, keeps
  every other field, and loading the buffer into it gives back each binary.
\<close>

theorem binaries_roundtrip:
  assumes "length buffer < 2 ^ 64" and "getBinariesAsBuffer b = (elemRefs, buffer)"
  shows "\<exists>b'. initBinaryBuffer buffer (replaceBinaryWithReference fileRef elemRefs b) = Inr b' \<and>
           (\<forall>name. map_of (bigFiles b') name = map_of (bigFiles b) name) \<and>
           getBinaryReference b' = Inr \<lparr>doc = doc fileRef, bigFiles = []\<rparr> \<and>
           (\<forall>l. l \<noteq> REPO_LABEL_BINARY_REFERENCE \<longrightarrow> map_of (doc b') l = map_of (doc b) l)"
proof -
  obtain b' where "initBinaryBuffer buffer (replaceBinaryWithReference fileRef elemRefs b) = Inr b'"
    "map_of (bigFiles b') = map_of (bigFiles b)"
    "getBinaryReference b' = Inr \<lparr>doc = doc fileRef, bigFiles = []\<rparr>"
    "\<forall>l. l \<noteq> REPO_LABEL_BINARY_REFERENCE \<longrightarrow> map_of (doc b') l = map_of (doc b) l"
    using initBinaryBuffer_restores [OF assms, of fileRef] by (elim exE conjE)
  then show ?thesis by (intro exI [of _ b']) simp
qed

definition sample_bson :: RepoBSON where
  "sample_bson = \<lparr>doc = [(''type'', BString ''mesh'')],
                  bigFiles = [(''vertices'', [1, 2, 3]), (''faces'', [9])]\<rparr>"

theorem binaries_roundtrip_witness:
  "\<exists>b'. initBinaryBuffer [1, 2, 3, 9]
          (replaceBinaryWithReference \<lparr>doc = [(''name'', BString ''f'')], bigFiles = []\<rparr>
             (fst (getBinariesAsBuffer sample_bson)) sample_bson) = Inr b' \<and>
        map_of (bigFiles b') ''faces'' = Some [9] \<and> map_of (doc b') ''type'' = Some (BString ''mesh'')"
proof -
  have "getBinariesAsBuffer sample_bson = (fst (getBinariesAsBuffer sample_bson), [1, 2, 3, 9])"
    by (simp add: getBinariesAsBuffer_def sample_bson_def)
  from binaries_roundtrip [OF _ this, of "\<lparr>doc = [(''name'', BString ''f'')], bigFiles = []\<rparr>"]
  show ?thesis by (auto simp: sample_bson_def binary_labels)
qed

text \<open>
  A field is never misread: a typed getter returns a value only when the first field of that
  label has exactly that type, a missing field is a field-not-found exception and any other type a
  field type exception.
\<close>

theorem getters_checked:
  "getStringField b l =
     (case map_of (doc b) l of
        None \<Rightarrow> Inl (RepoFieldNotFoundException l)
      | Some (BString s) \<Rightarrow> Inr s
      | Some _ \<Rightarrow> Inl (RepoFieldTypeException l)) \<and>
   getLongField b l =
     (case map_of (doc b) l of
        None \<Rightarrow> Inl (RepoFieldNotFoundException l)
      | Some (BInt64 i) \<Rightarrow> Inr i
      | Some (BInt32 i) \<Rightarrow> Inr (scast i)
      | Some _ \<Rightarrow> Inl (RepoFieldTypeException l)) \<and>
   getDoubleField b l =
     (case map_of (doc b) l of
        None \<Rightarrow> Inl (RepoFieldNotFoundException l)
      | Some (BDouble d) \<Rightarrow> Inr d
      | Some _ \<Rightarrow> Inl (RepoFieldTypeException l)) \<and>
   getBoolField b l =
     (case map_of (doc b) l of
        None \<Rightarrow> Inl (RepoFieldNotFoundException l)
      | Some (BBool v) \<Rightarrow> Inr v
      | Some _ \<Rightarrow> Inl (RepoFieldTypeException l))"
proof (cases "map_of (doc b) l")
  case None
  then show ?thesis by (simp add: getters getLongField_def field_as_def getField_def)
next
  case (Some v)
  then show ?thesis
    by (cases v) (simp_all add: getters getLongField_def field_as_def getField_def)
qed

text \<open>
  An array that is not there is empty for the getters that allow it, and one bad element
  makes the whole read a field type exception; but a field that is no array at all is not turned
  into one of the program's exceptions.
\<close>

theorem getUUIDFieldArray_cases:
  "getUUIDFieldArray b l =
     (case map_of (doc b) l of
        None \<Rightarrow> Inr []
      | Some (BArray xs) \<Rightarrow>
          rtraverse (\<lambda>e. case e of
            BBinary sub bs \<Rightarrow>
              if sub \<noteq> 3 \<and> sub \<noteq> 4 then Inl (RepoFieldTypeException l)
              else if length bs = 16 then Inr (uuid_of_data bs) else Inl OutOfRange
          | _ \<Rightarrow> Inl (RepoFieldTypeException l)) xs
      | Some _ \<Rightarrow> Inl BsoncxxException)"
proof -
  have "(\<lambda>e. case getValue_UUID e of Inl OutOfRange \<Rightarrow> Inl OutOfRange
                       | Inl _ \<Rightarrow> Inl (RepoFieldTypeException l)
                       | Inr x \<Rightarrow> Inr x) =
        (\<lambda>e. case e of
            BBinary sub bs \<Rightarrow>
              if sub \<noteq> 3 \<and> sub \<noteq> 4 then Inl (RepoFieldTypeException l)
              else if length bs = 16 then Inr (uuid_of_data bs) else Inl OutOfRange
          | _ \<Rightarrow> Inl (RepoFieldTypeException l))"
    by (rule ext) (simp add: k_uuid_def k_uuid_deprecated_def split: bson.split)
  then show ?thesis
    by (simp add: getUUIDFieldArray_def getArray_def split: option.split bson.split)
qed

text \<open>
  A box that is stored and read back is the same box, compared as the program compares
  boxes, when its lower corner is below its upper one; but the empty box, which contains nothing,
  is read back as the box of every finite point, because the constructor that reads it swaps the
  corners it is given.
\<close>

theorem getBoundsField_roundtrip:
  assumes "map_of (doc b) l = Some (bson_of_bounds bb)"
  shows "\<exists>r. getBoundsField b l = Inr r \<and> (bounds_proper bb \<longrightarrow> bounds_eq r bb) \<and>
           (bb = empty_bounds \<longrightarrow> (\<forall>p. bounds_contains r p = vec_finite p))"
proof -
  have "bounds_contains (bounds_of (bmin empty_bounds) (bmax empty_bounds)) p = vec_finite p" for p
    by (auto simp: bounds_of_empty bounds_contains_iff vec_finite_def)
  then show ?thesis
    using getBoundsField_bson_of_bounds [OF assms] bounds_of_proper [of bb] by auto
qed

theorem getBoundsField_roundtrip_witness:
  "\<exists>r. getBoundsField \<lparr>doc = [(''bounding_box'', bson_of_bounds empty_bounds)], bigFiles = []\<rparr>
          ''bounding_box'' = Inr r \<and>
       bounds_contains r (d_one, d_two, 0) \<and> \<not> bounds_contains empty_bounds (d_one, d_two, 0)"
proof -
  let ?b = "\<lparr>doc = [(''bounding_box'', bson_of_bounds empty_bounds)], bigFiles = []\<rparr>"
  have "map_of (doc ?b) ''bounding_box'' = Some (bson_of_bounds empty_bounds)" by simp
  moreover have "vec_finite (d_one, d_two, 0)" "\<not> bounds_contains empty_bounds (d_one, d_two, 0)"
    by (simp_all add: vec_finite_def bounds_contains_def empty_bounds_def d_eval)
  ultimately show ?thesis
    using getBoundsField_roundtrip [of ?b "''bounding_box''" empty_bounds] by auto
qed

end
