(* ===== verification/Node.thy ===== *)
theory Node
  imports Bson "HOL-Library.FSet"
begin

text \<open>
  Database nodes: the base class \<open>RepoNode\<close> (\<open>core/model/bson/repo_node.cpp\<close>, \<open>.h\<close>) and its
  subclasses for transformations, metadata, textures, materials and revisions. A class is one
  record, \<open>RepoNode\<close>, whose \<open>content\<close> has a constructor for each dynamic type: a virtual
  function is a case distinction on it. Mesh nodes carry the data that theory \<open>Mesh\<close> reads and
  writes. \<open>std::set\<close> of parents is a finite set; an \<open>unordered_map\<close> is an association list in
  iteration order. \<open>RepoUUID::createUUID\<close> is a random number: a new identifier is an argument.
\<close>

type_synonym vec3f = "cfloat \<times> cfloat \<times> cfloat"
type_synonym vec2f = "cfloat \<times> cfloat"
type_synonym color3 = "cfloat \<times> cfloat \<times> cfloat"
type_synonym face = "32 word list"

subsection \<open>Data\<close>

record repo_material =
  ambient :: color3
  diffuse :: color3
  specular :: color3
  emissive :: color3
  opacity :: cfloat
  shininess :: cfloat
  shininessStrength :: cfloat
  lineWeight :: cfloat
  isWireframe :: bool
  isTwoSided :: bool
  texturePath :: string

definition f_one :: cfloat where "f_one = 0x3F800000"
definition f_quiet_NaN :: cfloat where "f_quiet_NaN = 0x7FC00000"

definition default_material :: repo_material where
  "default_material = \<lparr>ambient = (0, 0, 0), diffuse = (0, 0, 0), specular = (0, 0, 0),
     emissive = (0, 0, 0), opacity = f_one, shininess = 0, shininessStrength = 0,
     lineWeight = f_one, isWireframe = False, isTwoSided = False, texturePath = []\<rparr>"

record texture =
  tex_data :: bytes
  extension :: string
  tex_width :: "32 word"
  tex_height :: "32 word"

record mesh =
  primitive :: "32 word"
  boundingBox :: RepoBounds
  faces :: "face list"
  vertices :: "vec3f list"
  normals :: "vec3f list"
  channels :: "vec2f list list"
  grouping :: string
  textureId :: uuid
  mesh_material :: repo_material

record revision =
  author :: string
  timestamp :: int

record model_revision = revision +
  offset :: "double list"
  message :: string
  tag :: string
  files :: "string list"
  upload_status :: "32 word"

record drawing_revision = revision +
  drawing_files :: "uuid list"
  drawing_project :: uuid
  drawing_image :: uuid
  drawing_model :: string
  drawing_format :: string
  incomplete :: bool

datatype node_content =
    NoContent
  | TransformationNode "double list"
  | MetadataNode "(string \<times> RepoVariant) list"
  | TextureNode texture
  | MaterialNode repo_material
  | MeshNode mesh
  | SupermeshNode mesh
  | ModelRevisionNode model_revision
  | DrawingRevisionNode drawing_revision

record RepoNode =
  node_name :: string
  uniqueId :: uuid
  sharedId :: uuid
  parentIds :: "uuid fset"
  revId :: uuid
  content :: node_content

subsection \<open>Types of node\<close>

datatype NodeType = MATERIAL | MESH | METADATA | REVISION | TEXTURE | TRANSFORMATION | UNKNOWN

definition REPO_NODE_TYPE_TRANSFORMATION :: string where "REPO_NODE_TYPE_TRANSFORMATION = ''transformation''"
definition REPO_NODE_TYPE_MESH :: string where "REPO_NODE_TYPE_MESH = ''mesh''"
definition REPO_NODE_TYPE_MATERIAL :: string where "REPO_NODE_TYPE_MATERIAL = ''material''"
definition REPO_NODE_TYPE_TEXTURE :: string where "REPO_NODE_TYPE_TEXTURE = ''texture''"
definition REPO_NODE_TYPE_METADATA :: string where "REPO_NODE_TYPE_METADATA = ''meta''"
definition REPO_NODE_TYPE_REVISION :: string where "REPO_NODE_TYPE_REVISION = ''revision''"

lemmas node_type_labels = REPO_NODE_TYPE_TRANSFORMATION_def REPO_NODE_TYPE_MESH_def
  REPO_NODE_TYPE_MATERIAL_def REPO_NODE_TYPE_TEXTURE_def REPO_NODE_TYPE_METADATA_def
  REPO_NODE_TYPE_REVISION_def

definition parseType :: "string \<Rightarrow> NodeType" where
  "parseType nodeType =
     (if nodeType = REPO_NODE_TYPE_TRANSFORMATION then TRANSFORMATION
      else if nodeType = REPO_NODE_TYPE_MESH then MESH
      else if nodeType = REPO_NODE_TYPE_MATERIAL then MATERIAL
      else if nodeType = REPO_NODE_TYPE_TEXTURE then TEXTURE
      else if nodeType = REPO_NODE_TYPE_METADATA then METADATA
      else if nodeType = REPO_NODE_TYPE_REVISION then REVISION
      else UNKNOWN)"

fun content_type :: "node_content \<Rightarrow> string" where
  "content_type NoContent = []"
| "content_type (TransformationNode _) = REPO_NODE_TYPE_TRANSFORMATION"
| "content_type (MetadataNode _) = REPO_NODE_TYPE_METADATA"
| "content_type (TextureNode _) = REPO_NODE_TYPE_TEXTURE"
| "content_type (MaterialNode _) = REPO_NODE_TYPE_MATERIAL"
| "content_type (MeshNode _) = REPO_NODE_TYPE_MESH"
| "content_type (SupermeshNode _) = REPO_NODE_TYPE_MESH"
| "content_type (ModelRevisionNode _) = REPO_NODE_TYPE_REVISION"
| "content_type (DrawingRevisionNode _) = REPO_NODE_TYPE_REVISION"

definition getType :: "RepoNode \<Rightarrow> string" where
  "getType n = content_type (content n)"

text \<open>The overrides of \<open>getTypeAsEnum\<close>; the base class parses its type string.\<close>

fun content_type_enum :: "node_content \<Rightarrow> NodeType" where
  "content_type_enum NoContent = parseType []"
| "content_type_enum (TransformationNode _) = TRANSFORMATION"
| "content_type_enum (MetadataNode _) = METADATA"
| "content_type_enum (TextureNode _) = TEXTURE"
| "content_type_enum (MaterialNode _) = MATERIAL"
| "content_type_enum (MeshNode _) = MESH"
| "content_type_enum (SupermeshNode _) = MESH"
| "content_type_enum (ModelRevisionNode _) = REVISION"
| "content_type_enum (DrawingRevisionNode _) = REVISION"

definition getTypeAsEnum :: "RepoNode \<Rightarrow> NodeType" where
  "getTypeAsEnum n = content_type_enum (content n)"

lemma content_type_enum_parse: "content_type_enum c = parseType (content_type c)"
  by (cases c) (simp_all add: parseType_def node_type_labels)

subsection \<open>The base class\<close>

definition RepoNode_default :: "uuid \<Rightarrow> RepoNode" where
  "RepoNode_default newId = \<lparr>node_name = [], uniqueId = newId, sharedId = default_uuid,
     parentIds = {||}, revId = default_uuid, content = NoContent\<rparr>"

definition addParent :: "uuid \<Rightarrow> RepoNode \<Rightarrow> RepoNode" where
  "addParent parent n = n\<lparr>parentIds := finsert parent (parentIds n)\<rparr>"

definition addParents :: "uuid list \<Rightarrow> RepoNode \<Rightarrow> RepoNode" where
  "addParents parents n = foldl (\<lambda>n p. n\<lparr>parentIds := finsert p (parentIds n)\<rparr>) n parents"

definition setParents :: "uuid list \<Rightarrow> RepoNode \<Rightarrow> RepoNode" where
  "setParents parents n = addParents parents (n\<lparr>parentIds := {||}\<rparr>)"

definition removeParent :: "uuid \<Rightarrow> RepoNode \<Rightarrow> RepoNode" where
  "removeParent parent n = n\<lparr>parentIds := parentIds n |-| {|parent|}\<rparr>"

definition changeName :: "uuid \<Rightarrow> string \<Rightarrow> bool \<Rightarrow> RepoNode \<Rightarrow> RepoNode" where
  "changeName newId newName newUniqueID n =
     (let n = n\<lparr>node_name := newName\<rparr> in if newUniqueID then n\<lparr>uniqueId := newId\<rparr> else n)"

definition getParentIDs :: "RepoNode \<Rightarrow> uuid list" where
  "getParentIDs n = sorted_list_of_fset (parentIds n)"

definition node_eq :: "RepoNode \<Rightarrow> RepoNode \<Rightarrow> bool" where
  "node_eq a b = (uniqueId a = uniqueId b \<and> sharedId a = sharedId b)"

definition node_neq :: "RepoNode \<Rightarrow> RepoNode \<Rightarrow> bool" where
  "node_neq a b = (uniqueId a \<noteq> uniqueId b \<or> sharedId a \<noteq> sharedId b \<or> parentIds a \<noteq> parentIds b)"

definition node_less :: "RepoNode \<Rightarrow> RepoNode \<Rightarrow> bool" where
  "node_less a b =
     (if sharedId a = sharedId b then uniqueId a < uniqueId b else sharedId a < sharedId b)"

text \<open>Labels of the base class's fields.\<close>

definition REPO_NODE_LABEL_ID :: string where "REPO_NODE_LABEL_ID = ''_id''"
definition REPO_NODE_LABEL_NAME :: string where "REPO_NODE_LABEL_NAME = ''name''"
definition REPO_NODE_LABEL_TYPE :: string where "REPO_NODE_LABEL_TYPE = ''type''"
definition REPO_NODE_LABEL_SHARED_ID :: string where "REPO_NODE_LABEL_SHARED_ID = ''shared_id''"
definition REPO_NODE_LABEL_PARENTS :: string where "REPO_NODE_LABEL_PARENTS = ''parents''"
definition REPO_NODE_REVISION_ID :: string where "REPO_NODE_REVISION_ID = ''rev_id''"

lemmas node_labels = REPO_NODE_LABEL_ID_def REPO_NODE_LABEL_NAME_def REPO_NODE_LABEL_TYPE_def
  REPO_NODE_LABEL_SHARED_ID_def REPO_NODE_LABEL_PARENTS_def REPO_NODE_REVISION_ID_def

text \<open>\<open>if (bson.hasField(label)) member = bson.get(label);\<close>\<close>

definition read_field :: "(RepoBSON \<Rightarrow> string \<Rightarrow> 'a result) \<Rightarrow> RepoBSON \<Rightarrow> string \<Rightarrow> ('a \<Rightarrow> 'n \<Rightarrow> 'n) \<Rightarrow>
    'n \<Rightarrow> 'n result" where
  "read_field get bson label upd n =
     (if hasField bson label then rbind (get bson label) (\<lambda>v. Inr (upd v n)) else Inr n)"

definition base_deserialise :: "RepoBSON \<Rightarrow> RepoNode \<Rightarrow> RepoNode result" where
  "base_deserialise bson n =
     rbind (read_field getUUIDField bson REPO_NODE_LABEL_ID (\<lambda>v. uniqueId_update (\<lambda>_. v)) n) (\<lambda>n.
     rbind (read_field getStringField bson REPO_NODE_LABEL_NAME (\<lambda>v. node_name_update (\<lambda>_. v)) n) (\<lambda>n.
     rbind (read_field getUUIDField bson REPO_NODE_LABEL_SHARED_ID (\<lambda>v. sharedId_update (\<lambda>_. v)) n) (\<lambda>n.
     rbind (read_field getUUIDField bson REPO_NODE_REVISION_ID (\<lambda>v. revId_update (\<lambda>_. v)) n) (\<lambda>n.
     rbind (getUUIDFieldArray bson REPO_NODE_LABEL_PARENTS) (\<lambda>parents.
       Inr (n\<lparr>parentIds := fset_of_list parents\<rparr>))))))"

text \<open>\<open>RepoNode(bson)\<close>: the name starts empty and the identifiers at their default.\<close>

definition RepoNode_of_bson :: "RepoBSON \<Rightarrow> RepoNode result" where
  "RepoNode_of_bson bson = base_deserialise bson
     \<lparr>node_name = [], uniqueId = default_uuid, sharedId = default_uuid, parentIds = {||},
      revId = default_uuid, content = NoContent\<rparr>"

definition append_if :: "bool \<Rightarrow> string \<Rightarrow> bson \<Rightarrow> builder \<Rightarrow> builder" where
  "append_if c label v b = (if c then append_field label v b else b)"

definition base_serialise :: "RepoNode \<Rightarrow> builder \<Rightarrow> builder" where
  "base_serialise n b =
     append_if (revId n \<noteq> default_uuid) REPO_NODE_REVISION_ID (bson_of_uuid (revId n))
     (append_if (parentIds n \<noteq> {||}) REPO_NODE_LABEL_PARENTS (bson_of_array bson_of_uuid (getParentIDs n))
     (append_field REPO_NODE_LABEL_ID (bson_of_uuid (uniqueId n))
     (append_if (sharedId n \<noteq> default_uuid) REPO_NODE_LABEL_SHARED_ID (bson_of_uuid (sharedId n))
     (append_if (getType n \<noteq> []) REPO_NODE_LABEL_TYPE (BString (getType n))
     (append_if (node_name n \<noteq> []) REPO_NODE_LABEL_NAME (BString (node_name n)) b)))))"

subsection \<open>Subclasses\<close>

definition REPO_NODE_LABEL_MATRIX :: string where "REPO_NODE_LABEL_MATRIX = ''matrix''"
definition REPO_NODE_LABEL_METADATA :: string where "REPO_NODE_LABEL_METADATA = ''metadata''"
definition REPO_NODE_LABEL_META_KEY :: string where "REPO_NODE_LABEL_META_KEY = ''key''"
definition REPO_NODE_LABEL_META_VALUE :: string where "REPO_NODE_LABEL_META_VALUE = ''value''"
definition REPO_LABEL_DATA :: string where "REPO_LABEL_DATA = ''data''"
definition REPO_LABEL_WIDTH :: string where "REPO_LABEL_WIDTH = ''width''"
definition REPO_LABEL_HEIGHT :: string where "REPO_LABEL_HEIGHT = ''height''"
definition REPO_NODE_LABEL_EXTENSION :: string where "REPO_NODE_LABEL_EXTENSION = ''extension''"

lemmas subclass_labels = REPO_NODE_LABEL_MATRIX_def REPO_NODE_LABEL_METADATA_def
  REPO_NODE_LABEL_META_KEY_def REPO_NODE_LABEL_META_VALUE_def REPO_LABEL_DATA_def
  REPO_LABEL_WIDTH_def REPO_LABEL_HEIGHT_def REPO_NODE_LABEL_EXTENSION_def

text \<open>Transformations.\<close>

definition d_identity :: "double list" where
  "d_identity = [d_one, 0, 0, 0, 0, d_one, 0, 0, 0, 0, d_one, 0, 0, 0, 0, d_one]"

definition transformation_deserialise :: "RepoBSON \<Rightarrow> double list \<Rightarrow> double list result" where
  "transformation_deserialise bson matrix =
     read_field getMatrixField bson REPO_NODE_LABEL_MATRIX (\<lambda>v _. v) matrix"

definition transformation_serialise :: "double list \<Rightarrow> builder \<Rightarrow> builder" where
  "transformation_serialise matrix b = append_field REPO_NODE_LABEL_MATRIX (bson_of_matrix matrix) b"

definition TransformationNode_of_bson :: "RepoBSON \<Rightarrow> RepoNode result" where
  "TransformationNode_of_bson bson =
     rbind (RepoNode_of_bson bson) (\<lambda>n.
     rbind (transformation_deserialise bson d_identity) (\<lambda>m. Inr (n\<lparr>content := TransformationNode m\<rparr>)))"

text \<open>Metadata. A key's dollars and dots become colons when it is set, not when it is stored.\<close>

definition keyCheck :: "char \<Rightarrow> bool" where
  "keyCheck c = (c = CHR ''$'' \<or> c = CHR ''.'')"

definition sanitiseKey :: "string \<Rightarrow> string" where
  "sanitiseKey key = map (\<lambda>c. if keyCheck c then CHR '':'' else c) key"

definition setMetadata ::
  "(string \<times> RepoVariant) list \<Rightarrow> (string \<times> RepoVariant) list \<Rightarrow> (string \<times> RepoVariant) list" where
  "setMetadata values metadataMap = foldl (\<lambda>m (k, v). AList.update (sanitiseKey k) v m) metadataMap values"

definition meta_entry :: "(tm \<Rightarrow> int) \<Rightarrow> string \<times> RepoVariant \<Rightarrow> bson result" where
  "meta_entry mktime e =
     rbind (bson_of_variant mktime (snd e)) (\<lambda>v. Inr (BDocument (doc (obj
       (append_field REPO_NODE_LABEL_META_VALUE v
         (append_field REPO_NODE_LABEL_META_KEY (BString (fst e)) RepoBSONBuilder))))))"

definition metadata_serialise ::
  "(tm \<Rightarrow> int) \<Rightarrow> (string \<times> RepoVariant) list \<Rightarrow> builder \<Rightarrow> builder result" where
  "metadata_serialise mktime metadataMap b =
     rbind (rtraverse (meta_entry mktime) (filter (\<lambda>e. fst e \<noteq> []) metadataMap))
       (\<lambda>metaEntries. Inr (append_field REPO_NODE_LABEL_METADATA (BArray metaEntries) b))"

definition metadata_read_field ::
  "(int \<Rightarrow> tm) \<Rightarrow> RepoBSON \<Rightarrow> (string \<times> RepoVariant) list \<Rightarrow> (string \<times> RepoVariant) list result" where
  "metadata_read_field gmtime field m =
     rbind (getStringField field REPO_NODE_LABEL_META_KEY) (\<lambda>key.
     rbind (rbind (getField field REPO_NODE_LABEL_META_VALUE) (repoVariant gmtime)) (\<lambda>v.
       Inr (AList.update key v m)))"

definition metadata_deserialise ::
  "(int \<Rightarrow> tm) \<Rightarrow> RepoBSON \<Rightarrow> (string \<times> RepoVariant) list result" where
  "metadata_deserialise gmtime bson =
     (if hasField bson REPO_NODE_LABEL_METADATA
      then rbind (getObjectArray bson REPO_NODE_LABEL_METADATA)
             (\<lambda>metadata. rfold (metadata_read_field gmtime) metadata [])
      else Inr [])"

definition MetadataNode_of_bson :: "(int \<Rightarrow> tm) \<Rightarrow> RepoBSON \<Rightarrow> RepoNode result" where
  "MetadataNode_of_bson gmtime bson =
     rbind (RepoNode_of_bson bson) (\<lambda>n.
     rbind (metadata_deserialise gmtime bson) (\<lambda>m. Inr (n\<lparr>content := MetadataNode m\<rparr>)))"

text \<open>
  Textures. \<open>getBinaryFieldAsVector\<close> makes room for whole elements of \<open>sz\<close> bytes and copies the
  whole buffer: a size that is no multiple overruns.
\<close>

definition getBinaryFieldAsVector :: "nat \<Rightarrow> RepoBSON \<Rightarrow> string \<Rightarrow> bytes result" where
  "getBinaryFieldAsVector sz bson field =
     rbind (getBinary bson field) (\<lambda>buf. if length buf mod sz = 0 then Inr buf else Inl OutOfRange)"

definition texture_deserialise :: "RepoBSON \<Rightarrow> texture \<Rightarrow> texture result" where
  "texture_deserialise bson t =
     rbind (if hasBinField bson REPO_LABEL_DATA
            then rbind (getBinaryFieldAsVector 1 bson REPO_LABEL_DATA) (\<lambda>d. Inr (t\<lparr>tex_data := d\<rparr>))
            else Inr t) (\<lambda>t.
     rbind (read_field getIntField bson REPO_LABEL_WIDTH (\<lambda>v. tex_width_update (\<lambda>_. v)) t) (\<lambda>t.
     rbind (read_field getIntField bson REPO_LABEL_HEIGHT (\<lambda>v. tex_height_update (\<lambda>_. v)) t) (\<lambda>t.
       read_field getStringField bson REPO_NODE_LABEL_EXTENSION (\<lambda>v. extension_update (\<lambda>_. v)) t)))"

definition texture_serialise :: "texture \<Rightarrow> builder \<Rightarrow> builder" where
  "texture_serialise t b =
     (let b = append_if (extension t \<noteq> []) REPO_NODE_LABEL_EXTENSION (BString (extension t))
                (append_field REPO_LABEL_HEIGHT (BInt32 (tex_height t))
                  (append_field REPO_LABEL_WIDTH (BInt32 (tex_width t)) b))
      in if tex_data t \<noteq> [] then appendLargeArray REPO_LABEL_DATA (tex_data t) b else b)"

definition empty_texture :: texture where
  "empty_texture = \<lparr>tex_data = [], extension = [], tex_width = 0, tex_height = 0\<rparr>"

definition TextureNode_of_bson :: "RepoBSON \<Rightarrow> RepoNode result" where
  "TextureNode_of_bson bson =
     rbind (RepoNode_of_bson bson) (\<lambda>n.
     rbind (texture_deserialise bson empty_texture) (\<lambda>t. Inr (n\<lparr>content := TextureNode t\<rparr>)))"

definition texture_isEmpty :: "texture \<Rightarrow> bool" where
  "texture_isEmpty t = (tex_data t = [])"

text \<open>
  Materials. A colour converts to \<open>true\<close> when a component differs from zero, so a black colour is
  not stored; a NaN is not stored either, and a number that is not stored is read as NaN.
\<close>

definition REPO_NODE_MATERIAL_LABEL_AMBIENT :: string where "REPO_NODE_MATERIAL_LABEL_AMBIENT = ''ambient''"
definition REPO_NODE_MATERIAL_LABEL_DIFFUSE :: string where "REPO_NODE_MATERIAL_LABEL_DIFFUSE = ''diffuse''"
definition REPO_NODE_MATERIAL_LABEL_SPECULAR :: string where "REPO_NODE_MATERIAL_LABEL_SPECULAR = ''specular''"
definition REPO_NODE_MATERIAL_LABEL_EMISSIVE :: string where "REPO_NODE_MATERIAL_LABEL_EMISSIVE = ''emissive''"
definition REPO_NODE_MATERIAL_LABEL_WIREFRAME :: string where "REPO_NODE_MATERIAL_LABEL_WIREFRAME = ''wireframe''"
definition REPO_NODE_MATERIAL_LABEL_TWO_SIDED :: string where "REPO_NODE_MATERIAL_LABEL_TWO_SIDED = ''two_sided''"
definition REPO_NODE_MATERIAL_LABEL_OPACITY :: string where "REPO_NODE_MATERIAL_LABEL_OPACITY = ''opacity''"
definition REPO_NODE_MATERIAL_LABEL_SHININESS :: string where "REPO_NODE_MATERIAL_LABEL_SHININESS = ''shininess''"
definition REPO_NODE_MATERIAL_LABEL_SHININESS_STRENGTH :: string where
  "REPO_NODE_MATERIAL_LABEL_SHININESS_STRENGTH = ''shininess_strength''"
definition REPO_NODE_MATERIAL_LABEL_LINE_WEIGHT :: string where "REPO_NODE_MATERIAL_LABEL_LINE_WEIGHT = ''line_weight''"

lemmas material_labels = REPO_NODE_MATERIAL_LABEL_AMBIENT_def REPO_NODE_MATERIAL_LABEL_DIFFUSE_def
  REPO_NODE_MATERIAL_LABEL_SPECULAR_def REPO_NODE_MATERIAL_LABEL_EMISSIVE_def
  REPO_NODE_MATERIAL_LABEL_WIREFRAME_def REPO_NODE_MATERIAL_LABEL_TWO_SIDED_def
  REPO_NODE_MATERIAL_LABEL_OPACITY_def REPO_NODE_MATERIAL_LABEL_SHININESS_def
  REPO_NODE_MATERIAL_LABEL_SHININESS_STRENGTH_def REPO_NODE_MATERIAL_LABEL_LINE_WEIGHT_def

definition bson_of_float :: "cfloat \<Rightarrow> bson" where
  "bson_of_float f = BDouble (float_to_double f)"

definition bson_of_color :: "color3 \<Rightarrow> bson" where
  "bson_of_color col = (case col of (r, g, b) \<Rightarrow> BArray [bson_of_float r, bson_of_float g, bson_of_float b])"

definition color_bool :: "color3 \<Rightarrow> bool" where
  "color_bool col = (case col of (r, g, b) \<Rightarrow> \<not> f_eq r 0 \<or> \<not> f_eq g 0 \<or> \<not> f_eq b 0)"

definition material_serialise :: "repo_material \<Rightarrow> builder \<Rightarrow> builder" where
  "material_serialise m b =
     append_if (f_eq (lineWeight m) (lineWeight m)) REPO_NODE_MATERIAL_LABEL_LINE_WEIGHT (bson_of_float (lineWeight m))
     (append_if (f_eq (shininessStrength m) (shininessStrength m)) REPO_NODE_MATERIAL_LABEL_SHININESS_STRENGTH
       (bson_of_float (shininessStrength m))
     (append_if (f_eq (shininess m) (shininess m)) REPO_NODE_MATERIAL_LABEL_SHININESS (bson_of_float (shininess m))
     (append_if (f_eq (opacity m) (opacity m)) REPO_NODE_MATERIAL_LABEL_OPACITY (bson_of_float (opacity m))
     (append_if (isTwoSided m) REPO_NODE_MATERIAL_LABEL_TWO_SIDED (BBool (isTwoSided m))
     (append_if (isWireframe m) REPO_NODE_MATERIAL_LABEL_WIREFRAME (BBool (isWireframe m))
     (append_if (color_bool (emissive m)) REPO_NODE_MATERIAL_LABEL_EMISSIVE (bson_of_color (emissive m))
     (append_if (color_bool (specular m)) REPO_NODE_MATERIAL_LABEL_SPECULAR (bson_of_color (specular m))
     (append_if (color_bool (diffuse m)) REPO_NODE_MATERIAL_LABEL_DIFFUSE (bson_of_color (diffuse m))
     (append_if (color_bool (ambient m)) REPO_NODE_MATERIAL_LABEL_AMBIENT (bson_of_color (ambient m)) b)))))))))"

definition getValue_float :: "bson \<Rightarrow> cfloat result" where
  "getValue_float e = rbind (el_Double e) (\<lambda>d. Inr (double_to_float d))"

definition getFloatArray :: "RepoBSON \<Rightarrow> string \<Rightarrow> cfloat list result" where
  "getFloatArray b label = getArray getValue_float b label True"

text \<open>The conversion from a vector reads its first three elements.\<close>

definition color_of_vector :: "cfloat list \<Rightarrow> color3 result" where
  "color_of_vector v = (if 3 \<le> length v then Inr (v ! 0, v ! 1, v ! 2) else Inl OutOfRange)"

definition read_color :: "RepoBSON \<Rightarrow> string \<Rightarrow> (color3 \<Rightarrow> 'm \<Rightarrow> 'm) \<Rightarrow> 'm \<Rightarrow> 'm result" where
  "read_color bson label upd m =
     rbind (getFloatArray bson label) (\<lambda>tempVec.
       if length tempVec > 0 then rbind (color_of_vector tempVec) (\<lambda>c. Inr (upd c m)) else Inr m)"

definition read_flag :: "RepoBSON \<Rightarrow> string \<Rightarrow> bool result" where
  "read_flag bson label = (if hasField bson label then getBoolField bson label else Inr False)"

definition read_float :: "RepoBSON \<Rightarrow> string \<Rightarrow> cfloat result" where
  "read_float bson label =
     (if hasField bson label then rbind (getDoubleField bson label) (\<lambda>d. Inr (double_to_float d))
      else Inr f_quiet_NaN)"

definition material_deserialise :: "RepoBSON \<Rightarrow> repo_material \<Rightarrow> repo_material result" where
  "material_deserialise bson m =
     rbind (read_color bson REPO_NODE_MATERIAL_LABEL_AMBIENT (\<lambda>c. ambient_update (\<lambda>_. c)) m) (\<lambda>m.
     rbind (read_color bson REPO_NODE_MATERIAL_LABEL_DIFFUSE (\<lambda>c. diffuse_update (\<lambda>_. c)) m) (\<lambda>m.
     rbind (read_color bson REPO_NODE_MATERIAL_LABEL_SPECULAR (\<lambda>c. specular_update (\<lambda>_. c)) m) (\<lambda>m.
     rbind (read_color bson REPO_NODE_MATERIAL_LABEL_EMISSIVE (\<lambda>c. emissive_update (\<lambda>_. c)) m) (\<lambda>m.
     rbind (read_flag bson REPO_NODE_MATERIAL_LABEL_WIREFRAME) (\<lambda>wire.
     rbind (read_flag bson REPO_NODE_MATERIAL_LABEL_TWO_SIDED) (\<lambda>two.
     rbind (read_float bson REPO_NODE_MATERIAL_LABEL_OPACITY) (\<lambda>op.
     rbind (read_float bson REPO_NODE_MATERIAL_LABEL_SHININESS) (\<lambda>sh.
     rbind (read_float bson REPO_NODE_MATERIAL_LABEL_SHININESS_STRENGTH) (\<lambda>shs.
     rbind (read_float bson REPO_NODE_MATERIAL_LABEL_LINE_WEIGHT) (\<lambda>lw.
       Inr (m\<lparr>isWireframe := wire, isTwoSided := two, opacity := op, shininess := sh,
              shininessStrength := shs, lineWeight := lw\<rparr>)))))))))))"

definition MaterialNode_of_bson :: "RepoBSON \<Rightarrow> RepoNode result" where
  "MaterialNode_of_bson bson =
     rbind (RepoNode_of_bson bson) (\<lambda>n.
     rbind (material_deserialise bson default_material) (\<lambda>m. Inr (n\<lparr>content := MaterialNode m\<rparr>)))"

text \<open>Revisions.\<close>

definition REPO_NODE_REVISION_LABEL_AUTHOR :: string where "REPO_NODE_REVISION_LABEL_AUTHOR = ''author''"
definition REPO_NODE_REVISION_LABEL_TIMESTAMP :: string where "REPO_NODE_REVISION_LABEL_TIMESTAMP = ''timestamp''"
definition REPO_NODE_REVISION_LABEL_REF_FILE :: string where "REPO_NODE_REVISION_LABEL_REF_FILE = ''rFile''"
definition REPO_NODE_REVISION_LABEL_INCOMPLETE :: string where "REPO_NODE_REVISION_LABEL_INCOMPLETE = ''incomplete''"
definition REPO_NODE_REVISION_LABEL_MESSAGE :: string where "REPO_NODE_REVISION_LABEL_MESSAGE = ''desc''"
definition REPO_NODE_REVISION_LABEL_TAG :: string where "REPO_NODE_REVISION_LABEL_TAG = ''tag''"
definition REPO_NODE_REVISION_LABEL_WORLD_COORD_SHIFT :: string where
  "REPO_NODE_REVISION_LABEL_WORLD_COORD_SHIFT = ''coordOffset''"
definition REPO_NODE_DRAWING_REVISION_LABEL_PROJECT :: string where "REPO_NODE_DRAWING_REVISION_LABEL_PROJECT = ''project''"
definition REPO_NODE_DRAWING_REVISION_LABEL_MODEL :: string where "REPO_NODE_DRAWING_REVISION_LABEL_MODEL = ''model''"
definition REPO_NODE_LABEL_FORMAT :: string where "REPO_NODE_LABEL_FORMAT = ''format''"
definition REPO_LABEL_IMAGE :: string where "REPO_LABEL_IMAGE = ''image''"

lemmas revision_labels = REPO_NODE_REVISION_LABEL_AUTHOR_def REPO_NODE_REVISION_LABEL_TIMESTAMP_def
  REPO_NODE_REVISION_LABEL_REF_FILE_def REPO_NODE_REVISION_LABEL_INCOMPLETE_def
  REPO_NODE_REVISION_LABEL_MESSAGE_def REPO_NODE_REVISION_LABEL_TAG_def
  REPO_NODE_REVISION_LABEL_WORLD_COORD_SHIFT_def REPO_NODE_DRAWING_REVISION_LABEL_PROJECT_def
  REPO_NODE_DRAWING_REVISION_LABEL_MODEL_def REPO_NODE_LABEL_FORMAT_def REPO_LABEL_IMAGE_def

definition revision_deserialise :: "RepoBSON \<Rightarrow> 'a revision_scheme \<Rightarrow> 'a revision_scheme result" where
  "revision_deserialise bson r =
     rbind (read_field getStringField bson REPO_NODE_REVISION_LABEL_AUTHOR (\<lambda>v. author_update (\<lambda>_. v)) r) (\<lambda>r.
     rbind (getTimeStampField bson REPO_NODE_REVISION_LABEL_TIMESTAMP) (\<lambda>t. Inr (r\<lparr>timestamp := t\<rparr>)))"

definition revision_serialise :: "'a revision_scheme \<Rightarrow> builder \<Rightarrow> builder" where
  "revision_serialise r b =
     append_field REPO_NODE_REVISION_LABEL_TIMESTAMP (bson_of_time (timestamp r))
       (append_if (author r \<noteq> []) REPO_NODE_REVISION_LABEL_AUTHOR (BString (author r)) b)"

definition model_revision_deserialise :: "RepoBSON \<Rightarrow> model_revision \<Rightarrow> model_revision result" where
  "model_revision_deserialise bson r =
     rbind (read_field getIntField bson REPO_NODE_REVISION_LABEL_INCOMPLETE (\<lambda>v. upload_status_update (\<lambda>_. v)) r) (\<lambda>r.
     rbind (read_field getDoubleVectorField bson REPO_NODE_REVISION_LABEL_WORLD_COORD_SHIFT (\<lambda>v. offset_update (\<lambda>_. v)) r) (\<lambda>r.
     rbind (read_field getFileList bson REPO_NODE_REVISION_LABEL_REF_FILE (\<lambda>v. files_update (\<lambda>_. v)) r) (\<lambda>r.
     rbind (read_field getStringField bson REPO_NODE_REVISION_LABEL_MESSAGE (\<lambda>v. message_update (\<lambda>_. v)) r) (\<lambda>r.
       read_field getStringField bson REPO_NODE_REVISION_LABEL_TAG (\<lambda>v. tag_update (\<lambda>_. v)) r))))"

definition model_revision_serialise :: "uuid \<Rightarrow> model_revision \<Rightarrow> builder \<Rightarrow> builder" where
  "model_revision_serialise shared r b =
     append_field REPO_NODE_LABEL_SHARED_ID (bson_of_uuid shared)
     (append_if (upload_status r \<noteq> 0) REPO_NODE_REVISION_LABEL_INCOMPLETE (BInt32 (upload_status r))
     (append_if (tag r \<noteq> []) REPO_NODE_REVISION_LABEL_TAG (BString (tag r))
     (append_if (message r \<noteq> []) REPO_NODE_REVISION_LABEL_MESSAGE (BString (message r))
     (append_if (files r \<noteq> []) REPO_NODE_REVISION_LABEL_REF_FILE (bson_of_array BString (files r))
     (append_field REPO_NODE_REVISION_LABEL_WORLD_COORD_SHIFT (bson_of_array BDouble (offset r))
     (revision_serialise r b))))))"

definition empty_model_revision :: model_revision where
  "empty_model_revision = \<lparr>author = [], timestamp = 0, offset = [0, 0, 0], message = [], tag = [],
     files = [], upload_status = 0\<rparr>"

definition ModelRevisionNode_of_bson :: "RepoBSON \<Rightarrow> RepoNode result" where
  "ModelRevisionNode_of_bson bson =
     rbind (RepoNode_of_bson bson) (\<lambda>n.
     rbind (revision_deserialise bson empty_model_revision) (\<lambda>r.
     rbind (model_revision_deserialise bson r) (\<lambda>r. Inr (n\<lparr>content := ModelRevisionNode r\<rparr>))))"

text \<open>
  Drawing revisions write their fields after the base class's and skip those of \<open>RevisionNode\<close>. No
  constructor sets \<open>incomplete\<close>: what it holds before is the argument.
\<close>

definition drawing_revision_serialise :: "drawing_revision \<Rightarrow> builder \<Rightarrow> builder" where
  "drawing_revision_serialise r b =
     append_if (incomplete r) REPO_NODE_REVISION_LABEL_INCOMPLETE (BBool (incomplete r))
     (append_field REPO_LABEL_IMAGE (bson_of_uuid (drawing_image r))
     (append_field REPO_NODE_LABEL_FORMAT (BString (drawing_format r))
     (append_field REPO_NODE_DRAWING_REVISION_LABEL_MODEL (BString (drawing_model r))
     (append_field REPO_NODE_DRAWING_REVISION_LABEL_PROJECT (bson_of_uuid (drawing_project r))
     (append_field REPO_NODE_REVISION_LABEL_REF_FILE (bson_of_array bson_of_uuid (drawing_files r)) b)))))"

definition drawing_revision_deserialise :: "RepoBSON \<Rightarrow> drawing_revision \<Rightarrow> drawing_revision result" where
  "drawing_revision_deserialise bson r =
     rbind (getUUIDFieldArray bson REPO_NODE_REVISION_LABEL_REF_FILE) (\<lambda>fs.
     rbind (getUUIDField bson REPO_NODE_DRAWING_REVISION_LABEL_PROJECT) (\<lambda>p.
     rbind (getStringField bson REPO_NODE_DRAWING_REVISION_LABEL_MODEL) (\<lambda>m.
     rbind (getStringField bson REPO_NODE_LABEL_FORMAT) (\<lambda>f.
       read_field getBoolField bson REPO_NODE_REVISION_LABEL_INCOMPLETE (\<lambda>v. incomplete_update (\<lambda>_. v))
         (r\<lparr>drawing_files := fs, drawing_project := p, drawing_model := m, drawing_format := f\<rparr>)))))"

definition empty_drawing_revision :: "bool \<Rightarrow> drawing_revision" where
  "empty_drawing_revision incomplete0 = \<lparr>author = [], timestamp = 0, drawing_files = [],
     drawing_project = default_uuid, drawing_image = default_uuid, drawing_model = [], drawing_format = [],
     incomplete = incomplete0\<rparr>"

definition DrawingRevisionNode_of_bson :: "bool \<Rightarrow> RepoBSON \<Rightarrow> RepoNode result" where
  "DrawingRevisionNode_of_bson incomplete0 bson =
     rbind (RepoNode_of_bson bson) (\<lambda>n.
     rbind (revision_deserialise bson (empty_drawing_revision incomplete0)) (\<lambda>r.
     rbind (drawing_revision_deserialise bson r) (\<lambda>r. Inr (n\<lparr>content := DrawingRevisionNode r\<rparr>))))"

subsection \<open>Reading back\<close>

lemma lookup_append_field [simp]:
  "map_of (core (append_field l v b)) k =
     (case map_of (core b) k of Some w \<Rightarrow> Some w | None \<Rightarrow> if k = l then Some v else None)"
  by (simp add: map_add_def split: option.split)

declare append_field_simps(1) [simp del]

lemma lookup_append_if [simp]:
  "map_of (core (append_if c l v b)) k =
     (case map_of (core b) k of Some w \<Rightarrow> Some w | None \<Rightarrow> if k = l \<and> c then Some v else None)"
  by (simp add: append_if_def split: option.split)

lemma lookup_other:
  "k \<noteq> l \<Longrightarrow> map_of (core (append_field l v b)) k = map_of (core b) k"
  "k \<noteq> l \<Longrightarrow> map_of (core (append_if c l v b)) k = map_of (core b) k"
  by (auto split: option.split)

lemma append_if_binMapping [simp]: "binMapping (append_if c l v b) = binMapping b"
  by (simp add: append_if_def)

lemma appendLargeArray_simps [simp]:
  "core (appendLargeArray l d b) = core b"
  "binMapping (appendLargeArray l d b) = AList.update l d (binMapping b)"
  by (simp_all add: appendLargeArray_def)

lemma read_field_missing [simp]:
  "map_of (doc bson) l = None \<Longrightarrow> read_field get bson l upd n = Inr n"
  by (simp add: read_field_def)

lemma read_field_found:
  "map_of (doc bson) l = Some v \<Longrightarrow> get bson l = Inr x \<Longrightarrow> read_field get bson l upd n = Inr (upd x n)"
  by (simp add: read_field_def)

lemma getters_found:
  "map_of (doc b) l = Some (BString s) \<Longrightarrow> getStringField b l = Inr s"
  "map_of (doc b) l = Some (BInt32 i) \<Longrightarrow> getIntField b l = Inr i"
  "map_of (doc b) l = Some (BBool t) \<Longrightarrow> getBoolField b l = Inr t"
  "map_of (doc b) l = Some (BDouble d) \<Longrightarrow> getDoubleField b l = Inr d"
  "map_of (doc b) l = Some (BDocument e) \<Longrightarrow> getObjectField b l = Inr \<lparr>doc = e, bigFiles = []\<rparr>"
  "map_of (doc b) l = Some (bson_of_uuid u) \<Longrightarrow> getUUIDField b l = Inr u"
  by (simp_all add: getters)

lemma getTimeStampField_found:
  "map_of (doc b) l = Some (bson_of_time t) \<Longrightarrow> - (2 ^ 63) \<le> t * 1000 \<Longrightarrow> t * 1000 < 2 ^ 63 \<Longrightarrow>
     getTimeStampField b l = Inr t"
  by (simp add: getters el_TimeT_bson_of_time)

lemma getUUIDFieldArray_found:
  "map_of (doc b) l = Some (bson_of_array bson_of_uuid us) \<Longrightarrow> getUUIDFieldArray b l = Inr us"
  using getArray_found [of b l bson_of_uuid us getValue_UUID "\<lambda>x. x" True]
  by (simp add: getUUIDFieldArray_def)

lemma getFileList_found:
  "map_of (doc b) l = Some (bson_of_array BString ss) \<Longrightarrow> getFileList b l = Inr ss"
  using getArray_found [of b l BString ss el_String "\<lambda>x. x" False] by (simp add: getFileList_def)

lemma getDoubleVectorField_found:
  "map_of (doc b) l = Some (bson_of_array BDouble ds) \<Longrightarrow> getDoubleVectorField b l = Inr ds"
  using getArray_found [of b l BDouble ds el_Double "\<lambda>x. x" False] by (simp add: getDoubleVectorField_def)

lemmas found = getters_found getTimeStampField_found getUUIDFieldArray_found getFileList_found
  getDoubleVectorField_found

text \<open>
  \<open>carries n d\<close>: document \<open>d\<close> holds the base class's fields of \<open>n\<close>; a field may be missing when
  its value is the one the reader starts with.
\<close>

definition carries_field :: "document \<Rightarrow> string \<Rightarrow> bson \<Rightarrow> bool \<Rightarrow> bool" where
  "carries_field d l v dflt \<longleftrightarrow> map_of d l = Some v \<or> map_of d l = None \<and> dflt"

definition carries :: "RepoNode \<Rightarrow> document \<Rightarrow> bool" where
  "carries n d \<longleftrightarrow>
     map_of d REPO_NODE_LABEL_ID = Some (bson_of_uuid (uniqueId n)) \<and>
     carries_field d REPO_NODE_LABEL_NAME (BString (node_name n)) (node_name n = []) \<and>
     carries_field d REPO_NODE_LABEL_SHARED_ID (bson_of_uuid (sharedId n)) (sharedId n = default_uuid) \<and>
     carries_field d REPO_NODE_REVISION_ID (bson_of_uuid (revId n)) (revId n = default_uuid) \<and>
     carries_field d REPO_NODE_LABEL_TYPE (BString (getType n)) (getType n = []) \<and>
     carries_field d REPO_NODE_LABEL_PARENTS (bson_of_array bson_of_uuid (getParentIDs n)) (parentIds n = {||})"

lemma carries_base_serialise: "carries n (core (base_serialise n RepoBSONBuilder))"
  by (simp add: carries_def carries_field_def base_serialise_def node_labels)

lemma base_serialise_other:
  assumes "l \<notin> {REPO_NODE_LABEL_ID, REPO_NODE_LABEL_NAME, REPO_NODE_LABEL_SHARED_ID,
    REPO_NODE_REVISION_ID, REPO_NODE_LABEL_TYPE, REPO_NODE_LABEL_PARENTS}"
  shows "map_of (core (base_serialise n RepoBSONBuilder)) l = None"
  using assms by (simp add: base_serialise_def)

lemma binMapping_base_serialise [simp]: "binMapping (base_serialise n b) = binMapping b"
  by (simp add: base_serialise_def)

lemma carries_extend:
  assumes "carries n (core b)"
    and "\<And>l. l \<in> {REPO_NODE_LABEL_ID, REPO_NODE_LABEL_NAME, REPO_NODE_LABEL_SHARED_ID,
      REPO_NODE_REVISION_ID, REPO_NODE_LABEL_TYPE, REPO_NODE_LABEL_PARENTS} \<Longrightarrow>
      map_of (core b') l = map_of (core b) l"
  shows "carries n (core b')"
  using assms by (simp add: carries_def carries_field_def)

lemma getParentIDs_empty: "parentIds n = {||} \<Longrightarrow> getParentIDs n = []"
  by (simp add: getParentIDs_def sorted_list_of_fset.rep_eq)

lemma fset_of_getParentIDs [simp]: "fset_of_list (getParentIDs n) = parentIds n"
  by (simp add: getParentIDs_def)

lemma read_carried_string:
  "carries_field (doc b) l (BString s) dflt \<Longrightarrow>
     read_field getStringField b l upd x = Inr (if map_of (doc b) l = None then x else upd s x)"
  by (auto simp: carries_field_def read_field_def found)

lemma read_carried_uuid:
  "carries_field (doc b) l (bson_of_uuid u) dflt \<Longrightarrow>
     read_field getUUIDField b l upd x = Inr (if map_of (doc b) l = None then x else upd u x)"
  by (auto simp: carries_field_def read_field_def found)

lemma read_carried_parents:
  "carries_field (doc b) l (bson_of_array bson_of_uuid (getParentIDs n)) (parentIds n = {||}) \<Longrightarrow>
     getUUIDFieldArray b l = Inr (getParentIDs n)"
  unfolding carries_field_def
  by (erule disjE, simp add: getUUIDFieldArray_found, simp add: getUUIDFieldArray_def getParentIDs_empty)

lemma carries_default: "carries_field d l v dflt \<Longrightarrow> map_of d l = None \<Longrightarrow> dflt"
  by (simp add: carries_field_def)

lemma base_deserialise_carries:
  assumes "carries n (doc b)"
  shows "RepoNode_of_bson b = Inr (n\<lparr>content := NoContent\<rparr>)"
proof -
  let ?d = "doc b"
  have id: "read_field getUUIDField b REPO_NODE_LABEL_ID upd x = Inr (upd (uniqueId n) x)" for upd and x :: RepoNode
    using assms by (simp add: carries_def read_field_def getters)
  have f: "carries_field ?d REPO_NODE_LABEL_NAME (BString (node_name n)) (node_name n = [])"
    "carries_field ?d REPO_NODE_LABEL_SHARED_ID (bson_of_uuid (sharedId n)) (sharedId n = default_uuid)"
    "carries_field ?d REPO_NODE_REVISION_ID (bson_of_uuid (revId n)) (revId n = default_uuid)"
    "carries_field ?d REPO_NODE_LABEL_PARENTS (bson_of_array bson_of_uuid (getParentIDs n)) (parentIds n = {||})"
    using assms by (simp_all add: carries_def)
  show ?thesis
    unfolding RepoNode_of_bson_def base_deserialise_def id rbind_simps
      read_carried_string [OF f(1)] read_carried_uuid [OF f(2)] read_carried_uuid [OF f(3)]
      read_carried_parents [OF f(4)]
    using f(1,2,3) [THEN carries_default] by (cases n) simp
qed

lemma transformation_reads_back:
  fixes n :: RepoNode
  assumes "length m = 16"
  defines "b \<equiv> transformation_serialise m (base_serialise n RepoBSONBuilder)"
  shows "carries n (core b)" "transformation_deserialise (obj b) d = Inr m" "binMapping b = []"
proof -
  show "carries n (core b)"
    by (rule carries_extend [OF carries_base_serialise], elim insertE emptyE)
      (simp_all add: b_def transformation_serialise_def node_labels subclass_labels lookup_other del: lookup_append_field lookup_append_if)
  have "map_of (doc (obj b)) REPO_NODE_LABEL_MATRIX = Some (bson_of_matrix m)"
    by (simp add: b_def transformation_serialise_def base_serialise_other node_labels subclass_labels)
  then show "transformation_deserialise (obj b) d = Inr m"
    using getMatrixField_bson_of_matrix assms(1)
    by (simp add: transformation_deserialise_def read_field_def)
qed (simp add: b_def transformation_serialise_def)

lemma texture_reads_back:
  fixes n :: RepoNode and t :: texture
  defines "b \<equiv> texture_serialise t (base_serialise n RepoBSONBuilder)"
  shows "carries n (core b)" "texture_deserialise (obj b) empty_texture = Inr t"
proof -
  show "carries n (core b)"
    by (rule carries_extend [OF carries_base_serialise], elim insertE emptyE)
      (simp_all add: b_def texture_serialise_def node_labels subclass_labels Let_def lookup_other del: lookup_append_field lookup_append_if)
  have l: "map_of (core b) REPO_LABEL_WIDTH = Some (BInt32 (tex_width t))"
      "map_of (core b) REPO_LABEL_HEIGHT = Some (BInt32 (tex_height t))"
      "map_of (core b) REPO_NODE_LABEL_EXTENSION = (if extension t = [] then None else Some (BString (extension t)))"
    by (simp_all add: b_def texture_serialise_def base_serialise_other node_labels subclass_labels Let_def)
  have "binMapping b = (if tex_data t = [] then [] else [(REPO_LABEL_DATA, tex_data t)])"
    by (simp add: b_def texture_serialise_def Let_def)
  with l show "texture_deserialise (obj b) empty_texture = Inr t"
    by (cases t) (simp add: texture_deserialise_def read_field_def found hasBinField_def empty_texture_def
        getBinaryFieldAsVector_def getBinary_def)
qed

text \<open>A metadata value that survives: a calendar time must mean the same to both conversions.\<close>

fun variant_stable :: "(tm \<Rightarrow> int) \<Rightarrow> (int \<Rightarrow> tm) \<Rightarrow> RepoVariant \<Rightarrow> bool" where
  "variant_stable mktime gmtime (VTm t) \<longleftrightarrow> mktime t \<noteq> -1 \<and> gmtime (mktime t) = t \<and>
     - (2 ^ 63) \<le> mktime t * 1000 \<and> mktime t * 1000 < 2 ^ 63"
| "variant_stable mktime gmtime _ \<longleftrightarrow> True"

lemma variant_reads_back:
  assumes "variant_stable mktime gmtime v"
  shows "\<exists>e. bson_of_variant mktime v = Inr e \<and> repoVariant gmtime e = Inr v"
proof (cases v)
  case (VTm t)
  then have t: "el_TimeT (bson_of_time (mktime t)) = Inr (mktime t)" "mktime t \<noteq> -1" "gmtime (mktime t) = t"
    using assms el_TimeT_bson_of_time [of "mktime t"] by simp_all
  have "element_type (bson_of_time x) = ET_DATE" for x by (simp add: bson_of_time_def)
  with t show ?thesis
    by (intro exI [of _ "bson_of_time (mktime t)"]) (simp add: VTm bson_of_tm_def repoVariant_def)
qed (simp_all add: repoVariant_def bson_of_uuid_def k_uuid_def k_uuid_deprecated_def)

lemma metadata_entries_read_back:
  assumes "\<And>e. e \<in> set m \<Longrightarrow> fst e \<noteq> [] \<and> variant_stable mktime gmtime (snd e)"
    and "distinct (map fst m)" and "set (map fst m) \<inter> set (map fst acc) = {}"
  shows "\<exists>es ds. rtraverse (meta_entry mktime) (filter (\<lambda>e. fst e \<noteq> []) m) = Inr es \<and>
           es = map BDocument ds \<and>
           rfold (metadata_read_field gmtime) (map (\<lambda>d. \<lparr>doc = d, bigFiles = []\<rparr>) ds) acc = Inr (acc @ m)"
  using assms
proof (induction m arbitrary: acc)
  case (Cons e m)
  obtain k v where e: "e = (k, v)" by fastforce
  obtain x where x: "bson_of_variant mktime v = Inr x" "repoVariant gmtime x = Inr v"
    using variant_reads_back [of mktime gmtime v] Cons.prems(1) [of e] e by auto
  have "\<exists>es ds. rtraverse (meta_entry mktime) (filter (\<lambda>e. fst e \<noteq> []) m) = Inr es \<and>
           es = map BDocument ds \<and>
           rfold (metadata_read_field gmtime) (map (\<lambda>d. \<lparr>doc = d, bigFiles = []\<rparr>) ds) (acc @ [(k, v)]) =
             Inr ((acc @ [(k, v)]) @ m)"
    using Cons.prems e by (intro Cons.IH) auto
  then obtain ds where ds: "rtraverse (meta_entry mktime) (filter (\<lambda>e. fst e \<noteq> []) m) = Inr (map BDocument ds)"
      "rfold (metadata_read_field gmtime) (map (\<lambda>d. \<lparr>doc = d, bigFiles = []\<rparr>) ds) (acc @ [(k, v)]) =
        Inr ((acc @ [(k, v)]) @ m)" by blast
  let ?d = "core (append_field REPO_NODE_LABEL_META_VALUE x
              (append_field REPO_NODE_LABEL_META_KEY (BString k) RepoBSONBuilder))"
  have upd: "AList.update k v acc = acc @ [(k, v)]"
    using Cons.prems(3) e by (simp add: update_fresh)
  have "metadata_read_field gmtime \<lparr>doc = ?d, bigFiles = []\<rparr> acc = Inr (acc @ [(k, v)])"
    by (simp add: metadata_read_field_def found getField_def subclass_labels x upd)
  moreover have "meta_entry mktime (k, v) = Inr (BDocument ?d)" by (simp add: meta_entry_def x)
  ultimately show ?case
    using ds e Cons.prems(1) [of e]
    by (intro exI [of _ "BDocument ?d # map BDocument ds"] exI [of _ "?d # ds"]) simp
qed simp

lemma metadata_reads_back:
  fixes n :: RepoNode
  assumes "\<And>e. e \<in> set m \<Longrightarrow> fst e \<noteq> [] \<and> variant_stable mktime gmtime (snd e)"
    and "distinct (map fst m)"
  shows "\<exists>b. metadata_serialise mktime m (base_serialise n RepoBSONBuilder) = Inr b \<and> carries n (core b) \<and>
           binMapping b = [] \<and> metadata_deserialise gmtime (obj b) = Inr m"
proof -
  obtain ds where ds: "rtraverse (meta_entry mktime) (filter (\<lambda>e. fst e \<noteq> []) m) = Inr (map BDocument ds)"
      "rfold (metadata_read_field gmtime) (map (\<lambda>d. \<lparr>doc = d, bigFiles = []\<rparr>) ds) [] = Inr m"
    using metadata_entries_read_back [of m mktime gmtime "[]"] assms by auto
  let ?b = "append_field REPO_NODE_LABEL_METADATA (BArray (map BDocument ds)) (base_serialise n RepoBSONBuilder)"
  have l: "map_of (core ?b) REPO_NODE_LABEL_METADATA = Some (BArray (map BDocument ds))"
    by (simp add: base_serialise_other node_labels subclass_labels)
  have "carries n (core ?b)"
    by (rule carries_extend [OF carries_base_serialise], elim insertE emptyE)
      (simp_all add: node_labels subclass_labels lookup_other del: lookup_append_field lookup_append_if)
  moreover have "getObjectArray (obj ?b) REPO_NODE_LABEL_METADATA = Inr (map (\<lambda>d. \<lparr>doc = d, bigFiles = []\<rparr>) ds)"
    using getArray_found [of "obj ?b" REPO_NODE_LABEL_METADATA BDocument ds el_Object
        "\<lambda>d. \<lparr>doc = d, bigFiles = []\<rparr>" False] l
    by (simp add: getObjectArray_def bson_of_array_def)
  ultimately show ?thesis
    using ds l by (intro exI [of _ ?b]) (simp add: metadata_serialise_def metadata_deserialise_def)
qed

lemma el_Double_bson_of_float [simp]: "el_Double (bson_of_float f) = Inr (float_to_double f)"
  by (simp add: bson_of_float_def)

lemma read_float_found:
  "\<not> f_nan f \<Longrightarrow> map_of (doc b) l = Some (bson_of_float f) \<Longrightarrow> read_float b l = Inr f"
  by (simp add: read_float_def getters bson_of_float_def double_to_float_to_double)

lemma read_color_found:
  assumes "map_of (doc b) l = Some (bson_of_color (r, g, c))" "\<not> f_nan r" "\<not> f_nan g" "\<not> f_nan c"
  shows "read_color b l upd m = Inr (upd (r, g, c) m)"
proof -
  have "getFloatArray b l = Inr [r, g, c]"
    using assms getArray_found [of b l bson_of_float "[r, g, c]" getValue_float "\<lambda>x. x" True]
    by (simp add: getFloatArray_def bson_of_color_def bson_of_array_def getValue_float_def
        double_to_float_to_double) (metis double_to_float_to_double)
  then show ?thesis by (simp add: read_color_def color_of_vector_def)
qed

lemma read_color_missing: "map_of (doc b) l = None \<Longrightarrow> read_color b l upd m = Inr m"
  by (simp add: read_color_def getFloatArray_def)

text \<open>
  What a stored material is read back as: a colour whose components all compare equal to zero is
  the zero colour, and a NaN is the quiet NaN.
\<close>

definition stored_color :: "color3 \<Rightarrow> color3" where
  "stored_color c = (if color_bool c then c else (0, 0, 0))"

definition stored_float :: "cfloat \<Rightarrow> cfloat" where
  "stored_float f = (if f_nan f then f_quiet_NaN else f)"

definition stored_material :: "repo_material \<Rightarrow> repo_material" where
  "stored_material m = \<lparr>ambient = stored_color (ambient m), diffuse = stored_color (diffuse m),
     specular = stored_color (specular m), emissive = stored_color (emissive m),
     opacity = stored_float (opacity m), shininess = stored_float (shininess m),
     shininessStrength = stored_float (shininessStrength m), lineWeight = stored_float (lineWeight m),
     isWireframe = isWireframe m, isTwoSided = isTwoSided m, texturePath = []\<rparr>"

definition color_num :: "color3 \<Rightarrow> bool" where
  "color_num c = (case c of (r, g, b) \<Rightarrow> \<not> f_nan r \<and> \<not> f_nan g \<and> \<not> f_nan b)"

lemma read_stored_color:
  assumes "map_of (doc b) l = (if color_bool c then Some (bson_of_color c) else None)" "color_num c"
  shows "read_color b l upd m = Inr (if color_bool c then upd c m else m)"
  using assms by (cases c) (auto simp: read_color_missing color_num_def intro!: read_color_found)

lemma read_stored_float:
  assumes "map_of (doc b) l = (if f_eq f f then Some (bson_of_float f) else None)"
  shows "read_float b l = Inr (stored_float f)"
  using assms read_float_found [of f b l] by (auto simp: f_eq_def stored_float_def read_float_def)

lemma read_stored_flag:
  assumes "map_of (doc b) l = (if t then Some (BBool t) else None)"
  shows "read_flag b l = Inr t"
  using assms by (auto simp: read_flag_def found)

lemma material_lookups:
  fixes n :: RepoNode and m :: repo_material
  defines "b \<equiv> material_serialise m (base_serialise n RepoBSONBuilder)"
  shows "map_of (core b) REPO_NODE_MATERIAL_LABEL_AMBIENT = (if color_bool (ambient m) then Some (bson_of_color (ambient m)) else None)"
    "map_of (core b) REPO_NODE_MATERIAL_LABEL_DIFFUSE = (if color_bool (diffuse m) then Some (bson_of_color (diffuse m)) else None)"
    "map_of (core b) REPO_NODE_MATERIAL_LABEL_SPECULAR = (if color_bool (specular m) then Some (bson_of_color (specular m)) else None)"
    "map_of (core b) REPO_NODE_MATERIAL_LABEL_EMISSIVE = (if color_bool (emissive m) then Some (bson_of_color (emissive m)) else None)"
    "map_of (core b) REPO_NODE_MATERIAL_LABEL_WIREFRAME = (if isWireframe m then Some (BBool (isWireframe m)) else None)"
    "map_of (core b) REPO_NODE_MATERIAL_LABEL_TWO_SIDED = (if isTwoSided m then Some (BBool (isTwoSided m)) else None)"
    "map_of (core b) REPO_NODE_MATERIAL_LABEL_OPACITY = (if f_eq (opacity m) (opacity m) then Some (bson_of_float (opacity m)) else None)"
    "map_of (core b) REPO_NODE_MATERIAL_LABEL_SHININESS = (if f_eq (shininess m) (shininess m) then Some (bson_of_float (shininess m)) else None)"
    "map_of (core b) REPO_NODE_MATERIAL_LABEL_SHININESS_STRENGTH =
      (if f_eq (shininessStrength m) (shininessStrength m) then Some (bson_of_float (shininessStrength m)) else None)"
    "map_of (core b) REPO_NODE_MATERIAL_LABEL_LINE_WEIGHT = (if f_eq (lineWeight m) (lineWeight m) then Some (bson_of_float (lineWeight m)) else None)"
  by (simp_all add: b_def material_serialise_def base_serialise_other node_labels material_labels)

lemma material_reads_back:
  fixes n :: RepoNode
  assumes "color_num (ambient m)" "color_num (diffuse m)" "color_num (specular m)" "color_num (emissive m)"
  defines "b \<equiv> material_serialise m (base_serialise n RepoBSONBuilder)"
  shows "carries n (core b)" "material_deserialise (obj b) default_material = Inr (stored_material m)"
    "binMapping b = []"
proof -
  show "carries n (core b)"
    by (rule carries_extend [OF carries_base_serialise], elim insertE emptyE)
      (simp_all add: b_def material_serialise_def node_labels material_labels lookup_other del: lookup_append_field lookup_append_if)
  note l = material_lookups [of m n, folded b_def, unfolded obj_simps(1) [symmetric]]
  show "material_deserialise (obj b) default_material = Inr (stored_material m)"
    unfolding material_deserialise_def rbind_simps
      read_stored_color [OF l(1) assms(1)] read_stored_color [OF l(2) assms(2)]
      read_stored_color [OF l(3) assms(3)] read_stored_color [OF l(4) assms(4)]
      read_stored_flag [OF l(5)] read_stored_flag [OF l(6)] read_stored_float [OF l(7)]
      read_stored_float [OF l(8)] read_stored_float [OF l(9)] read_stored_float [OF l(10)]
    by (simp add: stored_material_def stored_color_def default_material_def)
qed (simp add: b_def material_serialise_def)

lemma model_revision_reads_back:
  assumes "- (2 ^ 63) \<le> timestamp r * 1000" "timestamp r * 1000 < 2 ^ 63" "sharedId n = s"
  defines "b \<equiv> model_revision_serialise s r (base_serialise n RepoBSONBuilder)"
  shows "carries n (core b)" "binMapping b = []"
    "rbind (revision_deserialise (obj b) empty_model_revision) (model_revision_deserialise (obj b)) = Inr r"
proof -
  show "carries n (core b)"
    by (simp add: b_def carries_def carries_field_def base_serialise_def model_revision_serialise_def
        revision_serialise_def assms(3) node_labels revision_labels)
  show "binMapping b = []" by (simp add: b_def model_revision_serialise_def revision_serialise_def)
  have l: "map_of (core b) REPO_NODE_REVISION_LABEL_AUTHOR = (if author r = [] then None else Some (BString (author r)))"
    "map_of (core b) REPO_NODE_REVISION_LABEL_TIMESTAMP = Some (bson_of_time (timestamp r))"
    "map_of (core b) REPO_NODE_REVISION_LABEL_INCOMPLETE = (if upload_status r = 0 then None else Some (BInt32 (upload_status r)))"
    "map_of (core b) REPO_NODE_REVISION_LABEL_WORLD_COORD_SHIFT = Some (bson_of_array BDouble (offset r))"
    "map_of (core b) REPO_NODE_REVISION_LABEL_REF_FILE = (if files r = [] then None else Some (bson_of_array BString (files r)))"
    "map_of (core b) REPO_NODE_REVISION_LABEL_MESSAGE = (if message r = [] then None else Some (BString (message r)))"
    "map_of (core b) REPO_NODE_REVISION_LABEL_TAG = (if tag r = [] then None else Some (BString (tag r)))"
    by (simp_all add: b_def model_revision_serialise_def revision_serialise_def base_serialise_other
        node_labels revision_labels)
  show "rbind (revision_deserialise (obj b) empty_model_revision) (model_revision_deserialise (obj b)) = Inr r"
    using l assms(1,2)
    by (cases r) (simp add: revision_deserialise_def model_revision_deserialise_def read_field_def found
        empty_model_revision_def)
qed

text \<open>A drawing revision never has a time stamp in its own document, and the reader insists on one.\<close>

lemma drawing_revision_unreadable:
  fixes n :: RepoNode and r :: drawing_revision
  defines "b \<equiv> drawing_revision_serialise r (base_serialise n RepoBSONBuilder)"
  shows "carries n (core b)"
    "revision_deserialise (obj b) s = Inl (RepoFieldNotFoundException REPO_NODE_REVISION_LABEL_TIMESTAMP)"
proof -
  show "carries n (core b)"
    by (rule carries_extend [OF carries_base_serialise], elim insertE emptyE)
      (simp_all add: b_def drawing_revision_serialise_def node_labels revision_labels lookup_other del: lookup_append_field lookup_append_if)
  have "map_of (core b) REPO_NODE_REVISION_LABEL_AUTHOR = None" "map_of (core b) REPO_NODE_REVISION_LABEL_TIMESTAMP = None"
    by (simp_all add: b_def drawing_revision_serialise_def base_serialise_other node_labels revision_labels)
  then show "revision_deserialise (obj b) s = Inl (RepoFieldNotFoundException REPO_NODE_REVISION_LABEL_TIMESTAMP)"
    by (simp add: revision_deserialise_def getters field_as_def getField_def)
qed

subsection \<open>Properties\<close>

text \<open>
  The order of nodes, which the node sets of a scene are sorted by, is a strict total order on the
  pair of shared and unique identifier: no node is below itself, it is transitive, and two nodes that
  are not below each other are exactly those that \<open>==\<close> calls equal. \<open>!=\<close> is not the opposite of \<open>==\<close>:
  two equal nodes with different parents are also unequal.
\<close>

theorem node_order_total:
  "\<not> node_less a a \<and> (node_less a b \<and> node_less b c \<longrightarrow> node_less a c) \<and>
   (\<not> node_less a b \<and> \<not> node_less b a \<longleftrightarrow> node_eq a b) \<and>
   (node_eq a b \<and> node_neq a b \<longleftrightarrow> node_eq a b \<and> parentIds a \<noteq> parentIds b)"
  by (auto simp: node_less_def node_eq_def node_neq_def split: if_splits)

theorem node_order_total_witness:
  "\<not> node_less (RepoNode_default 1) (RepoNode_default 1) \<and>
   node_less (RepoNode_default 1) (RepoNode_default 3)"
  using node_order_total [of "RepoNode_default 1" "RepoNode_default 2" "RepoNode_default 3"]
  by (simp add: node_less_def RepoNode_default_def)

text \<open>
  The parents of a node are a set: setting them forgets the old ones, adding one twice changes
  nothing, and removing one undoes adding one that was not there.
\<close>

theorem parents_are_a_set:
  "parentIds (setParents ps n) = fset_of_list ps \<and>
   parentIds (addParents ps n) = fset_of_list ps |\<union>| parentIds n \<and>
   addParent p (addParent p n) = addParent p n \<and>
   (p |\<notin>| parentIds n \<longrightarrow> removeParent p (addParent p n) = n) \<and>
   p |\<notin>| parentIds (removeParent p n)"
proof -
  have add: "addParents ps n = n\<lparr>parentIds := fset_of_list ps |\<union>| parentIds n\<rparr>" for ps and n :: RepoNode
    unfolding addParents_def by (induction ps arbitrary: n) auto
  show ?thesis by (auto simp: add setParents_def addParent_def removeParent_def)
qed

theorem parents_are_a_set_witness:
  "removeParent 4 (addParent 4 (setParents [9, 9] (RepoNode_default 1))) = setParents [9, 9] (RepoNode_default 1)"
proof -
  have "4 |\<notin>| parentIds (setParents [9, 9] (RepoNode_default 1))"
    by (simp add: setParents_def addParents_def RepoNode_default_def)
  then show ?thesis using parents_are_a_set [of "[]" _ 4] by blast
qed

end
