(* ===== verification/Mesh.thy ===== *)
theory Mesh
  imports Node
begin

text \<open>
  Mesh nodes (\<open>core/model/bson/repo_node_mesh.cpp\<close>, \<open>.h\<close>; \<open>repo_face_t\<close> of
  \<open>lib/datastructure/repo_structs.h\<close>): how a mesh is laid out in bytes and read back, what its
  summary bits say, and the removal of duplicate vertices. Binary data is little-endian, as on the
  platforms the program is built for. A face is the list of its indices, at most three.
\<close>

subsection \<open>Layout in bytes\<close>

definition le_bytes :: "32 word \<Rightarrow> bytes" where
  "le_bytes w = map (\<lambda>i. ucast (drop_bit (8 * i) w)) [0..<4]"

definition bytes_of_words :: "32 word list \<Rightarrow> bytes" where
  "bytes_of_words ws = concat (map le_bytes ws)"

fun words_of_bytes :: "bytes \<Rightarrow> 32 word list" where
  "words_of_bytes (a # b # c # d # bs) = word_rcat [d, c, b, a] # words_of_bytes bs"
| "words_of_bytes _ = []"

fun words_of_vec3s :: "vec3f list \<Rightarrow> 32 word list" where
  "words_of_vec3s ((x, y, z) # vs) = x # y # z # words_of_vec3s vs"
| "words_of_vec3s [] = []"

fun vec3s_of_words :: "32 word list \<Rightarrow> vec3f list" where
  "vec3s_of_words (x # y # z # ws) = (x, y, z) # vec3s_of_words ws"
| "vec3s_of_words _ = []"

fun words_of_vec2s :: "vec2f list \<Rightarrow> 32 word list" where
  "words_of_vec2s ((x, y) # vs) = x # y # words_of_vec2s vs"
| "words_of_vec2s [] = []"

fun vec2s_of_words :: "32 word list \<Rightarrow> vec2f list" where
  "vec2s_of_words (x # y # ws) = (x, y) # vec2s_of_words ws"
| "vec2s_of_words _ = []"

definition read_vec3s :: "RepoBSON \<Rightarrow> string \<Rightarrow> vec3f list result" where
  "read_vec3s bson field =
     rbind (getBinaryFieldAsVector 12 bson field) (\<lambda>bs. Inr (vec3s_of_words (words_of_bytes bs)))"

definition read_vec2s :: "RepoBSON \<Rightarrow> string \<Rightarrow> vec2f list result" where
  "read_vec2s bson field =
     rbind (getBinaryFieldAsVector 8 bson field) (\<lambda>bs. Inr (vec2s_of_words (words_of_bytes bs)))"

definition read_words :: "RepoBSON \<Rightarrow> string \<Rightarrow> 32 word list result" where
  "read_words bson field =
     rbind (getBinaryFieldAsVector 4 bson field) (\<lambda>bs. Inr (words_of_bytes bs))"

subsection \<open>Faces\<close>

text \<open>\<open>repo_face_t\<close> holds three indices; adding a fourth writes past them.\<close>

definition face_push_back :: "face \<Rightarrow> 32 word \<Rightarrow> face result" where
  "face_push_back f i = (if length f < 3 then Inr (f @ [i]) else Inl OutOfRange)"

definition face_of_list :: "32 word list \<Rightarrow> face result" where
  "face_of_list is = rfold (\<lambda>i f. face_push_back f i) is []"

text \<open>
  A face is written as its number of indices and the indices. The primitive is inferred from the
  first face that has two or three indices; other sizes only log a warning.
\<close>

definition infer_primitive :: "32 word \<Rightarrow> face \<Rightarrow> 32 word" where
  "infer_primitive prim f =
     (if prim = 0 then if length f = 2 then 2 else if length f = 3 then 3 else 0 else prim)"

definition faces_level1 :: "face list \<Rightarrow> 32 word \<times> 32 word list" where
  "faces_level1 fs =
     foldl (\<lambda>(prim, ws) f. (infer_primitive prim f, ws @ of_nat (length f) # f)) (0, []) fs"

text \<open>
  Reading back. The index is an \<open>int\<close>, as is the number of indices of a face. While the buffer is
  too short for the face it announces, the loop prints an error and tries again, for ever: such a
  buffer has the value \<open>None\<close>. A face with more than three indices, or a negative number of them,
  leaves the three the program has room for.
\<close>

partial_function (option) decode_faces ::
  "32 word list \<Rightarrow> int \<Rightarrow> face list \<Rightarrow> face list result option" where
  "decode_faces ws idx acc =
     (if int (length ws) > idx
      then let k = sint (ws ! nat idx)
           in if 0 \<le> idx + k \<and> int (length ws) > idx + k
              then if 0 \<le> k \<and> k \<le> 3
                   then decode_faces ws (idx + k + 1) (acc @ [take (nat k) (drop (nat idx + 1) ws)])
                   else Some (Inl OutOfRange)
              else decode_faces ws idx acc
      else Some (Inr acc))"

declare decode_faces.simps [code]

subsection \<open>Serialisation\<close>

definition REPO_NODE_MESH_LABEL_VERTICES :: string where "REPO_NODE_MESH_LABEL_VERTICES = ''vertices''"
definition REPO_NODE_MESH_LABEL_VERTICES_COUNT :: string where "REPO_NODE_MESH_LABEL_VERTICES_COUNT = ''vertices_count''"
definition REPO_NODE_MESH_LABEL_FACES :: string where "REPO_NODE_MESH_LABEL_FACES = ''faces''"
definition REPO_NODE_MESH_LABEL_FACES_COUNT :: string where "REPO_NODE_MESH_LABEL_FACES_COUNT = ''faces_count''"
definition REPO_NODE_MESH_LABEL_NORMALS :: string where "REPO_NODE_MESH_LABEL_NORMALS = ''normals''"
definition REPO_NODE_MESH_LABEL_BOUNDING_BOX :: string where "REPO_NODE_MESH_LABEL_BOUNDING_BOX = ''bounding_box''"
definition REPO_NODE_MESH_LABEL_UV_CHANNELS :: string where "REPO_NODE_MESH_LABEL_UV_CHANNELS = ''uv_channels''"
definition REPO_NODE_MESH_LABEL_UV_CHANNELS_COUNT :: string where "REPO_NODE_MESH_LABEL_UV_CHANNELS_COUNT = ''uv_channels_count''"
definition REPO_NODE_MESH_LABEL_GROUPING :: string where "REPO_NODE_MESH_LABEL_GROUPING = ''grouping''"
definition REPO_NODE_MESH_LABEL_PRIMITIVE :: string where "REPO_NODE_MESH_LABEL_PRIMITIVE = ''primitive''"
definition REPO_FILTER_OBJECT_NAME :: string where "REPO_FILTER_OBJECT_NAME = ''materialProperties''"
definition REPO_FILTER_PROP_OPAQUE :: string where "REPO_FILTER_PROP_OPAQUE = ''isOpaque''"
definition REPO_FILTER_PROP_TRANSPARENT :: string where "REPO_FILTER_PROP_TRANSPARENT = ''isTransparent''"
definition REPO_FILTER_PROP_TEXTURE_ID :: string where "REPO_FILTER_PROP_TEXTURE_ID = ''textureId''"
definition REPO_FILTER_TAG_TEXTURE_ID :: string where "REPO_FILTER_TAG_TEXTURE_ID = ''materialProperties.textureId''"

lemmas mesh_labels = REPO_NODE_MESH_LABEL_VERTICES_def REPO_NODE_MESH_LABEL_VERTICES_COUNT_def
  REPO_NODE_MESH_LABEL_FACES_def REPO_NODE_MESH_LABEL_FACES_COUNT_def REPO_NODE_MESH_LABEL_NORMALS_def
  REPO_NODE_MESH_LABEL_BOUNDING_BOX_def REPO_NODE_MESH_LABEL_UV_CHANNELS_def
  REPO_NODE_MESH_LABEL_UV_CHANNELS_COUNT_def REPO_NODE_MESH_LABEL_GROUPING_def
  REPO_NODE_MESH_LABEL_PRIMITIVE_def REPO_FILTER_OBJECT_NAME_def REPO_FILTER_PROP_OPAQUE_def
  REPO_FILTER_PROP_TRANSPARENT_def REPO_FILTER_PROP_TEXTURE_ID_def REPO_FILTER_TAG_TEXTURE_ID_def

definition appendBounds :: "RepoBounds \<Rightarrow> builder \<Rightarrow> builder" where
  "appendBounds bb b = append_field REPO_NODE_MESH_LABEL_BOUNDING_BOX (bson_of_bounds bb) b"

definition appendVertices :: "vec3f list \<Rightarrow> builder \<Rightarrow> builder" where
  "appendVertices vs b =
     (if length vs > 0
      then appendLargeArray REPO_NODE_MESH_LABEL_VERTICES (bytes_of_words (words_of_vec3s vs))
             (append_field REPO_NODE_MESH_LABEL_VERTICES_COUNT (BInt32 (of_nat (length vs))) b)
      else b)"

definition appendFaces :: "face list \<Rightarrow> builder \<Rightarrow> builder" where
  "appendFaces fs b =
     (if length fs > 0
      then let b = append_field REPO_NODE_MESH_LABEL_FACES_COUNT (BInt32 (of_nat (length fs))) b;
               (prim, facesLevel1) = faces_level1 fs
           in appendLargeArray REPO_NODE_MESH_LABEL_FACES (bytes_of_words facesLevel1)
                (append_field REPO_NODE_MESH_LABEL_PRIMITIVE (BInt32 prim) b)
      else b)"

definition appendNormals :: "vec3f list \<Rightarrow> builder \<Rightarrow> builder" where
  "appendNormals ns b =
     (if length ns > 0
      then appendLargeArray REPO_NODE_MESH_LABEL_NORMALS (bytes_of_words (words_of_vec3s ns)) b else b)"

definition appendUVChannels :: "nat \<Rightarrow> vec2f list \<Rightarrow> builder \<Rightarrow> builder" where
  "appendUVChannels numChannels concatenated b =
     (if length concatenated > 0
      then appendLargeArray REPO_NODE_MESH_LABEL_UV_CHANNELS (bytes_of_words (words_of_vec2s concatenated))
             (append_field REPO_NODE_MESH_LABEL_UV_CHANNELS_COUNT (BInt32 (of_nat numChannels)) b)
      else b)"

datatype MaterialProperties = UNSET | OPAQUEMAT | TRANSPARENTMAT | TEXTUREDMAT

definition determineMaterialProperties :: "repo_material \<Rightarrow> uuid \<Rightarrow> nat \<Rightarrow> MaterialProperties" where
  "determineMaterialProperties m texId numUvChannels =
     (if texId \<noteq> default_uuid \<and> numUvChannels > 0 then TEXTUREDMAT
      else if f_eq (opacity m) f_one then OPAQUEMAT else TRANSPARENTMAT)"

definition appendFilterTags :: "string \<Rightarrow> MaterialProperties \<Rightarrow> uuid \<Rightarrow> builder \<Rightarrow> builder" where
  "appendFilterTags grp matProps texId b =
     (let b = append_if (grp \<noteq> []) REPO_NODE_MESH_LABEL_GROUPING (BString grp) b;
          matPropsBson = (case matProps of
              OPAQUEMAT \<Rightarrow> append_field REPO_FILTER_PROP_OPAQUE (BBool True) RepoBSONBuilder
            | TRANSPARENTMAT \<Rightarrow> append_field REPO_FILTER_PROP_TRANSPARENT (BBool True) RepoBSONBuilder
            | TEXTUREDMAT \<Rightarrow> append_field REPO_FILTER_PROP_TEXTURE_ID (bson_of_uuid texId) RepoBSONBuilder
            | UNSET \<Rightarrow> RepoBSONBuilder)
      in append_field REPO_FILTER_OBJECT_NAME (BDocument (doc (obj matPropsBson))) b)"

definition getUVChannelsSerialised :: "mesh \<Rightarrow> vec2f list" where
  "getUVChannelsSerialised m = concat (channels m)"

definition getMaterialProperties :: "mesh \<Rightarrow> MaterialProperties" where
  "getMaterialProperties m = determineMaterialProperties (mesh_material m) (textureId m) (length (channels m))"

definition mesh_serialise :: "mesh \<Rightarrow> builder \<Rightarrow> builder" where
  "mesh_serialise m b =
     appendFilterTags (grouping m) (getMaterialProperties m) (textureId m)
       (appendUVChannels (length (channels m)) (getUVChannelsSerialised m)
         (appendNormals (normals m) (appendFaces (faces m) (appendVertices (vertices m)
           (appendBounds (boundingBox m) b)))))"

subsection \<open>Deserialisation\<close>

definition read_faces :: "RepoBSON \<Rightarrow> mesh \<Rightarrow> mesh result option" where
  "read_faces bson m =
     (if hasBinField bson REPO_NODE_MESH_LABEL_FACES \<and> hasField bson REPO_NODE_MESH_LABEL_FACES_COUNT
      then case rbind (getIntField bson REPO_NODE_MESH_LABEL_FACES_COUNT) (\<lambda>facesCount.
             if sint facesCount < 0 then Inl (RuntimeError ''length_error'')
             else read_words bson REPO_NODE_MESH_LABEL_FACES) of
               Inl e \<Rightarrow> Some (Inl e)
             | Inr ws \<Rightarrow> map_option (\<lambda>r. rbind r (\<lambda>fs. Inr (m\<lparr>faces := faces m @ fs\<rparr>))) (decode_faces ws 0 [])
      else Some (Inr m))"

definition split_channels :: "nat \<Rightarrow> vec2f list \<Rightarrow> vec2f list list" where
  "split_channels nChannels serialised =
     (let vecPerChannel = length serialised div nChannels
      in map (\<lambda>i. take vecPerChannel (drop (i * vecPerChannel) serialised)) [0..<nChannels])"

text \<open>A stored number of zero channels divides by zero.\<close>

definition read_channels :: "RepoBSON \<Rightarrow> mesh \<Rightarrow> mesh result" where
  "read_channels bson m =
     (if hasField bson REPO_NODE_MESH_LABEL_UV_CHANNELS_COUNT \<and> hasBinField bson REPO_NODE_MESH_LABEL_UV_CHANNELS
      then rbind (read_vec2s bson REPO_NODE_MESH_LABEL_UV_CHANNELS) (\<lambda>serialisedChannels.
             if length serialisedChannels > 0
             then rbind (getIntField bson REPO_NODE_MESH_LABEL_UV_CHANNELS_COUNT) (\<lambda>nChannels.
               if nChannels = 0 then Inl OutOfRange
               else Inr (m\<lparr>channels := channels m @ split_channels (unat nChannels) serialisedChannels\<rparr>))
             else Inr m)
      else Inr m)"

definition read_binary ::
  "(RepoBSON \<Rightarrow> string \<Rightarrow> 'a result) \<Rightarrow> RepoBSON \<Rightarrow> string \<Rightarrow> ('a \<Rightarrow> mesh \<Rightarrow> mesh) \<Rightarrow> mesh \<Rightarrow> mesh result" where
  "read_binary get bson label upd m =
     (if hasBinField bson label then rbind (get bson label) (\<lambda>v. Inr (upd v m)) else Inr m)"

definition mesh_deserialise :: "RepoBSON \<Rightarrow> mesh \<Rightarrow> mesh result option" where
  "mesh_deserialise bson m =
     (case rbind (read_field getStringField bson REPO_NODE_MESH_LABEL_GROUPING (\<lambda>v. grouping_update (\<lambda>_. v)) (m\<lparr>grouping := []\<rparr>)) (\<lambda>m.
        rbind (read_field getUUIDField bson REPO_FILTER_TAG_TEXTURE_ID (\<lambda>v. textureId_update (\<lambda>_. v)) m) (\<lambda>m.
        rbind (read_field getIntField bson REPO_NODE_MESH_LABEL_PRIMITIVE (\<lambda>v. primitive_update (\<lambda>_. v)) (m\<lparr>primitive := 3\<rparr>)) (\<lambda>m.
        rbind (getBoundsField bson REPO_NODE_MESH_LABEL_BOUNDING_BOX) (\<lambda>bb. Inr (m\<lparr>boundingBox := bb\<rparr>))))) of
        Inl e \<Rightarrow> Some (Inl e)
      | Inr m \<Rightarrow> map_option (\<lambda>r. rbind r (\<lambda>m.
          rbind (read_binary read_vec3s bson REPO_NODE_MESH_LABEL_VERTICES (\<lambda>v. vertices_update (\<lambda>_. v)) m) (\<lambda>m.
          rbind (read_binary read_vec3s bson REPO_NODE_MESH_LABEL_NORMALS (\<lambda>v. normals_update (\<lambda>_. v)) m) (\<lambda>m.
            read_channels bson m)))) (read_faces bson m))"

definition empty_mesh :: mesh where
  "empty_mesh = \<lparr>primitive = 3, boundingBox = empty_bounds, faces = [], vertices = [], normals = [],
     channels = [], grouping = [], textureId = default_uuid, mesh_material = default_material\<rparr>"

definition MeshNode_of_bson :: "RepoBSON \<Rightarrow> RepoNode result option" where
  "MeshNode_of_bson bson =
     (case RepoNode_of_bson bson of
        Inl e \<Rightarrow> Some (Inl e)
      | Inr n \<Rightarrow> map_option (\<lambda>r. rbind r (\<lambda>m. Inr (n\<lparr>content := MeshNode m\<rparr>))) (mesh_deserialise bson empty_mesh))"

subsection \<open>Bytes read back\<close>

lemma word_of_le_bytes: "word_rcat (rev (le_bytes w)) = w"
proof (rule bit_word_eqI)
  fix n assume n: "n < LENGTH(32)"
  then have d: "n div 8 < 4" by (auto simp: div_less_iff_less_mult)
  have r: "rev (rev (le_bytes w)) ! (n div 8) = ucast (drop_bit (8 * (n div 8)) w)"
    using d by (simp add: le_bytes_def)
  have "bit (word_rcat (rev (le_bytes w)) :: 32 word) n \<longleftrightarrow>
        bit (horner_sum uint (2 ^ LENGTH(8)) (rev (rev (le_bytes w)))) n"
    using n by (simp add: word_rcat_def bit_word_of_int_iff)
  also have "\<dots> \<longleftrightarrow> bit (rev (rev (le_bytes w)) ! (n div 8)) (n mod 8)"
    using d by (simp only: bit_horner_sum_uint_exp_iff) (simp add: le_bytes_def)
  also have "\<dots> \<longleftrightarrow> bit w n"
    by (simp only: r) (simp add: bit_simps)
  finally show "bit (word_rcat (rev (le_bytes w)) :: 32 word) n = bit w n" .
qed

lemma le_bytes_four: obtains a b c d where "le_bytes w = [a, b, c, d]" "word_rcat [d, c, b, a] = w"
proof -
  have "le_bytes w = [ucast w, ucast (drop_bit 8 w), ucast (drop_bit 16 w), ucast (drop_bit 24 w)]"
    by (simp add: le_bytes_def upt_conv_Cons)
  with word_of_le_bytes [of w] show ?thesis by (intro that) simp_all
qed

lemma words_of_bytes_of_words [simp]: "words_of_bytes (bytes_of_words ws) = ws"
proof (induction ws)
  case (Cons w ws)
  obtain a b c d where "le_bytes w = [a, b, c, d]" "word_rcat [d, c, b, a] = w" by (rule le_bytes_four)
  with Cons show ?case by (simp add: bytes_of_words_def)
qed (simp add: bytes_of_words_def)

lemma length_bytes_of_words [simp]: "length (bytes_of_words ws) = 4 * length ws"
  by (induction ws) (simp_all add: bytes_of_words_def le_bytes_def)

lemma vec3s_of_words_of_vec3s [simp]: "vec3s_of_words (words_of_vec3s vs) = vs"
  by (induction vs rule: words_of_vec3s.induct) simp_all

lemma length_words_of_vec3s [simp]: "length (words_of_vec3s vs) = 3 * length vs"
  by (induction vs rule: words_of_vec3s.induct) simp_all

lemma vec2s_of_words_of_vec2s [simp]: "vec2s_of_words (words_of_vec2s vs) = vs"
  by (induction vs rule: words_of_vec2s.induct) simp_all

lemma length_words_of_vec2s [simp]: "length (words_of_vec2s vs) = 2 * length vs"
  by (induction vs rule: words_of_vec2s.induct) simp_all

lemma read_vec3s_found:
  "map_of (bigFiles b) l = Some (bytes_of_words (words_of_vec3s vs)) \<Longrightarrow> read_vec3s b l = Inr vs"
  by (simp add: read_vec3s_def getBinaryFieldAsVector_def getBinary_def)

lemma read_vec2s_found:
  "map_of (bigFiles b) l = Some (bytes_of_words (words_of_vec2s vs)) \<Longrightarrow> read_vec2s b l = Inr vs"
  by (simp add: read_vec2s_def getBinaryFieldAsVector_def getBinary_def)

lemma read_words_found:
  "map_of (bigFiles b) l = Some (bytes_of_words ws) \<Longrightarrow> read_words b l = Inr ws"
  by (simp add: read_words_def getBinaryFieldAsVector_def getBinary_def)

subsection \<open>Faces read back\<close>

definition encode_faces :: "face list \<Rightarrow> 32 word list" where
  "encode_faces fs = concat (map (\<lambda>f. of_nat (length f) # f) fs)"

lemma encode_faces_simps [simp]:
  "encode_faces [] = []" "encode_faces (f # fs) = of_nat (length f) # f @ encode_faces fs"
  by (simp_all add: encode_faces_def)

lemma faces_level1_encode: "snd (faces_level1 fs) = encode_faces fs"
proof -
  have "snd (foldl (\<lambda>(prim, ws) f. (infer_primitive prim f, ws @ of_nat (length f) # f)) (p, acc) fs) =
        acc @ encode_faces fs" for p acc
    by (induction fs arbitrary: p acc) simp_all
  then show ?thesis by (simp add: faces_level1_def)
qed

lemma decode_faces_end: "int (length ws) \<le> idx \<Longrightarrow> decode_faces ws idx acc = Some (Inr acc)"
  by (subst decode_faces.simps) simp

lemma sint_face_size: "n \<le> 3 \<Longrightarrow> sint (of_nat n :: 32 word) = int n"
proof -
  assume "n \<le> 3"
  then have "n = 0 \<or> n = 1 \<or> n = 2 \<or> n = 3" by linarith
  then show ?thesis by auto
qed

lemma decode_faces_step:
  assumes "length f \<le> 3"
  shows "decode_faces (pre @ of_nat (length f) # f @ post) (int (length pre)) acc =
         decode_faces (pre @ of_nat (length f) # f @ post) (int (length pre) + int (length f) + 1) (acc @ [f])"
  using assms by (subst decode_faces.simps) (simp add: sint_face_size nth_append Let_def)

lemma decode_faces_encoded:
  assumes "\<And>f. f \<in> set fs \<Longrightarrow> length f \<le> 3"
  shows "decode_faces (pre @ encode_faces fs @ post) (int (length pre)) acc =
         decode_faces (pre @ encode_faces fs @ post) (int (length (pre @ encode_faces fs))) (acc @ fs)"
  using assms
proof (induction fs arbitrary: pre acc)
  case (Cons f fs)
  have "decode_faces (pre @ encode_faces (f # fs) @ post) (int (length pre)) acc =
        decode_faces ((pre @ of_nat (length f) # f) @ encode_faces fs @ post)
          (int (length (pre @ of_nat (length f) # f))) (acc @ [f])"
    using decode_faces_step [of f pre "encode_faces fs @ post" acc] Cons.prems by (simp add: add_ac)
  also have "\<dots> = decode_faces ((pre @ of_nat (length f) # f) @ encode_faces fs @ post)
          (int (length ((pre @ of_nat (length f) # f) @ encode_faces fs))) ((acc @ [f]) @ fs)"
    by (rule Cons.IH) (simp add: Cons.prems)
  finally show ?case by simp
qed simp

text \<open>A face that announces more indices than the buffer has left is never got past.\<close>

lemma decode_faces_stuck:
  assumes "idx < int (length ws)" "idx + sint (ws ! nat idx) < 0 \<or> int (length ws) \<le> idx + sint (ws ! nat idx)"
  shows "decode_faces ws idx acc = None"
proof -
  have "\<not> (idx = idx \<and> ws = ws)" if "decode_faces ws idx acc = Some r" for r
    using _ that
  proof (rule decode_faces.raw_induct [where P = "\<lambda>w i a r. \<not> (i = idx \<and> w = ws)"], goal_cases)
    case (1 f w i a r)
    then show ?case using assms by (auto simp: Let_def split: if_splits)
  qed
  then show ?thesis by (cases "decode_faces ws idx acc") auto
qed

lemma split_channels_concat:
  assumes "\<And>c. c \<in> set cs \<Longrightarrow> length c = k" "cs \<noteq> []"
  shows "split_channels (length cs) (concat cs) = cs"
proof -
  have len: "length (concat ds) = length ds * k" if "\<And>c. c \<in> set ds \<Longrightarrow> length c = k" for ds :: "vec2f list list"
    using that by (induction ds) simp_all
  have "take k (drop (i * k) (concat ds)) = ds ! i"
    if "i < length ds" "\<And>c. c \<in> set ds \<Longrightarrow> length c = k" for i and ds :: "vec2f list list"
    using that
  proof (induction ds arbitrary: i)
    case (Cons d ds)
    then show ?case by (cases i) simp_all
  qed simp
  then show ?thesis
    using assms len [of cs] by (intro nth_equalityI) (simp_all add: split_channels_def)
qed

subsection \<open>Meshes read back\<close>

lemma append_mesh_lookups [simp]:
  "map_of (core (appendBounds bb b)) l =
     (case map_of (core b) l of Some w \<Rightarrow> Some w
      | None \<Rightarrow> if l = REPO_NODE_MESH_LABEL_BOUNDING_BOX then Some (bson_of_bounds bb) else None)"
  "map_of (core (appendVertices vs b)) l =
     (case map_of (core b) l of Some w \<Rightarrow> Some w
      | None \<Rightarrow> if l = REPO_NODE_MESH_LABEL_VERTICES_COUNT \<and> vs \<noteq> [] then Some (BInt32 (of_nat (length vs))) else None)"
  "map_of (core (appendNormals ns b)) l = map_of (core b) l"
  "map_of (core (appendUVChannels n uvs b)) l =
     (case map_of (core b) l of Some w \<Rightarrow> Some w
      | None \<Rightarrow> if l = REPO_NODE_MESH_LABEL_UV_CHANNELS_COUNT \<and> uvs \<noteq> [] then Some (BInt32 (of_nat n)) else None)"
  by (auto simp: appendBounds_def appendVertices_def appendNormals_def appendUVChannels_def split: option.split)

lemma appendFaces_lookup [simp]:
  "map_of (core (appendFaces fs b)) l =
     (case map_of (core b) l of Some w \<Rightarrow> Some w
      | None \<Rightarrow> if fs = [] then None
        else if l = REPO_NODE_MESH_LABEL_FACES_COUNT then Some (BInt32 (of_nat (length fs)))
        else if l = REPO_NODE_MESH_LABEL_PRIMITIVE then Some (BInt32 (fst (faces_level1 fs))) else None)"
  by (auto simp: appendFaces_def case_prod_beta Let_def split: option.split)

lemma appendFilterTags_lookup:
  "map_of (core (appendFilterTags g p u b)) l =
     (case map_of (core b) l of Some w \<Rightarrow> Some w
      | None \<Rightarrow> if l = REPO_NODE_MESH_LABEL_GROUPING \<and> g \<noteq> [] then Some (BString g)
        else if l = REPO_FILTER_OBJECT_NAME then map_of (core (appendFilterTags g p u RepoBSONBuilder)) l else None)"
  by (auto simp: appendFilterTags_def Let_def mesh_labels split: option.split)

lemma append_mesh_binaries [simp]:
  "binMapping (appendBounds bb b) = binMapping b"
  "binMapping (appendFilterTags g p u b) = binMapping b"
  "map_of (binMapping (appendVertices vs b)) l =
     (if l = REPO_NODE_MESH_LABEL_VERTICES \<and> vs \<noteq> [] then Some (bytes_of_words (words_of_vec3s vs))
      else map_of (binMapping b) l)"
  "map_of (binMapping (appendNormals vs b)) l =
     (if l = REPO_NODE_MESH_LABEL_NORMALS \<and> vs \<noteq> [] then Some (bytes_of_words (words_of_vec3s vs))
      else map_of (binMapping b) l)"
  "map_of (binMapping (appendUVChannels n uvs b)) l =
     (if l = REPO_NODE_MESH_LABEL_UV_CHANNELS \<and> uvs \<noteq> [] then Some (bytes_of_words (words_of_vec2s uvs))
      else map_of (binMapping b) l)"
  "map_of (binMapping (appendFaces fs b)) l =
     (if l = REPO_NODE_MESH_LABEL_FACES \<and> fs \<noteq> [] then Some (bytes_of_words (encode_faces fs))
      else map_of (binMapping b) l)"
  by (auto simp: appendBounds_def appendVertices_def appendNormals_def appendUVChannels_def appendFaces_def
      appendFilterTags_def Let_def case_prod_beta update_conv' faces_level1_encode)

text \<open>
  What a stored mesh is read back as. The texture's identifier is stored inside the material
  properties, and the label it is looked for with, with a dot in it, is the name of no field.
\<close>

definition stored_mesh :: "mesh \<Rightarrow> mesh" where
  "stored_mesh m = m\<lparr>primitive := (if faces m = [] then 3 else fst (faces_level1 (faces m))),
     boundingBox := bounds_of (bmin (boundingBox m)) (bmax (boundingBox m)),
     textureId := default_uuid, mesh_material := default_material\<rparr>"

definition mesh_storable :: "mesh \<Rightarrow> bool" where
  "mesh_storable m \<longleftrightarrow> (\<forall>f \<in> set (faces m). length f \<le> 3) \<and> length (faces m) < 2 ^ 31 \<and>
     length (concat (faces m)) + length (faces m) < 2 ^ 31 \<and>
     (\<forall>c \<in> set (channels m). length c = length (hd (channels m)) \<and> c \<noteq> []) \<and> length (channels m) < 2 ^ 31"

lemma unat_of_nat_small: "n < 2 ^ 31 \<Longrightarrow> unat (of_nat n :: 32 word) = n"
  by (simp add: unat_of_nat take_bit_nat_eq_self)

lemma sint_of_nat_small: "n < 2 ^ 31 \<Longrightarrow> sint (of_nat n :: 32 word) = int n"
  using sint_sbintrunc' [of "int n", where 'a = 32] signed_take_bit_int_eq_self [of 31 "int n"] by simp

lemma mesh_lookups:
  fixes n :: RepoNode and m :: mesh
  defines "b \<equiv> mesh_serialise m (base_serialise n RepoBSONBuilder)"
  shows "map_of (core b) REPO_NODE_MESH_LABEL_GROUPING = (if grouping m = [] then None else Some (BString (grouping m)))"
    "map_of (core b) REPO_FILTER_TAG_TEXTURE_ID = None"
    "map_of (core b) REPO_NODE_MESH_LABEL_PRIMITIVE =
      (if faces m = [] then None else Some (BInt32 (fst (faces_level1 (faces m)))))"
    "map_of (core b) REPO_NODE_MESH_LABEL_BOUNDING_BOX = Some (bson_of_bounds (boundingBox m))"
    "map_of (core b) REPO_NODE_MESH_LABEL_FACES_COUNT =
      (if faces m = [] then None else Some (BInt32 (of_nat (length (faces m)))))"
    "map_of (core b) REPO_NODE_MESH_LABEL_UV_CHANNELS_COUNT =
      (if concat (channels m) = [] then None else Some (BInt32 (of_nat (length (channels m)))))"
  by (simp_all add: b_def mesh_serialise_def appendFilterTags_lookup base_serialise_other node_labels mesh_labels
      getUVChannelsSerialised_def)

lemma mesh_binaries:
  fixes n :: RepoNode and m :: mesh
  defines "b \<equiv> mesh_serialise m (base_serialise n RepoBSONBuilder)"
  shows "map_of (binMapping b) REPO_NODE_MESH_LABEL_VERTICES =
      (if vertices m = [] then None else Some (bytes_of_words (words_of_vec3s (vertices m))))"
    "map_of (binMapping b) REPO_NODE_MESH_LABEL_NORMALS =
      (if normals m = [] then None else Some (bytes_of_words (words_of_vec3s (normals m))))"
    "map_of (binMapping b) REPO_NODE_MESH_LABEL_FACES =
      (if faces m = [] then None else Some (bytes_of_words (encode_faces (faces m))))"
    "map_of (binMapping b) REPO_NODE_MESH_LABEL_UV_CHANNELS =
      (if concat (channels m) = [] then None else Some (bytes_of_words (words_of_vec2s (concat (channels m)))))"
  by (simp_all add: b_def mesh_serialise_def mesh_labels getUVChannelsSerialised_def)

lemma append_mesh_other:
  "l \<noteq> REPO_NODE_MESH_LABEL_BOUNDING_BOX \<Longrightarrow> map_of (core (appendBounds bb b)) l = map_of (core b) l"
  "l \<noteq> REPO_NODE_MESH_LABEL_VERTICES_COUNT \<Longrightarrow> map_of (core (appendVertices vs b)) l = map_of (core b) l"
  "l \<noteq> REPO_NODE_MESH_LABEL_UV_CHANNELS_COUNT \<Longrightarrow> map_of (core (appendUVChannels k uvs b)) l = map_of (core b) l"
  "l \<noteq> REPO_NODE_MESH_LABEL_FACES_COUNT \<Longrightarrow> l \<noteq> REPO_NODE_MESH_LABEL_PRIMITIVE \<Longrightarrow>
     map_of (core (appendFaces fs b)) l = map_of (core b) l"
  "l \<noteq> REPO_NODE_MESH_LABEL_GROUPING \<Longrightarrow> l \<noteq> REPO_FILTER_OBJECT_NAME \<Longrightarrow>
     map_of (core (appendFilterTags g p u b)) l = map_of (core b) l"
  by (simp_all add: appendFilterTags_lookup split: option.split)

lemma mesh_serialise_other:
  "l \<notin> {REPO_NODE_MESH_LABEL_BOUNDING_BOX, REPO_NODE_MESH_LABEL_VERTICES_COUNT,
     REPO_NODE_MESH_LABEL_UV_CHANNELS_COUNT, REPO_NODE_MESH_LABEL_FACES_COUNT,
     REPO_NODE_MESH_LABEL_PRIMITIVE, REPO_NODE_MESH_LABEL_GROUPING, REPO_FILTER_OBJECT_NAME} \<Longrightarrow>
     map_of (core (mesh_serialise m b)) l = map_of (core b) l"
  unfolding mesh_serialise_def
  by (simp add: append_mesh_other del: append_mesh_lookups(1,2,4) appendFaces_lookup)

lemma mesh_carries:
  fixes n :: RepoNode and m :: mesh
  shows "carries n (core (mesh_serialise m (base_serialise n RepoBSONBuilder)))"
  by (rule carries_extend [OF carries_base_serialise], rule mesh_serialise_other, elim insertE emptyE)
    (simp_all add: node_labels mesh_labels)

lemma read_faces_back:
  assumes "mesh_storable m" "faces x = []"
  shows "read_faces (obj (mesh_serialise m (base_serialise n RepoBSONBuilder))) x = Some (Inr (x\<lparr>faces := faces m\<rparr>))"
proof (cases "faces m = []")
  case True
  then show ?thesis
    using assms(2) mesh_lookups(5) [of m n] by (simp add: read_faces_def)
next
  case False
  have "decode_faces (encode_faces (faces m)) 0 [] = Some (Inr (faces m))"
    using decode_faces_encoded [of "faces m" "[]" "[]" "[]"] assms(1)
    by (simp add: mesh_storable_def decode_faces_end)
  then show ?thesis
    using False assms mesh_lookups(5) [of m n] mesh_binaries(3) [of m n]
    by (simp add: read_faces_def found read_words_found hasBinField_def mesh_storable_def sint_of_nat_small)
qed

lemma read_channels_back:
  assumes "mesh_storable m" "channels x = []"
  shows "read_channels (obj (mesh_serialise m (base_serialise n RepoBSONBuilder))) x = Inr (x\<lparr>channels := channels m\<rparr>)"
proof (cases "channels m = []")
  case True
  then show ?thesis
    using assms(2) mesh_lookups(6) [of m n] by (simp add: read_channels_def)
next
  case False
  have st: "\<And>c. c \<in> set (channels m) \<Longrightarrow> length c = length (hd (channels m))"
      "\<And>c. c \<in> set (channels m) \<Longrightarrow> c \<noteq> []" and l: "length (channels m) < 2 ^ 31"
    using assms(1) unfolding mesh_storable_def by blast+
  have c: "concat (channels m) \<noteq> []"
    using st(2) [OF hd_in_set [OF False]] hd_in_set [OF False] by fastforce
  have "split_channels (length (channels m)) (concat (channels m)) = channels m"
    by (rule split_channels_concat [OF st(1) False])
  moreover have "(of_nat (length (channels m)) :: 32 word) \<noteq> 0"
    using unat_of_nat_small [OF l] False by (metis length_0_conv unat_0)
  ultimately show ?thesis
    using c assms(2) mesh_lookups(6) [of m n] mesh_binaries(4) [of m n]
    by (simp add: read_channels_def found read_vec2s_found hasBinField_def unat_of_nat_small [OF l]
        del: concat_eq_Nil_conv)
qed

lemma mesh_reads_back:
  assumes "mesh_storable m"
  shows "mesh_deserialise (obj (mesh_serialise m (base_serialise n RepoBSONBuilder))) empty_mesh = Some (Inr (stored_mesh m))"
proof -
  let ?b = "obj (mesh_serialise m (base_serialise n RepoBSONBuilder))"
  note l = mesh_lookups [of m n] and bin = mesh_binaries [of m n]
  have g: "read_field getStringField ?b REPO_NODE_MESH_LABEL_GROUPING upd x =
      Inr (if grouping m = [] then x else upd (grouping m) x)" for upd and x :: mesh
    by (simp add: read_field_def found l)
  have p: "read_field getIntField ?b REPO_NODE_MESH_LABEL_PRIMITIVE upd x =
      Inr (if faces m = [] then x else upd (fst (faces_level1 (faces m))) x)" for upd and x :: mesh
    by (simp add: read_field_def found l)
  have t: "read_field getUUIDField ?b REPO_FILTER_TAG_TEXTURE_ID upd x = Inr x" for upd and x :: mesh
    by (simp add: l)
  have bb: "getBoundsField ?b REPO_NODE_MESH_LABEL_BOUNDING_BOX = Inr (bounds_of (bmin (boundingBox m)) (bmax (boundingBox m)))"
    by (rule getBoundsField_bson_of_bounds) (simp add: l)
  have v: "read_binary read_vec3s ?b REPO_NODE_MESH_LABEL_VERTICES upd x =
      Inr (if vertices m = [] then x else upd (vertices m) x)" for upd and x :: mesh
    by (simp add: read_binary_def hasBinField_def read_vec3s_found bin)
  have nr: "read_binary read_vec3s ?b REPO_NODE_MESH_LABEL_NORMALS upd x =
      Inr (if normals m = [] then x else upd (normals m) x)" for upd and x :: mesh
    by (simp add: read_binary_def hasBinField_def read_vec3s_found bin)
  show ?thesis
    unfolding mesh_deserialise_def g p t bb rbind_simps sum.case
    by (subst read_faces_back [OF assms], simp add: empty_mesh_def)
      (simp add: v nr read_channels_back [OF assms] empty_mesh_def stored_mesh_def)
qed

subsection \<open>Any node\<close>

text \<open>The virtual \<open>serialise\<close>, \<open>getBSON\<close>, and the choice of class when a scene is loaded.\<close>

definition serialise :: "(tm \<Rightarrow> int) \<Rightarrow> RepoNode \<Rightarrow> builder \<Rightarrow> builder result" where
  "serialise mktime n b =
     (case content n of
        NoContent \<Rightarrow> Inr (base_serialise n b)
      | TransformationNode m \<Rightarrow> Inr (transformation_serialise m (base_serialise n b))
      | MetadataNode m \<Rightarrow> metadata_serialise mktime m (base_serialise n b)
      | TextureNode t \<Rightarrow> Inr (texture_serialise t (base_serialise n b))
      | MaterialNode m \<Rightarrow> Inr (material_serialise m (base_serialise n b))
      | MeshNode m \<Rightarrow> Inr (mesh_serialise m (base_serialise n b))
      | SupermeshNode m \<Rightarrow> Inl (RepoException ''Supermesh Nodes cannot be serialised'')
      | ModelRevisionNode r \<Rightarrow> Inr (model_revision_serialise (sharedId n) r (base_serialise n b))
      | DrawingRevisionNode r \<Rightarrow> Inr (drawing_revision_serialise r (base_serialise n b)))"

definition getBSON :: "(tm \<Rightarrow> int) \<Rightarrow> RepoNode \<Rightarrow> RepoBSON result" where
  "getBSON mktime n =
     rbind (serialise mktime n RepoBSONBuilder) (\<lambda>b. Inr (make_RepoBSON (obj b) (binMapping b)))"

definition node_of_bson :: "(int \<Rightarrow> tm) \<Rightarrow> RepoBSON \<Rightarrow> RepoNode result option" where
  "node_of_bson gmtime bson =
     (case getStringField bson REPO_NODE_LABEL_TYPE of
        Inl e \<Rightarrow> Some (Inl e)
      | Inr nodeType \<Rightarrow>
          if nodeType = REPO_NODE_TYPE_TRANSFORMATION then Some (TransformationNode_of_bson bson)
          else if nodeType = REPO_NODE_TYPE_MESH then MeshNode_of_bson bson
          else if nodeType = REPO_NODE_TYPE_MATERIAL then Some (MaterialNode_of_bson bson)
          else if nodeType = REPO_NODE_TYPE_TEXTURE then Some (TextureNode_of_bson bson)
          else if nodeType = REPO_NODE_TYPE_METADATA then Some (MetadataNode_of_bson gmtime bson)
          else Some (RepoNode_of_bson bson))"

lemma make_RepoBSON_obj [simp]: "make_RepoBSON (obj b) (binMapping b) = obj b"
proof -
  have "foldl (\<lambda>fs (k, v). if k \<in> fst ` set fs then fs else AList.update k v fs) m kvs = m"
    if "fst ` set kvs \<subseteq> fst ` set m" for m kvs :: "(string \<times> bytes) list"
    using that
  proof (induction kvs)
    case (Cons kv kvs)
    then show ?case by (cases kv) simp
  qed simp
  then show ?thesis by (simp add: make_RepoBSON_def obj_def)
qed

text \<open>Which nodes can be stored without loss, and what a stored node is read back as.\<close>

fun content_storable :: "(tm \<Rightarrow> int) \<Rightarrow> (int \<Rightarrow> tm) \<Rightarrow> node_content \<Rightarrow> bool" where
  "content_storable mktime gmtime (TransformationNode m) \<longleftrightarrow> length m = 16"
| "content_storable mktime gmtime (MetadataNode m) \<longleftrightarrow> distinct (map fst m) \<and>
     (\<forall>e \<in> set m. fst e \<noteq> [] \<and> variant_stable mktime gmtime (snd e))"
| "content_storable mktime gmtime (TextureNode t) \<longleftrightarrow> True"
| "content_storable mktime gmtime (MaterialNode m) \<longleftrightarrow>
     color_num (ambient m) \<and> color_num (diffuse m) \<and> color_num (specular m) \<and> color_num (emissive m)"
| "content_storable mktime gmtime (MeshNode m) \<longleftrightarrow> mesh_storable m"
| "content_storable mktime gmtime _ \<longleftrightarrow> False"

fun stored_content :: "node_content \<Rightarrow> node_content" where
  "stored_content (MaterialNode m) = MaterialNode (stored_material m)"
| "stored_content (MeshNode m) = MeshNode (stored_mesh m)"
| "stored_content c = c"

lemma carried_type:
  "carries n d \<Longrightarrow> getType n \<noteq> [] \<Longrightarrow> getStringField \<lparr>doc = d, bigFiles = fs\<rparr> REPO_NODE_LABEL_TYPE = Inr (getType n)"
  by (simp add: carries_def carries_field_def found)

lemma node_reads_back:
  assumes "content_storable mktime gmtime (content n)"
  shows "\<exists>b. serialise mktime n RepoBSONBuilder = Inr b \<and> carries n (core b) \<and>
           node_of_bson gmtime (obj b) = Some (Inr (n\<lparr>content := stored_content (content n)\<rparr>))"
proof -
  note labels = node_type_labels
  show ?thesis
  proof (cases "content n")
    case (TransformationNode m)
    let ?b = "transformation_serialise m (base_serialise n RepoBSONBuilder)"
    have m: "length m = 16" using assms TransformationNode by simp
    note r = transformation_reads_back [OF m, of n]
    show ?thesis
      using r carried_type [OF r(1)] TransformationNode base_deserialise_carries [of n "obj ?b"]
      by (intro exI [of _ ?b]) (simp add: serialise_def node_of_bson_def getType_def labels obj_def
          TransformationNode_of_bson_def)
  next
    case (MetadataNode m)
    obtain b where r: "metadata_serialise mktime m (base_serialise n RepoBSONBuilder) = Inr b"
        "carries n (core b)" "metadata_deserialise gmtime (obj b) = Inr m"
      using metadata_reads_back [of m mktime gmtime n] assms MetadataNode by auto
    show ?thesis
      using r carried_type [OF r(2)] MetadataNode base_deserialise_carries [of n "obj b"]
      by (intro exI [of _ b]) (simp add: serialise_def node_of_bson_def getType_def labels obj_def
          MetadataNode_of_bson_def)
  next
    case (TextureNode t)
    let ?b = "texture_serialise t (base_serialise n RepoBSONBuilder)"
    note r = texture_reads_back [where n = n and t = t]
    show ?thesis
      using r carried_type [OF r(1)] TextureNode base_deserialise_carries [of n "obj ?b"]
      by (intro exI [of _ ?b]) (simp add: serialise_def node_of_bson_def getType_def labels obj_def
          TextureNode_of_bson_def)
  next
    case (MaterialNode m)
    let ?b = "material_serialise m (base_serialise n RepoBSONBuilder)"
    have m: "color_num (ambient m)" "color_num (diffuse m)" "color_num (specular m)" "color_num (emissive m)"
      using assms MaterialNode by simp_all
    note r = material_reads_back [OF m, of n]
    show ?thesis
      using r carried_type [OF r(1)] MaterialNode base_deserialise_carries [of n "obj ?b"]
      by (intro exI [of _ ?b]) (simp add: serialise_def node_of_bson_def getType_def labels obj_def
          MaterialNode_of_bson_def)
  next
    case (MeshNode m)
    let ?b = "mesh_serialise m (base_serialise n RepoBSONBuilder)"
    have m: "mesh_storable m" using assms MeshNode by simp
    note r = mesh_reads_back [OF m, of n] and c = mesh_carries [of n m]
    show ?thesis
      using r c carried_type [OF c] MeshNode base_deserialise_carries [of n "obj ?b"]
      by (intro exI [of _ ?b]) (simp add: serialise_def node_of_bson_def getType_def labels obj_def
          MeshNode_of_bson_def)
  qed (use assms in simp_all)
qed

subsection \<open>Properties\<close>


definition sample_mesh_node :: RepoNode where
  "sample_mesh_node = \<lparr>node_name = ''wall'', uniqueId = 1, sharedId = 2, parentIds = {|7, 3|},
     revId = 0, content = MeshNode (empty_mesh\<lparr>faces := [[0, 1, 2], [2, 1, 3]],
       vertices := [(0, 0, 0), (f_one, 0, 0), (0, f_one, 0), (f_one, f_one, 0)], textureId := 9\<rparr>)\<rparr>"




text \<open>
  C37: a revision of a model is stored and read back whole, when its time fits a date; a revision of a
  drawing is stored without a time, so the class's own reader always rejects what the class wrote.
\<close>

theorem revision_roundtrip:
  assumes "content n = ModelRevisionNode r" and "- (2 ^ 63) \<le> timestamp r * 1000" and "timestamp r * 1000 < 2 ^ 63"
    and "content n' = DrawingRevisionNode dr"
  shows "(\<exists>bson. getBSON mktime n = Inr bson \<and> ModelRevisionNode_of_bson bson = Inr n) \<and>
         (\<exists>bson. getBSON mktime n' = Inr bson \<and> DrawingRevisionNode_of_bson b0 bson =
            Inl (RepoFieldNotFoundException REPO_NODE_REVISION_LABEL_TIMESTAMP))"
proof
  let ?b = "model_revision_serialise (sharedId n) r (base_serialise n RepoBSONBuilder)"
  note r = model_revision_reads_back [OF assms(2,3) refl, of n]
  obtain r1 where r1: "revision_deserialise (obj ?b) empty_model_revision = Inr r1"
      "model_revision_deserialise (obj ?b) r1 = Inr r"
    using r(3) by (auto simp: rbind_Inr_iff)
  have "RepoNode_of_bson (obj ?b) = Inr (n\<lparr>content := NoContent\<rparr>)"
    using r(1) by (intro base_deserialise_carries) simp
  then have "ModelRevisionNode_of_bson (obj ?b) = Inr n"
    using r1 assms(1) by (cases n) (simp add: ModelRevisionNode_of_bson_def)
  then show "\<exists>bson. getBSON mktime n = Inr bson \<and> ModelRevisionNode_of_bson bson = Inr n"
    using assms(1) by (simp add: getBSON_def serialise_def)
next
  let ?b = "drawing_revision_serialise dr (base_serialise n' RepoBSONBuilder)"
  note d = drawing_revision_unreadable [where n = n' and r = dr]
  have "RepoNode_of_bson (obj ?b) = Inr (n'\<lparr>content := NoContent\<rparr>)"
    using d(1) by (intro base_deserialise_carries) simp
  then show "\<exists>bson. getBSON mktime n' = Inr bson \<and> DrawingRevisionNode_of_bson b0 bson =
      Inl (RepoFieldNotFoundException REPO_NODE_REVISION_LABEL_TIMESTAMP)"
    using assms(4) by (simp add: getBSON_def serialise_def DrawingRevisionNode_of_bson_def d(2))
qed

definition sample_revision :: RepoNode where
  "sample_revision = (RepoNode_default 5)\<lparr>content := ModelRevisionNode (empty_model_revision\<lparr>author := ''me'',
     timestamp := 1700000000, upload_status := 2\<rparr>)\<rparr>"

theorem revision_roundtrip_witness:
  "\<exists>bson. getBSON tm_sec sample_revision = Inr bson \<and> ModelRevisionNode_of_bson bson = Inr sample_revision"
  by (rule conjunct1, rule revision_roundtrip [where r = "empty_model_revision\<lparr>author := ''me'',
     timestamp := 1700000000, upload_status := 2\<rparr>" and dr = "empty_drawing_revision False" and n' = "(RepoNode_default 6)\<lparr>content := DrawingRevisionNode (empty_drawing_revision False)\<rparr>"])
    (simp_all add: sample_revision_def empty_model_revision_def)

end
