(* ===== verification/MeshOps.thy ===== *)
theory MeshOps
  imports Mesh
begin

text \<open>
  What else mesh nodes do (\<open>core/model/bson/repo_node_mesh.cpp\<close>): the setters, the bounding box, the
  summary bits, comparison, and \<open>removeDuplicateVertices\<close>, which merges vertices that compare equal
  and redirects the faces. \<open>std::hash<float>\<close> is an argument, as is the order in which an
  \<open>unordered_multimap\<close> gives the entries of one hash.
\<close>

subsection \<open>Setters and summaries\<close>

definition setFaces :: "face list \<Rightarrow> mesh \<Rightarrow> mesh" where
  "setFaces fs m =
     (let m = m\<lparr>faces := fs\<rparr>
      in if length fs > 0 then m\<lparr>primitive := of_nat (length (fs ! 0))\<rparr> else m)"

definition setUVChannel :: "nat \<Rightarrow> vec2f list \<Rightarrow> mesh \<Rightarrow> mesh" where
  "setUVChannel channel uvs m =
     (if length uvs > 0
      then let n = max (length (channels m)) (channel + 1);
               cs = channels m @ replicate (n - length (channels m)) []
           in m\<lparr>channels := cs[channel := uvs]\<rparr>
      else m)"

definition vec3_to_double :: "vec3f \<Rightarrow> vec3d" where
  "vec3_to_double v = (case v of (x, y, z) \<Rightarrow> (float_to_double x, float_to_double y, float_to_double z))"

definition updateBoundingBox :: "mesh \<Rightarrow> mesh" where
  "updateBoundingBox m =
     m\<lparr>boundingBox := foldl (\<lambda>b v. encapsulate b (vec3_to_double v)) empty_bounds (vertices m)\<rparr>"

definition setVertices :: "vec3f list \<Rightarrow> bool \<Rightarrow> mesh \<Rightarrow> mesh" where
  "setVertices vs updateBB m =
     (let m = m\<lparr>vertices := vs\<rparr> in if updateBB then updateBoundingBox m else m)"

definition bool_bit :: "bool \<Rightarrow> 32 word" where
  "bool_bit b = (if b then 1 else 0)"

text \<open>The two flags only end up in local variables.\<close>

definition getMFormat :: "mesh \<Rightarrow> bool \<Rightarrow> bool \<Rightarrow> 32 word" where
  "getMFormat m isTransparent isInvisibleDefault =
     (let vBit = bool_bit (vertices m \<noteq> []);
          fBit = push_bit 1 (bool_bit (faces m \<noteq> []));
          nBit = push_bit 2 (bool_bit (normals m \<noteq> []));
          rBit = push_bit 3 0;
          uvBits = ucast (push_bit 8 (and (of_nat (length (channels m)) :: 64 word) 0xFF));
          typeBits = push_bit 16 (and (primitive m) 0xFF)
      in or (or (or (or (or vBit fBit) nBit) rBit) uvBits) typeBits)"

definition vec3f_eq :: "vec3f \<Rightarrow> vec3f \<Rightarrow> bool" where
  "vec3f_eq a b = (case (a, b) of ((ax, ay, az), (bx, by', bz)) \<Rightarrow> f_eq ax bx \<and> f_eq ay by' \<and> f_eq az bz)"

definition vec2f_eq :: "vec2f \<Rightarrow> vec2f \<Rightarrow> bool" where
  "vec2f_eq a b = (case (a, b) of ((ax, ay), (bx, by')) \<Rightarrow> f_eq ax bx \<and> f_eq ay by')"

definition mesh_sEqual :: "mesh \<Rightarrow> node_content \<Rightarrow> bool" where
  "mesh_sEqual m other =
     (case (case other of MeshNode o' \<Rightarrow> Some o' | SupermeshNode o' \<Rightarrow> Some o' | _ \<Rightarrow> None) of
        None \<Rightarrow> False
      | Some o' \<Rightarrow> grouping m = grouping o' \<and> primitive m = primitive o' \<and>
          bounds_eq (boundingBox m) (boundingBox o') \<and> faces m = faces o' \<and>
          list_all2 vec3f_eq (vertices m) (vertices o') \<and> list_all2 vec3f_eq (normals m) (normals o') \<and>
          list_all2 (list_all2 vec2f_eq) (channels m) (channels o'))"

subsection \<open>Removing duplicate vertices\<close>

record Vertex =
  position :: vec3f
  normal :: "vec3f option"
  uv :: "vec2f option"

definition GOLDEN_RATIO :: "64 word" where "GOLDEN_RATIO = 0x9e3779b9"

definition hashCombine :: "(cfloat \<Rightarrow> 64 word) \<Rightarrow> 64 word \<Rightarrow> cfloat \<Rightarrow> 64 word" where
  "hashCombine hasher seed v = xor seed (hasher v + GOLDEN_RATIO + push_bit 6 seed + drop_bit 2 seed)"

definition vertex_floats :: "Vertex \<Rightarrow> cfloat list" where
  "vertex_floats v =
     (case position v of (x, y, z) \<Rightarrow> [x, y, z]) @
     (case normal v of None \<Rightarrow> [] | Some (x, y, z) \<Rightarrow> [x, y, z]) @
     (case uv v of None \<Rightarrow> [] | Some (x, y) \<Rightarrow> [x, y])"

definition vertex_hash :: "(cfloat \<Rightarrow> 64 word) \<Rightarrow> Vertex \<Rightarrow> 64 word" where
  "vertex_hash hasher v = foldl (hashCombine hasher) 0 (vertex_floats v)"

definition vertex_eq :: "Vertex \<Rightarrow> Vertex \<Rightarrow> bool" where
  "vertex_eq a b =
     (vec3f_eq (position a) (position b) \<and>
      (case (normal a, normal b) of (None, None) \<Rightarrow> True | (Some x, Some y) \<Rightarrow> vec3f_eq x y | _ \<Rightarrow> False) \<and>
      (case (uv a, uv b) of (None, None) \<Rightarrow> True | (Some x, Some y) \<Rightarrow> vec2f_eq x y | _ \<Rightarrow> False))"

record dedup =
  newVertices :: "Vertex list"
  hash_map :: "(64 word \<times> nat) list"

definition at :: "'a list \<Rightarrow> nat \<Rightarrow> 'a result" where
  "at xs i = (if i < length xs then Inr (xs ! i) else Inl OutOfRange)"

definition make_vertex :: "mesh \<Rightarrow> vec2f list \<Rightarrow> nat \<Rightarrow> Vertex result" where
  "make_vertex m uvs index =
     rbind (at (vertices m) index) (\<lambda>p.
     rbind (if normals m \<noteq> [] then rbind (at (normals m) index) (\<lambda>n. Inr (Some n)) else Inr None) (\<lambda>n.
     rbind (if channels m \<noteq> [] then rbind (at uvs index) (\<lambda>u. Inr (Some u)) else Inr None) (\<lambda>u.
       Inr \<lparr>position = p, normal = n, uv = u\<rparr>)))"

text \<open>
  One corner. The found position is stored into the face's 32-bit index, where \<open>-1\<close> means that
  nothing was found.
\<close>

definition dedup_index ::
  "(cfloat \<Rightarrow> 64 word) \<Rightarrow> (nat list \<Rightarrow> nat list) \<Rightarrow> mesh \<Rightarrow> vec2f list \<Rightarrow> 32 word \<Rightarrow> dedup \<Rightarrow>
     (32 word \<times> dedup) result" where
  "dedup_index hasher bucket m uvs index st =
     rbind (make_vertex m uvs (unat index)) (\<lambda>v.
       let hash = vertex_hash hasher v;
           matching = bucket (map snd (filter (\<lambda>e. fst e = hash) (hash_map st)));
           index = (case List.find (\<lambda>i. vertex_eq (newVertices st ! i) v) matching of
                      Some i \<Rightarrow> of_nat i | None \<Rightarrow> - 1)
       in if index = - 1
          then Inr (of_nat (length (newVertices st)),
                    st\<lparr>newVertices := newVertices st @ [v],
                       hash_map := hash_map st @ [(hash, length (newVertices st))]\<rparr>)
          else Inr (index, st))"

fun dedup_face ::
  "(32 word \<Rightarrow> dedup \<Rightarrow> (32 word \<times> dedup) result) \<Rightarrow> face \<Rightarrow> dedup \<Rightarrow> (face \<times> dedup) result" where
  "dedup_face step [] st = Inr ([], st)"
| "dedup_face step (i # is) st =
     rbind (step i st) (\<lambda>(i', st). rbind (dedup_face step is st) (\<lambda>(is', st). Inr (i' # is', st)))"

fun dedup_faces ::
  "(32 word \<Rightarrow> dedup \<Rightarrow> (32 word \<times> dedup) result) \<Rightarrow> face list \<Rightarrow> dedup \<Rightarrow> (face list \<times> dedup) result" where
  "dedup_faces step [] st = Inr ([], st)"
| "dedup_faces step (f # fs) st =
     rbind (dedup_face step f st) (\<lambda>(f', st). rbind (dedup_faces step fs st) (\<lambda>(fs', st). Inr (f' # fs', st)))"

definition removeDuplicateVertices ::
  "(cfloat \<Rightarrow> 64 word) \<Rightarrow> (nat list \<Rightarrow> nat list) \<Rightarrow> mesh \<Rightarrow> mesh result" where
  "removeDuplicateVertices hasher bucket m =
     (if length (channels m) > 1
      then Inl (RepoGeometryProcessingException ''removeDuplicateVertices currently only supports one uv channel.'')
      else let uvs = (if channels m \<noteq> [] then channels m ! 0 else [])
           in rbind (dedup_faces (dedup_index hasher bucket m uvs) (faces m) \<lparr>newVertices = [], hash_map = []\<rparr>)
                (\<lambda>(fs, st).
                  let m' = m\<lparr>faces := fs, vertices := map position (newVertices st),
                        normals := List.map_filter normal (newVertices st)\<rparr>
                  in Inr (if channels m \<noteq> []
                          then m'\<lparr>channels := (channels m)[0 := List.map_filter uv (newVertices st)]\<rparr>
                          else m')))"

subsection \<open>What merging keeps\<close>

definition hash_respects_eq :: "(cfloat \<Rightarrow> 64 word) \<Rightarrow> bool" where
  "hash_respects_eq hasher \<longleftrightarrow> (\<forall>a b. f_eq a b \<longrightarrow> hasher a = hasher b)"

lemma vertex_eq_floats: "vertex_eq a b \<Longrightarrow> list_all2 f_eq (vertex_floats a) (vertex_floats b)"
  by (cases "normal a"; cases "normal b"; cases "uv a"; cases "uv b")
    (auto simp: vertex_eq_def vertex_floats_def vec3f_eq_def vec2f_eq_def split: prod.splits)

lemma vertex_eq_hash:
  assumes "hash_respects_eq hasher" "vertex_eq a b"
  shows "vertex_hash hasher a = vertex_hash hasher b"
proof -
  have "foldl (hashCombine hasher) h xs = foldl (hashCombine hasher) h ys" if "list_all2 f_eq xs ys" for h xs ys
    using that assms(1)
    by (induction arbitrary: h rule: list_all2_induct) (auto simp: hashCombine_def hash_respects_eq_def)
  with vertex_eq_floats [OF assms(2)] show ?thesis by (simp add: vertex_hash_def)
qed

definition shaped :: "mesh \<Rightarrow> Vertex \<Rightarrow> bool" where
  "shaped m v \<longleftrightarrow> (normal v = None \<longleftrightarrow> normals m = []) \<and> (uv v = None \<longleftrightarrow> channels m = [])"

lemma make_vertex_shaped: "make_vertex m uvs i = Inr v \<Longrightarrow> shaped m v"
  by (auto simp: make_vertex_def shaped_def rbind_Inr_iff split: if_splits)

text \<open>The multimap lists every vertex kept so far under its hash, and no two of them compare equal.\<close>

definition dedup_inv :: "(cfloat \<Rightarrow> 64 word) \<Rightarrow> mesh \<Rightarrow> dedup \<Rightarrow> bool" where
  "dedup_inv hasher m st \<longleftrightarrow>
     hash_map st = map (\<lambda>i. (vertex_hash hasher (newVertices st ! i), i)) [0..<length (newVertices st)] \<and>
     (\<forall>i j. i < j \<longrightarrow> j < length (newVertices st) \<longrightarrow> \<not> vertex_eq (newVertices st ! i) (newVertices st ! j)) \<and>
     (\<forall>v \<in> set (newVertices st). shaped m v)"

definition corner_kept :: "mesh \<Rightarrow> vec2f list \<Rightarrow> Vertex list \<Rightarrow> 32 word \<Rightarrow> 32 word \<Rightarrow> bool" where
  "corner_kept m uvs nv i i' \<longleftrightarrow> (\<exists>v. make_vertex m uvs (unat i) = Inr v \<and> unat i' < length nv \<and>
     (nv ! unat i' = v \<or> vertex_eq (nv ! unat i') v))"

lemma corner_kept_append: "corner_kept m uvs nv i i' \<Longrightarrow> corner_kept m uvs (nv @ ext) i i'"
  by (auto simp: corner_kept_def nth_append)

lemma List_find_cases:
  "List.find P xs = r \<Longrightarrow> case r of Some i \<Rightarrow> i \<in> set xs \<and> P i | None \<Rightarrow> \<forall>i \<in> set xs. \<not> P i"
  by (cases r) (auto simp: find_None_iff find_Some_iff)

lemma unat_small_32: "n < 2 ^ 32 \<Longrightarrow> unat (of_nat n :: 32 word) = n"
  by (simp add: unat_of_nat take_bit_nat_eq_self)

lemma dedup_index_step:
  assumes step: "dedup_index hasher bucket m uvs index st = Inr (index', st')"
    and hash: "hash_respects_eq hasher" and bucket: "\<And>xs. set (bucket xs) = set xs"
    and inv: "dedup_inv hasher m st" and small: "length (newVertices st) < 2 ^ 32 - 1"
  shows "dedup_inv hasher m st' \<and> corner_kept m uvs (newVertices st') index index' \<and>
         (\<exists>ext. newVertices st' = newVertices st @ ext \<and> length ext \<le> 1)"
proof -
  let ?nv = "newVertices st"
  obtain v where v: "make_vertex m uvs (unat index) = Inr v"
    using step by (auto simp: dedup_index_def rbind_Inr_iff)
  let ?match = "map snd (filter (\<lambda>e. fst e = vertex_hash hasher v) (hash_map st))"
  have match: "set ?match = {i. i < length ?nv \<and> vertex_hash hasher (?nv ! i) = vertex_hash hasher v}"
    using inv by (auto simp: dedup_inv_def image_iff)
  define r where "r = List.find (\<lambda>i. vertex_eq (?nv ! i) v) (bucket ?match)"
  have find: "case r of Some i \<Rightarrow> i \<in> set ?match \<and> vertex_eq (?nv ! i) v
      | None \<Rightarrow> \<forall>i \<in> set ?match. \<not> vertex_eq (?nv ! i) v"
    using List_find_cases [OF r_def [symmetric]] by (simp only: bucket)
  show ?thesis
  proof (cases r)
    case (Some i)
    then have i: "i < length ?nv" "vertex_eq (?nv ! i) v" using find match by auto
    then have u: "unat (of_nat i :: 32 word) = i" using small by (intro unat_small_32) simp
    moreover have "unat (of_nat (Suc i) :: 32 word) = Suc i" using i(1) small by (intro unat_small_32) simp
    ultimately have "(of_nat i :: 32 word) \<noteq> - 1" by auto
    then show ?thesis
      using step v Some i u inv
      by (auto simp: dedup_index_def Let_def corner_kept_def simp flip: r_def)
  next
    case None
    have new: "\<not> vertex_eq (?nv ! i) v" if "i < length ?nv" for i
    proof
      assume eq: "vertex_eq (?nv ! i) v"
      with that have "i \<in> set ?match" unfolding match by (simp add: vertex_eq_hash [OF hash eq])
      with eq find None show False by (simp only: option.case)
    qed
    have "unat (of_nat (length ?nv) :: 32 word) = length ?nv" using small by (intro unat_small_32) simp
    then show ?thesis
      using step v None inv new make_vertex_shaped [OF v]
      by (auto simp: dedup_index_def Let_def corner_kept_def dedup_inv_def nth_append less_Suc_eq simp flip: r_def)
  qed
qed

lemma dedup_face_step:
  assumes hash: "hash_respects_eq hasher" and bucket: "\<And>xs. set (bucket xs) = set xs"
  shows "dedup_face (dedup_index hasher bucket m uvs) f st = Inr (f', st') \<Longrightarrow>
    dedup_inv hasher m st \<Longrightarrow> length (newVertices st) + length f < 2 ^ 32 \<Longrightarrow>
    dedup_inv hasher m st' \<and> list_all2 (corner_kept m uvs (newVertices st')) f f' \<and>
    (\<exists>ext. newVertices st' = newVertices st @ ext \<and> length ext \<le> length f)"
proof (induction f arbitrary: st f')
  case (Cons i f)
  then obtain i' st1 g where s: "dedup_index hasher bucket m uvs i st = Inr (i', st1)"
      "dedup_face (dedup_index hasher bucket m uvs) f st1 = Inr (g, st')" "f' = i' # g"
    by (auto simp: rbind_Inr_iff)
  obtain ext where e: "dedup_inv hasher m st1" "corner_kept m uvs (newVertices st1) i i'"
      "newVertices st1 = newVertices st @ ext" "length ext \<le> 1"
    using dedup_index_step [OF s(1) hash bucket] Cons.prems(2,3) by auto
  obtain ext' where "dedup_inv hasher m st'" "list_all2 (corner_kept m uvs (newVertices st')) f g"
      "newVertices st' = newVertices st1 @ ext'" "length ext' \<le> length f"
    using Cons.IH [OF s(2) e(1)] Cons.prems(3) e(3,4) by auto
  moreover from this have "corner_kept m uvs (newVertices st') i i'"
    using corner_kept_append [OF e(2)] by simp
  ultimately show ?case using e s(3) by auto
qed simp

lemma dedup_faces_step:
  assumes hash: "hash_respects_eq hasher" and bucket: "\<And>xs. set (bucket xs) = set xs"
  shows "dedup_faces (dedup_index hasher bucket m uvs) fs st = Inr (fs', st') \<Longrightarrow>
    dedup_inv hasher m st \<Longrightarrow> length (newVertices st) + length (concat fs) < 2 ^ 32 \<Longrightarrow>
    dedup_inv hasher m st' \<and> list_all2 (list_all2 (corner_kept m uvs (newVertices st'))) fs fs' \<and>
    (\<exists>ext. newVertices st' = newVertices st @ ext \<and> length ext \<le> length (concat fs))"
proof (induction fs arbitrary: st fs')
  case (Cons f fs)
  then obtain f1 st1 gs where s: "dedup_face (dedup_index hasher bucket m uvs) f st = Inr (f1, st1)"
      "dedup_faces (dedup_index hasher bucket m uvs) fs st1 = Inr (gs, st')" "fs' = f1 # gs"
    by (auto simp: rbind_Inr_iff)
  obtain ext where e: "dedup_inv hasher m st1" "list_all2 (corner_kept m uvs (newVertices st1)) f f1"
      "newVertices st1 = newVertices st @ ext" "length ext \<le> length f"
    using dedup_face_step [OF hash bucket s(1)] Cons.prems(2,3) by auto
  obtain ext' where d: "dedup_inv hasher m st'" "list_all2 (list_all2 (corner_kept m uvs (newVertices st'))) fs gs"
      "newVertices st' = newVertices st1 @ ext'" "length ext' \<le> length (concat fs)"
    using Cons.IH [OF s(2) e(1)] Cons.prems(3) e(3,4) by auto
  have "list_all2 (corner_kept m uvs (newVertices st')) f f1"
    using e(2) by (rule list_all2_mono) (simp add: d(3) corner_kept_append)
  with e d s(3) show ?case by auto
qed simp

lemma nth_map_filter_all:
  "(\<And>x. x \<in> set xs \<Longrightarrow> f x \<noteq> None) \<Longrightarrow> List.map_filter f xs = map (\<lambda>x. the (f x)) xs"
  by (induction xs) (auto simp: List.map_filter_simps split: option.split)

lemma nth_map_filter_none:
  "(\<And>x. x \<in> set xs \<Longrightarrow> f x = None) \<Longrightarrow> List.map_filter f xs = []"
  by (induction xs) (auto simp: List.map_filter_simps)

lemma map_filter_shape:
  assumes "\<And>x. x \<in> set xs \<Longrightarrow> (f x = None \<longleftrightarrow> b)" "i < length xs"
  shows "(if List.map_filter f xs \<noteq> [] then i < length (List.map_filter f xs) \<and> Some (List.map_filter f xs ! i) = f (xs ! i)
          else f (xs ! i) = None)"
proof (cases b)
  case True
  then show ?thesis using assms nth_map_filter_none [of xs f] by auto
next
  case False
  then have "f (xs ! i) \<noteq> None" "List.map_filter f xs = map (\<lambda>x. the (f x)) xs"
    using assms nth_map_filter_all [of xs f] by auto
  then show ?thesis using assms(2) by auto
qed

definition mesh_corner :: "mesh \<Rightarrow> 32 word \<Rightarrow> Vertex result" where
  "mesh_corner m i = make_vertex m (if channels m \<noteq> [] then channels m ! 0 else []) (unat i)"

lemma mesh_corner_rebuilt:
  assumes nv: "\<And>v. v \<in> set nv \<Longrightarrow> shaped m v" and i: "unat i < length nv" and one: "length (channels m) \<le> 1"
    and m': "vertices m' = map position nv" "normals m' = List.map_filter normal nv"
      "channels m' = (if channels m \<noteq> [] then (channels m)[0 := List.map_filter uv nv] else [])"
  shows "mesh_corner m' i = Inr (nv ! unat i)"
proof -
  let ?v = "nv ! unat i"
  have n: "if normals m' \<noteq> [] then unat i < length (normals m') \<and> Some (normals m' ! unat i) = normal ?v
      else normal ?v = None"
    unfolding m' by (rule map_filter_shape [where b = "normals m = []"]) (use nv i in \<open>auto simp: shaped_def\<close>)
  have u: "if List.map_filter uv nv \<noteq> [] then unat i < length (List.map_filter uv nv) \<and> Some (List.map_filter uv nv ! unat i) = uv ?v
      else uv ?v = None"
    by (rule map_filter_shape [where b = "channels m = []"]) (use nv i in \<open>auto simp: shaped_def\<close>)
  have "uv ?v = None \<longleftrightarrow> channels m = []" using nv [of ?v] i by (simp add: shaped_def)
  with n u i show ?thesis
    by (cases "channels m"; cases ?v) (auto simp: mesh_corner_def make_vertex_def at_def m' split: if_splits)
qed

subsection \<open>Properties\<close>

text \<open>
  C9: merging duplicate vertices does not change what is drawn: when it succeeds, every face keeps its
  corners, and each corner has, in the new arrays, the position, normal and texture coordinates it
  had, up to equality of floating point numbers; no two of the new vertices are equal, and there are
  no more of them than corners. This holds for every hash function that gives equal numbers equal
  hashes and every order of the hash table.
\<close>

theorem removeDuplicateVertices_keeps:
  assumes hash: "hash_respects_eq hasher" and bucket: "\<And>xs. set (bucket xs) = set xs"
    and small: "length (concat (faces m)) < 2 ^ 32"
    and result: "removeDuplicateVertices hasher bucket m = Inr m'"
  shows "list_all2 (list_all2 (\<lambda>i i'. \<exists>v v'. mesh_corner m i = Inr v \<and> mesh_corner m' i' = Inr v' \<and>
             (v' = v \<or> vertex_eq v' v))) (faces m) (faces m') \<and>
         length (vertices m') \<le> length (concat (faces m)) \<and>
         (\<forall>i j v w. unat i < unat j \<longrightarrow> unat j < length (vertices m') \<longrightarrow>
            mesh_corner m' i = Inr v \<longrightarrow> mesh_corner m' j = Inr w \<longrightarrow> \<not> vertex_eq v w)"
proof -
  let ?uvs = "if channels m \<noteq> [] then channels m ! 0 else []"
  have one: "length (channels m) \<le> 1"
    using result by (auto simp: removeDuplicateVertices_def split: if_splits)
  obtain fs st where st: "dedup_faces (dedup_index hasher bucket m ?uvs) (faces m) \<lparr>newVertices = [], hash_map = []\<rparr> = Inr (fs, st)"
    and m': "faces m' = fs" "vertices m' = map position (newVertices st)"
      "normals m' = List.map_filter normal (newVertices st)"
      "channels m' = (if channels m \<noteq> [] then (channels m)[0 := List.map_filter uv (newVertices st)] else [])"
    using result by (auto simp: removeDuplicateVertices_def rbind_Inr_iff Let_def split: if_splits)
  have inv: "dedup_inv hasher m st" "list_all2 (list_all2 (corner_kept m ?uvs (newVertices st))) (faces m) fs"
      "length (newVertices st) \<le> length (concat (faces m))"
    using dedup_faces_step [OF hash bucket st] small by (auto simp: dedup_inv_def)
  have shaped: "\<And>v. v \<in> set (newVertices st) \<Longrightarrow> shaped m v" using inv(1) by (simp add: dedup_inv_def)
  have corner: "mesh_corner m' i = Inr (newVertices st ! unat i)" if "unat i < length (newVertices st)" for i
    by (rule mesh_corner_rebuilt [OF shaped that one m'(2-4)])
  have "list_all2 (list_all2 (\<lambda>i i'. \<exists>v v'. mesh_corner m i = Inr v \<and> mesh_corner m' i' = Inr v' \<and>
             (v' = v \<or> vertex_eq v' v))) (faces m) (faces m')"
    unfolding m'(1)
    by (rule list_all2_mono [OF inv(2)], erule list_all2_mono)
      (auto simp: corner_kept_def corner mesh_corner_def [of m])
  moreover have "\<not> vertex_eq v w"
    if "unat i < unat j" "unat j < length (vertices m')" "mesh_corner m' i = Inr v" "mesh_corner m' j = Inr w"
    for i j :: "32 word" and v w
    using that corner inv(1) by (auto simp: m'(2) dedup_inv_def)
  ultimately show ?thesis using inv(3) by (simp add: m'(2))
qed

definition sample_quad :: mesh where
  "sample_quad = empty_mesh\<lparr>faces := [[0, 1], [2, 0]],
     vertices := [(0, 0, 0), (f_one, 0, 0), (0x80000000, 0, 0)]\<rparr>"

lemma sample_quad_result:
  "\<exists>m'. removeDuplicateVertices (\<lambda>_. 0) (\<lambda>xs. xs) sample_quad = Inr m' \<and> faces m' = [[0, 1], [0, 0]]"
  by (simp add: removeDuplicateVertices_def sample_quad_def empty_mesh_def dedup_index_def make_vertex_def at_def
      vertex_eq_def vec3f_eq_def vertex_hash_def vertex_floats_def hashCombine_def f_eq_def f_nan_def fkey_def
      mag_def f_one_def Let_def List.map_filter_simps)

theorem removeDuplicateVertices_keeps_witness:
  "\<exists>m'. faces m' = [[0, 1], [0, 0]] \<and> length (vertices m') \<le> 4 \<and>
     list_all2 (list_all2 (\<lambda>i i'. \<exists>v v'. mesh_corner sample_quad i = Inr v \<and> mesh_corner m' i' = Inr v' \<and>
             (v' = v \<or> vertex_eq v' v))) (faces sample_quad) (faces m')"
proof -
  obtain m' where m': "removeDuplicateVertices (\<lambda>_. 0) (\<lambda>xs. xs) sample_quad = Inr m'" "faces m' = [[0, 1], [0, 0]]"
    using sample_quad_result by blast
  have "length (concat (faces sample_quad)) < 2 ^ 32" by (simp add: sample_quad_def)
  from removeDuplicateVertices_keeps [OF _ _ this m'(1)] m'(2) show ?thesis
    by (intro exI [of _ m']) (simp add: hash_respects_eq_def, simp add: sample_quad_def)
qed

end
