(* ===== verification/SceneGraph.thy ===== *)
theory SceneGraph
  imports MeshOps
begin

text \<open>
  The scene graph: \<open>RepoScene\<close> of \<open>core/model/collection/repo_scene.cpp\<close> and \<open>.h\<close>, as far as it
  builds, changes and queries the graph. Nodes are shared by pointer between the maps, the sets and
  the child lists, so the scene carries its heap: a pointer is a number, 0 is null, a freed or null
  pointer that is read is \<open>NullDeref\<close>. An \<open>unordered_map\<close> is an association list in its iteration
  order. A \<open>RepoNodeSet\<close> is the list of its pointers, ordered by \<open>node_less\<close> on the nodes they point to.
\<close>

subsection \<open>State\<close>

type_synonym ptr = nat

abbreviation null :: ptr where "null \<equiv> 0"

datatype GraphType = DEFAULT | OPTIMIZED

record repoGraphInstance =
  meshes :: "ptr list"
  materials :: "ptr list"
  metadata :: "ptr list"
  textures :: "ptr list"
  transformations :: "ptr list"
  unknowns :: "ptr list"
  nodesByUniqueID :: "(uuid \<times> ptr) list"
  sharedIDtoUniqueID :: "(uuid \<times> uuid) list"
  parentToChildren :: "(uuid \<times> ptr list) list"
  rootNode :: ptr

record RepoScene =
  heap :: "ptr \<Rightarrow> RepoNode option"
  next_ptr :: ptr \<comment> \<open>where \<open>new\<close> allocates\<close>
  graph :: repoGraphInstance
  stashGraph :: repoGraphInstance
  databaseName :: string
  projectName :: string
  headRevision :: bool
  unRevisioned :: bool
  branch :: uuid
  revision :: uuid
  revNode :: "RepoNode option"
  refFiles :: "string list"
  commitMsg :: string
  worldOffset :: "double list"
  newAdded :: "uuid fset"
  newRemoved :: "uuid fset"
  newModified :: "uuid fset"
  newCurrent :: "uuid fset"
  toRemove :: "ptr list"
  status :: "16 word"

definition REPO_SCENE_TEXTURE_BIT :: "16 word" where "REPO_SCENE_TEXTURE_BIT = 1"
definition REPO_SCENE_ENTITIES_BIT :: "16 word" where "REPO_SCENE_ENTITIES_BIT = 2"

definition empty_graph :: repoGraphInstance where
  "empty_graph = \<lparr>meshes = [], materials = [], metadata = [], textures = [], transformations = [],
     unknowns = [], nodesByUniqueID = [], sharedIDtoUniqueID = [], parentToChildren = [], rootNode = null\<rparr>"

definition graph_of :: "GraphType \<Rightarrow> RepoScene \<Rightarrow> repoGraphInstance" where
  "graph_of gType s = (if gType = OPTIMIZED then stashGraph s else graph s)"

definition set_graph :: "GraphType \<Rightarrow> repoGraphInstance \<Rightarrow> RepoScene \<Rightarrow> RepoScene" where
  "set_graph gType g s = (if gType = OPTIMIZED then s\<lparr>stashGraph := g\<rparr> else s\<lparr>graph := g\<rparr>)"

definition deref :: "RepoScene \<Rightarrow> ptr \<Rightarrow> RepoNode result" where
  "deref s p = (if p = null then Inl NullDeref else case heap s p of None \<Rightarrow> Inl NullDeref | Some n \<Rightarrow> Inr n)"

definition store :: "ptr \<Rightarrow> RepoNode \<Rightarrow> RepoScene \<Rightarrow> RepoScene" where
  "store p n s = s\<lparr>heap := (heap s)(p \<mapsto> n)\<rparr>"

subsection \<open>Node sets\<close>

fun set_insert :: "RepoScene \<Rightarrow> ptr \<Rightarrow> ptr list \<Rightarrow> ptr list result" where
  "set_insert s p [] = Inr [p]"
| "set_insert s p (q # qs) =
     rbind (deref s p) (\<lambda>n. rbind (deref s q) (\<lambda>m.
       if node_less n m then Inr (p # q # qs)
       else if node_less m n then rbind (set_insert s p qs) (\<lambda>r. Inr (q # r))
       else Inr (q # qs)))"

fun set_erase :: "RepoScene \<Rightarrow> ptr \<Rightarrow> ptr list \<Rightarrow> ptr list result" where
  "set_erase s p [] = Inr []"
| "set_erase s p (q # qs) =
     rbind (deref s p) (\<lambda>n. rbind (deref s q) (\<lambda>m.
       if \<not> node_less n m \<and> \<not> node_less m n then Inr qs
       else rbind (set_erase s p qs) (\<lambda>r. Inr (q # r))))"

datatype collection = Meshes | Materials | Metadata | Textures | Transformations | Unknowns

fun get_collection :: "collection \<Rightarrow> repoGraphInstance \<Rightarrow> ptr list" where
  "get_collection Meshes g = meshes g"
| "get_collection Materials g = materials g"
| "get_collection Metadata g = metadata g"
| "get_collection Textures g = textures g"
| "get_collection Transformations g = transformations g"
| "get_collection Unknowns g = unknowns g"

fun put_collection :: "collection \<Rightarrow> ptr list \<Rightarrow> repoGraphInstance \<Rightarrow> repoGraphInstance" where
  "put_collection Meshes ps g = g\<lparr>meshes := ps\<rparr>"
| "put_collection Materials ps g = g\<lparr>materials := ps\<rparr>"
| "put_collection Metadata ps g = g\<lparr>metadata := ps\<rparr>"
| "put_collection Textures ps g = g\<lparr>textures := ps\<rparr>"
| "put_collection Transformations ps g = g\<lparr>transformations := ps\<rparr>"
| "put_collection Unknowns ps g = g\<lparr>unknowns := ps\<rparr>"

definition collection_insert :: "GraphType \<Rightarrow> collection \<Rightarrow> ptr \<Rightarrow> RepoScene \<Rightarrow> RepoScene result" where
  "collection_insert gType c p s =
     rbind (set_insert s p (get_collection c (graph_of gType s))) (\<lambda>ps.
       Inr (set_graph gType (put_collection c ps (graph_of gType s)) s))"

definition collection_erase :: "GraphType \<Rightarrow> collection \<Rightarrow> ptr \<Rightarrow> RepoScene \<Rightarrow> RepoScene result" where
  "collection_erase gType c p s =
     rbind (set_erase s p (get_collection c (graph_of gType s))) (\<lambda>ps.
       Inr (set_graph gType (put_collection c ps (graph_of gType s)) s))"

subsection \<open>Names\<close>

definition nameCheck :: "char \<Rightarrow> bool" where
  "nameCheck c = (c = CHR '' '' \<or> c = CHR ''$'' \<or> c = CHR ''.'')"

definition dbNameCheck :: "char \<Rightarrow> bool" where
  "dbNameCheck c = (c = CHR ''/'' \<or> c = CHR 0x5C \<or> c = CHR ''.'' \<or> c = CHR '' '' \<or> c = CHR 0x22 \<or>
     c = CHR ''$'' \<or> c = CHR ''*'' \<or> c = CHR ''<'' \<or> c = CHR ''>'' \<or> c = CHR '':'' \<or> c = CHR ''?'' \<or> c = CHR ''|'')"

definition extNameCheck :: "char \<Rightarrow> bool" where
  "extNameCheck c = (c = CHR '' '' \<or> c = CHR ''$'')"

definition replace_if :: "('a \<Rightarrow> bool) \<Rightarrow> 'a \<Rightarrow> 'a list \<Rightarrow> 'a list" where
  "replace_if f v xs = map (\<lambda>c. if f c then v else c) xs"

definition sanitizeExt :: "string \<Rightarrow> string" where
  "sanitizeExt name = replace_if extNameCheck CHR ''_'' name"
definition sanitizeName :: "string \<Rightarrow> string" where
  "sanitizeName name = replace_if nameCheck CHR ''_'' name"
definition sanitizeDatabaseName :: "string \<Rightarrow> string" where
  "sanitizeDatabaseName name = replace_if dbNameCheck CHR ''_'' name"

subsection \<open>Status and lookups\<close>

definition isOK :: "RepoScene \<Rightarrow> bool" where "isOK s = (status s = 0)"

text \<open>The cast binds tighter than the mask.\<close>

definition isMissingTexture :: "RepoScene \<Rightarrow> bool" where
  "isMissingTexture s = (and (if status s \<noteq> 0 then 1 else 0) REPO_SCENE_TEXTURE_BIT \<noteq> 0)"
definition isMissingNodes :: "RepoScene \<Rightarrow> bool" where
  "isMissingNodes s = (and (status s) REPO_SCENE_ENTITIES_BIT \<noteq> 0)"
definition setMissingTexture :: "RepoScene \<Rightarrow> RepoScene" where
  "setMissingTexture s = s\<lparr>status := or (status s) REPO_SCENE_TEXTURE_BIT\<rparr>"
definition setMissingNodes :: "RepoScene \<Rightarrow> RepoScene" where
  "setMissingNodes s = s\<lparr>status := or (status s) REPO_SCENE_ENTITIES_BIT\<rparr>"

definition getNodeByUniqueID :: "GraphType \<Rightarrow> uuid \<Rightarrow> RepoScene \<Rightarrow> ptr" where
  "getNodeByUniqueID gType u s =
     (case map_of (nodesByUniqueID (graph_of gType s)) u of None \<Rightarrow> null | Some p \<Rightarrow> p)"

definition getNodeBySharedID :: "GraphType \<Rightarrow> uuid \<Rightarrow> RepoScene \<Rightarrow> ptr" where
  "getNodeBySharedID gType sh s =
     (case map_of (sharedIDtoUniqueID (graph_of gType s)) sh of None \<Rightarrow> null | Some u \<Rightarrow> getNodeByUniqueID gType u s)"

definition getChildrenAsNodes :: "GraphType \<Rightarrow> uuid \<Rightarrow> RepoScene \<Rightarrow> ptr list" where
  "getChildrenAsNodes gType parent s =
     (case map_of (parentToChildren (graph_of gType s)) parent of Some cs \<Rightarrow> cs | None \<Rightarrow> [])"

fun filterNodesByType :: "RepoScene \<Rightarrow> ptr list \<Rightarrow> NodeType \<Rightarrow> ptr list result" where
  "filterNodesByType s [] t = Inr []"
| "filterNodesByType s (p # ps) t =
     rbind (deref s p) (\<lambda>n. rbind (filterNodesByType s ps t) (\<lambda>r.
       Inr (if getTypeAsEnum n = t then p # r else r)))"

definition getChildrenNodesFiltered :: "GraphType \<Rightarrow> uuid \<Rightarrow> NodeType \<Rightarrow> RepoScene \<Rightarrow> ptr list result" where
  "getChildrenNodesFiltered gType parent t s = filterNodesByType s (getChildrenAsNodes gType parent s) t"

text \<open>The recursion has no bound of its own: a graph with a cycle uses up any fuel.\<close>

fun getAllDescendantsByType :: "nat \<Rightarrow> GraphType \<Rightarrow> uuid \<Rightarrow> NodeType \<Rightarrow> RepoScene \<Rightarrow> ptr list result" where
  "getAllDescendantsByType 0 gType sh t s = Inl StackOverflow"
| "getAllDescendantsByType (Suc fuel) gType sh t s =
     rfold (\<lambda>child res. rbind (deref s child) (\<lambda>n.
         rbind (getAllDescendantsByType fuel gType (sharedId n) t s) (\<lambda>grandChildrenRes.
           Inr (res @ grandChildrenRes @ (if getTypeAsEnum n = t then [child] else [])))))
       (getChildrenAsNodes gType sh s) []"

definition getParentNodesFiltered :: "GraphType \<Rightarrow> ptr \<Rightarrow> NodeType \<Rightarrow> RepoScene \<Rightarrow> ptr list result" where
  "getParentNodesFiltered gType node t s =
     (if node = null then Inr []
      else rbind (deref s node) (\<lambda>n.
        rfold (\<lambda>id results. let p = getNodeBySharedID gType id s
                 in if p = null then Inr results
                    else rbind (deref s p) (\<lambda>m. Inr (if getTypeAsEnum m = t then results @ [p] else results)))
          (getParentIDs n) []))"

text \<open>\<open>uuid_string\<close> is \<open>RepoUUID::toString\<close>.\<close>

definition getBranchName :: "(uuid \<Rightarrow> string) \<Rightarrow> RepoScene \<Rightarrow> string" where
  "getBranchName uuid_string s =
     (case revNode s of
        None \<Rightarrow> ''master''
      | Some r \<Rightarrow> if node_name r = [] then uuid_string (uniqueId r) else node_name r)"

definition getAllSharedIDs :: "GraphType \<Rightarrow> RepoScene \<Rightarrow> uuid fset" where
  "getAllSharedIDs gType s = fset_of_list (map fst (sharedIDtoUniqueID (graph_of gType s)))"

definition getTextureIDForMesh :: "(uuid \<Rightarrow> string) \<Rightarrow> GraphType \<Rightarrow> uuid \<Rightarrow> RepoScene \<Rightarrow> string result" where
  "getTextureIDForMesh uuid_string gType sh s =
     rbind (getChildrenNodesFiltered gType sh MATERIAL s) (\<lambda>matNodes.
       case matNodes of
         [] \<Rightarrow> Inr []
       | m # _ \<Rightarrow> rbind (deref s m) (\<lambda>n.
           rbind (getChildrenNodesFiltered gType (sharedId n) TEXTURE s) (\<lambda>textureNodes.
             case textureNodes of
               [] \<Rightarrow> Inr []
             | t # _ \<Rightarrow> rbind (deref s t) (\<lambda>tn. Inr (uuid_string (uniqueId tn))))))"

definition revision_content :: "RepoNode \<Rightarrow> model_revision" where
  "revision_content n = (case content n of ModelRevisionNode r \<Rightarrow> r | _ \<Rightarrow> empty_model_revision)"

definition getOriginalFiles :: "RepoScene \<Rightarrow> string list" where
  "getOriginalFiles s = (case revNode s of Some r \<Rightarrow> files (revision_content r) | None \<Rightarrow> refFiles s)"

definition setOriginalFiles :: "string list \<Rightarrow> RepoScene \<Rightarrow> RepoScene" where
  "setOriginalFiles fileNames s =
     (case revNode s of
        Some r \<Rightarrow> s\<lparr>revNode := Some (r\<lparr>content := ModelRevisionNode (revision_content r\<lparr>files := fileNames\<rparr>)\<rparr>)\<rparr>
      | None \<Rightarrow> s)\<lparr>refFiles := fileNames\<rparr>"

definition getViewGraph :: "RepoScene \<Rightarrow> GraphType" where
  "getViewGraph s = (if rootNode (stashGraph s) \<noteq> null then OPTIMIZED else DEFAULT)"

definition getRevisionID :: "RepoScene \<Rightarrow> uuid" where
  "getRevisionID s = (case revNode s of Some r \<Rightarrow> uniqueId r | None \<Rightarrow> revision s)"

definition getMessage :: "RepoScene \<Rightarrow> string" where
  "getMessage s = (case revNode s of Some r \<Rightarrow> message (revision_content r) | None \<Rightarrow> commitMsg s)"

definition getTotalNodesChanged :: "RepoScene \<Rightarrow> nat" where
  "getTotalNodesChanged s = fcard (newRemoved s) + fcard (newAdded s) + fcard (newModified s)"

subsection \<open>Changing the graph\<close>

text \<open>\<open>children.push_back(node)\<close> in the entry of a parent, which is made when it is missing.\<close>

definition push_child :: "uuid \<Rightarrow> ptr \<Rightarrow> repoGraphInstance \<Rightarrow> repoGraphInstance" where
  "push_child parent p g =
     g\<lparr>parentToChildren := AList.update parent
        ((case map_of (parentToChildren g) parent of Some cs \<Rightarrow> cs | None \<Rightarrow> []) @ [p]) (parentToChildren g)\<rparr>"

definition push_child_unique :: "uuid \<Rightarrow> ptr \<Rightarrow> repoGraphInstance \<Rightarrow> repoGraphInstance" where
  "push_child_unique parent p g =
     (case map_of (parentToChildren g) parent of
        Some cs \<Rightarrow> if p \<in> set cs then g else push_child parent p g
      | None \<Rightarrow> push_child parent p g)"

definition abandonChild ::
  "GraphType \<Rightarrow> uuid \<Rightarrow> ptr \<Rightarrow> bool \<Rightarrow> bool \<Rightarrow> RepoScene \<Rightarrow> RepoScene result" where
  "abandonChild gType parent child modifyParent modifyChild s =
     (if child = null then Inr s
      else rbind (deref s child) (\<lambda>c.
        let g = graph_of gType s;
            s = (if modifyParent
                 then case map_of (parentToChildren g) parent of
                        Some children \<Rightarrow>
                          if child \<in> set children
                          then set_graph gType (g\<lparr>parentToChildren :=
                                 AList.update parent (remove1 child children) (parentToChildren g)\<rparr>) s
                          else s
                      | None \<Rightarrow> s
                 else s)
        in Inr (if modifyChild then store child (removeParent parent c) s else s)))"

definition addInheritance :: "GraphType \<Rightarrow> ptr \<Rightarrow> ptr \<Rightarrow> RepoScene \<Rightarrow> RepoScene result" where
  "addInheritance gType parentNode childNode s =
     (if parentNode \<noteq> null \<and> childNode \<noteq> null
      then rbind (deref s parentNode) (\<lambda>p. rbind (deref s childNode) (\<lambda>c.
        let s = set_graph gType (push_child_unique (sharedId p) childNode (graph_of gType s)) s
        in Inr (store childNode (addParent (sharedId p) c) s)))
      else Inr s)"

text \<open>The overload for several parents skips those the child already has.\<close>

definition addInheritance_all :: "GraphType \<Rightarrow> ptr list \<Rightarrow> ptr \<Rightarrow> RepoScene \<Rightarrow> RepoScene result" where
  "addInheritance_all gType parentNodes childNode s =
     (if length parentNodes > 0 \<and> childNode \<noteq> null
      then rbind (deref s childNode) (\<lambda>c.
        rbind (rfold (\<lambda>parent (g, parentShareIDs).
            rbind (deref s parent) (\<lambda>p.
              if sharedId p |\<notin>| parentIds c
              then Inr (push_child_unique (sharedId p) childNode g, finsert (sharedId p) parentShareIDs)
              else Inr (g, parentShareIDs)))
          parentNodes (graph_of gType s, {||}))
        (\<lambda>(g, parentShareIDs).
          let s = set_graph gType g s
          in Inr (if fcard parentShareIDs > 0
                  then store childNode (addParents (sorted_list_of_fset parentShareIDs) c) s else s)))
      else Inr s)"

text \<open>Adding a node: without parents it is a candidate for the root, with parents it joins their children.\<close>

definition is_transformation :: "RepoNode \<Rightarrow> bool" where
  "is_transformation n = (case content n of TransformationNode _ \<Rightarrow> True | _ \<Rightarrow> False)"

definition choose_root :: "RepoScene \<Rightarrow> ptr \<Rightarrow> RepoNode \<Rightarrow> ptr \<Rightarrow> ptr result" where
  "choose_root s node n root =
     (let cast = (if is_transformation n then node else null)
      in if root = null then Inr cast
         else rbind (deref s root) (\<lambda>r.
           if node_neq r n
           then if getTypeAsEnum n = TRANSFORMATION \<and> getTypeAsEnum r = TRANSFORMATION
                then Inl (RepoSceneProcessingException
                  ''2 candidate for root node found. This is possibly an invalid Scene Graph.'')
                else Inr (if getTypeAsEnum n = TRANSFORMATION then cast else root)
           else Inr root))"

definition addNodeToMaps :: "GraphType \<Rightarrow> ptr \<Rightarrow> RepoScene \<Rightarrow> RepoScene result" where
  "addNodeToMaps gType node s =
     rbind (deref s node) (\<lambda>n.
       let g = graph_of gType s
       in rbind (if parentIds n = {||}
                 then rbind (choose_root s node n (rootNode g)) (\<lambda>r. Inr (g\<lparr>rootNode := r\<rparr>))
                 else Inr (fold (\<lambda>parent g. push_child parent node g) (getParentIDs n) g))
            (\<lambda>g. Inr (set_graph gType
                (g\<lparr>nodesByUniqueID := AList.update (uniqueId n) node (nodesByUniqueID g),
                   sharedIDtoUniqueID := AList.update (sharedId n) (uniqueId n) (sharedIDtoUniqueID g)\<rparr>) s)))"

text \<open>
  One node of \<open>addNodeToScene\<close>. A node that is neither a transformation nor has a parent is an orphan:
  it is left out and the scene flagged. A null node is skipped, but then read.
\<close>

definition addNodeToScene_step :: "GraphType \<Rightarrow> collection \<Rightarrow> ptr \<Rightarrow> RepoScene \<Rightarrow> RepoScene result" where
  "addNodeToScene_step gType c node s =
     (let mark = (\<lambda>s. if gType = DEFAULT
                then rbind (deref s node) (\<lambda>n. Inr (s\<lparr>newAdded := finsert (sharedId n) (newAdded s)\<rparr>))
                else Inr s)
      in if node \<noteq> null
         then rbind (deref s node) (\<lambda>n.
           if getTypeAsEnum n = TRANSFORMATION \<or> parentIds n \<noteq> {||}
           then rbind (collection_insert gType c node s) (\<lambda>s. rbind (addNodeToMaps gType node s) mark)
           else Inr (setMissingNodes s))
         else mark s)"

definition addNodeToScene :: "GraphType \<Rightarrow> ptr list \<Rightarrow> collection \<Rightarrow> RepoScene \<Rightarrow> RepoScene result" where
  "addNodeToScene gType nodes c s = rfold (addNodeToScene_step gType c) nodes s"

definition addNodes :: "ptr list \<Rightarrow> RepoScene \<Rightarrow> RepoScene result" where
  "addNodes nodes s = rfold (addNodeToMaps DEFAULT) nodes s"

definition populateAndUpdate ::
  "GraphType \<Rightarrow> ptr list \<Rightarrow> ptr list \<Rightarrow> ptr list \<Rightarrow> ptr list \<Rightarrow> ptr list \<Rightarrow> ptr list \<Rightarrow> RepoScene \<Rightarrow>
     RepoScene result" where
  "populateAndUpdate gType ms mats metas texs trs unks s =
     rbind (addNodeToScene gType ms Meshes s) (\<lambda>s.
     rbind (addNodeToScene gType mats Materials s) (\<lambda>s.
     rbind (addNodeToScene gType metas Metadata s) (\<lambda>s.
     rbind (addNodeToScene gType texs Textures s) (\<lambda>s.
     rbind (addNodeToScene gType trs Transformations s) (\<lambda>s.
       addNodeToScene gType unks Unknowns s)))))"

definition clearStash :: "RepoScene \<Rightarrow> RepoScene" where
  "clearStash s =
     s\<lparr>heap := (\<lambda>p. if p \<in> snd ` set (nodesByUniqueID (stashGraph s)) then None else heap s p),
       stashGraph := empty_graph\<rparr>"

definition REPO_HISTORY_MASTER_BRANCH :: uuid where "REPO_HISTORY_MASTER_BRANCH = 0"

text \<open>The constructors. The nodes given to the second one are already on the heap.\<close>

definition RepoScene_empty :: "(ptr \<Rightarrow> RepoNode option) \<Rightarrow> ptr \<Rightarrow> string \<Rightarrow> string \<Rightarrow> RepoScene" where
  "RepoScene_empty h nxt database project =
     \<lparr>heap = h, next_ptr = nxt, graph = empty_graph, stashGraph = empty_graph,
      databaseName = sanitizeDatabaseName database, projectName = sanitizeName project,
      headRevision = True, unRevisioned = True, branch = REPO_HISTORY_MASTER_BRANCH, revision = default_uuid,
      revNode = None, refFiles = [], commitMsg = [], worldOffset = [], newAdded = {||}, newRemoved = {||},
      newModified = {||}, newCurrent = {||}, toRemove = [], status = 0\<rparr>"

definition RepoScene_of ::
  "(ptr \<Rightarrow> RepoNode option) \<Rightarrow> ptr \<Rightarrow> string list \<Rightarrow> ptr list \<Rightarrow> ptr list \<Rightarrow> ptr list \<Rightarrow> ptr list \<Rightarrow> ptr list \<Rightarrow>
     ptr list \<Rightarrow> RepoScene result" where
  "RepoScene_of h nxt refs ms mats metas texs trs unks =
     populateAndUpdate DEFAULT ms mats metas texs trs unks
       ((RepoScene_empty h nxt [] [])\<lparr>refFiles := refs\<rparr>)"

definition addStashGraph :: "ptr list \<Rightarrow> ptr list \<Rightarrow> ptr list \<Rightarrow> ptr list \<Rightarrow> RepoScene \<Rightarrow> RepoScene result" where
  "addStashGraph ms mats texs trs s = populateAndUpdate OPTIMIZED ms mats [] texs trs [] s"

text \<open>Removing a node leaves it in the child lists of its parents, and possibly as the root.\<close>

definition collection_of_type :: "NodeType \<Rightarrow> collection option" where
  "collection_of_type t = (case t of MATERIAL \<Rightarrow> Some Materials | MESH \<Rightarrow> Some Meshes | METADATA \<Rightarrow> Some Metadata
     | TEXTURE \<Rightarrow> Some Textures | TRANSFORMATION \<Rightarrow> Some Transformations | UNKNOWN \<Rightarrow> Some Unknowns | REVISION \<Rightarrow> None)"

definition removeNode :: "GraphType \<Rightarrow> uuid \<Rightarrow> RepoScene \<Rightarrow> RepoScene result" where
  "removeNode gType sh s =
     (let node = getNodeBySharedID gType sh s
      in if node = null then Inr s
         else rbind (deref s node) (\<lambda>n.
           let g = graph_of gType s;
               s = set_graph gType
                     (g\<lparr>nodesByUniqueID := AList.delete (uniqueId n) (nodesByUniqueID g),
                        sharedIDtoUniqueID := AList.delete sh (sharedIDtoUniqueID g),
                        parentToChildren := AList.delete sh (parentToChildren g)\<rparr>) s;
               keepNode = (gType = DEFAULT \<and> sh |\<notin>| newAdded s);
               s = (if gType = DEFAULT
                    then if sh |\<in>| newAdded s then s\<lparr>newAdded := newAdded s |-| {|sh|}\<rparr>
                         else s\<lparr>newModified := newModified s |-| {|sh|}, newRemoved := finsert sh (newRemoved s)\<rparr>
                    else s)
           in rbind (case collection_of_type (getTypeAsEnum n) of
                       Some c \<Rightarrow> collection_erase gType c node s | None \<Rightarrow> Inr s) (\<lambda>s.
                Inr (if keepNode then s\<lparr>toRemove := toRemove s @ [node]\<rparr>
                     else s\<lparr>heap := (heap s)(node := None)\<rparr>))))"

definition resetChangeSet :: "RepoScene \<Rightarrow> RepoScene" where
  "resetChangeSet s =
     s\<lparr>newRemoved := {||}, newModified := {||}, newCurrent := {||}, newAdded := getAllSharedIDs DEFAULT s,
       revNode := None, unRevisioned := True, databaseName := [], projectName := []\<rparr>"

definition setDatabaseAndProjectName :: "string \<Rightarrow> string \<Rightarrow> RepoScene \<Rightarrow> RepoScene" where
  "setDatabaseAndProjectName db project s =
     s\<lparr>databaseName := sanitizeDatabaseName db, projectName := sanitizeName project\<rparr>"

definition setWorldOffset :: "double list \<Rightarrow> RepoScene \<Rightarrow> RepoScene" where
  "setWorldOffset offs s = (if length offs > 0 then s\<lparr>worldOffset := offs\<rparr> else s)"

definition getWorldOffset :: "RepoScene \<Rightarrow> double list" where
  "getWorldOffset s = (if worldOffset s \<noteq> [] then worldOffset s else [0, 0, 0])"

subsection \<open>Metadata by name\<close>

definition toupper_ascii :: "char \<Rightarrow> char" where
  "toupper_ascii c = (let n = of_char c :: nat in if 97 \<le> n \<and> n \<le> 122 then char_of (n - 32) else c)"

definition node_key :: "bool \<Rightarrow> string \<Rightarrow> string" where
  "node_key exactMatch name =
     (if exactMatch then name else map toupper_ascii (takeWhile (\<lambda>c. c \<noteq> CHR '' '') name))"

definition meta_key :: "bool \<Rightarrow> string \<Rightarrow> string" where
  "meta_key exactMatch name = (if exactMatch then name else map toupper_ascii name)"

definition names_map :: "bool \<Rightarrow> RepoScene \<Rightarrow> (string \<times> ptr list) list result" where
  "names_map exactMatch s =
     rfold (\<lambda>p m. rbind (deref s p) (\<lambda>n.
         let k = node_key exactMatch (node_name n)
         in Inr (AList.update k ((case map_of m k of Some ps \<Rightarrow> ps | None \<Rightarrow> []) @ [p]) m)))
       (transformations (graph s) @ meshes (graph s)) []"

text \<open>The parents a piece of metadata gets for one node of its name.\<close>

definition meta_parents :: "nat \<Rightarrow> bool \<Rightarrow> ptr \<Rightarrow> RepoScene \<Rightarrow> uuid list result" where
  "meta_parents fuel propagateData p s =
     rbind (deref s p) (\<lambda>n.
     rbind (getAllDescendantsByType fuel DEFAULT (sharedId n) MESH s) (\<lambda>ms.
       if propagateData \<and> getTypeAsEnum n = TRANSFORMATION \<and> length ms > 0
       then rtraverse (\<lambda>q. rbind (deref s q) (\<lambda>m. Inr (sharedId m))) ms
       else Inr [sharedId n]))"

definition attach_meta :: "ptr \<Rightarrow> uuid list \<Rightarrow> RepoScene \<Rightarrow> RepoScene" where
  "attach_meta meta parents s = s\<lparr>graph := fold (\<lambda>p g. push_child p meta g) parents (graph s)\<rparr>"

definition addMetadata_step ::
  "nat \<Rightarrow> (string \<times> ptr list) list \<Rightarrow> bool \<Rightarrow> bool \<Rightarrow> ptr \<Rightarrow> RepoScene \<Rightarrow> RepoScene result" where
  "addMetadata_step fuel names exactMatch propagateData meta s =
     rbind (deref s meta) (\<lambda>n.
       case map_of names (meta_key exactMatch (node_name n)) of
         None \<Rightarrow> Inr s
       | Some nodes \<Rightarrow>
           rbind (rfold (\<lambda>p (s, parents). rbind (meta_parents fuel propagateData p s) (\<lambda>ps.
                Inr (attach_meta meta ps s, parents @ ps))) nodes (s, [])) (\<lambda>(s, parents).
             let s = store meta (addParents parents n) s;
                 g = graph s;
                 s = s\<lparr>graph := g\<lparr>nodesByUniqueID := AList.update (uniqueId n) meta (nodesByUniqueID g),
                                  sharedIDtoUniqueID := AList.update (sharedId n) (uniqueId n) (sharedIDtoUniqueID g)\<rparr>,
                       newAdded := finsert (sharedId n) (newAdded s),
                       newCurrent := finsert (uniqueId n) (newCurrent s)\<rparr>
             in collection_insert DEFAULT Metadata meta s))"

definition addMetadata :: "nat \<Rightarrow> ptr list \<Rightarrow> bool \<Rightarrow> bool \<Rightarrow> RepoScene \<Rightarrow> RepoScene result" where
  "addMetadata fuel metas exactMatch propagateData s =
     rbind (names_map exactMatch s) (\<lambda>names.
     rbind (rfold (addMetadata_step fuel names exactMatch propagateData) metas s) (\<lambda>s.
       Inr (clearStash s)))"

subsection \<open>Loading\<close>

definition alloc :: "RepoNode \<Rightarrow> RepoScene \<Rightarrow> ptr \<times> RepoScene" where
  "alloc n s = (next_ptr s, (store (next_ptr s) n s)\<lparr>next_ptr := Suc (next_ptr s)\<rparr>)"

definition populate_collection :: "string \<Rightarrow> collection" where
  "populate_collection nodeType =
     (if nodeType = REPO_NODE_TYPE_TRANSFORMATION then Transformations
      else if nodeType = REPO_NODE_TYPE_MESH then Meshes
      else if nodeType = REPO_NODE_TYPE_MATERIAL then Materials
      else if nodeType = REPO_NODE_TYPE_TEXTURE then Textures
      else if nodeType = REPO_NODE_TYPE_METADATA then Metadata
      else Unknowns)"

definition populate_step :: "(int \<Rightarrow> tm) \<Rightarrow> GraphType \<Rightarrow> RepoBSON \<Rightarrow> RepoScene \<Rightarrow> RepoScene result" where
  "populate_step gmtime gType bson s =
     rbind (getStringField bson REPO_NODE_LABEL_TYPE) (\<lambda>nodeType.
     rbind (case node_of_bson gmtime bson of None \<Rightarrow> Inl Diverges | Some r \<Rightarrow> r) (\<lambda>n.
       let (p, s) = alloc n s
       in rbind (collection_insert gType (populate_collection nodeType) p s) (addNodeToMaps gType p)))"

definition populate :: "(int \<Rightarrow> tm) \<Rightarrow> GraphType \<Rightarrow> RepoBSON list \<Rightarrow> RepoScene \<Rightarrow> RepoScene result" where
  "populate gmtime gType nodes s = rfold (populate_step gmtime gType) nodes s"

end
