(* ===== verification/SceneInv.thy ===== *)
theory SceneInv
  imports SceneGraph
begin

text \<open>
  The invariant of a scene graph and what its operations do to it. \<open>graph_wf\<close>: the maps only lead to
  live nodes with the identifiers they are listed under, every listed child
  names its parent and is listed once, every
  node in the maps is listed under each of its parents, and the root is a transformation.
\<close>

definition children :: "repoGraphInstance \<Rightarrow> uuid \<Rightarrow> ptr list" where
  "children g parent = (case map_of (parentToChildren g) parent of Some cs \<Rightarrow> cs | None \<Rightarrow> [])"

definition live :: "RepoScene \<Rightarrow> ptr \<Rightarrow> RepoNode \<Rightarrow> bool" where
  "live s p n \<longleftrightarrow> p \<noteq> null \<and> heap s p = Some n"

definition graph_wf :: "RepoScene \<Rightarrow> repoGraphInstance \<Rightarrow> bool" where
  "graph_wf s g \<longleftrightarrow>
     (\<forall>u p. map_of (nodesByUniqueID g) u = Some p \<longrightarrow> (\<exists>n. live s p n \<and> uniqueId n = u)) \<and>
     (\<forall>sh u. map_of (sharedIDtoUniqueID g) sh = Some u \<longrightarrow>
        (\<exists>p n. map_of (nodesByUniqueID g) u = Some p \<and> live s p n \<and> sharedId n = sh)) \<and>
     (\<forall>par c. c \<in> set (children g par) \<longrightarrow>
        (\<exists>n. live s c n \<and> par |\<in>| parentIds n \<and> map_of (nodesByUniqueID g) (uniqueId n) = Some c)) \<and>
     (\<forall>u p n par. map_of (nodesByUniqueID g) u = Some p \<longrightarrow> live s p n \<longrightarrow> par |\<in>| parentIds n \<longrightarrow>
        p \<in> set (children g par)) \<and>
     (\<forall>par. distinct (children g par)) \<and>
     (rootNode g = null \<or> (\<exists>n. live s (rootNode g) n \<and> is_transformation n))"

lemma graph_wf_dest:
  assumes "graph_wf s g"
  shows "map_of (nodesByUniqueID g) u = Some p \<Longrightarrow> \<exists>n. live s p n \<and> uniqueId n = u"
    "map_of (sharedIDtoUniqueID g) sh = Some u \<Longrightarrow>
       \<exists>p n. map_of (nodesByUniqueID g) u = Some p \<and> live s p n \<and> sharedId n = sh"
    "c \<in> set (children g par) \<Longrightarrow>
       \<exists>n. live s c n \<and> par |\<in>| parentIds n \<and> map_of (nodesByUniqueID g) (uniqueId n) = Some c"
    "map_of (nodesByUniqueID g) u = Some p \<Longrightarrow> live s p n \<Longrightarrow> par |\<in>| parentIds n \<Longrightarrow> p \<in> set (children g par)"
    "rootNode g = null \<or> (\<exists>n. live s (rootNode g) n \<and> is_transformation n)"
    "distinct (children g par)"
  using assms unfolding graph_wf_def by blast+

lemma graph_wfI:
  assumes "\<And>u p. map_of (nodesByUniqueID g) u = Some p \<Longrightarrow> \<exists>n. live s p n \<and> uniqueId n = u"
    and "\<And>sh u. map_of (sharedIDtoUniqueID g) sh = Some u \<Longrightarrow>
       \<exists>p n. map_of (nodesByUniqueID g) u = Some p \<and> live s p n \<and> sharedId n = sh"
    and "\<And>par c. c \<in> set (children g par) \<Longrightarrow>
       \<exists>n. live s c n \<and> par |\<in>| parentIds n \<and> map_of (nodesByUniqueID g) (uniqueId n) = Some c"
    and "\<And>u p n par. map_of (nodesByUniqueID g) u = Some p \<Longrightarrow> live s p n \<Longrightarrow> par |\<in>| parentIds n \<Longrightarrow>
       p \<in> set (children g par)"
    and "\<And>par. distinct (children g par)"
    and "rootNode g = null \<or> (\<exists>n. live s (rootNode g) n \<and> is_transformation n)"
  shows "graph_wf s g"
  using assms unfolding graph_wf_def by simp

lemma deref_live [simp]: "live s p n \<Longrightarrow> deref s p = Inr n"
  by (simp add: live_def deref_def)

lemma deref_Inr_iff: "deref s p = Inr n \<longleftrightarrow> live s p n"
  by (auto simp: live_def deref_def split: option.splits)

lemma live_unique: "live s p n \<Longrightarrow> live s p m \<Longrightarrow> n = m"
  by (simp add: live_def)

subsection \<open>Frame\<close>

lemma set_graph_same [simp]: "graph_of gt (set_graph gt g s) = g"
  by (cases gt) (simp_all add: graph_of_def set_graph_def)

lemma set_graph_frame [simp, frame_simps]:
  "heap (set_graph gt g s) = heap s" "next_ptr (set_graph gt g s) = next_ptr s"
  "newAdded (set_graph gt g s) = newAdded s" "newRemoved (set_graph gt g s) = newRemoved s"
  "newModified (set_graph gt g s) = newModified s" "newCurrent (set_graph gt g s) = newCurrent s"
  "status (set_graph gt g s) = status s" "toRemove (set_graph gt g s) = toRemove s"
  by (simp_all add: set_graph_def)

lemma set_graph_id [simp]: "set_graph gt (graph_of gt s) s = s"
  by (simp add: set_graph_def graph_of_def)

lemma live_set_graph [simp]: "live (set_graph gt g s) p n = live s p n"
  by (simp add: live_def)

lemma graph_wf_heap: "heap s' = heap s \<Longrightarrow> graph_wf s' g = graph_wf s g"
  by (simp add: graph_wf_def live_def)

lemma store_simps [simp, frame_simps]:
  "heap (store p n s) = (heap s)(p \<mapsto> n)" "graph_of gt (store p n s) = graph_of gt s"
  "next_ptr (store p n s) = next_ptr s"
  "newAdded (store p n s) = newAdded s" "newCurrent (store p n s) = newCurrent s" "status (store p n s) = status s"
  by (simp_all add: store_def graph_of_def)

subsection \<open>Child lists\<close>

lemma map_of_delete: "map_of (AList.delete k al) k' = (if k = k' then None else map_of al k')"
  by (simp add: delete_conv)

lemma push_child_frame [simp, frame_simps]:
  "nodesByUniqueID (push_child par p g) = nodesByUniqueID g"
  "sharedIDtoUniqueID (push_child par p g) = sharedIDtoUniqueID g"
  "rootNode (push_child par p g) = rootNode g"
  by (simp_all add: push_child_def)

lemma children_push_child [simp]:
  "children (push_child par p g) q = children g q @ (if q = par then [p] else [])"
  by (simp add: children_def push_child_def update_conv' split: option.split)

lemma push_child_unique_eq:
  "push_child_unique par p g = (if p \<in> set (children g par) then g else push_child par p g)"
  by (simp add: push_child_unique_def children_def split: option.split)

lemma children_graph_update [simp]:
  "children (g\<lparr>nodesByUniqueID := a\<rparr>) q = children g q"
  "children (g\<lparr>sharedIDtoUniqueID := b\<rparr>) q = children g q"
  "children (g\<lparr>rootNode := r\<rparr>) q = children g q"
  by (simp_all add: children_def)

lemma fold_push_child [simp]:
  "nodesByUniqueID (fold (\<lambda>par g. push_child par p g) ps g) = nodesByUniqueID g"
  "sharedIDtoUniqueID (fold (\<lambda>par g. push_child par p g) ps g) = sharedIDtoUniqueID g"
  "rootNode (fold (\<lambda>par g. push_child par p g) ps g) = rootNode g"
  by (induction ps arbitrary: g) simp_all

lemma set_children_fold [simp]:
  "set (children (fold (\<lambda>par g. push_child par p g) ps g) q) = set (children g q) \<union> (if q \<in> set ps then {p} else {})"
  by (induction ps arbitrary: g) auto

lemma children_fold:
  "distinct ps \<Longrightarrow> children (fold (\<lambda>par g. push_child par p g) ps g) q = children g q @ (if q \<in> set ps then [p] else [])"
  by (induction ps arbitrary: g) auto

lemma getParentIDs_props [simp]: "distinct (getParentIDs n)" "set (getParentIDs n) = fset (parentIds n)"
  by (simp_all add: getParentIDs_def sorted_list_of_fset.rep_eq)

subsection \<open>Adding a node\<close>

lemma choose_root_cases:
  assumes "choose_root s node n root = Inr r" "live s node n"
    and "root = null \<or> (\<exists>m. live s root m \<and> is_transformation m)"
  shows "r = null \<or> (\<exists>m. live s r m \<and> is_transformation m)"
proof -
  have "r = null \<or> r = node \<and> is_transformation n \<or> r = root"
    using assms(1) by (auto simp: choose_root_def Let_def rbind_Inr_iff split: if_splits)
  with assms(2,3) show ?thesis by blast
qed

text \<open>What the maps of a graph gain when a node is added.\<close>

definition gained :: "GraphType \<Rightarrow> ptr \<Rightarrow> RepoNode \<Rightarrow> RepoScene \<Rightarrow> RepoScene \<Rightarrow> bool" where
  "gained gt node n s s' \<longleftrightarrow> heap s' = heap s \<and> next_ptr s' = next_ptr s \<and>
     newAdded s' = newAdded s \<and> status s' = status s \<and>
     nodesByUniqueID (graph_of gt s') = AList.update (uniqueId n) node (nodesByUniqueID (graph_of gt s)) \<and>
     sharedIDtoUniqueID (graph_of gt s') = AList.update (sharedId n) (uniqueId n) (sharedIDtoUniqueID (graph_of gt s)) \<and>
     (\<forall>par. children (graph_of gt s') par =
        children (graph_of gt s) par @ (if par |\<in>| parentIds n then [node] else []))"

lemma addNodeToMaps_gained:
  assumes "addNodeToMaps gt node s = Inr s'" "live s node n"
  shows "gained gt node n s s' \<and>
    (parentIds n = {||} \<longrightarrow> choose_root s node n (rootNode (graph_of gt s)) = Inr (rootNode (graph_of gt s'))) \<and>
    (parentIds n \<noteq> {||} \<longrightarrow> rootNode (graph_of gt s') = rootNode (graph_of gt s))"
proof (cases "parentIds n = {||}")
  case True
  then obtain r where "choose_root s node n (rootNode (graph_of gt s)) = Inr r"
    "s' = set_graph gt ((graph_of gt s)\<lparr>rootNode := r,
       nodesByUniqueID := AList.update (uniqueId n) node (nodesByUniqueID (graph_of gt s)),
       sharedIDtoUniqueID := AList.update (sharedId n) (uniqueId n) (sharedIDtoUniqueID (graph_of gt s))\<rparr>) s"
    using assms by (auto simp: addNodeToMaps_def Let_def rbind_Inr_iff)
  then show ?thesis using True by (simp add: gained_def)
next
  case False
  then show ?thesis
    using assms by (auto simp: addNodeToMaps_def Let_def gained_def children_fold)
qed

lemma gained_wf:
  assumes wf: "graph_wf s (graph_of gt s)" and n: "live s node n"
    and fresh: "map_of (nodesByUniqueID (graph_of gt s)) (uniqueId n) = None"
    and g: "gained gt node n s s'"
    and root: "rootNode (graph_of gt s') = null \<or> (\<exists>m. live s (rootNode (graph_of gt s')) m \<and> is_transformation m)"
  shows "graph_wf s' (graph_of gt s')"
proof -
  let ?g = "graph_of gt s" and ?g' = "graph_of gt s'"
  have h: "live s' p m = live s p m" for p m using g by (simp add: gained_def live_def)
  have uids: "map_of (nodesByUniqueID ?g') u = (if u = uniqueId n then Some node else map_of (nodesByUniqueID ?g) u)"
    "map_of (sharedIDtoUniqueID ?g') sh = (if sh = sharedId n then Some (uniqueId n) else map_of (sharedIDtoUniqueID ?g) sh)"
    for u sh using g by (simp_all add: gained_def update_conv')
  have ch: "set (children ?g' par) = set (children ?g par) \<union> (if par |\<in>| parentIds n then {node} else {})" for par
    using g by (simp add: gained_def)
  have "\<exists>m. live s p m \<and> uniqueId m = u" if "map_of (nodesByUniqueID ?g') u = Some p" for u p
    using that graph_wf_dest(1) [OF wf, of u p] n by (auto simp: uids split: if_splits)
  moreover have "\<exists>p m. map_of (nodesByUniqueID ?g') u = Some p \<and> live s p m \<and> sharedId m = sh"
    if sh: "map_of (sharedIDtoUniqueID ?g') sh = Some u" for sh u
  proof (cases "sh = sharedId n")
    case True
    then show ?thesis using sh n by (auto simp: uids)
  next
    case False
    then obtain p m where "map_of (nodesByUniqueID ?g) u = Some p" "live s p m" "sharedId m = sh"
      using sh graph_wf_dest(2) [OF wf, of sh u] by (auto simp: uids)
    then show ?thesis using fresh by (intro exI [of _ p] exI [of _ m]) (auto simp: uids)
  qed
  moreover have "\<exists>m. live s c m \<and> par |\<in>| parentIds m \<and> map_of (nodesByUniqueID ?g') (uniqueId m) = Some c"
    if c: "c \<in> set (children ?g' par)" for par c
  proof (cases "c \<in> set (children ?g par)")
    case True
    then obtain m where "live s c m" "par |\<in>| parentIds m" "map_of (nodesByUniqueID ?g) (uniqueId m) = Some c"
      using graph_wf_dest(3) [OF wf True] by blast
    then show ?thesis using fresh by (intro exI [of _ m]) (auto simp: uids)
  next
    case False
    then show ?thesis using c n by (auto simp: ch uids split: if_splits)
  qed
  moreover have "p \<in> set (children ?g' par)"
    if "map_of (nodesByUniqueID ?g') u = Some p" "live s p m" "par |\<in>| parentIds m" for u p m par
    using that graph_wf_dest(4) [OF wf, of u p m par] n live_unique [of s node n m]
    by (auto simp: uids ch split: if_splits)
  moreover have "distinct (children ?g' par)" for par
  proof -
    have "node \<notin> set (children ?g par)"
    proof
      assume "node \<in> set (children ?g par)"
      then obtain m where "live s node m" "map_of (nodesByUniqueID ?g) (uniqueId m) = Some node"
        using graph_wf_dest(3) [OF wf] by blast
      then show False using live_unique [OF n] fresh by simp
    qed
    then show ?thesis using graph_wf_dest(6) [OF wf, of par] g by (simp add: gained_def)
  qed
  ultimately show ?thesis using root by (intro graph_wfI) (simp_all only: h)
qed

lemma addNodeToMaps_wf [inv_intros]:
  assumes wf: "graph_wf s (graph_of gt s)" and n: "live s node n"
    and fresh: "map_of (nodesByUniqueID (graph_of gt s)) (uniqueId n) = None"
    and r: "addNodeToMaps gt node s = Inr s'"
  shows "graph_wf s' (graph_of gt s')"
proof -
  note a = addNodeToMaps_gained [OF r n]
  have root: "rootNode (graph_of gt s) = null \<or> (\<exists>m. live s (rootNode (graph_of gt s)) m \<and> is_transformation m)"
    using wf by (simp add: graph_wf_def)
  have "rootNode (graph_of gt s') = null \<or> (\<exists>m. live s (rootNode (graph_of gt s')) m \<and> is_transformation m)"
    using a root choose_root_cases [OF _ n root] by (cases "parentIds n = {||}") auto
  with gained_wf [OF wf n fresh] a show ?thesis by blast
qed

subsection \<open>Loading\<close>

lemma put_collection_frame [simp, frame_simps]:
  "nodesByUniqueID (put_collection c ps g) = nodesByUniqueID g"
  "sharedIDtoUniqueID (put_collection c ps g) = sharedIDtoUniqueID g"
  "parentToChildren (put_collection c ps g) = parentToChildren g"
  "rootNode (put_collection c ps g) = rootNode g"
  "children (put_collection c ps g) q = children g q"
  by (cases c; simp add: children_def)+

lemma graph_wf_put_collection [simp]: "graph_wf s (put_collection c ps g) = graph_wf s g"
  by (simp add: graph_wf_def)

lemma collection_insert_Inr:
  assumes "collection_insert gt c p s = Inr s'"
  obtains ps where "s' = set_graph gt (put_collection c ps (graph_of gt s)) s"
  using assms by (auto simp: collection_insert_def rbind_Inr_iff)

lemma graph_wf_mono:
  assumes wf: "graph_wf s g" and live: "\<And>p n. live s p n \<Longrightarrow> live s' p n"
  shows "graph_wf s' g"
proof -
  have "p \<in> set (children g par)"
    if a: "map_of (nodesByUniqueID g) u = Some p" "live s' p n" "par |\<in>| parentIds n" for u p n par
  proof -
    obtain m where "live s p m" using graph_wf_dest(1) [OF wf a(1)] by blast
    with live a(2) have "m = n" using live_unique by blast
    with \<open>live s p m\<close> show ?thesis using graph_wf_dest(4) [OF wf a(1)] a(3) by blast
  qed
  moreover have "\<exists>n. live s' p n \<and> uniqueId n = u" if "map_of (nodesByUniqueID g) u = Some p" for u p
    using graph_wf_dest(1) [OF wf that] live by blast
  moreover have "\<exists>p n. map_of (nodesByUniqueID g) u = Some p \<and> live s' p n \<and> sharedId n = sh"
    if "map_of (sharedIDtoUniqueID g) sh = Some u" for sh u
    using graph_wf_dest(2) [OF wf that] live by blast
  moreover have "\<exists>n. live s' c n \<and> par |\<in>| parentIds n \<and> map_of (nodesByUniqueID g) (uniqueId n) = Some c"
    if "c \<in> set (children g par)" for par c
    using graph_wf_dest(3) [OF wf that] live by blast
  moreover have "rootNode g = null \<or> (\<exists>n. live s' (rootNode g) n \<and> is_transformation n)"
    using graph_wf_dest(5) [OF wf] live by blast
  ultimately show ?thesis using graph_wf_dest(6) [OF wf] by (intro graph_wfI)
qed

definition heap_ok :: "RepoScene \<Rightarrow> bool" where
  "heap_ok s \<longleftrightarrow> next_ptr s \<noteq> null \<and> (\<forall>p \<ge> next_ptr s. heap s p = None)"

lemma alloc_props:
  assumes "alloc n s = (p, s')" "heap_ok s"
  shows "live s' p n" "heap_ok s'" "\<And>q m. live s q m \<Longrightarrow> live s' q m" "graph_of gt s' = graph_of gt s"
    "newAdded s' = newAdded s" "status s' = status s"
proof -
  have s': "s' = (store (next_ptr s) n s)\<lparr>next_ptr := Suc (next_ptr s)\<rparr>" "p = next_ptr s"
    using assms(1) by (auto simp: alloc_def)
  show "live s' p n" "heap_ok s'" using assms(2) by (auto simp: s' live_def heap_ok_def)
  show "live s' q m" if "live s q m" for q m
    using that assms(2) by (auto simp: s' live_def heap_ok_def)
  show "graph_of gt s' = graph_of gt s" "newAdded s' = newAdded s" "status s' = status s"
    by (simp_all add: s' graph_of_def store_def)
qed

lemma populate_step_wf:
  assumes wf: "graph_wf s (graph_of gt s)" "heap_ok s"
    and step: "populate_step gmtime gt bson s = Inr s'"
    and n: "node_of_bson gmtime bson = Some (Inr n)"
    and fresh: "map_of (nodesByUniqueID (graph_of gt s)) (uniqueId n) = None"
  shows "graph_wf s' (graph_of gt s') \<and> heap_ok s' \<and>
    (\<exists>p. live s' p n \<and> map_of (nodesByUniqueID (graph_of gt s')) = (map_of (nodesByUniqueID (graph_of gt s)))(uniqueId n \<mapsto> p)) \<and>
    (\<forall>q m. live s q m \<longrightarrow> live s' q m)"
proof -
  obtain p s1 where a: "alloc n s = (p, s1)" by fastforce
  obtain c s2 where c: "collection_insert gt c p s1 = Inr s2" and m: "addNodeToMaps gt p s2 = Inr s'"
    using step n a by (auto simp: populate_step_def rbind_Inr_iff)
  obtain ps where s2: "s2 = set_graph gt (put_collection c ps (graph_of gt s1)) s1"
    using collection_insert_Inr [OF c] .
  note al = alloc_props [OF a wf(2)]
  have l: "live s2 p n" using al(1) by (simp add: s2)
  have "graph_wf s1 (graph_of gt s)" using graph_wf_mono [OF wf(1) al(3)] .
  then have wf2: "graph_wf s2 (graph_of gt s2)" by (simp add: s2 al(4) graph_wf_heap [of "set_graph _ _ _" s1])
  have f2: "map_of (nodesByUniqueID (graph_of gt s2)) (uniqueId n) = None" using fresh by (simp add: s2 al(4))
  have g: "gained gt p n s2 s'" using addNodeToMaps_gained [OF m l] by blast
  have h: "heap s' = heap s1" "next_ptr s' = next_ptr s1" using g by (simp_all add: gained_def s2)
  then have live: "live s' q k = live s1 q k" for q k by (simp add: live_def)
  have "heap_ok s'" using al(2) h by (simp add: heap_ok_def)
  moreover have "map_of (nodesByUniqueID (graph_of gt s')) = (map_of (nodesByUniqueID (graph_of gt s)))(uniqueId n \<mapsto> p)"
    using g by (simp add: gained_def update_conv' s2 al(4))
  ultimately show ?thesis
    using addNodeToMaps_wf [OF wf2 l f2 m] al(1,3) by (auto simp: live)
qed

lemma populate_wf:
  assumes "graph_wf s (graph_of gt s)" "heap_ok s" "populate gmtime gt bsons s = Inr s'"
    and "map (node_of_bson gmtime) bsons = map (\<lambda>n. Some (Inr n)) ns"
    and "distinct (map uniqueId ns)"
    and "\<And>n. n \<in> set ns \<Longrightarrow> map_of (nodesByUniqueID (graph_of gt s)) (uniqueId n) = None"
  shows "graph_wf s' (graph_of gt s') \<and> heap_ok s' \<and> (\<forall>q m. live s q m \<longrightarrow> live s' q m) \<and>
    (\<forall>u. map_of (nodesByUniqueID (graph_of gt s')) u = None \<longleftrightarrow>
       map_of (nodesByUniqueID (graph_of gt s)) u = None \<and> u \<notin> uniqueId ` set ns) \<and>
    (\<forall>n \<in> set ns. \<exists>p. live s' p n \<and> map_of (nodesByUniqueID (graph_of gt s')) (uniqueId n) = Some p) \<and>
    (\<forall>u p. map_of (nodesByUniqueID (graph_of gt s)) u = Some p \<longrightarrow> map_of (nodesByUniqueID (graph_of gt s')) u = Some p)"
  using assms
proof (induction ns arbitrary: bsons s)
  case Nil
  then show ?case by (simp add: populate_def)
next
  case (Cons n ns)
  obtain bson bs where b: "bsons = bson # bs" "node_of_bson gmtime bson = Some (Inr n)"
      "map (node_of_bson gmtime) bs = map (\<lambda>n. Some (Inr n)) ns"
    using Cons.prems(4) by auto
  obtain s1 where s1: "populate_step gmtime gt bson s = Inr s1" "populate gmtime gt bs s1 = Inr s'"
    using Cons.prems(3) by (auto simp: b(1) populate_def rbind_Inr_iff)
  have fresh: "map_of (nodesByUniqueID (graph_of gt s)) (uniqueId n) = None" using Cons.prems(6) by simp
  obtain p where p: "graph_wf s1 (graph_of gt s1)" "heap_ok s1" "live s1 p n"
      "map_of (nodesByUniqueID (graph_of gt s1)) = (map_of (nodesByUniqueID (graph_of gt s)))(uniqueId n \<mapsto> p)"
      "\<And>q m. live s q m \<Longrightarrow> live s1 q m"
    using populate_step_wf [OF Cons.prems(1,2) s1(1) b(2) fresh] by blast
  have f1: "map_of (nodesByUniqueID (graph_of gt s1)) (uniqueId k) = None" if "k \<in> set ns" for k
    using that Cons.prems(5,6) by (auto simp: p(4) image_iff)
  note IH = Cons.IH [OF p(1,2) s1(2) b(3) _ f1]
  have d: "distinct (map uniqueId ns)" using Cons.prems(5) by simp
  have old: "map_of (nodesByUniqueID (graph_of gt s)) u \<noteq> None \<Longrightarrow> u \<noteq> uniqueId n" for u using fresh by auto
  have new: "map_of (nodesByUniqueID (graph_of gt s')) (uniqueId n) = Some p" "live s' p n"
    using IH [OF d] p(3,4) by auto
  show ?case
    using IH [OF d] p(4,5) new old by (auto simp: fun_upd_apply)
qed

lemma graph_wf_empty [simp]: "graph_wf s empty_graph"
  by (simp add: graph_wf_def empty_graph_def children_def)

lemma children_exact:
  assumes "graph_wf s g" "live s p n" "map_of (nodesByUniqueID g) (uniqueId n) = Some p"
  shows "p \<in> set (children g par) \<longleftrightarrow> par |\<in>| parentIds n"
  using graph_wf_dest(3) [OF assms(1), of p par] graph_wf_dest(4) [OF assms(1,3,2), of par]
    live_unique [OF assms(2)] by blast

lemma getChildrenAsNodes_children: "getChildrenAsNodes gt par s = children (graph_of gt s) par"
  by (simp add: getChildrenAsNodes_def children_def)

definition stored_node :: "RepoNode \<Rightarrow> RepoNode" where
  "stored_node n = n\<lparr>content := stored_content (content n)\<rparr>"

lemma stored_node_simps [simp]:
  "uniqueId (stored_node n) = uniqueId n" "parentIds (stored_node n) = parentIds n"
  by (simp_all add: stored_node_def)

lemma getBSON_typed:
  assumes "content_storable mktime gmtime (content n)"
  shows "\<exists>b. getBSON mktime n = Inr b \<and> node_of_bson gmtime b = Some (Inr (stored_node n)) \<and>
           getStringField b REPO_NODE_LABEL_TYPE = Inr (getType n)"
proof -
  obtain b where b: "serialise mktime n RepoBSONBuilder = Inr b" "carries n (core b)"
      "node_of_bson gmtime (obj b) = Some (Inr (stored_node n))"
    using node_reads_back [OF assms] by (auto simp: stored_node_def)
  have "getType n \<noteq> []" using assms by (cases "content n") (auto simp: getType_def node_type_labels)
  then have "getStringField (obj b) REPO_NODE_LABEL_TYPE = Inr (getType n)"
    using carried_type [OF b(2)] by (simp add: obj_def)
  with b show ?thesis by (auto simp: getBSON_def)
qed

lemma getBSON_read_back:
  assumes "rtraverse (getBSON mktime) ns = Inr bsons"
    and "\<And>n. n \<in> set ns \<Longrightarrow> content_storable mktime gmtime (content n)"
  shows "map (node_of_bson gmtime) bsons = map (\<lambda>n. Some (Inr n)) (map stored_node ns)"
  using assms
proof (induction ns arbitrary: bsons)
  case (Cons n ns)
  obtain b bs where "getBSON mktime n = Inr b" "rtraverse (getBSON mktime) ns = Inr bs" "bsons = b # bs"
    using Cons.prems(1) by (auto simp: rbind_Inr_iff)
  moreover from this have "node_of_bson gmtime b = Some (Inr (stored_node n))"
    using Cons.prems(2) [of n] node_reads_back [of mktime gmtime n] by (auto simp: getBSON_def stored_node_def)
  moreover have "map (node_of_bson gmtime) bs = map (\<lambda>n. Some (Inr n)) (map stored_node ns)"
    using calculation(2) Cons.prems(2) by (intro Cons.IH) simp_all
  ultimately show ?case by simp
qed simp

lemma stored_nodes_load:
  assumes "rtraverse (getBSON mktime) ns = Inr bsons" and "populate gmtime gt bsons s = Inr s'"
    and "\<forall>n \<in> set ns. content_storable mktime gmtime (content n)" and "distinct (map uniqueId ns)"
    and "heap_ok s" and "graph_of gt s = empty_graph"
  shows "(\<forall>n \<in> set ns. \<exists>p. getNodeByUniqueID gt (uniqueId n) s' = p \<and> deref s' p = Inr (stored_node n) \<and>
             (\<forall>par. p \<in> set (getChildrenAsNodes gt par s') \<longleftrightarrow> par |\<in>| parentIds n)) \<and>
         (\<forall>par p. p \<in> set (getChildrenAsNodes gt par s') \<longrightarrow>
             (\<exists>n \<in> set ns. p = getNodeByUniqueID gt (uniqueId n) s' \<and> par |\<in>| parentIds n))"
proof -
  let ?g = "graph_of gt s'"
  have "graph_wf s (graph_of gt s)" by (simp add: assms(6))
  moreover have "map (node_of_bson gmtime) bsons = map (\<lambda>n. Some (Inr n)) (map stored_node ns)"
    using getBSON_read_back assms(1,3) by blast
  moreover have "distinct (map uniqueId (map stored_node ns))" using assms(4) by (simp add: comp_def)
  moreover have "map_of (nodesByUniqueID (graph_of gt s)) u = None" for u by (simp add: assms(6) empty_graph_def)
  ultimately have wf: "graph_wf s' ?g"
    and dom: "\<And>u. map_of (nodesByUniqueID ?g) u = None \<longleftrightarrow> u \<notin> uniqueId ` set (map stored_node ns)"
    and found: "\<And>n. n \<in> set (map stored_node ns) \<Longrightarrow>
      \<exists>p. live s' p n \<and> map_of (nodesByUniqueID ?g) (uniqueId n) = Some p"
    using populate_wf [OF _ assms(5,2)] by blast+
  have one: "\<exists>p. getNodeByUniqueID gt (uniqueId n) s' = p \<and> deref s' p = Inr (stored_node n) \<and>
      (\<forall>par. p \<in> set (getChildrenAsNodes gt par s') \<longleftrightarrow> par |\<in>| parentIds n)" if n: "n \<in> set ns" for n
  proof -
    obtain p where p: "live s' p (stored_node n)" "map_of (nodesByUniqueID ?g) (uniqueId (stored_node n)) = Some p"
      using found [of "stored_node n"] n by auto
    then show ?thesis
      using children_exact [OF wf p] by (auto simp: getNodeByUniqueID_def getChildrenAsNodes_children)
  qed
  moreover have "\<exists>n \<in> set ns. p = getNodeByUniqueID gt (uniqueId n) s' \<and> par |\<in>| parentIds n"
    if child: "p \<in> set (getChildrenAsNodes gt par s')" for par p
  proof -
    obtain m where m: "live s' p m" "par |\<in>| parentIds m" "map_of (nodesByUniqueID ?g) (uniqueId m) = Some p"
      using graph_wf_dest(3) [OF wf] child by (auto simp: getChildrenAsNodes_children)
    have "uniqueId m \<in> uniqueId ` set (map stored_node ns)"
      using m(3) dom [of "uniqueId m"] by (metis option.distinct(1))
    then obtain n where n: "n \<in> set ns" "uniqueId n = uniqueId m" by force
    have p: "getNodeByUniqueID gt (uniqueId n) s' = p" using m(3) n(2) by (simp add: getNodeByUniqueID_def)
    then have "live s' p (stored_node n)" using one [OF n(1)] by (simp add: deref_Inr_iff)
    then have "stored_node n = m" using live_unique m(1) by blast
    then have "parentIds n = parentIds m" using stored_node_simps(2) [of n] by simp
    then show ?thesis using m(2) n(1) p by blast
  qed
  ultimately show ?thesis by blast
qed

subsection \<open>Properties\<close>

text \<open>
  C2: what is stored of a scene is loaded again as the same graph: when storable nodes with different
  identifiers are written to documents and the documents loaded into an empty graph, and loading does
  not throw, each node is found under its identifier, with its stored contents, exactly the parents it
  names list it as a child, and no other pointer is anyone's child.
\<close>

theorem scene_store_load:
  assumes "rtraverse (getBSON mktime) ns = Inr bsons" and "populate gmtime gt bsons s = Inr s'"
    and "\<forall>n \<in> set ns. content_storable mktime gmtime (content n)" and "distinct (map uniqueId ns)"
    and "heap_ok s" and "graph_of gt s = empty_graph"
  shows "(\<forall>n \<in> set ns. \<exists>p. getNodeByUniqueID gt (uniqueId n) s' = p \<and> deref s' p = Inr (stored_node n) \<and>
             (\<forall>par. p \<in> set (getChildrenAsNodes gt par s') \<longleftrightarrow> par |\<in>| parentIds n)) \<and>
         (\<forall>par p. p \<in> set (getChildrenAsNodes gt par s') \<longrightarrow>
             (\<exists>n \<in> set ns. p = getNodeByUniqueID gt (uniqueId n) s' \<and> par |\<in>| parentIds n))"
  using assms by (rule stored_nodes_load)

definition sample_root :: RepoNode where
  "sample_root = (RepoNode_default 10)\<lparr>sharedId := 20, content := TransformationNode d_identity\<rparr>"
definition sample_child :: RepoNode where
  "sample_child = (RepoNode_default 11)\<lparr>sharedId := 21, parentIds := {|20|}, content := MetadataNode []\<rparr>"

lemma sample_nodes:
  "uniqueId sample_root = 10" "sharedId sample_root = 20" "parentIds sample_root = {||}"
  "uniqueId sample_child = 11" "sharedId sample_child = 21" "parentIds sample_child = {|20|}"
  "content sample_root = TransformationNode d_identity" "content sample_child = MetadataNode []"
  "stored_node sample_root = sample_root" "stored_node sample_child = sample_child"
  by (simp_all add: sample_root_def sample_child_def RepoNode_default_def stored_node_def)

lemma sample_storable:
  "content_storable mk gm (content sample_root)" "content_storable mk gm (content sample_child)"
  by (simp_all add: sample_nodes d_identity_def)

lemma sample_scene:
  "\<exists>s'. rbind (rtraverse (getBSON tm_sec) [sample_root, sample_child]) (\<lambda>bs.
      populate (\<lambda>t. undefined) DEFAULT bs (RepoScene_empty (\<lambda>_. None) 1 ''db'' ''p'')) = Inr s'"
proof -
  obtain b1 where b1: "getBSON tm_sec sample_root = Inr b1"
      "node_of_bson (\<lambda>t. undefined) b1 = Some (Inr sample_root)" "getStringField b1 REPO_NODE_LABEL_TYPE = Inr ''transformation''"
    using getBSON_typed [OF sample_storable(1), of tm_sec "\<lambda>t. undefined"]
    by (auto simp: sample_nodes getType_def node_type_labels)
  obtain b2 where b2: "getBSON tm_sec sample_child = Inr b2"
      "node_of_bson (\<lambda>t. undefined) b2 = Some (Inr sample_child)" "getStringField b2 REPO_NODE_LABEL_TYPE = Inr ''meta''"
    using getBSON_typed [OF sample_storable(2), of tm_sec "\<lambda>t. undefined"]
    by (auto simp: sample_nodes getType_def node_type_labels)
  show ?thesis
    by (simp add: b1 b2 populate_def populate_step_def alloc_def RepoScene_empty_def collection_insert_def
        populate_collection_def node_type_labels graph_of_def set_graph_def empty_graph_def addNodeToMaps_def
        deref_def store_def sample_nodes choose_root_def Let_def)
qed

theorem scene_store_load_witness:
  "\<exists>bs s'. rtraverse (getBSON tm_sec) [sample_root, sample_child] = Inr bs \<and>
     populate (\<lambda>t. undefined) DEFAULT bs (RepoScene_empty (\<lambda>_. None) 1 ''db'' ''p'') = Inr s' \<and>
     deref s' (getNodeByUniqueID DEFAULT 11 s') = Inr sample_child \<and>
     getNodeByUniqueID DEFAULT 11 s' \<in> set (getChildrenAsNodes DEFAULT 20 s')"
proof -
  let ?s = "RepoScene_empty (\<lambda>_. None) 1 ''db'' ''p''"
  obtain bs s' where r: "rtraverse (getBSON tm_sec) [sample_root, sample_child] = Inr bs"
      "populate (\<lambda>t. undefined) DEFAULT bs ?s = Inr s'"
    using sample_scene unfolding rbind_Inr_iff by blast
  have "\<forall>n \<in> set [sample_root, sample_child]. content_storable tm_sec (\<lambda>t. undefined) (content n)"
    using sample_storable by simp
  moreover have "distinct (map uniqueId [sample_root, sample_child])" by (simp add: sample_nodes)
  moreover have "heap_ok ?s" "graph_of DEFAULT ?s = empty_graph"
    by (simp_all add: heap_ok_def RepoScene_empty_def graph_of_def)
  ultimately have "\<exists>p. getNodeByUniqueID DEFAULT (uniqueId sample_child) s' = p \<and>
      deref s' p = Inr (stored_node sample_child) \<and>
      (\<forall>par. p \<in> set (getChildrenAsNodes DEFAULT par s') \<longleftrightarrow> par |\<in>| parentIds sample_child)"
    using scene_store_load [OF r] by simp
  with r show ?thesis by (intro exI [of _ bs] exI [of _ s']) (simp add: sample_nodes)
qed

end
