(* ===== verification/SceneOps.thy ===== *)
theory SceneOps
  imports SceneInv
begin

text \<open>
  What the operations of a scene promise: adding nodes, inheritance, orphans and the change sets,
  removal, descendants, names and status bits.
\<close>

subsection \<open>Inheritance\<close>

lemma children_update_entry:
  "children (g\<lparr>parentToChildren := AList.update par cs (parentToChildren g)\<rparr>) q =
     (if q = par then cs else children g q)"
  by (simp add: children_def update_conv')

lemma abandonChild_eq:
  assumes "live s child c"
  shows "\<exists>g'. abandonChild gt parent child True True s =
           Inr (store child (removeParent parent c) (set_graph gt g' s)) \<and>
         nodesByUniqueID g' = nodesByUniqueID (graph_of gt s) \<and>
         sharedIDtoUniqueID g' = sharedIDtoUniqueID (graph_of gt s) \<and> rootNode g' = rootNode (graph_of gt s) \<and>
         (\<forall>q. children g' q = (if q = parent then remove1 child (children (graph_of gt s) q)
                               else children (graph_of gt s) q))"
proof -
  let ?g = "graph_of gt s"
  have n: "child \<noteq> null" using assms by (simp add: live_def)
  show ?thesis
  proof (cases "child \<in> set (children ?g parent)")
    case True
    then obtain cs where cs: "map_of (parentToChildren ?g) parent = Some cs" "child \<in> set cs"
      by (cases "map_of (parentToChildren ?g) parent") (auto simp: children_def)
    let ?g' = "?g\<lparr>parentToChildren := AList.update parent (remove1 child cs) (parentToChildren ?g)\<rparr>"
    have "children ?g' q = (if q = parent then remove1 child (children ?g q) else children ?g q)" for q
      by (simp add: children_update_entry) (simp add: children_def cs)
    then show ?thesis
      using n cs assms by (intro exI [of _ ?g']) (simp add: abandonChild_def Let_def)
  next
    case False
    then have "remove1 child (children ?g parent) = children ?g parent" by (simp add: remove1_idem)
    then show ?thesis
      using n False assms
      by (intro exI [of _ ?g]) (auto simp: abandonChild_def Let_def children_def split: option.splits)
  qed
qed

lemma addInheritance_eq:
  assumes "live s parent p" "live s child c"
  shows "addInheritance gt parent child s =
     Inr (store child (addParent (sharedId p) c)
       (set_graph gt (push_child_unique (sharedId p) child (graph_of gt s)) s))"
  using assms by (simp add: addInheritance_def live_def Let_def deref_def)

text \<open>Changing the parents of a listed node together with its place in the child lists.\<close>

lemma graph_wf_reparent:
  assumes wf: "graph_wf s g" and c: "live s child c" "map_of (nodesByUniqueID g) (uniqueId c) = Some child"
    and c': "uniqueId c' = uniqueId c" "sharedId c' = sharedId c" "content c' = content c"
    and g': "nodesByUniqueID g' = nodesByUniqueID g" "sharedIDtoUniqueID g' = sharedIDtoUniqueID g"
      "rootNode g' = rootNode g"
    and ch: "\<And>par q. q \<noteq> child \<Longrightarrow> q \<in> set (children g' par) \<longleftrightarrow> q \<in> set (children g par)"
    and dist: "\<And>par. distinct (children g' par)"
    and ch': "\<And>par. child \<in> set (children g' par) \<longleftrightarrow> par |\<in>| parentIds c'"
    and s': "heap s' = (heap s)(child \<mapsto> c')"
  shows "graph_wf s' g'"
proof -
  have live: "live s' q n \<longleftrightarrow> (if q = child then n = c' else live s q n)" for q n
    using c(1) s' by (auto simp: live_def)
  have one: "n = c" if "live s child n" for n using live_unique that c(1) by blast
  have "\<exists>n. live s' p n \<and> uniqueId n = u" if "map_of (nodesByUniqueID g) u = Some p" for u p
    using graph_wf_dest(1) [OF wf that] one c' by (cases "p = child") (auto simp: live)
  moreover have "\<exists>p n. map_of (nodesByUniqueID g) u = Some p \<and> live s' p n \<and> sharedId n = sh"
    if sh: "map_of (sharedIDtoUniqueID g) sh = Some u" for sh u
  proof -
    obtain p n where p: "map_of (nodesByUniqueID g) u = Some p" "live s p n" "sharedId n = sh"
      using graph_wf_dest(2) [OF wf sh] by blast
    then show ?thesis using one c' by (cases "p = child") (auto simp: live)
  qed
  moreover have "\<exists>n. live s' q n \<and> par |\<in>| parentIds n \<and> map_of (nodesByUniqueID g) (uniqueId n) = Some q"
    if "q \<in> set (children g' par)" for par q
    using that graph_wf_dest(3) [OF wf, of q par] ch ch' c c' by (cases "q = child") (auto simp: live)
  moreover have "p \<in> set (children g' par)"
    if "map_of (nodesByUniqueID g) u = Some p" "live s' p n" "par |\<in>| parentIds n" for u p n par
    using that graph_wf_dest(4) [OF wf that(1), of n par] ch ch' by (cases "p = child") (auto simp: live)
  moreover have "rootNode g = null \<or> (\<exists>n. live s' (rootNode g) n \<and> is_transformation n)"
    using graph_wf_dest(5) [OF wf] one c' by (cases "rootNode g = child") (auto simp: live is_transformation_def)
  ultimately show ?thesis using dist unfolding graph_wf_def g' by blast
qed

text \<open>
  C26: inheritance is two-sided and can be undone: in a well-formed graph, adding a child to a parent
  keeps the graph well-formed and lists the child under the parent, and abandoning it afterwards
  keeps the graph well-formed too; when the child did not have that parent before, every child list
  and the child itself are what they were.
\<close>

theorem inheritance_undone:
  assumes wf: "graph_wf s (graph_of gt s)" and p: "live s parent p" and c: "live s child c"
    and listed: "map_of (nodesByUniqueID (graph_of gt s)) (uniqueId c) = Some child"
  shows "\<exists>s1 s2. addInheritance gt parent child s = Inr s1 \<and> graph_wf s1 (graph_of gt s1) \<and>
           child \<in> set (getChildrenAsNodes gt (sharedId p) s1) \<and>
           abandonChild gt (sharedId p) child True True s1 = Inr s2 \<and> graph_wf s2 (graph_of gt s2) \<and>
           (sharedId p |\<notin>| parentIds c \<longrightarrow> heap s2 = heap s \<and>
              (\<forall>par. getChildrenAsNodes gt par s2 = getChildrenAsNodes gt par s))"
proof -
  let ?g = "graph_of gt s" and ?sh = "sharedId p"
  let ?g1 = "push_child_unique ?sh child ?g"
  let ?c1 = "addParent ?sh c" and ?c2 = "removeParent ?sh (addParent ?sh c)"
  define s1 where "s1 = store child ?c1 (set_graph gt ?g1 s)"
  have s1: "addInheritance gt parent child s = Inr s1" "graph_of gt s1 = ?g1" "heap s1 = (heap s)(child \<mapsto> ?c1)"
    using addInheritance_eq [OF p c] by (simp_all add: s1_def)
  have in0: "child \<in> set (children ?g par) \<longleftrightarrow> par |\<in>| parentIds c" for par
    using children_exact [OF wf c listed] .
  have ch1: "q \<in> set (children ?g1 par) \<longleftrightarrow> q \<in> set (children ?g par) \<or> q = child \<and> par = ?sh" for q par
    by (auto simp: push_child_unique_eq)
  have d1: "distinct (children ?g1 par)" for par
    using graph_wf_dest(6) [OF wf] by (simp add: push_child_unique_eq)
  have wf1: "graph_wf s1 ?g1"
    by (rule graph_wf_reparent [OF wf c listed, of ?c1])
      (auto simp: addParent_def push_child_unique_eq in0 s1(3) graph_wf_dest(6) [OF wf])
  have c1: "live s1 child ?c1" using c by (simp add: live_def s1(3))
  obtain g2 where g2: "abandonChild gt ?sh child True True s1 = Inr (store child ?c2 (set_graph gt g2 s1))"
      "nodesByUniqueID g2 = nodesByUniqueID ?g1" "sharedIDtoUniqueID g2 = sharedIDtoUniqueID ?g1" "rootNode g2 = rootNode ?g1"
      "\<And>q. children g2 q = (if q = ?sh then remove1 child (children ?g1 q) else children ?g1 q)"
    using abandonChild_eq [OF c1, of gt ?sh] unfolding s1(2) by blast
  define s2 where "s2 = store child ?c2 (set_graph gt g2 s1)"
  have s2: "abandonChild gt ?sh child True True s1 = Inr s2" "graph_of gt s2 = g2" "heap s2 = (heap s1)(child \<mapsto> ?c2)"
    using g2(1) by (simp_all add: s2_def)
  have u1: "map_of (nodesByUniqueID ?g1) (uniqueId ?c1) = Some child"
    using listed by (simp add: addParent_def push_child_unique_eq)
  have in1: "child \<in> set (children ?g1 par) \<longleftrightarrow> par |\<in>| parentIds ?c1" for par
    by (auto simp: ch1 in0 addParent_def)
  have wf2: "graph_wf s2 g2"
    by (rule graph_wf_reparent [OF wf1 c1 u1, of ?c2])
      (use d1 g2 in1 s2(3) in \<open>auto simp: addParent_def removeParent_def\<close>)
  have undo: "heap s2 = heap s \<and> (\<forall>par. children g2 par = children ?g par)" if "?sh |\<notin>| parentIds c"
  proof -
    have "?c2 = c" using that by (cases c) (auto simp: addParent_def removeParent_def)
    then have "heap s2 = heap s" using c by (auto simp: s2(3) s1(3) live_def)
    moreover have "children g2 par = children ?g par" for par
      using that in0 by (auto simp: g2(5) push_child_unique_eq remove1_append)
    ultimately show ?thesis by blast
  qed
  show ?thesis
    using s1 s2 wf1 wf2 undo ch1 by (intro exI [of _ s1] exI [of _ s2]) (simp add: getChildrenAsNodes_children)
qed

text \<open>A scene with a root and one child, on which the properties are evaluated.\<close>

definition sample_graph :: repoGraphInstance where
  "sample_graph = empty_graph\<lparr>transformations := [1], metadata := [2], nodesByUniqueID := [(10, 1), (11, 2)],
     sharedIDtoUniqueID := [(20, 10), (21, 11)], parentToChildren := [(20, [2])], rootNode := 1\<rparr>"

definition sample :: RepoScene where
  "sample = (RepoScene_empty [1 \<mapsto> sample_root, 2 \<mapsto> sample_child] 3 ''db'' ''p'')\<lparr>graph := sample_graph\<rparr>"

lemma sample_simps:
  "graph_of DEFAULT sample = sample_graph" "heap sample = [1 \<mapsto> sample_root, 2 \<mapsto> sample_child]"
  "newAdded sample = {||}" "newModified sample = {||}" "newRemoved sample = {||}" "toRemove sample = []"
  by (simp_all add: sample_def graph_of_def RepoScene_empty_def)

lemma sample_live: "live sample p n \<longleftrightarrow> p = 1 \<and> n = sample_root \<or> p = 2 \<and> n = sample_child"
  by (auto simp: live_def sample_simps)

lemma sample_children: "children sample_graph par = (if par = 20 then [2] else [])"
  by (simp add: children_def sample_graph_def)

lemma sample_uids:
  "map_of (nodesByUniqueID sample_graph) u = (if u = 10 then Some 1 else if u = 11 then Some 2 else None)"
  "map_of (sharedIDtoUniqueID sample_graph) u = (if u = 20 then Some 10 else if u = 21 then Some 11 else None)"
  by (simp_all add: sample_graph_def)

lemma sample_rootNode: "rootNode sample_graph = 1"
  by (simp add: sample_graph_def)

lemma sample_wf: "graph_wf sample (graph_of DEFAULT sample)"
  unfolding sample_simps
  by (rule graph_wfI)
    (auto simp: sample_live sample_children sample_uids sample_nodes is_transformation_def sample_rootNode
       split: if_splits)

theorem inheritance_undone_witness:
  "\<exists>s1 s2. addInheritance DEFAULT 2 1 sample = Inr s1 \<and> graph_wf s1 (graph_of DEFAULT s1) \<and>
     1 \<in> set (getChildrenAsNodes DEFAULT 21 s1) \<and>
     abandonChild DEFAULT 21 1 True True s1 = Inr s2 \<and> heap s2 = heap sample"
  using inheritance_undone [OF sample_wf, of 2 sample_child 1 sample_root]
  by (auto simp: sample_live sample_simps sample_uids sample_nodes)

subsection \<open>Removal\<close>

lemma filterNodesByType_dangling:
  assumes "p \<in> set ps" "heap s p = None"
  shows "filterNodesByType s ps t = Inl NullDeref"
  using assms(1)
proof (induction ps)
  case (Cons q ps)
  show ?case
  proof (cases "q = p")
    case True
    then show ?thesis using assms(2) by (simp add: deref_def)
  next
    case False
    then have "filterNodesByType s ps t = Inl NullDeref" using Cons by simp
    then show ?thesis by (auto simp: deref_def split: option.split)
  qed
qed simp

lemma collection_erase_Inr:
  assumes "collection_erase gt c p s = Inr s'"
  obtains ps where "s' = set_graph gt (put_collection c ps (graph_of gt s)) s"
  using assms by (auto simp: collection_erase_def rbind_Inr_iff)

lemma children_delete:
  "children (g\<lparr>nodesByUniqueID := a, sharedIDtoUniqueID := b,
     parentToChildren := AList.delete sh (parentToChildren g)\<rparr>) par = (if par = sh then [] else children g par)"
  by (simp add: children_def map_of_delete)

text \<open>What is left of a scene when a node is taken out of the maps and of its collection.\<close>

definition unlisted :: "uuid \<Rightarrow> RepoNode \<Rightarrow> repoGraphInstance \<Rightarrow> repoGraphInstance \<Rightarrow> bool" where
  "unlisted sh n g g' \<longleftrightarrow>
     nodesByUniqueID g' = AList.delete (uniqueId n) (nodesByUniqueID g) \<and>
     sharedIDtoUniqueID g' = AList.delete sh (sharedIDtoUniqueID g) \<and>
     rootNode g' = rootNode g \<and> (\<forall>par. children g' par = (if par = sh then [] else children g par))"

lemma removeNode_Inr:
  assumes r: "removeNode gt sh s = Inr s'" and p: "getNodeBySharedID gt sh s = p" "live s p n"
  shows "unlisted sh n (graph_of gt s) (graph_of gt s') \<and>
    (if gt = DEFAULT \<and> sh |\<notin>| newAdded s
     then heap s' = heap s \<and> toRemove s' = toRemove s @ [p] \<and> newAdded s' = newAdded s \<and>
          newModified s' = newModified s |-| {|sh|} \<and> newRemoved s' = finsert sh (newRemoved s)
     else heap s' = (heap s)(p := None) \<and> toRemove s' = toRemove s \<and>
          newModified s' = newModified s \<and> newRemoved s' = newRemoved s \<and>
          newAdded s' = (if gt = DEFAULT then newAdded s |-| {|sh|} else newAdded s))"
proof -
  let ?g = "graph_of gt s"
  let ?gr = "?g\<lparr>nodesByUniqueID := AList.delete (uniqueId n) (nodesByUniqueID ?g),
       sharedIDtoUniqueID := AList.delete sh (sharedIDtoUniqueID ?g),
       parentToChildren := AList.delete sh (parentToChildren ?g)\<rparr>"
  let ?keep = "gt = DEFAULT \<and> sh |\<notin>| newAdded s"
  define t where "t = (if gt = DEFAULT then if sh |\<in>| newAdded s
        then (set_graph gt ?gr s)\<lparr>newAdded := newAdded s |-| {|sh|}\<rparr>
        else (set_graph gt ?gr s)\<lparr>newModified := newModified s |-| {|sh|}, newRemoved := finsert sh (newRemoved s)\<rparr>
      else set_graph gt ?gr s)"
  have t: "graph_of gt t = ?gr" "heap t = heap s" "toRemove t = toRemove s"
    by (cases gt; simp add: t_def set_graph_def graph_of_def)+
  obtain t' where t': "(case collection_of_type (getTypeAsEnum n) of
        Some c \<Rightarrow> collection_erase gt c p t | None \<Rightarrow> Inr t) = Inr t'"
      and s': "s' = (if ?keep then t'\<lparr>toRemove := toRemove t' @ [p]\<rparr> else t'\<lparr>heap := (heap t')(p := None)\<rparr>)"
  proof -
    have "rbind (case collection_of_type (getTypeAsEnum n) of
        Some c \<Rightarrow> collection_erase gt c p t | None \<Rightarrow> Inr t)
        (\<lambda>t'. Inr (if ?keep then t'\<lparr>toRemove := toRemove t' @ [p]\<rparr> else t'\<lparr>heap := (heap t')(p := None)\<rparr>)) = Inr s'"
      using r p(2) unfolding removeNode_def Let_def p(1) t_def by (simp add: live_def deref_def cong: if_cong option.case_cong)
    then show ?thesis using that by (auto simp: rbind_Inr_iff)
  qed
  obtain ps c where tt: "t' = set_graph gt (put_collection c ps (graph_of gt t)) t \<or> t' = t"
    using t' by (auto split: option.splits elim!: collection_erase_Inr)
  have g': "unlisted sh n ?g (graph_of gt t')"
  proof -
    have "unlisted sh n ?g ?gr" by (simp add: unlisted_def children_delete)
    moreover have "nodesByUniqueID (graph_of gt t') = nodesByUniqueID ?gr"
        "sharedIDtoUniqueID (graph_of gt t') = sharedIDtoUniqueID ?gr" "rootNode (graph_of gt t') = rootNode ?gr"
        "children (graph_of gt t') q = children ?gr q" for q
      using tt by (auto simp: t)
    ultimately show ?thesis by (simp add: unlisted_def)
  qed
  have frame: "heap t' = heap s" "toRemove t' = toRemove s" "newAdded t' = newAdded t"
      "newModified t' = newModified t" "newRemoved t' = newRemoved t"
    using tt by (auto simp: t)
  have "graph_of gt s' = graph_of gt t'" by (simp add: s' graph_of_def)
  then show ?thesis
    using g' frame by (auto simp: s' t_def set_graph_def)
qed

text \<open>
  C13: removal forgets a node but not its place: after a node is removed its identifiers lead nowhere and
  its own child list is gone, every other lookup and child list is unchanged. A node the database does not
  have yet is freed and leaves the list of additions; one that it has is kept and recorded as removed.
  The child lists of its parents still hold its pointer, so for a freed node listing the children of a
  parent by type reads freed memory.
\<close>

theorem removeNode_leaves_child_lists:
  assumes wf: "graph_wf s (graph s)" and p: "getNodeBySharedID DEFAULT sh s = p" "deref s p = Inr n"
    and r: "removeNode DEFAULT sh s = Inr s'"
  shows "getNodeBySharedID DEFAULT sh s' = null \<and> getNodeByUniqueID DEFAULT (uniqueId n) s' = null \<and>
    (\<forall>u. u \<noteq> uniqueId n \<longrightarrow> getNodeByUniqueID DEFAULT u s' = getNodeByUniqueID DEFAULT u s) \<and>
    (\<forall>par. getChildrenAsNodes DEFAULT par s' = (if par = sh then [] else getChildrenAsNodes DEFAULT par s)) \<and>
    (if sh |\<in>| newAdded s
     then newAdded s' = newAdded s |-| {|sh|} \<and> newRemoved s' = newRemoved s \<and> deref s' p = Inl NullDeref
     else newAdded s' = newAdded s \<and> newRemoved s' = finsert sh (newRemoved s) \<and> sh |\<notin>| newModified s' \<and>
          toRemove s' = toRemove s @ [p] \<and> deref s' p = Inr n) \<and>
    (\<forall>par t. par |\<in>| parentIds n \<and> par \<noteq> sh \<longrightarrow> p \<in> set (getChildrenAsNodes DEFAULT par s') \<and>
       (sh |\<in>| newAdded s \<longrightarrow> getChildrenNodesFiltered DEFAULT par t s' = Inl NullDeref))"
proof -
  have l: "live s p n" using p(2) by (simp add: deref_Inr_iff)
  have gd: "graph_of DEFAULT s = graph s" "graph_of DEFAULT s' = graph s'" by (simp_all add: graph_of_def)
  note rm = removeNode_Inr [OF r p(1) l, unfolded unlisted_def gd]
  obtain u where u: "map_of (sharedIDtoUniqueID (graph s)) sh = Some u" "getNodeByUniqueID DEFAULT u s = p"
    using p(1) l by (auto simp: getNodeBySharedID_def gd live_def split: option.splits)
  have np: "map_of (nodesByUniqueID (graph s)) u = Some p"
    using u(2) l by (auto simp: getNodeByUniqueID_def gd live_def split: option.splits)
  have pc: "p \<in> set (children (graph s) par)" if "par |\<in>| parentIds n" for par
    using graph_wf_dest(4) [OF wf np l that] .
  have ch: "getChildrenAsNodes DEFAULT par s' = (if par = sh then [] else getChildrenAsNodes DEFAULT par s)" for par
    using rm by (simp add: getChildrenAsNodes_children gd)
  have freed: "heap s' p = None" if "sh |\<in>| newAdded s" using rm that by (simp split: if_splits)
  have still: "p \<in> set (getChildrenAsNodes DEFAULT par s')" if "par |\<in>| parentIds n" "par \<noteq> sh" for par
    using pc [OF that(1)] that(2) unfolding ch by (simp add: getChildrenAsNodes_children gd)
  have "getChildrenNodesFiltered DEFAULT par t s' = Inl NullDeref"
    if "par |\<in>| parentIds n" "par \<noteq> sh" "sh |\<in>| newAdded s" for par t
    unfolding getChildrenNodesFiltered_def using still that freed by (intro filterNodesByType_dangling)
  moreover have "getNodeBySharedID DEFAULT sh s' = null" "getNodeByUniqueID DEFAULT (uniqueId n) s' = null"
      "\<forall>u. u \<noteq> uniqueId n \<longrightarrow> getNodeByUniqueID DEFAULT u s' = getNodeByUniqueID DEFAULT u s"
    using rm by (auto simp: getNodeBySharedID_def getNodeByUniqueID_def gd map_of_delete)
  moreover have "if sh |\<in>| newAdded s
     then newAdded s' = newAdded s |-| {|sh|} \<and> newRemoved s' = newRemoved s \<and> deref s' p = Inl NullDeref
     else newAdded s' = newAdded s \<and> newRemoved s' = finsert sh (newRemoved s) \<and> sh |\<notin>| newModified s' \<and>
          toRemove s' = toRemove s @ [p] \<and> deref s' p = Inr n"
    using rm l freed by (auto simp: deref_def live_def split: if_splits)
  ultimately show ?thesis using ch still by blast
qed

definition sample_unsaved :: RepoScene where
  "sample_unsaved = sample\<lparr>newAdded := {|20, 21|}\<rparr>"

lemma sample_unsaved_simps:
  "graph_of DEFAULT sample_unsaved = sample_graph" "graph sample_unsaved = sample_graph"
  "heap sample_unsaved = [1 \<mapsto> sample_root, 2 \<mapsto> sample_child]" "newAdded sample_unsaved = {|20, 21|}"
  by (simp_all add: sample_unsaved_def sample_def graph_of_def RepoScene_empty_def)

theorem removeNode_leaves_child_lists_witness:
  "\<exists>s'. removeNode DEFAULT 21 sample_unsaved = Inr s' \<and> getNodeBySharedID DEFAULT 21 s' = null \<and>
     newAdded s' = {|20|} \<and> getChildrenNodesFiltered DEFAULT 20 MESH s' = Inl NullDeref"
proof -
  have wf: "graph_wf sample_unsaved (graph sample_unsaved)"
    using sample_wf graph_wf_heap [of sample_unsaved sample sample_graph] by (simp add: sample_unsaved_simps sample_simps)
  have p: "getNodeBySharedID DEFAULT 21 sample_unsaved = 2" "deref sample_unsaved 2 = Inr sample_child"
    by (simp_all add: getNodeBySharedID_def getNodeByUniqueID_def sample_unsaved_simps sample_uids deref_def)
  have "\<exists>s'. removeNode DEFAULT 21 sample_unsaved = Inr s'"
    unfolding removeNode_def p
    by (simp add: p sample_nodes collection_of_type_def getTypeAsEnum_def Let_def collection_erase_def
        sample_unsaved_simps sample_graph_def set_graph_def graph_of_def deref_def)
  then obtain s' where s': "removeNode DEFAULT 21 sample_unsaved = Inr s'" by blast
  show ?thesis
    using removeNode_leaves_child_lists [OF wf p s'] s'
    by (auto simp: sample_nodes sample_unsaved_simps intro: exI [of _ s'])
qed

subsection \<open>Adding\<close>

definition second_root :: "GraphType \<Rightarrow> RepoNode \<Rightarrow> RepoScene \<Rightarrow> bool" where
  "second_root gt n s \<longleftrightarrow> parentIds n = {||} \<and> getTypeAsEnum n = TRANSFORMATION \<and>
     (\<exists>r. live s (rootNode (graph_of gt s)) r \<and> node_neq r n \<and> getTypeAsEnum r = TRANSFORMATION)"

lemma addNodeToMaps_outcome:
  assumes n: "live s node n" and r: "rootNode (graph_of gt s) = null \<or> (\<exists>m. live s (rootNode (graph_of gt s)) m)"
  shows "if second_root gt n s
    then addNodeToMaps gt node s = Inl (RepoSceneProcessingException
           ''2 candidate for root node found. This is possibly an invalid Scene Graph.'')
    else \<exists>s'. addNodeToMaps gt node s = Inr s'"
proof (cases "rootNode (graph_of gt s) = null")
  case True
  then show ?thesis
    using n by (simp add: second_root_def addNodeToMaps_def choose_root_def live_def Let_def deref_def split: if_splits)
next
  case False
  with r obtain m where m: "live s (rootNode (graph_of gt s)) m" by blast
  have "second_root gt n s \<longleftrightarrow> parentIds n = {||} \<and> getTypeAsEnum n = TRANSFORMATION \<and> node_neq m n \<and>
      getTypeAsEnum m = TRANSFORMATION"
    unfolding second_root_def using m live_unique [OF m] by blast
  then show ?thesis using n m False by (simp add: addNodeToMaps_def choose_root_def Let_def)
qed

text \<open>
  C12: a scene has one root: adding a live node to a well-formed graph throws exactly when the node is a
  transformation without parents and the graph already has a different root; otherwise, when its
  unique identifier is new, the graph stays well-formed, the node is found under both identifiers, and
  the child lists of exactly its parents grow, by that node at the end.
\<close>

theorem addNodeToMaps_one_root:
  assumes wf: "graph_wf s (graph_of gt s)" and n: "live s node n"
    and fresh: "map_of (nodesByUniqueID (graph_of gt s)) (uniqueId n) = None"
  shows "(second_root gt n s \<longrightarrow> addNodeToMaps gt node s = Inl (RepoSceneProcessingException
            ''2 candidate for root node found. This is possibly an invalid Scene Graph.'')) \<and>
    (\<not> second_root gt n s \<longrightarrow> (\<exists>s'. addNodeToMaps gt node s = Inr s' \<and> graph_wf s' (graph_of gt s') \<and>
       getNodeByUniqueID gt (uniqueId n) s' = node \<and> getNodeBySharedID gt (sharedId n) s' = node \<and>
       (\<forall>par. getChildrenAsNodes gt par s' =
          getChildrenAsNodes gt par s @ (if par |\<in>| parentIds n then [node] else []))))"
proof -
  have root: "rootNode (graph_of gt s) = null \<or> (\<exists>m. live s (rootNode (graph_of gt s)) m)"
    using graph_wf_dest(5) [OF wf] by blast
  have "\<exists>s'. addNodeToMaps gt node s = Inr s' \<and> graph_wf s' (graph_of gt s') \<and>
       getNodeByUniqueID gt (uniqueId n) s' = node \<and> getNodeBySharedID gt (sharedId n) s' = node \<and>
       (\<forall>par. getChildrenAsNodes gt par s' =
          getChildrenAsNodes gt par s @ (if par |\<in>| parentIds n then [node] else []))"
    if one: "\<not> second_root gt n s"
  proof -
    obtain s' where s': "addNodeToMaps gt node s = Inr s'"
      using addNodeToMaps_outcome [OF n root] one by auto
    have g: "gained gt node n s s'" using addNodeToMaps_gained [OF s' n] by blast
    then have "getNodeByUniqueID gt (uniqueId n) s' = node" "getNodeBySharedID gt (sharedId n) s' = node"
        "getChildrenAsNodes gt par s' = getChildrenAsNodes gt par s @ (if par |\<in>| parentIds n then [node] else [])" for par
      by (simp_all add: gained_def getNodeByUniqueID_def getNodeBySharedID_def getChildrenAsNodes_children update_conv')
    with s' addNodeToMaps_wf [OF wf n fresh s'] show ?thesis by blast
  qed
  moreover have "second_root gt n s \<longrightarrow> addNodeToMaps gt node s = Inl (RepoSceneProcessingException
            ''2 candidate for root node found. This is possibly an invalid Scene Graph.'')"
    using addNodeToMaps_outcome [OF n root] by (simp split: if_splits)
  ultimately show ?thesis by blast
qed

definition sample_rival :: RepoNode where
  "sample_rival = (RepoNode_default 12)\<lparr>sharedId := 22, content := TransformationNode d_identity\<rparr>"

lemma sample_rival_simps:
  "uniqueId sample_rival = 12" "sharedId sample_rival = 22" "parentIds sample_rival = {||}"
  "getTypeAsEnum sample_rival = TRANSFORMATION" "getTypeAsEnum sample_root = TRANSFORMATION"
  by (simp_all add: sample_rival_def sample_root_def RepoNode_default_def getTypeAsEnum_def)

theorem addNodeToMaps_one_root_witness:
  "addNodeToMaps DEFAULT 3 (store 3 sample_rival sample) = Inl (RepoSceneProcessingException
     ''2 candidate for root node found. This is possibly an invalid Scene Graph.'')"
proof -
  let ?s = "store 3 sample_rival sample"
  have live: "live ?s p n \<longleftrightarrow> p = 3 \<and> n = sample_rival \<or> p \<noteq> 3 \<and> live sample p n" for p n
    by (auto simp: live_def)
  have "graph_wf ?s (graph_of DEFAULT ?s)"
    unfolding store_simps by (rule graph_wf_mono [OF sample_wf]) (auto simp: live sample_live)
  moreover have "second_root DEFAULT sample_rival ?s"
    by (auto simp: second_root_def sample_rival_simps sample_simps sample_rootNode live sample_live node_neq_def sample_nodes)
  ultimately show ?thesis
    using addNodeToMaps_one_root [of ?s DEFAULT 3 sample_rival]
    by (simp add: live sample_simps sample_uids sample_rival_simps)
qed

subsection \<open>Orphans\<close>

definition orphan :: "RepoNode \<Rightarrow> bool" where
  "orphan n \<longleftrightarrow> getTypeAsEnum n \<noteq> TRANSFORMATION \<and> parentIds n = {||}"

lemma setMissingNodes_frame [simp, frame_simps]:
  "heap (setMissingNodes s) = heap s" "newAdded (setMissingNodes s) = newAdded s"
  "graph_of gt (setMissingNodes s) = graph_of gt s"
  by (simp_all add: setMissingNodes_def graph_of_def)

lemma isMissingNodes_set [simp]: "isMissingNodes (setMissingNodes s)"
proof -
  have "bit (and (or (status s) REPO_SCENE_ENTITIES_BIT) REPO_SCENE_ENTITIES_BIT) 1"
    by (simp add: REPO_SCENE_ENTITIES_BIT_def bit_simps)
  then show ?thesis unfolding isMissingNodes_def setMissingNodes_def by auto
qed

definition listed_uids :: "GraphType \<Rightarrow> RepoScene \<Rightarrow> uuid set" where
  "listed_uids gt s = fst ` set (nodesByUniqueID (graph_of gt s))"

lemma addNodeToScene_step_Inr:
  assumes r: "addNodeToScene_step DEFAULT c p s = Inr s'" and n: "live s p n"
  shows "heap s' = heap s \<and>
    (if orphan n then s' = setMissingNodes s
     else status s' = status s \<and> newAdded s' = finsert (sharedId n) (newAdded s) \<and>
       listed_uids DEFAULT s' = insert (uniqueId n) (listed_uids DEFAULT s))"
proof (cases "orphan n")
  case True
  then show ?thesis using r n by (auto simp: addNodeToScene_step_def orphan_def live_def deref_def)
next
  case False
  then have keep: "getTypeAsEnum n = TRANSFORMATION \<or> parentIds n \<noteq> {||}" by (auto simp: orphan_def)
  obtain s1 s2 where s1: "collection_insert DEFAULT c p s = Inr s1"
      and s2: "addNodeToMaps DEFAULT p s1 = Inr s2"
      and mark: "rbind (deref s2 p) (\<lambda>n. Inr (s2\<lparr>newAdded := finsert (sharedId n) (newAdded s2)\<rparr>)) = Inr s'"
    using r n keep by (auto simp: addNodeToScene_step_def Let_def rbind_Inr_iff live_def deref_def)
  obtain ps where e: "s1 = set_graph DEFAULT (put_collection c ps (graph_of DEFAULT s)) s"
    using collection_insert_Inr [OF s1] .
  have l: "live s1 p n" using n by (simp add: e)
  have g: "gained DEFAULT p n s1 s2" using addNodeToMaps_gained [OF s2 l] by blast
  then have "live s2 p n" using l by (simp add: gained_def live_def)
  then have "s' = s2\<lparr>newAdded := finsert (sharedId n) (newAdded s2)\<rparr>" using mark by simp
  moreover have "nodesByUniqueID (graph_of DEFAULT s2) = AList.update (uniqueId n) p (nodesByUniqueID (graph_of DEFAULT s))"
      "newAdded s2 = newAdded s" "heap s2 = heap s" "status s2 = status s"
    using g by (simp_all add: gained_def e)
  ultimately show ?thesis using False by (simp add: listed_uids_def graph_of_def dom_update)
qed

text \<open>
  C27: adding a set of nodes to a scene leaves out exactly its orphans, the nodes that are neither a
  transformation nor have a parent: the scene is flagged as missing nodes when it was before or one of the
  nodes is an orphan, and the additions and the identifiers of the graph grow by those of the other nodes.
\<close>

theorem addNodeToScene_leaves_out_orphans:
  assumes "\<forall>p \<in> set nodes. \<exists>n. live s p n" and "addNodeToScene DEFAULT nodes c s = Inr s'"
  shows "(isMissingNodes s' \<longleftrightarrow> isMissingNodes s \<or> (\<exists>p \<in> set nodes. \<exists>n. live s p n \<and> orphan n)) \<and>
    fset (newAdded s') = fset (newAdded s) \<union> {sharedId n |n. \<exists>p \<in> set nodes. live s p n \<and> \<not> orphan n} \<and>
    listed_uids DEFAULT s' = listed_uids DEFAULT s \<union> {uniqueId n |n. \<exists>p \<in> set nodes. live s p n \<and> \<not> orphan n}"
  using assms
proof (induction nodes arbitrary: s)
  case Nil
  then show ?case by (simp add: addNodeToScene_def)
next
  case (Cons p nodes)
  obtain n where n: "live s p n" using Cons.prems(1) by auto
  obtain s1 where s1: "addNodeToScene_step DEFAULT c p s = Inr s1" "addNodeToScene DEFAULT nodes c s1 = Inr s'"
    using Cons.prems(2) by (auto simp: addNodeToScene_def rbind_Inr_iff)
  note st = addNodeToScene_step_Inr [OF s1(1) n]
  have l: "live s1 q m = live s q m" for q m using st by (simp add: live_def)
  have only: "live s p m \<longleftrightarrow> m = n" for m using n by (auto simp: live_def)
  note IH = Cons.IH [OF _ s1(2), unfolded l]
  have all: "\<forall>q \<in> set nodes. \<exists>m. live s q m" using Cons.prems(1) by simp
  show ?case
  proof (cases "orphan n")
    case True
    then have e: "s1 = setMissingNodes s" using st by simp
    have "newAdded s1 = newAdded s" "listed_uids DEFAULT s1 = listed_uids DEFAULT s" "isMissingNodes s1"
      by (simp_all add: e listed_uids_def)
    then show ?thesis using IH [OF all] True by (auto simp: only)
  next
    case False
    then have "status s1 = status s" "newAdded s1 = finsert (sharedId n) (newAdded s)"
        "listed_uids DEFAULT s1 = insert (uniqueId n) (listed_uids DEFAULT s)"
      using st by simp_all
    then show ?thesis using IH [OF all] False by (auto simp: only isMissingNodes_def)
  qed
qed

theorem addNodeToScene_leaves_out_orphans_witness:
  "\<exists>s'. addNodeToScene DEFAULT [3, 2] Unknowns
       (RepoScene_empty [3 \<mapsto> RepoNode_default 5, 2 \<mapsto> sample_child] 4 [] []) = Inr s' \<and>
     isMissingNodes s' \<and> fset (newAdded s') = {21} \<and> listed_uids DEFAULT s' = {11}"
proof -
  let ?s = "RepoScene_empty [3 \<mapsto> RepoNode_default 5, 2 \<mapsto> sample_child] 4 [] []"
  have h: "heap ?s = [3 \<mapsto> RepoNode_default 5, 2 \<mapsto> sample_child]" "graph_of DEFAULT ?s = empty_graph"
      "newAdded ?s = {||}" by (simp_all add: RepoScene_empty_def graph_of_def)
  have o: "orphan (RepoNode_default 5)" "\<not> orphan sample_child"
    by (simp_all add: orphan_def sample_nodes getTypeAsEnum_def RepoNode_default_def parseType_def node_type_labels)
  have live: "live ?s p n \<longleftrightarrow> p = 3 \<and> n = RepoNode_default 5 \<or> p = 2 \<and> n = sample_child" for p n
    by (auto simp: live_def h)
  have "\<exists>s'. addNodeToScene DEFAULT [3, 2] Unknowns ?s = Inr s'"
    using o by (simp add: addNodeToScene_def addNodeToScene_step_def orphan_def deref_def h Let_def
        setMissingNodes_def collection_insert_def graph_of_def set_graph_def addNodeToMaps_def sample_nodes
        RepoScene_empty_def empty_graph_def)
  then obtain s' where s': "addNodeToScene DEFAULT [3, 2] Unknowns ?s = Inr s'" by blast
  have ex: "\<forall>p \<in> set [3, 2]. \<exists>n. live ?s p n" by (simp add: live)
  have "isMissingNodes s' \<and> fset (newAdded s') = {21} \<and> listed_uids DEFAULT s' = {11}"
    using addNodeToScene_leaves_out_orphans [OF ex s'] o
    by (simp add: live h listed_uids_def empty_graph_def conj_disj_distribR conj_disj_distribL ex_disj_distrib sample_nodes
        cong: conj_cong)
  with s' show ?thesis by blast
qed

subsection \<open>Descendants\<close>

inductive descends :: "GraphType \<Rightarrow> RepoScene \<Rightarrow> uuid \<Rightarrow> ptr \<Rightarrow> bool" for gt s where
  child: "p \<in> set (getChildrenAsNodes gt sh s) \<Longrightarrow> descends gt s sh p"
| below: "c \<in> set (getChildrenAsNodes gt sh s) \<Longrightarrow> live s c n \<Longrightarrow> descends gt s (sharedId n) p \<Longrightarrow> descends gt s sh p"

inductive_cases descends_cases: "descends gt s sh p"

lemma descends_iff:
  "descends gt s sh p \<longleftrightarrow> p \<in> set (getChildrenAsNodes gt sh s) \<or>
     (\<exists>c n. c \<in> set (getChildrenAsNodes gt sh s) \<and> live s c n \<and> descends gt s (sharedId n) p)"
  by (auto intro: descends.intros elim: descends_cases)

text \<open>One child's share of the result, and the loop over the children as a collecting loop.\<close>

definition child_share :: "nat \<Rightarrow> GraphType \<Rightarrow> NodeType \<Rightarrow> RepoScene \<Rightarrow> ptr \<Rightarrow> ptr list result" where
  "child_share fuel gt t s child = rbind (deref s child) (\<lambda>n.
     rbind (getAllDescendantsByType fuel gt (sharedId n) t s) (\<lambda>r.
       Inr (r @ (if getTypeAsEnum n = t then [child] else []))))"

lemma rbind_assoc: "rbind (rbind r f) g = rbind r (\<lambda>x. rbind (f x) g)"
  by (cases r) simp_all

lemma rfold_collect:
  "rfold (\<lambda>x res. rbind (f x) (\<lambda>r. Inr (res @ r))) xs res = rbind (rtraverse f xs) (\<lambda>rs. Inr (res @ concat rs))"
  by (induction xs arbitrary: res) (simp_all add: rbind_assoc)

lemma getAllDescendantsByType_Suc:
  "getAllDescendantsByType (Suc fuel) gt sh t s =
     rbind (rtraverse (child_share fuel gt t s) (getChildrenAsNodes gt sh s)) (\<lambda>rs. Inr (concat rs))"
  using rfold_collect [of "child_share fuel gt t s" "getChildrenAsNodes gt sh s" "[]"]
  by (simp add: child_share_def rbind_assoc)

definition graph_rank :: "(uuid \<Rightarrow> nat) \<Rightarrow> GraphType \<Rightarrow> RepoScene \<Rightarrow> bool" where
  "graph_rank rank gt s \<longleftrightarrow>
     (\<forall>par c n. c \<in> set (getChildrenAsNodes gt par s) \<longrightarrow> live s c n \<longrightarrow> rank (sharedId n) < rank par)"

lemma getAllDescendantsByType_terminates:
  assumes wf: "graph_wf s (graph_of gt s)" and rank: "graph_rank rank gt s"
  shows "rank sh < fuel \<Longrightarrow> \<exists>res. getAllDescendantsByType fuel gt sh t s = Inr res \<and>
     set res = {p. descends gt s sh p \<and> (\<exists>n. live s p n \<and> getTypeAsEnum n = t)}"
proof (induction fuel arbitrary: sh)
  case (Suc fuel)
  let ?cs = "getChildrenAsNodes gt sh s"
  let ?share = "\<lambda>c. {p. \<exists>n. live s c n \<and> (p = c \<and> getTypeAsEnum n = t \<or>
      descends gt s (sharedId n) p \<and> (\<exists>m. live s p m \<and> getTypeAsEnum m = t))}"
  have live_child: "\<exists>n. live s c n" if "c \<in> set ?cs" for c
    using graph_wf_dest(3) [OF wf] that by (auto simp: getChildrenAsNodes_children)
  have "\<exists>r. child_share fuel gt t s c = Inr r \<and> set r = ?share c" if c: "c \<in> set ?cs" for c
  proof -
    obtain n where n: "live s c n" using live_child [OF c] by blast
    have only: "live s c m \<longleftrightarrow> m = n" for m using n by (auto simp: live_def)
    have "rank (sharedId n) < fuel" using rank c n Suc.prems by (fastforce simp: graph_rank_def)
    from Suc.IH [OF this] n show ?thesis by (auto simp: child_share_def only)
  qed
  then have "\<forall>c \<in> set ?cs. \<exists>r. child_share fuel gt t s c = Inr r \<and> set r = ?share c" by blast
  from bchoice [OF this] obtain f where
    f: "\<forall>c \<in> set ?cs. child_share fuel gt t s c = Inr (f c) \<and> set (f c) = ?share c" by blast
  have "rtraverse (child_share fuel gt t s) ?cs = Inr (map f ?cs)" using f by (intro rtraverse_all_Inr) blast
  moreover have "set (concat (map f ?cs)) = {p. descends gt s sh p \<and> (\<exists>n. live s p n \<and> getTypeAsEnum n = t)}"
  proof -
    have "set (concat (map f ?cs)) = (\<Union>c \<in> set ?cs. ?share c)" using f by simp
    also have "\<dots> = {p. descends gt s sh p \<and> (\<exists>n. live s p n \<and> getTypeAsEnum n = t)}"
      unfolding descends_iff [of gt s sh] using live_child by blast
    finally show ?thesis .
  qed
  ultimately show ?case unfolding getAllDescendantsByType_Suc by simp
qed simp

lemma getAllDescendantsByType_errors:
  assumes wf: "graph_wf s (graph_of gt s)"
  shows "getAllDescendantsByType fuel gt sh t s = Inl e \<Longrightarrow> e = StackOverflow"
proof (induction fuel arbitrary: sh)
  case (Suc fuel)
  from Suc.prems obtain c where c: "c \<in> set (getChildrenAsNodes gt sh s)" "child_share fuel gt t s c = Inl e"
    unfolding getAllDescendantsByType_Suc by (auto simp: rbind_def split: sum.splits dest!: rtraverse_Inl)
  obtain n where "live s c n" using graph_wf_dest(3) [OF wf] c by (auto simp: getChildrenAsNodes_children)
  then have "getAllDescendantsByType fuel gt (sharedId n) t s = Inl e"
    using c(2) by (cases "getAllDescendantsByType fuel gt (sharedId n) t s") (auto simp: child_share_def)
  then show ?case by (rule Suc.IH)
qed simp

lemma getAllDescendantsByType_below:
  assumes "descends gt s sh p"
  shows "live s p n \<Longrightarrow> getAllDescendantsByType fuel gt sh t s = Inr r \<Longrightarrow>
    \<exists>fuel' < fuel. \<exists>r'. getAllDescendantsByType fuel' gt (sharedId n) t s = Inr r'"
  using assms
proof (induction arbitrary: fuel r rule: descends.induct)
  case (child p sh)
  then obtain f where f: "fuel = Suc f" by (cases fuel) auto
  obtain y where "child_share f gt t s p = Inr y"
    using child rtraverse_Inr_all unfolding f getAllDescendantsByType_Suc by (fastforce simp: rbind_Inr_iff)
  then show ?case using child.prems f by (auto simp: child_share_def rbind_Inr_iff)
next
  case (below c sh m p)
  then obtain f where f: "fuel = Suc f" by (cases fuel) auto
  obtain y where "child_share f gt t s c = Inr y"
    using below.prems below.hyps rtraverse_Inr_all unfolding f getAllDescendantsByType_Suc
    by (fastforce simp: rbind_Inr_iff)
  then obtain r' where "getAllDescendantsByType f gt (sharedId m) t s = Inr r'"
    using below.hyps(2) by (auto simp: child_share_def rbind_Inr_iff)
  then show ?case using below.IH [OF below.prems(1)] f less_SucI by blast
qed

lemma getAllDescendantsByType_cycle:
  assumes "descends gt s sh p" "live s p n" "sharedId n = sh"
  shows "getAllDescendantsByType fuel gt sh t s \<noteq> Inr r"
proof (induction fuel arbitrary: r rule: less_induct)
  case (less fuel)
  then show ?case using getAllDescendantsByType_below [OF assms(1,2)] assms(3) by blast
qed

text \<open>
  C19: listing descendants: in a well-formed graph whose nodes can be ranked so that children rank below
  their parents, the recursion ends once it may go deeper than the rank of the start, and the result holds
  exactly the descendants of the asked type; when a node is its own descendant, no depth is enough.
\<close>

theorem descendants_exact:
  assumes wf: "graph_wf s (graph_of gt s)"
  shows "(graph_rank rank gt s \<and> rank sh < fuel \<longrightarrow> (\<exists>res. getAllDescendantsByType fuel gt sh t s = Inr res \<and>
            set res = {p. descends gt s sh p \<and> (\<exists>n. live s p n \<and> getTypeAsEnum n = t)})) \<and>
         ((\<exists>p n. descends gt s sh p \<and> live s p n \<and> sharedId n = sh) \<longrightarrow>
            getAllDescendantsByType fuel gt sh t s = Inl StackOverflow)"
proof -
  have "getAllDescendantsByType fuel gt sh t s = Inl StackOverflow"
    if "descends gt s sh p" "live s p n" "sharedId n = sh" for p n
    using getAllDescendantsByType_cycle [OF that] getAllDescendantsByType_errors [OF wf]
    by (cases "getAllDescendantsByType fuel gt sh t s") auto
  then show ?thesis using getAllDescendantsByType_terminates [OF wf] by blast
qed

theorem descendants_exact_witness:
  "\<exists>res. getAllDescendantsByType 2 DEFAULT 20 METADATA sample = Inr res \<and> set res = {2}"
proof -
  let ?rank = "\<lambda>u::uuid. if u = 20 then 1 else 0::nat"
  have "graph_rank ?rank DEFAULT sample"
    by (auto simp: graph_rank_def getChildrenAsNodes_children sample_simps sample_children sample_live sample_nodes
        split: if_splits)
  then obtain res where res: "getAllDescendantsByType 2 DEFAULT 20 METADATA sample = Inr res"
      "set res = {p. descends DEFAULT sample 20 p \<and> (\<exists>n. live sample p n \<and> getTypeAsEnum n = METADATA)}"
    using descendants_exact [OF sample_wf, of ?rank 20 2 METADATA] by auto
  have "getTypeAsEnum sample_child = METADATA" "getTypeAsEnum sample_root \<noteq> METADATA"
    by (simp_all add: getTypeAsEnum_def sample_nodes)
  moreover have "descends DEFAULT sample 20 2"
    by (intro descends.child) (simp add: getChildrenAsNodes_children sample_simps sample_children)
  ultimately have "set res = {2}" using res(2) by (auto simp: sample_live)
  with res(1) show ?thesis by blast
qed

subsection \<open>Names and flags\<close>

lemma replace_if_clean: "\<not> f v \<Longrightarrow> list_all (\<lambda>c. \<not> f c) (replace_if f v xs)"
  by (induction xs) (auto simp: replace_if_def)

lemma replace_if_same: "replace_if f v xs = xs \<longleftrightarrow> list_all (\<lambda>c. f c \<longrightarrow> c = v) xs"
  by (induction xs) (auto simp: replace_if_def)

lemma length_replace_if [simp]: "length (replace_if f v xs) = length xs"
  by (simp add: replace_if_def)

lemma nameCheck_dbNameCheck: "nameCheck c \<Longrightarrow> dbNameCheck c"
  by (auto simp: nameCheck_def dbNameCheck_def)

lemma underscore_allowed [simp]: "\<not> dbNameCheck CHR ''_''" "\<not> nameCheck CHR ''_''" "\<not> extNameCheck CHR ''_''"
  by (simp_all add: dbNameCheck_def nameCheck_def extNameCheck_def)

lemmas sanitize_defs = sanitizeDatabaseName_def sanitizeName_def sanitizeExt_def

text \<open>
  The names of a scene are safe to store under: whatever names it is given, the database name holds
  none of the characters MongoDB forbids and the project name no blank, dollar or dot; both keep
  their length, setting the names a second time to what they are changes nothing, and a name is
  changed only when it holds a forbidden character. A database name is also a valid project name.
\<close>

theorem names_are_sanitized:
  "let s' = setDatabaseAndProjectName db proj s in
    list_all (\<lambda>c. \<not> dbNameCheck c) (databaseName s') \<and> list_all (\<lambda>c. \<not> nameCheck c) (projectName s') \<and>
    length (databaseName s') = length db \<and> length (projectName s') = length proj \<and>
    setDatabaseAndProjectName (databaseName s') (projectName s') s' = s' \<and>
    (databaseName s' = db \<longleftrightarrow> list_all (\<lambda>c. \<not> dbNameCheck c) db) \<and>
    (projectName s' = proj \<longleftrightarrow> list_all (\<lambda>c. \<not> nameCheck c) proj) \<and>
    sanitizeName (databaseName s') = databaseName s'"
proof -
  define s' where "s' = setDatabaseAndProjectName db proj s"
  have n: "databaseName s' = replace_if dbNameCheck CHR ''_'' db" "projectName s' = replace_if nameCheck CHR ''_'' proj"
    by (simp_all add: s'_def setDatabaseAndProjectName_def sanitize_defs)
  have same: "replace_if f v xs = xs" if "list_all (\<lambda>c. \<not> f c) xs" for f :: "char \<Rightarrow> bool" and v xs
    using that by (simp add: replace_if_same list.pred_mono_strong)
  have clean: "list_all (\<lambda>c. \<not> dbNameCheck c) (databaseName s')" "list_all (\<lambda>c. \<not> nameCheck c) (projectName s')"
    by (simp_all add: n replace_if_clean)
  have "list_all (\<lambda>c. \<not> nameCheck c) (databaseName s')"
    using clean(1) nameCheck_dbNameCheck by (metis (mono_tags) list.pred_mono_strong)
  then have "sanitizeName (databaseName s') = databaseName s'" by (simp add: sanitizeName_def same)
  moreover have "databaseName s' = db \<longleftrightarrow> list_all (\<lambda>c. \<not> dbNameCheck c) db"
      "projectName s' = proj \<longleftrightarrow> list_all (\<lambda>c. \<not> nameCheck c) proj"
    using clean same by (metis n)+
  moreover have "setDatabaseAndProjectName (databaseName s') (projectName s') s' = s'"
    by (simp add: setDatabaseAndProjectName_def sanitizeDatabaseName_def sanitizeName_def same clean)
  ultimately show ?thesis
    unfolding Let_def s'_def [symmetric] using clean by (simp add: n)
qed

text \<open>
  The flags of a scene: flagging missing nodes or a missing texture makes the scene not ok and leaves
  the missing-nodes flag of the other kind alone; but the missing-texture query does not look at its own
  flag, it answers whether any flag is set, so a scene that only lost nodes reports a missing texture.
\<close>

theorem texture_flag_is_any_flag:
  "isMissingNodes (setMissingNodes s) \<and> (isMissingNodes (setMissingTexture s) \<longleftrightarrow> isMissingNodes s) \<and>
   \<not> isOK (setMissingNodes s) \<and> \<not> isOK (setMissingTexture s) \<and>
   (isMissingTexture s \<longleftrightarrow> \<not> isOK s) \<and> isMissingTexture (setMissingNodes s)"
proof -
  have tex: "isMissingTexture t \<longleftrightarrow> \<not> isOK t" for t
    by (simp add: isMissingTexture_def isOK_def REPO_SCENE_TEXTURE_BIT_def)
  have "and (or (status s) REPO_SCENE_TEXTURE_BIT) REPO_SCENE_ENTITIES_BIT = and (status s) REPO_SCENE_ENTITIES_BIT"
    by (rule bit_word_eqI) (auto simp: REPO_SCENE_TEXTURE_BIT_def REPO_SCENE_ENTITIES_BIT_def bit_simps bit_1_iff bit_2_iff)
  then have "isMissingNodes (setMissingTexture s) \<longleftrightarrow> isMissingNodes s"
    by (simp add: isMissingNodes_def setMissingTexture_def)
  moreover have "\<not> isOK (setMissingTexture s)" "\<not> isOK (setMissingNodes s)"
    by (auto simp: isOK_def setMissingTexture_def setMissingNodes_def REPO_SCENE_TEXTURE_BIT_def
        REPO_SCENE_ENTITIES_BIT_def or_eq_0_iff)
  ultimately show ?thesis by (simp add: tex)
qed

end
