(* ===== verification/FileHandler.thy ===== *)
theory FileHandler
  imports Bson "HOL-Library.Sublist"
begin

text \<open>
  File handlers: the interface \<open>AbstractFileHandler\<close> as a record of operations with its laws as the
  locale \<open>file_handler\<close>, and \<open>FSFileHandler\<close> of \<open>core/handler/fileservice/repo_file_handler_fs.cpp\<close>,
  which keeps files in a directory tree. The file system maps full path names to contents; what a write
  does, the random numbers and the string hash are the environment \<open>fs_env\<close>.
\<close>

subsection \<open>The interface\<close>

record 's file_ops =
  op_upload :: "string \<Rightarrow> string \<Rightarrow> string \<Rightarrow> bytes \<Rightarrow> 's \<Rightarrow> string result \<times> 's"
  op_get :: "string \<Rightarrow> string \<Rightarrow> string \<Rightarrow> 's \<Rightarrow> bytes"
  op_stream :: "string \<Rightarrow> string \<Rightarrow> string \<Rightarrow> 's \<Rightarrow> bytes option"
  op_delete :: "string \<Rightarrow> string \<Rightarrow> string \<Rightarrow> 's \<Rightarrow> bool \<times> 's"
  op_path :: "string \<Rightarrow> string"

text \<open>A name that can be stored under, and a link that can have been handed out for one.\<close>

definition relative_name :: "string \<Rightarrow> bool" where
  "relative_name k \<longleftrightarrow> k \<noteq> [] \<and> hd k \<noteq> CHR ''/''"

locale file_handler =
  fixes h :: "'s file_ops"
  assumes upload_stream: "op_upload h database collection key bin s = (Inr link, s') \<Longrightarrow> relative_name key \<Longrightarrow>
      link \<noteq> [] \<Longrightarrow> relative_name link \<and> suffix key link \<and> op_stream h database collection link s' = Some bin"
    and upload_frame: "op_upload h database collection key bin s = (r, s') \<Longrightarrow> relative_name key \<Longrightarrow>
      relative_name l \<Longrightarrow> \<not> suffix key l \<Longrightarrow> op_stream h database collection l s' = op_stream h database collection l s"
    and get_stream: "op_get h database collection l s = (case op_stream h database collection l s of Some b \<Rightarrow> b | None \<Rightarrow> [])"
    and delete_stream: "op_delete h database collection l s = (True, s') \<Longrightarrow> op_stream h database collection l s' = None"
    and delete_frame: "op_delete h database collection l s = (d, s') \<Longrightarrow> relative_name l \<Longrightarrow> relative_name l' \<Longrightarrow>
      l' \<noteq> l \<Longrightarrow> op_stream h database collection l' s' = op_stream h database collection l' s"
begin

lemma upload_get:
  assumes "op_upload h database collection key bin s = (Inr link, s')" "relative_name key" "link \<noteq> []"
  shows "op_get h database collection link s' = bin"
  using upload_stream [OF assms] by (simp add: get_stream)

lemma upload_get_frame:
  assumes "op_upload h database collection key bin s = (r, s')" "relative_name key" "relative_name l" "\<not> suffix key l"
  shows "op_get h database collection l s' = op_get h database collection l s"
  using upload_frame [OF assms] by (simp add: get_stream)

lemma delete_get:
  assumes "op_delete h database collection l s = (True, s')"
  shows "op_get h database collection l s' = []"
  using delete_stream [OF assms] by (simp add: get_stream)

text \<open>Two keys of which neither ends in the other do not disturb each other.\<close>

lemma upload_both:
  assumes u: "op_upload h database collection k1 b1 s = (Inr l1, s1)" "op_upload h database collection k2 b2 s1 = (Inr l2, s2)"
    and k: "relative_name k1" "relative_name k2" "l1 \<noteq> []" "l2 \<noteq> []" and d: "\<not> suffix k2 l1"
  shows "op_get h database collection l1 s2 = b1 \<and> op_get h database collection l2 s2 = b2"
proof -
  note s1 = upload_stream [OF u(1) k(1,3)]
  have "op_get h database collection l1 s2 = op_get h database collection l1 s1"
    using upload_get_frame [OF u(2) k(2) _ d] s1 by blast
  then show ?thesis using upload_get [OF u(1) k(1,3)] upload_get [OF u(2) k(2,4)] by simp
qed

end

subsection \<open>Names\<close>

text \<open>\<open>std::to_string\<close> of an unsigned number, and \<open>operator/\<close> of POSIX paths.\<close>

fun nat_string :: "nat \<Rightarrow> string" where
  "nat_string n = (if n < 10 then [char_of (48 + n)] else nat_string (n div 10) @ [char_of (48 + n mod 10)])"

declare nat_string.simps [simp del]

definition with_separator :: "string \<Rightarrow> string" where
  "with_separator p = (if p = [] \<or> last p = CHR ''/'' then p else p @ ''/'')"

definition path_append :: "string \<Rightarrow> string \<Rightarrow> string" where
  "path_append p q = (if q \<noteq> [] \<and> hd q = CHR ''/'' then q else with_separator p @ q)"

subsection \<open>The file system handler\<close>

text \<open>\<open>Lost left\<close>: the stream failed or the file is not there afterwards; \<open>left\<close> is what the path holds then.\<close>

datatype write_outcome = Written | Lost "bytes option"

record file_system =
  files_at :: "string \<Rightarrow> bytes option"
  writes :: nat \<comment> \<open>attempts made\<close>
  rands :: nat \<comment> \<open>random numbers drawn\<close>

record fs_env =
  write_outcome_of :: "nat \<Rightarrow> write_outcome"
  rand_string :: "nat \<Rightarrow> string"
  string_hash :: "string \<Rightarrow> nat"
  removable :: "string \<Rightarrow> bool"

definition FSFileHandler :: "(string \<Rightarrow> bool) \<Rightarrow> string \<Rightarrow> int \<Rightarrow> (string \<times> int) result" where
  "FSFileHandler doesDirExist dir nLevel =
     (if \<not> doesDirExist dir
      then Inl (RepoException (''Cannot initialise fileshare: '' @ dir @ '' is does not exist/is not a directory''))
      else Inr (dir, nLevel))"

definition minChunkLength :: nat where "minChunkLength = 4"

text \<open>
  \<open>chunkStart\<close> is computed and not used, but its modulus can be zero; \<open>name.length() - nameChunkLen\<close> wraps
  round for shorter names.
\<close>

definition determineHierachy :: "fs_env \<Rightarrow> int \<Rightarrow> string \<Rightarrow> file_system \<Rightarrow> string list result \<times> file_system" where
  "determineHierachy env level name s =
     (let nameChunkLen = max (length name div nat level) minChunkLength
      in (rtraverse (\<lambda>i.
            if length name = nameChunkLen then Inl DivisionByZero
            else if length name < i then Inl (LogicError ''basic_string::substr'')
            else Inr (nat_string (string_hash env (take nameChunkLen (drop i name) @ rand_string env (rands s + i)) mod 256)))
              [0..<nat level],
          s\<lparr>rands := rands s + min (nat level) (Suc (length name))\<rparr>))"

text \<open>One attempt of the \<open>do\<close> loop, and the loop, which makes at most three.\<close>

definition write_once :: "fs_env \<Rightarrow> string \<Rightarrow> bytes \<Rightarrow> file_system \<Rightarrow> bool \<times> file_system" where
  "write_once env path bin s =
     (case write_outcome_of env (writes s) of
        Written \<Rightarrow> (False, s\<lparr>files_at := (files_at s)(path \<mapsto> bin), writes := Suc (writes s)\<rparr>)
      | Lost left \<Rightarrow> (True, s\<lparr>files_at := (files_at s)(path := left), writes := Suc (writes s)\<rparr>))"

function write_attempts :: "fs_env \<Rightarrow> string \<Rightarrow> bytes \<Rightarrow> nat \<Rightarrow> file_system \<Rightarrow> bool \<times> file_system" where
  "write_attempts env path bin retries s =
     (case write_once env path bin s of
        (failed, s) \<Rightarrow> if failed \<and> Suc retries < 3 then write_attempts env path bin (Suc retries) s else (failed, s))"
  by pat_completeness auto
termination by (relation "measure (\<lambda>(env, path, bin, retries, s). 3 - retries)") auto

declare write_attempts.simps [simp del]

definition uploadFile ::
  "fs_env \<Rightarrow> string \<Rightarrow> int \<Rightarrow> string \<Rightarrow> string \<Rightarrow> string \<Rightarrow> bytes \<Rightarrow> file_system \<Rightarrow> string result \<times> file_system" where
  "uploadFile env dirPath level database collection keyName bin s =
     (case (if level > 0 then determineHierachy env level keyName s else (Inr [], s)) of
        (Inl e, s) \<Rightarrow> (Inl e, s)
      | (Inr hierachy, s) \<Rightarrow>
          let path = path_append (foldl path_append dirPath hierachy) keyName;
              ss = concat (map (\<lambda>levelName. levelName @ ''/'') hierachy) @ keyName
          in case write_attempts env path bin 0 s of (failed, s) \<Rightarrow> (Inr (if failed then [] else ss), s))"

definition fs_getFileStream :: "string \<Rightarrow> string \<Rightarrow> string \<Rightarrow> string \<Rightarrow> file_system \<Rightarrow> bytes option" where
  "fs_getFileStream dirPath database collection keyName s = files_at s (path_append dirPath keyName)"

definition fs_getFile :: "string \<Rightarrow> string \<Rightarrow> string \<Rightarrow> string \<Rightarrow> file_system \<Rightarrow> bytes" where
  "fs_getFile dirPath database collection keyName s =
     (case fs_getFileStream dirPath database collection keyName s of Some content \<Rightarrow> content | None \<Rightarrow> [])"

definition fs_getFilePath :: "string \<Rightarrow> string \<Rightarrow> string" where
  "fs_getFilePath dirPath link = path_append dirPath link"

definition deleteFile :: "fs_env \<Rightarrow> string \<Rightarrow> string \<Rightarrow> string \<Rightarrow> string \<Rightarrow> file_system \<Rightarrow> bool \<times> file_system" where
  "deleteFile env dirPath database collection keyName s =
     (let fullPath = path_append dirPath keyName
      in if files_at s fullPath \<noteq> None \<and> removable env fullPath
         then (True, s\<lparr>files_at := (files_at s)(fullPath := None)\<rparr>) else (False, s))"

definition fs_ops :: "fs_env \<Rightarrow> string \<Rightarrow> int \<Rightarrow> file_system file_ops" where
  "fs_ops env dirPath level = \<lparr>op_upload = uploadFile env dirPath level, op_get = fs_getFile dirPath,
     op_stream = fs_getFileStream dirPath, op_delete = deleteFile env dirPath, op_path = fs_getFilePath dirPath\<rparr>"

subsection \<open>Lemmas\<close>

lemma nat_string_digits: "set (nat_string n) \<subseteq> char_of ` {48..<58::nat}"
proof (induction n rule: nat_string.induct)
  case (1 n)
  then show ?case by (subst nat_string.simps) auto
qed

lemma nat_string_nonempty [simp]: "nat_string n \<noteq> []"
  by (subst nat_string.simps) simp

lemma slash_not_digit: "CHR ''/'' \<notin> char_of ` {48..<58::nat}"
proof
  assume "CHR ''/'' \<in> char_of ` {48..<58::nat}"
  then obtain k where "CHR ''/'' = char_of k" "48 \<le> k" "k < (58::nat)" by auto
  then have "of_char (CHR ''/'') = (k::nat)" by simp
  then show False using \<open>48 \<le> k\<close> by simp
qed

lemma relative_nat_string [simp]: "relative_name (nat_string n)" "last (nat_string n) \<noteq> CHR ''/''"
proof -
  have "hd (nat_string n) \<in> char_of ` {48..<58::nat}" "last (nat_string n) \<in> char_of ` {48..<58::nat}"
    using nat_string_digits [of n] hd_in_set [of "nat_string n"] last_in_set [of "nat_string n"]
    by (meson nat_string_nonempty subsetD)+
  then show "relative_name (nat_string n)" "last (nat_string n) \<noteq> CHR ''/''"
    using slash_not_digit unfolding relative_name_def by (metis nat_string_nonempty)+
qed

lemma path_append_relative: "relative_name q \<Longrightarrow> path_append p q = with_separator p @ q"
  by (simp add: path_append_def relative_name_def)

lemma path_append_inj: "relative_name q \<Longrightarrow> relative_name r \<Longrightarrow> path_append p q = path_append p r \<longleftrightarrow> q = r"
  by (simp add: path_append_relative)

text \<open>The path a file is written to is the one its link leads to.\<close>

lemma with_separator_fold:
  assumes "list_all (\<lambda>l. relative_name l \<and> last l \<noteq> CHR ''/'') ls"
  shows "with_separator (foldl path_append dir ls) = with_separator dir @ concat (map (\<lambda>l. l @ ''/'') ls)"
  using assms
proof (induction ls rule: rev_induct)
  case (snoc l ls)
  then show ?case by (simp add: path_append_relative) (auto simp: with_separator_def relative_name_def)
qed simp

lemma hd_concat_append: "ls \<noteq> [] \<Longrightarrow> hd ls \<noteq> [] \<Longrightarrow> hd (concat (map (\<lambda>l. l @ ''/'') ls) @ k) = hd (hd ls)"
  by (cases ls) auto

lemma link_relative:
  assumes "list_all (\<lambda>l. relative_name l \<and> last l \<noteq> CHR ''/'') ls" "relative_name key"
  shows "relative_name (concat (map (\<lambda>l. l @ ''/'') ls) @ key)"
  using assms by (cases ls) (auto simp: relative_name_def)

lemma link_path:
  assumes "list_all (\<lambda>l. relative_name l \<and> last l \<noteq> CHR ''/'') ls" "relative_name key"
  shows "path_append (foldl path_append dir ls) key = path_append dir (concat (map (\<lambda>l. l @ ''/'') ls) @ key)"
  using assms by (simp add: path_append_relative [OF link_relative] path_append_relative with_separator_fold)

lemma rtraverse_Inr_list_all:
  "rtraverse f xs = Inr ys \<Longrightarrow> (\<And>x y. f x = Inr y \<Longrightarrow> P y) \<Longrightarrow> list_all P ys"
  by (induction xs arbitrary: ys) (auto simp: rbind_Inr_iff)

lemma determineHierachy_levels:
  assumes "determineHierachy env level name s = (Inr ls, s')"
  shows "list_all (\<lambda>l. relative_name l \<and> last l \<noteq> CHR ''/'') ls" "files_at s' = files_at s"
proof -
  show "files_at s' = files_at s" using assms by (auto simp: determineHierachy_def Let_def)
  show "list_all (\<lambda>l. relative_name l \<and> last l \<noteq> CHR ''/'') ls"
    using assms unfolding determineHierachy_def Let_def
    by (auto elim!: rtraverse_Inr_list_all split: if_splits)
qed

lemma write_attempts_files:
  "write_attempts env path bin retries s = (failed, s') \<Longrightarrow>
     (\<forall>p. p \<noteq> path \<longrightarrow> files_at s' p = files_at s p) \<and> (\<not> failed \<longrightarrow> files_at s' path = Some bin)"
proof (induction env path bin retries s rule: write_attempts.induct)
  case (1 env path bin retries s)
  obtain f t where w: "write_once env path bin s = (f, t)" by fastforce
  then have t: "(\<forall>p. p \<noteq> path \<longrightarrow> files_at t p = files_at s p) \<and> (\<not> f \<longrightarrow> files_at t path = Some bin)"
    by (auto simp: write_once_def split: write_outcome.splits)
  show ?case
    using 1 w t by (subst (asm) (2) write_attempts.simps) (auto split: if_splits)
qed

subsection \<open>The handler keeps the interface's laws\<close>

lemma uploadFile_Inr:
  assumes "uploadFile env dir level db col key bin s = (Inr link, s')" and k: "relative_name key"
  shows "(\<forall>l. relative_name l \<and> \<not> suffix key l \<longrightarrow> files_at s' (path_append dir l) = files_at s (path_append dir l)) \<and>
    (link \<noteq> [] \<longrightarrow> relative_name link \<and> suffix key link \<and> files_at s' (path_append dir link) = Some bin)"
proof -
  obtain ls t where ls: "(if level > 0 then determineHierachy env level key s else (Inr [], s)) = (Inr ls, t)"
    using assms(1) by (auto simp: uploadFile_def split: prod.splits sum.splits)
  then have lv: "list_all (\<lambda>l. relative_name l \<and> last l \<noteq> CHR ''/'') ls" "files_at t = files_at s"
    using determineHierachy_levels by (auto split: if_splits)
  let ?ss = "concat (map (\<lambda>l. l @ ''/'') ls) @ key"
  have ss: "relative_name ?ss" "suffix key ?ss" using link_relative [OF lv(1) k] by (auto simp: suffix_def)
  obtain failed where w: "write_attempts env (path_append dir ?ss) bin 0 t = (failed, s')" "link = (if failed then [] else ?ss)"
    using assms(1) ls by (auto simp: uploadFile_def Let_def link_path [OF lv(1) k] split: prod.splits)
  note f = write_attempts_files [OF w(1)]
  have "path_append dir l \<noteq> path_append dir ?ss" if "relative_name l" "\<not> suffix key l" for l
    using that ss path_append_inj [of l ?ss dir] by auto
  then show ?thesis using f lv(2) ss w(2) by auto
qed

lemma uploadFile_Inl: "uploadFile env dir level db col key bin s = (Inl e, s') \<Longrightarrow> files_at s' = files_at s"
  by (auto simp: uploadFile_def determineHierachy_def Let_def split: prod.splits sum.splits if_splits)

lemma fs_ops_simps [simp]:
  "op_upload (fs_ops env dir level) = uploadFile env dir level" "op_get (fs_ops env dir level) = fs_getFile dir"
  "op_stream (fs_ops env dir level) = fs_getFileStream dir" "op_delete (fs_ops env dir level) = deleteFile env dir"
  "op_path (fs_ops env dir level) = fs_getFilePath dir"
  by (simp_all add: fs_ops_def)

interpretation fs: file_handler "fs_ops env dirPath level" for env dirPath level
proof (unfold_locales, unfold fs_ops_simps fs_getFileStream_def, goal_cases)
  case (1 db col key bin s link s')
  then show ?case using uploadFile_Inr by blast
next
  case (2 db col key bin s r s' l)
  then show ?case using uploadFile_Inr uploadFile_Inl by (cases r) metis+
next
  case (3 db col l s)
  then show ?case by (simp add: fs_getFile_def fs_getFileStream_def)
next
  case (4 db col l s s')
  then show ?case by (auto simp: deleteFile_def Let_def split: if_splits)
next
  case (5 db col l s d s' l')
  then show ?case by (auto simp: deleteFile_def Let_def path_append_inj split: if_splits)
qed

subsection \<open>Properties\<close>

definition lost :: "fs_env \<Rightarrow> nat \<Rightarrow> bool" where
  "lost env k \<longleftrightarrow> write_outcome_of env k \<noteq> Written"

lemma write_attempts_three:
  "write_attempts env path bin 0 s = (failed, s') \<Longrightarrow>
     (failed \<longleftrightarrow> lost env (writes s) \<and> lost env (Suc (writes s)) \<and> lost env (Suc (Suc (writes s)))) \<and>
     writes s' \<le> writes s + 3"
  by (simp add: write_attempts.simps [of env path bin 0] write_attempts.simps [of env path bin "Suc 0"]
      write_attempts.simps [of env path bin "Suc (Suc 0)"] write_once_def lost_def split: write_outcome.splits prod.splits)
    (auto split: if_splits)

text \<open>
  C28: a file that was stored is read back: when storing under a key returns a link, the link ends in the
  key and the file behind it has exactly the bytes stored; storing another key that the link does not end in
  leaves it so, and after deleting it through the link the link leads to nothing. Storing gives no link
  only when three attempts to write failed, and never tries a fourth time.
\<close>

theorem fs_stored_files_read_back:
  assumes u: "uploadFile env dir level db col key bin s = (Inr link, s1)" and k: "relative_name key"
  shows "(link \<noteq> [] \<longrightarrow> suffix key link \<and> fs_getFile dir db col link s1 = bin \<and>
      (\<forall>key2 bin2 r s2. relative_name key2 \<and> \<not> suffix key2 link \<and>
         uploadFile env dir level db col key2 bin2 s1 = (r, s2) \<longrightarrow> fs_getFile dir db col link s2 = bin) \<and>
      (\<forall>s2. deleteFile env dir db col link s1 = (True, s2) \<longrightarrow> fs_getFile dir db col link s2 = [])) \<and>
    (link = [] \<longleftrightarrow> lost env (writes s) \<and> lost env (Suc (writes s)) \<and> lost env (Suc (Suc (writes s)))) \<and>
    writes s1 \<le> writes s + 3"
proof -
  obtain ls t where ls: "(if level > 0 then determineHierachy env level key s else (Inr [], s)) = (Inr ls, t)"
    using u by (auto simp: uploadFile_def split: prod.splits sum.splits)
  then have t: "writes t = writes s" by (auto simp: determineHierachy_def Let_def split: if_splits)
  have "key \<noteq> []" using k by (simp add: relative_name_def)
  then obtain failed path where w: "write_attempts env path bin 0 t = (failed, s1)" "failed \<longleftrightarrow> link = []"
    using u ls by (auto simp: uploadFile_def Let_def split: prod.splits if_splits)
  have "suffix key link \<and> relative_name link \<and> fs_getFile dir db col link s1 = bin" if "link \<noteq> []"
    using fs.upload_stream [of env dir level db col key bin s link s1] fs.upload_get [of env dir level db col key bin s link s1] u k that by simp
  moreover have "fs_getFile dir db col link s2 = fs_getFile dir db col link s1"
    if "relative_name key2" "\<not> suffix key2 link" "uploadFile env dir level db col key2 bin2 s1 = (r, s2)" "relative_name link"
    for key2 bin2 r s2
    using fs.upload_get_frame [of env dir level db col key2 bin2 s1 r s2 link] that by simp
  moreover have "fs_getFile dir db col link s2 = []" if "deleteFile env dir db col link s1 = (True, s2)" for s2
    using fs.delete_get [of env dir level db col link s1 s2] that by simp
  ultimately show ?thesis using write_attempts_three [OF w(1)] w(2) t by (cases "link = []") auto
qed

definition sample_env :: fs_env where
  "sample_env = \<lparr>write_outcome_of = (\<lambda>k. if k = 0 then Lost (Some [1]) else Written), rand_string = (\<lambda>k. ''r''),
     string_hash = length, removable = (\<lambda>p. True)\<rparr>"

definition empty_fs :: file_system where
  "empty_fs = \<lparr>files_at = (\<lambda>_. None), writes = 0, rands = 0\<rparr>"

theorem fs_stored_files_read_back_witness:
  "\<exists>link s1. uploadFile sample_env ''/store'' 2 ''db'' ''col'' ''0123456789'' [7, 8] empty_fs = (Inr link, s1) \<and>
     link = ''6/6/0123456789'' \<and> fs_getFile ''/store'' ''db'' ''col'' link s1 = [7, 8] \<and> writes s1 = 2"
proof -
  let ?u = "uploadFile sample_env ''/store'' 2 ''db'' ''col'' ''0123456789'' [7, 8] empty_fs"
  have u: "fst ?u = Inr ''6/6/0123456789''" "writes (snd ?u) = 2" by code_simp+
  have "?u = (Inr ''6/6/0123456789'', snd ?u)" using u(1) by (metis prod.collapse)
  from fs_stored_files_read_back [OF this] u this show ?thesis
    by (intro exI [of _ "''6/6/0123456789''"] exI [of _ "snd ?u"]) (simp add: relative_name_def)
qed

text \<open>
  The depth of the directory tree: for a key name the handler makes as many directory levels as
  configured, except that a name exactly as long as its chunks (for one level, every name of four or more
  characters) makes it divide by zero, and a name more than one shorter than the number of levels is
  rejected with a range error.
\<close>

theorem hierarchy_outcomes:
  assumes "level > 0"
  shows "case fst (determineHierachy env level name s) of
      Inr ls \<Rightarrow> length name \<noteq> max (length name div nat level) 4 \<and> nat level \<le> Suc (length name) \<and>
        length ls = nat level \<and> set ls \<subseteq> nat_string ` {..<256}
    | Inl e \<Rightarrow> if length name = max (length name div nat level) 4 then e = DivisionByZero
        else e = LogicError ''basic_string::substr'' \<and> Suc (length name) < nat level"
proof -
  let ?chunk = "max (length name div nat level) 4"
  let ?f = "\<lambda>i. if length name = ?chunk then Inl DivisionByZero
            else if length name < i then Inl (LogicError ''basic_string::substr'')
            else Inr (nat_string (string_hash env (take ?chunk (drop i name) @ rand_string env (rands s + i)) mod 256))"
  have d: "fst (determineHierachy env level name s) = rtraverse ?f [0..<nat level]"
    by (simp add: determineHierachy_def Let_def minChunkLength_def)
  consider (zero) "length name = ?chunk" | (far) "length name \<noteq> ?chunk" "Suc (length name) < nat level"
    | (fine) "length name \<noteq> ?chunk" "nat level \<le> Suc (length name)" by linarith
  then show ?thesis
  proof cases
    case zero
    have "[0..<nat level] = 0 # [1..<nat level]" using assms by (simp add: upt_conv_Cons)
    then have "rtraverse ?f [0..<nat level] = Inl DivisionByZero" using zero by simp
    then show ?thesis using zero by (simp add: d)
  next
    case far
    have "rtraverse ?f [0..<nat level] \<noteq> Inr ls" for ls
    proof
      assume "rtraverse ?f [0..<nat level] = Inr ls"
      then obtain y where "?f (Suc (length name)) = Inr y" using rtraverse_Inr_all far(2) by fastforce
      then show False using far by simp
    qed
    moreover have "e = LogicError ''basic_string::substr''" if "rtraverse ?f [0..<nat level] = Inl e" for e
      using rtraverse_Inl [OF that] far(1) by (auto split: if_splits)
    ultimately obtain e where "rtraverse ?f [0..<nat level] = Inl e" "e = LogicError ''basic_string::substr''"
      by (meson sumE)
    then show ?thesis using far by (simp only: d sum.case if_False)
  next
    case fine
    have "rtraverse ?f [0..<nat level] = Inr (map (\<lambda>i. nat_string (string_hash env
        (take ?chunk (drop i name) @ rand_string env (rands s + i)) mod 256)) [0..<nat level])"
      by (rule rtraverse_all_Inr) (use fine in auto)
    then show ?thesis using fine by (auto simp: d)
  qed
qed

theorem hierarchy_outcomes_witness:
  "fst (determineHierachy sample_env 1 ''0123456789'' empty_fs) = Inl DivisionByZero"
  using hierarchy_outcomes [where level = 1 and env = sample_env and name = "''0123456789''" and s = empty_fs]
  by (cases "fst (determineHierachy sample_env 1 ''0123456789'' empty_fs)") simp_all

end
