(* ===== verification/FileManager.thy ===== *)
theory FileManager
  imports FileHandler
begin

text \<open>
  Stored files: reference documents (\<open>core/model/bson/repo_bson_ref.cpp\<close>), \<open>FileManager\<close>
  (\<open>core/handler/fileservice/repo_file_manager.cpp\<close>), which stores a file with a file handler and its
  reference in the database, and \<open>BlobFilesHandler\<close> (\<open>repo_blob_files_handler.cpp\<close>), which packs many binaries into
  few files. The database handler and the compression are arguments; random identifiers come from a
  sequence of which each is used once.
\<close>

subsection \<open>References\<close>

definition REPO_REF_LABEL_LINK :: string where "REPO_REF_LABEL_LINK = ''link''"
definition REPO_REF_LABEL_SIZE :: string where "REPO_REF_LABEL_SIZE = ''size''"
definition REPO_REF_LABEL_TYPE :: string where "REPO_REF_LABEL_TYPE = ''type''"
definition REF_LABEL_NAME :: string where "REF_LABEL_NAME = ''name''"
definition REPO_LABEL_ID :: string where "REPO_LABEL_ID = ''_id''"
definition REPO_COLLECTION_EXT_REF :: string where "REPO_COLLECTION_EXT_REF = ''ref''"

lemmas ref_labels = REPO_REF_LABEL_LINK_def REPO_REF_LABEL_SIZE_def REPO_REF_LABEL_TYPE_def REF_LABEL_NAME_def REPO_LABEL_ID_def

datatype RefType = REF_FS | REF_UNKNOWN

definition REPO_REF_TYPE_FS :: string where "REPO_REF_TYPE_FS = ''fs''"
definition REPO_REF_TYPE_UNKNOWN :: string where "REPO_REF_TYPE_UNKNOWN = ''unknown''"

fun convertTypeAsString :: "RefType \<Rightarrow> string" where
  "convertTypeAsString REF_FS = REPO_REF_TYPE_FS"
| "convertTypeAsString REF_UNKNOWN = REPO_REF_TYPE_UNKNOWN"

text \<open>The two instances of the identifier's type.\<close>

datatype ref_key = KString string | KUUID uuid

fun key_bson :: "ref_key \<Rightarrow> bson" where
  "key_bson (KString s) = BString s"
| "key_bson (KUUID u) = bson_of_uuid u"

type_synonym ref_metadata = "(string \<times> RepoVariant) list"

record RepoRef =
  ref_type :: RefType
  ref_link :: string
  ref_size :: "64 word"
  ref_name :: string
  ref_metadata :: ref_metadata

definition RepoRef_new :: "string \<Rightarrow> 64 word \<Rightarrow> ref_metadata \<Rightarrow> RepoRef" where
  "RepoRef_new link sz metadata =
     \<lparr>ref_type = REF_FS, ref_link = link, ref_size = sz, ref_name = [], ref_metadata = metadata\<rparr>"

definition RepoRef_of_bson :: "RepoBSON \<Rightarrow> RepoRef result" where
  "RepoRef_of_bson bson =
     rbind (getLongField bson REPO_REF_LABEL_SIZE) (\<lambda>sz.
     rbind (getStringField bson REPO_REF_LABEL_LINK) (\<lambda>link.
     rbind (if hasField bson REF_LABEL_NAME then getStringField bson REF_LABEL_NAME else Inr []) (\<lambda>name.
     rbind (getStringField bson REPO_REF_LABEL_TYPE) (\<lambda>typeStr.
       Inr \<lparr>ref_type = (if typeStr = REPO_REF_TYPE_FS then REF_FS else REF_UNKNOWN), ref_link = link,
            ref_size = sz, ref_name = name, ref_metadata = []\<rparr>))))"

definition ref_serialise :: "(tm \<Rightarrow> int) \<Rightarrow> RepoRef \<Rightarrow> builder \<Rightarrow> builder result" where
  "ref_serialise mktime r b =
     (let b = append_field REPO_REF_LABEL_TYPE (BString (convertTypeAsString (ref_type r))) b;
          b = append_field REPO_REF_LABEL_LINK (BString (ref_link r)) b;
          b = append_field REPO_REF_LABEL_SIZE (BInt64 (ref_size r)) b;
          b = (if ref_name r \<noteq> [] then append_field REF_LABEL_NAME (BString (ref_name r)) b else b)
      in rfold (\<lambda>(k, v) b. rbind (bson_of_variant mktime v) (\<lambda>e. Inr (append_field k e b))) (ref_metadata r) b)"

definition refT_serialise :: "(tm \<Rightarrow> int) \<Rightarrow> ref_key \<Rightarrow> RepoRef \<Rightarrow> builder \<Rightarrow> builder result" where
  "refT_serialise mktime ident r b = rbind (ref_serialise mktime r b) (\<lambda>b. Inr (append_field REPO_LABEL_ID (key_bson ident) b))"

definition ref_bson :: "(tm \<Rightarrow> int) \<Rightarrow> ref_key \<Rightarrow> RepoRef \<Rightarrow> RepoBSON result" where
  "ref_bson mktime ident r = rbind (refT_serialise mktime ident r RepoBSONBuilder) (\<lambda>b. Inr (obj b))"

text \<open>The two specialisations of the constructor from a document.\<close>

definition RepoRefT_string :: "RepoBSON \<Rightarrow> (ref_key \<times> RepoRef) result" where
  "RepoRefT_string bson = rbind (RepoRef_of_bson bson) (\<lambda>r. rbind (getStringField bson REPO_LABEL_ID) (\<lambda>s. Inr (KString s, r)))"

definition RepoRefT_uuid :: "RepoBSON \<Rightarrow> (ref_key \<times> RepoRef) result" where
  "RepoRefT_uuid bson = rbind (RepoRef_of_bson bson) (\<lambda>r. rbind (getUUIDField bson REPO_LABEL_ID) (\<lambda>u. Inr (KUUID u, r)))"

text \<open>The factory takes the size as a 32-bit number.\<close>

definition makeRepoRef :: "ref_key \<Rightarrow> RefType \<Rightarrow> string \<Rightarrow> 32 word \<Rightarrow> ref_metadata \<Rightarrow> (ref_key \<times> RepoRef) result" where
  "makeRepoRef ident type link sz metadata =
     (if type \<noteq> REF_FS then Inl (RepoException ''New RefNodes must be FS'')
      else Inr (ident, RepoRef_new link (ucast sz) metadata))"

subsection \<open>The file manager\<close>

text \<open>What the manager uses of \<open>AbstractDatabaseHandler\<close>.\<close>

record 'd db_ops =
  findOneByUniqueID :: "'d \<Rightarrow> string \<Rightarrow> string \<Rightarrow> bson \<Rightarrow> RepoBSON result"
  upsertDocument :: "'d \<Rightarrow> string \<Rightarrow> string \<Rightarrow> RepoBSON \<Rightarrow> bool \<Rightarrow> unit result \<times> 'd"
  dropDocument :: "'d \<Rightarrow> RepoBSON \<Rightarrow> string \<Rightarrow> string \<Rightarrow> unit result \<times> 'd"

record ('s, 'd) manager_env =
  fsHandler :: "'s file_ops"
  dbHandler :: "'d db_ops"
  uuid_at :: "nat \<Rightarrow> uuid"
  uuid_string :: "uuid \<Rightarrow> string"
  gzip :: "bytes \<Rightarrow> bytes"
  gunzip :: "bytes \<Rightarrow> bytes result"
  make_time :: "tm \<Rightarrow> int"

record ('s, 'd) manager =
  fstore :: 's
  dbase :: 'd
  made :: nat \<comment> \<open>identifiers created\<close>

datatype Encoding = NoEncoding | Gzip

record FSConfig =
  fs_dir :: string
  fs_nLevel :: int
  configured :: bool

definition FileManager_fs :: "(string \<Rightarrow> bool) \<Rightarrow> FSConfig \<Rightarrow> (string \<times> int) result" where
  "FileManager_fs doesDirExist c =
     (if configured c then FSFileHandler doesDirExist (fs_dir c) (fs_nLevel c)
      else Inl (RepoException ''Filestore configuration must be provided.''))"

definition ref_collection :: "string \<Rightarrow> string" where
  "ref_collection collectionNamePrefix = collectionNamePrefix @ ''.'' @ REPO_COLLECTION_EXT_REF"

definition upsertFileRef ::
  "('s, 'd) manager_env \<Rightarrow> string \<Rightarrow> string \<Rightarrow> ref_key \<Rightarrow> string \<Rightarrow> RefType \<Rightarrow> 32 word \<Rightarrow> ref_metadata \<Rightarrow>
     ('s, 'd) manager \<Rightarrow> bool result \<times> ('s, 'd) manager" where
  "upsertFileRef env databaseName collectionNamePrefix ident link type sz metadata m =
     (case rbind (makeRepoRef ident type link sz metadata) (\<lambda>(ident, r). ref_bson (make_time env) ident r) of
        Inl e \<Rightarrow> (if is_RepoException e then Inr False else Inl e, m)
      | Inr refObj \<Rightarrow>
          (case upsertDocument (dbHandler env) (dbase m) databaseName (ref_collection collectionNamePrefix) refObj True of
             (Inl e, d) \<Rightarrow> (if is_RepoException e then Inr False else Inl e, m\<lparr>dbase := d\<rparr>)
           | (Inr _, d) \<Rightarrow> (Inr True, m\<lparr>dbase := d\<rparr>)))"

definition encode :: "('s, 'd) manager_env \<Rightarrow> Encoding \<Rightarrow> bytes \<Rightarrow> bytes" where
  "encode env encoding bin = (case encoding of Gzip \<Rightarrow> gzip env bin | NoEncoding \<Rightarrow> bin)"

definition encoded_metadata :: "Encoding \<Rightarrow> ref_metadata \<Rightarrow> ref_metadata" where
  "encoded_metadata encoding metadata =
     (case encoding of Gzip \<Rightarrow> AList.update ''encoding'' (VString ''gzip'') metadata | NoEncoding \<Rightarrow> metadata)"

definition uploadFileAndCommit ::
  "('s, 'd) manager_env \<Rightarrow> string \<Rightarrow> string \<Rightarrow> ref_key \<Rightarrow> bytes \<Rightarrow> ref_metadata \<Rightarrow> Encoding \<Rightarrow>
     ('s, 'd) manager \<Rightarrow> bool result \<times> ('s, 'd) manager" where
  "uploadFileAndCommit env databaseName collectionNamePrefix ident bin metadata encoding m =
     (let fileUUID = uuid_string env (uuid_at env (made m));
          fileContents = encode env encoding bin
      in case op_upload (fsHandler env) databaseName collectionNamePrefix fileUUID fileContents (fstore m) of
           (r, s) \<Rightarrow>
             let m = m\<lparr>fstore := s, made := Suc (made m)\<rparr>
             in case r of
                  Inl e \<Rightarrow> (Inl (if is_std_exception e then RepoFileUploadException (''Failed to upload '' @ fileUUID) else e), m)
                | Inr linkName \<Rightarrow>
                    if linkName \<noteq> []
                    then upsertFileRef env databaseName collectionNamePrefix ident linkName REF_FS
                           (of_nat (length fileContents)) (encoded_metadata encoding metadata) m
                    else (Inr False, m))"

definition getFileRef :: "('s, 'd) manager_env \<Rightarrow> string \<Rightarrow> string \<Rightarrow> ref_key \<Rightarrow> ('s, 'd) manager \<Rightarrow> (ref_key \<times> RepoRef) result" where
  "getFileRef env databaseName collectionNamePrefix key m =
     rbind (findOneByUniqueID (dbHandler env) (dbase m) databaseName (ref_collection collectionNamePrefix) (key_bson key))
       (\<lambda>doc. case key of
          KString fileName \<Rightarrow>
            if isEmpty doc then Inl (RepoRefMissingException (''Ref entry for file '' @ fileName @ '' unavailable''))
            else RepoRefT_string doc
        | KUUID ident \<Rightarrow> RepoRefT_uuid doc)"

definition decode :: "('s, 'd) manager_env \<Rightarrow> Encoding \<Rightarrow> bytes \<Rightarrow> bytes result" where
  "decode env encoding bin = (case encoding of Gzip \<Rightarrow> gunzip env bin | NoEncoding \<Rightarrow> Inr bin)"

definition getFile :: "('s, 'd) manager_env \<Rightarrow> string \<Rightarrow> string \<Rightarrow> ref_key \<Rightarrow> Encoding \<Rightarrow> ('s, 'd) manager \<Rightarrow> bytes result" where
  "getFile env databaseName collectionNamePrefix fileName encoding m =
     rbind (getFileRef env databaseName collectionNamePrefix fileName m) (\<lambda>(_, ref).
       case ref_type ref of
         REF_FS \<Rightarrow> decode env encoding (op_get (fsHandler env) databaseName collectionNamePrefix (ref_link ref) (fstore m))
       | REF_UNKNOWN \<Rightarrow> Inr [])"

definition getFileStream :: "('s, 'd) manager_env \<Rightarrow> string \<Rightarrow> string \<Rightarrow> string \<Rightarrow> ('s, 'd) manager \<Rightarrow> bytes option result" where
  "getFileStream env databaseName collectionNamePrefix fileName m =
     rbind (getFileRef env databaseName collectionNamePrefix (KString fileName) m) (\<lambda>(_, ref).
       case ref_type ref of
         REF_FS \<Rightarrow> Inr (op_stream (fsHandler env) databaseName collectionNamePrefix (ref_link ref) (fstore m))
       | REF_UNKNOWN \<Rightarrow> Inr None)"

definition getFilePath :: "('s, 'd) manager_env \<Rightarrow> RepoRef \<Rightarrow> string" where
  "getFilePath env ref = (if ref_type ref \<noteq> REF_FS then [] else op_path (fsHandler env) (ref_link ref))"

definition dropFileRef ::
  "('s, 'd) manager_env \<Rightarrow> RepoBSON \<Rightarrow> string \<Rightarrow> string \<Rightarrow> ('s, 'd) manager \<Rightarrow> bool result \<times> ('s, 'd) manager" where
  "dropFileRef env bson databaseName collectionNamePrefix m =
     (case dropDocument (dbHandler env) (dbase m) bson databaseName (ref_collection collectionNamePrefix) of
        (Inl e, d) \<Rightarrow> (if is_RepoException e then Inr False else Inl e, m\<lparr>dbase := d\<rparr>)
      | (Inr _, d) \<Rightarrow> (Inr True, m\<lparr>dbase := d\<rparr>))"

text \<open>The reference that is dropped is serialised again, which loses its metadata; only the identifier matters.\<close>

definition deleteFileAndRef ::
  "('s, 'd) manager_env \<Rightarrow> string \<Rightarrow> string \<Rightarrow> string \<Rightarrow> ('s, 'd) manager \<Rightarrow> bool result \<times> ('s, 'd) manager" where
  "deleteFileAndRef env databaseName collectionNamePrefix fileName m =
     (case findOneByUniqueID (dbHandler env) (dbase m) databaseName (ref_collection collectionNamePrefix) (BString fileName) of
        Inl e \<Rightarrow> (Inl e, m)
      | Inr node \<Rightarrow>
          if isEmpty node then (Inr False, m)
          else case RepoRefT_string node of
            Inl e \<Rightarrow> (Inl e, m)
          | Inr (ident, ref) \<Rightarrow>
              (case ref_type ref of
                 REF_FS \<Rightarrow>
                   (case op_delete (fsHandler env) databaseName collectionNamePrefix (ref_link ref) (fstore m) of
                      (deleted, s) \<Rightarrow>
                        let m = m\<lparr>fstore := s\<rparr>
                        in if deleted
                           then case ref_bson (make_time env) ident ref of
                                  Inl e \<Rightarrow> (Inl e, m)
                                | Inr bson \<Rightarrow> dropFileRef env bson databaseName collectionNamePrefix m
                           else (Inr False, m))
               | REF_UNKNOWN \<Rightarrow> (Inr False, m)))"

subsection \<open>Blob files\<close>

definition MAX_FILE_SIZE_BYTES :: nat where "MAX_FILE_SIZE_BYTES = 104857600"

record DataRef =
  data_file :: string
  data_start :: "64 word"
  data_size :: "64 word"

definition DataRef_serialise :: "DataRef \<Rightarrow> RepoBSON" where
  "DataRef_serialise r =
     obj (append_field REPO_LABEL_BINARY_FILENAME (BString (data_file r))
       (append_field REPO_LABEL_BINARY_SIZE (BInt64 (data_size r))
         (append_field REPO_LABEL_BINARY_START (BInt64 (data_start r)) RepoBSONBuilder)))"

definition DataRef_deserialise :: "RepoBSON \<Rightarrow> DataRef result" where
  "DataRef_deserialise b =
     rbind (getStringField b REPO_LABEL_BINARY_FILENAME) (\<lambda>f.
     rbind (getLongField b REPO_LABEL_BINARY_START) (\<lambda>p.
     rbind (getLongField b REPO_LABEL_BINARY_SIZE) (\<lambda>n.
       Inr \<lparr>data_file = f, data_start = p, data_size = n\<rparr>)))"

text \<open>
  A \<open>std::ifstream\<close>: what the file holds (none when it is not open) and whether a read has failed. \<open>seekg\<close> clears
  the end-of-file flag but not the failure, and a failed stream reads nothing more.
\<close>

record ifstream =
  stream_content :: "bytes option"
  stream_failed :: bool

definition read_at :: "64 word \<Rightarrow> 64 word \<Rightarrow> ifstream \<Rightarrow> bytes \<times> ifstream" where
  "read_at pos n st =
     (let zeros = replicate (unat n) 0
      in case stream_content st of
           None \<Rightarrow> (zeros, st\<lparr>stream_failed := True\<rparr>)
         | Some content \<Rightarrow>
             if stream_failed st \<or> sint pos < 0 then (zeros, st\<lparr>stream_failed := True\<rparr>)
             else let got = take (unat n) (drop (unat pos) content)
                  in if length got = unat n then (got, st)
                     else (got @ replicate (unat n - length got) 0, st\<lparr>stream_failed := True\<rparr>))"

record ('s, 'd) blob =
  blob_manager :: "('s, 'd) manager"
  activeFile :: "(string \<times> bytes) option"
  readStreams :: "(string \<times> ifstream) list"

text \<open>Whether the upload succeeded is not looked at.\<close>

definition commitActiveFile ::
  "('s, 'd) manager_env \<Rightarrow> string \<Rightarrow> string \<Rightarrow> ref_metadata \<Rightarrow> ('s, 'd) blob \<Rightarrow> unit result \<times> ('s, 'd) blob" where
  "commitActiveFile env database collection metadata b =
     (case activeFile b of
        None \<Rightarrow> (Inr (), b)
      | Some (name, buffer) \<Rightarrow>
          (case uploadFileAndCommit env database collection (KString name) buffer metadata NoEncoding (blob_manager b) of
             (Inl e, m) \<Rightarrow> (Inl e, b\<lparr>blob_manager := m\<rparr>)
           | (Inr _, m) \<Rightarrow> (Inr (), b\<lparr>blob_manager := m, activeFile := None\<rparr>)))"

definition newActiveFile ::
  "('s, 'd) manager_env \<Rightarrow> string \<Rightarrow> string \<Rightarrow> ref_metadata \<Rightarrow> ('s, 'd) blob \<Rightarrow> unit result \<times> ('s, 'd) blob" where
  "newActiveFile env database collection metadata b =
     (case commitActiveFile env database collection metadata b of
        (Inl e, b) \<Rightarrow> (Inl e, b)
      | (Inr _, b) \<Rightarrow>
          let m = blob_manager b
          in (Inr (), b\<lparr>activeFile := Some (uuid_string env (uuid_at env (made m)), []),
                        blob_manager := m\<lparr>made := Suc (made m)\<rparr>\<rparr>))"

definition insertBinary ::
  "('s, 'd) manager_env \<Rightarrow> string \<Rightarrow> string \<Rightarrow> ref_metadata \<Rightarrow> bytes \<Rightarrow> ('s, 'd) blob \<Rightarrow> DataRef result \<times> ('s, 'd) blob" where
  "insertBinary env database collection metadata data b =
     (let full = (case activeFile b of None \<Rightarrow> True
                  | Some (_, buffer) \<Rightarrow> length buffer + length data > MAX_FILE_SIZE_BYTES)
      in case (if full then newActiveFile env database collection metadata b else (Inr (), b)) of
           (Inl e, b) \<Rightarrow> (Inl e, b)
         | (Inr _, b) \<Rightarrow>
             (case activeFile b of
                None \<Rightarrow> (Inl NullDeref, b)
              | Some (name, buffer) \<Rightarrow>
                  (Inr \<lparr>data_file = name, data_start = of_nat (length buffer), data_size = of_nat (length data)\<rparr>,
                   b\<lparr>activeFile := Some (name, buffer @ data)\<rparr>)))"

definition finished ::
  "('s, 'd) manager_env \<Rightarrow> string \<Rightarrow> string \<Rightarrow> ref_metadata \<Rightarrow> ('s, 'd) blob \<Rightarrow> unit result \<times> ('s, 'd) blob" where
  "finished = commitActiveFile"

text \<open>A negative size makes \<open>resize\<close> throw.\<close>

definition readToBuffer ::
  "('s, 'd) manager_env \<Rightarrow> string \<Rightarrow> string \<Rightarrow> DataRef \<Rightarrow> ('s, 'd) blob \<Rightarrow> bytes result \<times> ('s, 'd) blob" where
  "readToBuffer env database collection ref b =
     (case (case map_of (readStreams b) (data_file ref) of
              Some st \<Rightarrow> Inr st
            | None \<Rightarrow> rbind (getFileStream env database collection (data_file ref) (blob_manager b))
                (\<lambda>content. Inr \<lparr>stream_content = content, stream_failed = False\<rparr>)) of
        Inl e \<Rightarrow> (Inl e, b)
      | Inr st \<Rightarrow>
          if sint (data_size ref) < 0
          then (Inl (LogicError ''vector::_M_default_append''), b\<lparr>readStreams := AList.update (data_file ref) st (readStreams b)\<rparr>)
          else (case read_at (data_start ref) (data_size ref) st of
                  (res, st) \<Rightarrow> (Inr res, b\<lparr>readStreams := AList.update (data_file ref) st (readStreams b)\<rparr>)))"

end
