(* ===== verification/Documents.thy ===== *)
theory Documents
  imports Node
begin

text \<open>
  The documents that are not scene nodes: sequences, tasks, asset lists, project settings and teamspaces of
  \<open>core/model/bson\<close>, and the unit names of \<open>lib/repo_units.cpp\<close>. Reading numbers (\<open>boost::lexical_cast\<close>)
  and the clock are arguments.
\<close>

subsection \<open>Units\<close>

datatype ModelUnits = METRES | MILLIMETRES | CENTIMETRES | DECIMETRES | FEET | INCHES | UNKNOWN_UNITS

fun toUnitsString :: "ModelUnits \<Rightarrow> string" where
  "toUnitsString METRES = ''m''"
| "toUnitsString MILLIMETRES = ''mm''"
| "toUnitsString CENTIMETRES = ''cm''"
| "toUnitsString DECIMETRES = ''dm''"
| "toUnitsString FEET = ''ft''"
| "toUnitsString INCHES = ''in''"
| "toUnitsString UNKNOWN_UNITS = ''unknown''"

definition units_lookUp :: "(string \<times> ModelUnits) list" where
  "units_lookUp = [(''m'', METRES), (''mm'', MILLIMETRES), (''cm'', CENTIMETRES), (''dm'', DECIMETRES), (''ft'', FEET), (''in'', INCHES)]"

definition units_fromString :: "string \<Rightarrow> ModelUnits" where
  "units_fromString unitsStr = (case map_of units_lookUp unitsStr of Some u \<Rightarrow> u | None \<Rightarrow> UNKNOWN_UNITS)"

subsection \<open>Sequences\<close>

record FrameData =
  frame_timestamp :: "64 word"
  frame_ref :: string

record RepoSequence =
  sequence_frames :: "FrameData list"
  sequence_revision :: uuid
  sequence_id :: uuid
  sequence_name :: string
  firstFrame :: "64 word"
  lastFrame :: "64 word"

definition empty_sequence :: "uuid \<Rightarrow> RepoSequence" where
  "empty_sequence newId = \<lparr>sequence_frames = [], sequence_revision = default_uuid, sequence_id = newId,
     sequence_name = [], firstFrame = 0, lastFrame = 0\<rparr>"

definition sequence_setRevision :: "uuid \<Rightarrow> RepoSequence \<Rightarrow> RepoSequence" where
  "sequence_setRevision rid s = s\<lparr>sequence_revision := rid\<rparr>"

text \<open>The timestamp converts to a signed number of seconds; the milliseconds wrap.\<close>

definition frame_bson :: "FrameData \<Rightarrow> bson" where
  "frame_bson f = BDocument [(''dateTime'', bson_of_time (sint (frame_timestamp f))), (''state'', BString (frame_ref f))]"

definition sequence_bson :: "RepoSequence \<Rightarrow> RepoBSON" where
  "sequence_bson s =
     (let b = append_field ''_id'' (bson_of_uuid (sequence_id s)) RepoBSONBuilder;
          b = append_field ''name'' (BString (sequence_name s)) b;
          b = append_field ''startDate'' (BInt64 (firstFrame s)) b;
          b = append_field ''endDate'' (BInt64 (lastFrame s)) b;
          b = (if sequence_revision s \<noteq> default_uuid then append_field ''rev_id'' (bson_of_uuid (sequence_revision s)) b else b)
      in obj (append_field ''frames'' (BArray (map frame_bson (sequence_frames s))) b))"

subsection \<open>Tasks\<close>

record RepoTask =
  task_name :: string
  task_id :: uuid
  task_parent :: uuid
  task_sequence :: uuid
  task_start :: "64 word"
  task_end :: "64 word"
  task_resources :: "uuid list"
  task_metadata :: "(string \<times> string) list"

text \<open>What \<open>boost::lexical_cast\<close> makes of a string, if it does not throw.\<close>

record lexical =
  cast_int64 :: "string \<Rightarrow> 64 word option"
  cast_double :: "string \<Rightarrow> double option"

definition task_value :: "lexical \<Rightarrow> string \<Rightarrow> bson" where
  "task_value lx v =
     (case cast_int64 lx v of
        Some i \<Rightarrow> BInt64 i
      | None \<Rightarrow> (case cast_double lx v of Some d \<Rightarrow> BDouble d | None \<Rightarrow> BString v))"

fun task_meta_entries :: "lexical \<Rightarrow> (string \<times> string) list \<Rightarrow> bson list" where
  "task_meta_entries lx [] = []"
| "task_meta_entries lx ((k, v) # es) =
     (let key = sanitiseKey k; rest = task_meta_entries lx es
      in if key \<noteq> [] \<and> v \<noteq> [] then BDocument [(''key'', BString key), (''value'', task_value lx v)] # rest else rest)"

definition task_bson :: "lexical \<Rightarrow> RepoTask \<Rightarrow> RepoBSON" where
  "task_bson lx t =
     (let b = append_field ''_id'' (bson_of_uuid (task_id t)) RepoBSONBuilder;
          b = append_field ''name'' (BString (task_name t)) b;
          b = append_field ''startDate'' (BInt64 (task_start t)) b;
          b = append_field ''endDate'' (BInt64 (task_end t)) b;
          b = append_field ''sequenceId'' (bson_of_uuid (task_sequence t)) b;
          b = (if task_parent t \<noteq> default_uuid then append_field ''parent'' (bson_of_uuid (task_parent t)) b else b);
          b = (if length (task_resources t) > 0
               then append_field ''resources'' (BDocument [(''shared_ids'', bson_of_array bson_of_uuid (task_resources t))]) b
               else b)
      in obj (append_field ''data'' (BArray (task_meta_entries lx (task_metadata t))) b))"

subsection \<open>Assets\<close>

record RepoSupermeshMetadata =
  numVertices :: "64 word"
  numFaces :: "64 word"
  numUVChannels :: "64 word"
  numSubmeshes :: "64 word"
  numComponents :: "64 word"
  meta_primitive :: "64 word"
  meta_min :: vec3f
  meta_max :: vec3f
  meta_groups :: "string list"

definition addGrouping :: "string \<Rightarrow> RepoSupermeshMetadata \<Rightarrow> RepoSupermeshMetadata" where
  "addGrouping g m = (if g \<noteq> [] then m\<lparr>meta_groups := meta_groups m @ [g]\<rparr> else m)"

definition vector_object :: "vec3f \<Rightarrow> bson" where
  "vector_object v = (case v of (x, y, z) \<Rightarrow> BDocument [(''x'', bson_of_float x), (''y'', bson_of_float y), (''z'', bson_of_float z)])"

definition supermesh_bson :: "RepoSupermeshMetadata \<Rightarrow> bson" where
  "supermesh_bson m = BDocument
     ([(''numVertices'', BInt32 (ucast (numVertices m))), (''numFaces'', BInt32 (ucast (numFaces m))),
       (''numUVChannels'', BInt32 (ucast (numUVChannels m))), (''primitive'', BInt32 (ucast (meta_primitive m))),
       (''min'', vector_object (meta_min m)), (''max'', vector_object (meta_max m)),
       (''numSubmeshes'', BInt32 (ucast (numSubmeshes m))), (''numComponents'', BInt32 (ucast (numComponents m)))]
      @ (if length (meta_groups m) > 0 then [(''groups'', bson_of_array BString (meta_groups m))] else []))"

record RepoAssets =
  assets_revision :: uuid
  assets_database :: string
  assets_model :: string
  assets_offset :: vec3d
  repoBundleFiles :: "string list"
  repoJsonFiles :: "string list"
  assets_metadata :: "RepoSupermeshMetadata list"

definition assets_bson :: "RepoAssets \<Rightarrow> RepoBSON" where
  "assets_bson a =
     (let b = append_field ''_id'' (bson_of_uuid (assets_revision a)) RepoBSONBuilder;
          b = (if length (repoBundleFiles a) > 0 then append_field ''assets'' (bson_of_array BString (repoBundleFiles a)) b else b);
          b = (if assets_database a \<noteq> [] then append_field ''database'' (BString (assets_database a)) b else b);
          b = (if assets_model a \<noteq> [] then append_field ''model'' (BString (assets_model a)) b else b);
          b = (if length (repoJsonFiles a) > 0 then append_field ''jsonFiles'' (bson_of_array BString (repoJsonFiles a)) b else b);
          b = append_field ''offset'' (bson_of_vec3 (assets_offset a)) b;
          nodes = map supermesh_bson (assets_metadata a)
      in obj (if length nodes > 0 then append_field ''metadata'' (BArray nodes) b else b))"

definition assets_isEmpty :: "RepoAssets \<Rightarrow> bool" where
  "assets_isEmpty a = (repoBundleFiles a = [] \<and> repoJsonFiles a = [] \<and> assets_revision a = default_uuid \<and>
     assets_database a = [] \<and> assets_model a = [])"

subsection \<open>Project settings and teamspaces\<close>

definition STATUS_OK :: string where "STATUS_OK = ''ok''"
definition STATUS_ERROR :: string where "STATUS_ERROR = ''error''"

record RepoProjectSettings =
  settings_id :: string
  settings_status :: string
  settings_units :: ModelUnits

definition RepoProjectSettings_of :: "RepoBSON \<Rightarrow> RepoProjectSettings result" where
  "RepoProjectSettings_of bson =
     rbind (getStringField bson ''_id'') (\<lambda>i.
     rbind (if hasField bson ''status'' then getStringField bson ''status'' else Inr STATUS_OK) (\<lambda>st.
     rbind (if hasField bson ''properties''
            then rbind (getObjectField bson ''properties'') (\<lambda>p.
                   if hasField p ''unit'' then rbind (getStringField p ''unit'') (\<lambda>u. Inr (units_fromString u))
                   else Inr UNKNOWN_UNITS)
            else Inr UNKNOWN_UNITS) (\<lambda>u.
       Inr \<lparr>settings_id = i, settings_status = st, settings_units = u\<rparr>)))"

definition setErrorStatus :: "RepoProjectSettings \<Rightarrow> RepoProjectSettings" where
  "setErrorStatus s = s\<lparr>settings_status := STATUS_ERROR\<rparr>"

definition clearErrorStatus :: "RepoProjectSettings \<Rightarrow> RepoProjectSettings" where
  "clearErrorStatus s = s\<lparr>settings_status := STATUS_OK\<rparr>"

definition settings_bson :: "int \<Rightarrow> RepoProjectSettings \<Rightarrow> RepoBSON" where
  "settings_bson now s =
     (let b = append_field ''status'' (BString (settings_status s)) RepoBSONBuilder;
          b = append_field ''_id'' (BString (settings_id s)) b
      in obj (if settings_status s = STATUS_OK then append_field ''timestamp'' (bson_of_time now) b else b))"

text \<open>The names whose value is the boolean true.\<close>

definition RepoTeamspace_of :: "RepoBSON \<Rightarrow> string set result" where
  "RepoTeamspace_of bson =
     (if hasField bson ''addOns''
      then rbind (getObjectField bson ''addOns'') (\<lambda>addons.
        rfold (\<lambda>name on. rbind (getField addons name) (\<lambda>addon.
            if element_type addon = ET_BOOL then rbind (el_Bool addon) (\<lambda>v. Inr (if v then insert name on else on))
            else Inr on))
          (getFieldNames addons) {})
      else Inr {})"

definition isAddOnEnabled :: "string set \<Rightarrow> string \<Rightarrow> bool" where
  "isAddOnEnabled addOns name = (name \<in> addOns)"

subsection \<open>Properties\<close>

text \<open>
  Unit names: every unit is read back from its name, and a name that is read as a known unit is that
  unit's name.
\<close>

lemma units_names:
  "units_fromString (toUnitsString u) = u \<and> (units_fromString s = u \<and> u \<noteq> UNKNOWN_UNITS \<longrightarrow> s = toUnitsString u)"
  by (cases u) (auto simp: units_fromString_def units_lookUp_def split: if_splits)

text \<open>
  Project settings are read back from the document they write with their project and status; the document
  carries a timestamp exactly when the status is ok, and never the units, so an upload that marks
  an error leaves the last timestamp alone.
\<close>

theorem settings_roundtrip:
  "RepoProjectSettings_of (settings_bson now s) = Inr (s\<lparr>settings_units := UNKNOWN_UNITS\<rparr>) \<and>
   (hasField (settings_bson now s) ''timestamp'' \<longleftrightarrow> settings_status s = STATUS_OK) \<and>
   \<not> hasField (settings_bson now (setErrorStatus s)) ''timestamp'' \<and>
   hasField (settings_bson now (clearErrorStatus s)) ''timestamp''"
proof -
  have f: "map_of (doc (settings_bson now t)) l =
      (if l = ''status'' then Some (BString (settings_status t)) else if l = ''_id'' then Some (BString (settings_id t))
       else if l = ''timestamp'' \<and> settings_status t = STATUS_OK then Some (bson_of_time now) else None)" for t l
    by (auto simp: settings_bson_def Let_def)
  have "RepoProjectSettings_of (settings_bson now s) = Inr (s\<lparr>settings_units := UNKNOWN_UNITS\<rparr>)"
    by (simp add: RepoProjectSettings_of_def getStringField_def f)
  then show ?thesis by (simp add: f setErrorStatus_def clearErrorStatus_def STATUS_OK_def STATUS_ERROR_def)
qed

lemma rfold_addons:
  assumes "\<And>k. k \<in> set ks \<Longrightarrow> map_of (doc a) k \<noteq> None"
  shows "rfold (\<lambda>name on. rbind (getField a name) (\<lambda>addon.
            if element_type addon = ET_BOOL then rbind (el_Bool addon) (\<lambda>v. Inr (if v then insert name on else on))
            else Inr on)) ks on = Inr (on \<union> {k \<in> set ks. map_of (doc a) k = Some (BBool True)})"
  using assms
proof (induction ks arbitrary: on)
  case (Cons k ks)
  obtain v where v: "map_of (doc a) k = Some v" using Cons.prems [of k] by auto
  have "element_type v = ET_BOOL \<longleftrightarrow> (\<exists>b. v = BBool b)" by (cases v) auto
  then show ?case using Cons v by (auto simp: getField_def)
qed simp

text \<open>
  The add-ons of a teamspace: when the document has an object of add-ons, reading it never throws, and
  an add-on is enabled exactly when its first entry is the boolean true; any other value, a true-like number or
  string included, leaves it off. Without the object no add-on is on.
\<close>

theorem teamspace_addons:
  assumes "map_of (doc b) ''addOns'' = Some (BDocument d)"
  shows "\<exists>on. RepoTeamspace_of b = Inr on \<and> (\<forall>name. isAddOnEnabled on name \<longleftrightarrow> map_of d name = Some (BBool True))"
proof -
  let ?a = "\<lparr>doc = d, bigFiles = []\<rparr>"
  have names: "set (getFieldNames ?a) = fst ` set d" by (simp add: getFieldNames_def)
  have "RepoTeamspace_of b = Inr {k \<in> fst ` set d. map_of d k = Some (BBool True)}"
    using assms rfold_addons [of "getFieldNames ?a" ?a "{}"]
    by (simp add: RepoTeamspace_of_def getObjectField_def names map_of_eq_None_iff)
  then show ?thesis by (auto simp: isAddOnEnabled_def dest: map_of_SomeD intro: rev_image_eqI)
qed

theorem teamspace_addons_witness:
  "\<exists>on. RepoTeamspace_of \<lparr>doc = [(''addOns'', BDocument [(''clash'', BBool True), (''vr'', BInt32 1)])], bigFiles = []\<rparr> = Inr on \<and>
     isAddOnEnabled on ''clash'' \<and> \<not> isAddOnEnabled on ''vr''"
  using teamspace_addons [of "\<lparr>doc = [(''addOns'', BDocument [(''clash'', BBool True), (''vr'', BInt32 1)])], bigFiles = []\<rparr>"
      "[(''clash'', BBool True), (''vr'', BInt32 1)]"]
  by auto

text \<open>
  The metadata of a task: the stored entries are exactly those with a key and a value, in order, their keys without
  dollar or dot; a value is stored as a number when it reads as one, and as the string otherwise.
\<close>

theorem task_metadata_entries:
  "task_meta_entries lx es =
     map (\<lambda>(k, v). BDocument [(''key'', BString (sanitiseKey k)), (''value'', task_value lx v)])
       (filter (\<lambda>(k, v). k \<noteq> [] \<and> v \<noteq> []) es) \<and>
   list_all (\<lambda>(k, v). list_all (\<lambda>c. \<not> keyCheck c) (sanitiseKey k)) es \<and>
   element_type (task_value lx v) = (if cast_int64 lx v \<noteq> None then ET_LONG else if cast_double lx v \<noteq> None then ET_DOUBLE else ET_STRING)"
proof -
  have none: "sanitiseKey k = [] \<longleftrightarrow> k = []" for k by (simp add: sanitiseKey_def)
  have "task_meta_entries lx es =
     map (\<lambda>(k, v). BDocument [(''key'', BString (sanitiseKey k)), (''value'', task_value lx v)])
       (filter (\<lambda>(k, v). k \<noteq> [] \<and> v \<noteq> []) es)"
  proof (induction es)
    case (Cons e es)
    then show ?case by (cases e) (simp add: Let_def none)
  qed simp
  moreover have clean: "list_all (\<lambda>c. \<not> keyCheck c) (sanitiseKey k)" for k
    by (induction k) (auto simp: sanitiseKey_def keyCheck_def)
  have "list_all (\<lambda>(k, v). list_all (\<lambda>c. \<not> keyCheck c) (sanitiseKey k)) es"
    using clean by (simp add: list_all_iff split: prod.split)
  moreover have "element_type (task_value lx v) =
      (if cast_int64 lx v \<noteq> None then ET_LONG else if cast_double lx v \<noteq> None then ET_DOUBLE else ET_STRING)"
    by (simp add: task_value_def split: option.split)
  ultimately show ?thesis by blast
qed

end
