(* ===== verification/SceneCommit.thy ===== *)
theory SceneCommit
  imports SceneOps FileManager Documents
begin

text \<open>
  Storing and loading a scene: the part of \<open>core/model/collection/repo_scene.cpp\<close> that talks to the
  database handler and the file manager. An operation is a function from the state (the scene, the file manager
  with its database, the error message) to a result and the state; an exception keeps the state it happened
  in. The query language is that of \<open>core/handler/database/repo_query.h\<close>.
\<close>

subsection \<open>Operations\<close>

type_synonym ('w, 'a) act = "'w \<Rightarrow> 'a result \<times> 'w"

definition areturn :: "'a \<Rightarrow> ('w, 'a) act" where
  "areturn x w = (Inr x, w)"

definition abind :: "('w, 'a) act \<Rightarrow> ('a \<Rightarrow> ('w, 'b) act) \<Rightarrow> ('w, 'b) act" where
  "abind a f w = (case a w of (Inl e, w) \<Rightarrow> (Inl e, w) | (Inr x, w) \<Rightarrow> f x w)"

definition aresult :: "'a result \<Rightarrow> ('w, 'a) act" where
  "aresult r w = (r, w)"

definition agets :: "('w \<Rightarrow> 'a) \<Rightarrow> ('w, 'a) act" where
  "agets f w = (Inr (f w), w)"

definition amodify :: "('w \<Rightarrow> 'w) \<Rightarrow> ('w, unit) act" where
  "amodify f w = (Inr (), f w)"

fun atraverse :: "('a \<Rightarrow> ('w, 'b) act) \<Rightarrow> 'a list \<Rightarrow> ('w, 'b list) act" where
  "atraverse f [] = areturn []"
| "atraverse f (x # xs) = abind (f x) (\<lambda>y. abind (atraverse f xs) (\<lambda>ys. areturn (y # ys)))"

subsection \<open>Queries and indices\<close>

datatype RepoQuery =
    Eq string "RepoVariant list"
  | Exists string bool
  | Or "RepoQuery list"
  | ArrayContains string RepoQuery
  | RepoQueryBuilder "RepoQuery list"
  | RepoProjectionBuilder "string list" "string list" \<comment> \<open>fields to include and to exclude\<close>

datatype RepoIndex = Ascending "string list" | Descending "string list"

fun index_bson :: "RepoIndex \<Rightarrow> RepoBSON" where
  "index_bson (Ascending fs) = obj (foldl (\<lambda>b f. append_field f (BInt32 1) b) RepoBSONBuilder fs)"
| "index_bson (Descending fs) = obj (foldl (\<lambda>b f. append_field f (BInt32 (-1)) b) RepoBSONBuilder fs)"

record 'd scene_db = "'d db_ops" +
  insertDocument :: "'d \<Rightarrow> string \<Rightarrow> string \<Rightarrow> RepoBSON \<Rightarrow> unit result \<times> 'd"
  insertManyDocuments :: "'d \<Rightarrow> string \<Rightarrow> string \<Rightarrow> RepoBSON list \<Rightarrow> unit result \<times> 'd"
  createIndex :: "'d \<Rightarrow> string \<Rightarrow> string \<Rightarrow> RepoIndex \<Rightarrow> unit result \<times> 'd"
  findOneByCriteria :: "'d \<Rightarrow> string \<Rightarrow> string \<Rightarrow> RepoQuery \<Rightarrow> string \<Rightarrow> RepoBSON result"
  findAllByCriteria :: "'d \<Rightarrow> string \<Rightarrow> string \<Rightarrow> RepoQuery \<Rightarrow> RepoBSON list result"

subsection \<open>State\<close>

datatype file_read = CannotOpen | CannotRead | FileBytes bytes

text \<open>The sequence, its frame states and tasks are members of the scene that only committing uses.\<close>

record ('s, 'd) commit_state =
  scene :: RepoScene
  mgr :: "('s, 'd) manager"
  errMsg :: string
  sequence :: RepoSequence
  frameStates :: "(string \<times> bytes) list"
  tasks :: "RepoTask list"
  taskList :: bytes

record ('s, 'd) commit_env =
  manager_of :: "('s, 'd) manager_env"
  filename_of :: "string \<Rightarrow> string" \<comment> \<open>\<open>path::filename\<close>\<close>
  read_file :: "string \<Rightarrow> file_read"
  time_now :: int
  gm_time :: "int \<Rightarrow> tm"
  lexical_casts :: lexical

definition REPO_COLLECTION_HISTORY :: string where "REPO_COLLECTION_HISTORY = ''history''"
definition REPO_COLLECTION_RAW :: string where "REPO_COLLECTION_RAW = ''history''"
definition REPO_COLLECTION_SCENE :: string where "REPO_COLLECTION_SCENE = ''scene''"
definition REPO_COLLECTION_STASH_REPO :: string where "REPO_COLLECTION_STASH_REPO = ''stash.3drepo''"
definition REPO_COLLECTION_SEQUENCE :: string where "REPO_COLLECTION_SEQUENCE = ''sequences''"
definition REPO_COLLECTION_TASK :: string where "REPO_COLLECTION_TASK = ''activities''"
definition REPO_COLLECTION_SETTINGS :: string where "REPO_COLLECTION_SETTINGS = ''settings''"

definition project_collection :: "RepoScene \<Rightarrow> string \<Rightarrow> string" where
  "project_collection s ext = projectName s @ ''.'' @ ext"

definition upd_scene :: "(RepoScene \<Rightarrow> RepoScene) \<Rightarrow> (('s, 'd) commit_state, unit) act" where
  "upd_scene f = amodify (\<lambda>w. w\<lparr>scene := f (scene w)\<rparr>)"

definition set_err :: "string \<Rightarrow> (('s, 'd) commit_state, unit) act" where
  "set_err msg = amodify (\<lambda>w. w\<lparr>errMsg := msg\<rparr>)"

definition on_db :: "('d \<Rightarrow> unit result \<times> 'd) \<Rightarrow> (('s, 'd) commit_state, unit) act" where
  "on_db f w = (case f (dbase (mgr w)) of (r, d) \<Rightarrow> (r, w\<lparr>mgr := (mgr w)\<lparr>dbase := d\<rparr>\<rparr>))"

definition from_db :: "('d \<Rightarrow> 'a result) \<Rightarrow> (('s, 'd) commit_state, 'a) act" where
  "from_db f w = (f (dbase (mgr w)), w)"

definition upload ::
  "('s, 'd) commit_env \<Rightarrow> string \<Rightarrow> string \<Rightarrow> ref_key \<Rightarrow> bytes \<Rightarrow> (('s, 'd) commit_state, bool) act" where
  "upload env db col key bin w =
     (case uploadFileAndCommit (manager_of env) db col key bin [] NoEncoding (mgr w) of (r, m) \<Rightarrow> (r, w\<lparr>mgr := m\<rparr>))"

subsection \<open>Nodes to documents\<close>

text \<open>\<open>operator[]\<close> of the two maps inserts a default entry for a key that is missing.\<close>

definition shared_index :: "uuid \<Rightarrow> repoGraphInstance \<Rightarrow> uuid \<times> repoGraphInstance" where
  "shared_index sh g =
     (case map_of (sharedIDtoUniqueID g) sh of
        Some u \<Rightarrow> (u, g)
      | None \<Rightarrow> (default_uuid, g\<lparr>sharedIDtoUniqueID := AList.update sh default_uuid (sharedIDtoUniqueID g)\<rparr>))"

definition unique_index :: "uuid \<Rightarrow> repoGraphInstance \<Rightarrow> ptr \<times> repoGraphInstance" where
  "unique_index u g =
     (case map_of (nodesByUniqueID g) u of
        Some p \<Rightarrow> (p, g)
      | None \<Rightarrow> (null, g\<lparr>nodesByUniqueID := AList.update u null (nodesByUniqueID g)\<rparr>))"

definition setRevision :: "uuid \<Rightarrow> RepoNode \<Rightarrow> RepoNode" where
  "setRevision revisionId n = n\<lparr>revId := revisionId\<rparr>"

text \<open>One round of the loops that collect documents: look the node up, stamp it, serialise it.\<close>

definition stamp_node ::
  "('s, 'd) commit_env \<Rightarrow> GraphType \<Rightarrow> bool \<Rightarrow> uuid \<Rightarrow> uuid \<Rightarrow> (('s, 'd) commit_state, RepoBSON) act" where
  "stamp_node env gType by_shared revisionId i w =
     (let s = scene w;
          (u, g) = (if by_shared then shared_index i (graph_of gType s) else (i, graph_of gType s));
          (p, g) = unique_index u g;
          s = set_graph gType g s
      in case deref s p of
           Inl e \<Rightarrow> (Inl e, w\<lparr>scene := s\<rparr>)
         | Inr n \<Rightarrow>
             let n = setRevision revisionId n
             in (getBSON (make_time (manager_of env)) n, w\<lparr>scene := store p n s\<rparr>))"

definition commitNodes ::
  "('s, 'd) commit_env \<Rightarrow> 'd scene_db \<Rightarrow> uuid list \<Rightarrow> uuid \<Rightarrow> GraphType \<Rightarrow> (('s, 'd) commit_state, bool) act" where
  "commitNodes env handler nodesToCommit revisionId gType =
     abind (agets scene) (\<lambda>s0.
       let ext = (if gType = OPTIMIZED then REPO_COLLECTION_STASH_REPO else REPO_COLLECTION_SCENE)
       in abind (atraverse (stamp_node env gType (gType \<noteq> OPTIMIZED) revisionId) nodesToCommit) (\<lambda>nodes.
          abind (on_db (\<lambda>d. insertManyDocuments handler d (databaseName s0) (project_collection s0 ext) nodes)) (\<lambda>_.
            areturn True)))"

text \<open>The change sets are \<open>std::set\<close>s, gone through in order.\<close>

definition commitSceneChanges ::
  "('s, 'd) commit_env \<Rightarrow> 'd scene_db \<Rightarrow> uuid \<Rightarrow> (('s, 'd) commit_state, bool) act" where
  "commitSceneChanges env handler revisionId =
     abind (agets scene) (\<lambda>s0.
       let col = project_collection s0 REPO_COLLECTION_SCENE
       in abind (if newAdded s0 \<noteq> {||}
                 then abind (atraverse (stamp_node env DEFAULT True revisionId) (sorted_list_of_fset (newAdded s0))) (\<lambda>nodes.
                        on_db (\<lambda>d. insertManyDocuments handler d (databaseName s0) col nodes))
                 else areturn ()) (\<lambda>_.
          abind (if newModified s0 \<noteq> {||}
                 then abind (atraverse (\<lambda>i. abind (stamp_node env DEFAULT True revisionId i) (\<lambda>b.
                          on_db (\<lambda>d. upsertDocument handler d (databaseName s0) col b False)))
                        (sorted_list_of_fset (newModified s0))) (\<lambda>_. areturn ())
                 else areturn ()) (\<lambda>_.
            areturn True)))"

subsection \<open>Revisions\<close>

definition GEN_DEFAULT :: "32 word" where "GEN_DEFAULT = 1"

definition makeRevisionNode ::
  "int \<Rightarrow> string \<Rightarrow> uuid \<Rightarrow> uuid \<Rightarrow> string list \<Rightarrow> uuid list \<Rightarrow> double list \<Rightarrow> string \<Rightarrow> string \<Rightarrow> RepoNode" where
  "makeRevisionNode now user branchId ident fileNames parents offs msg label =
     (RepoNode_default ident)\<lparr>sharedId := branchId, parentIds := fset_of_list parents,
        content := ModelRevisionNode (empty_model_revision\<lparr>author := user, timestamp := now, offset := offs,
          message := msg, tag := label, files := fileNames\<rparr>)\<rparr>"

definition updateStatus :: "32 word \<Rightarrow> RepoNode \<Rightarrow> RepoNode" where
  "updateStatus st n = n\<lparr>content := ModelRevisionNode ((revision_content n)\<lparr>upload_status := st\<rparr>)\<rparr>"

definition loadRevision_query :: "RepoScene \<Rightarrow> 32 word list \<Rightarrow> RepoQuery" where
  "loadRevision_query s includeStatus = RepoQueryBuilder
     [if includeStatus \<noteq> []
      then Or [Eq REPO_NODE_REVISION_LABEL_INCOMPLETE (map VInt includeStatus), Exists REPO_NODE_REVISION_LABEL_INCOMPLETE False]
      else Exists REPO_NODE_REVISION_LABEL_INCOMPLETE False,
      Eq REPO_NODE_LABEL_SHARED_ID [VUUID (branch s)]]"

definition loadRevision ::
  "'d scene_db option \<Rightarrow> 32 word list \<Rightarrow> (('s, 'd) commit_state, bool) act" where
  "loadRevision handler includeStatus =
     (case handler of
        None \<Rightarrow> abind (set_err ''Cannot load revision with an empty database handler'') (\<lambda>_. areturn False)
      | Some h \<Rightarrow> abind (agets scene) (\<lambda>s.
          let col = project_collection s REPO_COLLECTION_HISTORY
          in abind (from_db (\<lambda>d. if headRevision s
                       then findOneByCriteria h d (databaseName s) col (loadRevision_query s includeStatus)
                              REPO_NODE_REVISION_LABEL_TIMESTAMP
                       else findOneByUniqueID h d (databaseName s) col (bson_of_uuid (revision s)))) (\<lambda>bson.
             if isEmpty bson
             then abind (set_err (''Failed: cannot find revision document from '' @ databaseName s @ ''.'' @ col)) (\<lambda>_. areturn False)
             else abind (aresult (ModelRevisionNode_of_bson bson)) (\<lambda>r.
               abind (upd_scene (\<lambda>s. s\<lparr>revNode := Some r, worldOffset := offset (revision_content r), unRevisioned := False\<rparr>)) (\<lambda>_.
                 areturn True)))))"

definition history_indices :: "(string \<times> RepoIndex) list" where
  "history_indices =
     [(REPO_COLLECTION_HISTORY, Descending [REPO_NODE_REVISION_LABEL_TIMESTAMP]),
      (REPO_COLLECTION_SCENE, Ascending [REPO_NODE_REVISION_ID, ''metadata.key'', ''metadata.value'']),
      (REPO_COLLECTION_SCENE, Ascending [''metadata.key'', ''metadata.value'']),
      (REPO_COLLECTION_SCENE, Ascending [REPO_NODE_REVISION_ID, REPO_NODE_LABEL_SHARED_ID, REPO_NODE_LABEL_TYPE]),
      (REPO_COLLECTION_SCENE, Ascending [REPO_NODE_LABEL_SHARED_ID])]"

text \<open>One reference file: only an upload changes the success flag, in either direction.\<close>

definition store_file ::
  "('s, 'd) commit_env \<Rightarrow> RepoScene \<Rightarrow> string \<times> string \<Rightarrow> bool \<Rightarrow> (('s, 'd) commit_state, bool) act" where
  "store_file env s file success =
     (case read_file env (fst file) of
        FileBytes rawFile \<Rightarrow>
          abind (upload env (databaseName s) (project_collection s REPO_COLLECTION_RAW) (KString (snd file)) rawFile) (\<lambda>ok.
            if ok then areturn True
            else abind (set_err (''Failed to save original file into file storage: '' @ snd file)) (\<lambda>_. areturn False))
      | CannotRead \<Rightarrow> areturn success
      | CannotOpen \<Rightarrow> areturn success)"

fun store_files ::
  "('s, 'd) commit_env \<Rightarrow> RepoScene \<Rightarrow> (string \<times> string) list \<Rightarrow> bool \<Rightarrow> (('s, 'd) commit_state, bool) act" where
  "store_files env s [] success = areturn success"
| "store_files env s (file # rest) success = abind (store_file env s file success) (store_files env s rest)"

definition revision_file_name :: "('s, 'd) commit_env \<Rightarrow> uuid \<Rightarrow> string \<Rightarrow> string" where
  "revision_file_name env revisionId name =
     uuid_string (manager_of env) revisionId @ sanitizeName (filename_of env name)"

text \<open>The new revision node comes back with the success flag; without it there is no node.\<close>

definition commitRevisionNode ::
  "('s, 'd) commit_env \<Rightarrow> 'd scene_db \<Rightarrow> string \<Rightarrow> string \<Rightarrow> string \<Rightarrow> uuid \<Rightarrow>
     (('s, 'd) commit_state, bool \<times> RepoNode option) act" where
  "commitRevisionNode env handler userName msg label revisionId =
     abind (agets scene) (\<lambda>s.
     abind (if \<not> unRevisioned s \<and> revNode s = None then loadRevision (Some handler) [] else areturn True) (\<lambda>loaded.
       if \<not> loaded then areturn (False, None)
       else abind (agets scene) (\<lambda>s'.
         let parents = (if \<not> unRevisioned s \<and> revNode s = None
                        then (case revNode s' of Some r \<Rightarrow> [uniqueId r] | None \<Rightarrow> []) else []);
             fileNames = map (revision_file_name env revisionId) (refFiles s');
             newRevNode = updateStatus GEN_DEFAULT
               (makeRevisionNode (time_now env) userName (branch s') revisionId fileNames parents (worldOffset s') msg label)
         in abind (atraverse (\<lambda>(ext, idx). on_db (\<lambda>d. createIndex handler d (databaseName s') (project_collection s' ext) idx))
                history_indices) (\<lambda>_.
            abind (store_files env s' (zip (refFiles s') fileNames) True) (\<lambda>success.
              if success
              then abind (aresult (getBSON (make_time (manager_of env)) newRevNode)) (\<lambda>b.
                   abind (on_db (\<lambda>d. upsertDocument handler d (databaseName s') (project_collection s' REPO_COLLECTION_HISTORY) b True)) (\<lambda>_.
                     areturn (True, Some newRevNode)))
              else areturn (False, Some newRevNode))))))"

definition commitSequence :: "('s, 'd) commit_env \<Rightarrow> 'd scene_db \<Rightarrow> uuid \<Rightarrow> (('s, 'd) commit_state, bool) act" where
  "commitSequence env handler revID =
     abind (agets (\<lambda>w. w)) (\<lambda>w.
       let db = databaseName (scene w);
           sequenceCol = project_collection (scene w) REPO_COLLECTION_SEQUENCE;
           taskCol = project_collection (scene w) REPO_COLLECTION_TASK;
           sq = sequence_setRevision revID (sequence w)
       in if length (frameStates w) > 0
          then abind (amodify (\<lambda>w. w\<lparr>sequence := sq\<rparr>)) (\<lambda>_.
               abind (on_db (\<lambda>d. insertDocument handler d db sequenceCol (sequence_bson sq))) (\<lambda>_.
               abind (atraverse (\<lambda>(name, bin). upload env db sequenceCol (KString name) bin) (frameStates w)) (\<lambda>_.
               abind (atraverse (\<lambda>t. on_db (\<lambda>d. insertDocument handler d db taskCol (task_bson (lexical_casts env) t))) (tasks w)) (\<lambda>_.
               abind (if length (taskList w) > 0
                      then upload env db taskCol (KString (uuid_string (manager_of env) (sequence_id sq))) (taskList w)
                      else areturn True) (\<lambda>_. areturn True)))))
          else areturn True)"

subsection \<open>Committing\<close>

definition REPOERR_OK :: nat where "REPOERR_OK = 0"
definition REPOERR_MAX_NODES_EXCEEDED :: nat where "REPOERR_MAX_NODES_EXCEEDED = 25"
definition REPOERR_UPLOAD_FAILED :: nat where "REPOERR_UPLOAD_FAILED = 32"

definition failure_code :: "string \<Rightarrow> nat" where
  "failure_code msg = (if sublist ''exceeds maxBsonObjectSize'' msg then REPOERR_MAX_NODES_EXCEEDED else REPOERR_UPLOAD_FAILED)"

text \<open>What a successful commit does to the scene.\<close>

definition committed :: "RepoNode \<Rightarrow> RepoScene \<Rightarrow> RepoScene" where
  "committed newRevNode s =
     s\<lparr>revNode := Some newRevNode, revision := uniqueId newRevNode, newAdded := {||}, newRemoved := {||}, newModified := {||},
       commitMsg := [], refFiles := [], heap := (\<lambda>p. if p \<in> set (toRemove s) then None else heap s p), toRemove := [],
       unRevisioned := False\<rparr>"

definition commit ::
  "('s, 'd) commit_env \<Rightarrow> 'd scene_db option \<Rightarrow> string \<Rightarrow> string \<Rightarrow> string \<Rightarrow> uuid \<Rightarrow> (('s, 'd) commit_state, nat) act" where
  "commit env handler userName msg label revisionId =
     (case handler of
        None \<Rightarrow> abind (set_err ''Cannot commit to the database - no database handler assigned.'') (\<lambda>_. areturn REPOERR_UPLOAD_FAILED)
      | Some h \<Rightarrow> abind (agets scene) (\<lambda>s.
          if databaseName s = [] \<or> projectName s = []
          then abind (set_err (''Cannot commit to the database - databaseName or projectName is empty (database: '' @ databaseName s @
                  '' project: '' @ projectName s @ '' ).'')) (\<lambda>_. areturn REPOERR_UPLOAD_FAILED)
          else if rootNode (graph s) = null
          then abind (set_err ''Cannot commit to the database - Scene is empty!.'') (\<lambda>_. areturn REPOERR_UPLOAD_FAILED)
          else abind (if msg \<noteq> [] then upd_scene (\<lambda>s. s\<lparr>commitMsg := msg\<rparr>) else areturn ()) (\<lambda>_.
               abind (agets scene) (\<lambda>s.
               abind (commitRevisionNode env h userName (commitMsg s) label revisionId) (\<lambda>(success, newRevNode).
                 if \<not> success then abind (agets errMsg) (\<lambda>e. areturn (failure_code e))
                 else case newRevNode of
                   None \<Rightarrow> aresult (Inl NullDeref)
                 | Some r \<Rightarrow>
                     abind (commitSceneChanges env h revisionId) (\<lambda>_.
                     abind (upd_scene (committed r)) (\<lambda>_.
                     abind (commitSequence env h (uniqueId r)) (\<lambda>_. areturn REPOERR_OK))))))))"

definition addStatusToProjectSettings ::
  "(RepoProjectSettings \<Rightarrow> RepoProjectSettings) \<Rightarrow> ('s, 'd) commit_env \<Rightarrow> 'd scene_db \<Rightarrow> (('s, 'd) commit_state, unit) act" where
  "addStatusToProjectSettings change env handler =
     abind (agets scene) (\<lambda>s.
     abind (from_db (\<lambda>d. findOneByUniqueID handler d (databaseName s) REPO_COLLECTION_SETTINGS (BString (projectName s)))) (\<lambda>bson.
     abind (aresult (RepoProjectSettings_of bson)) (\<lambda>st.
       on_db (\<lambda>d. upsertDocument handler d (databaseName s) REPO_COLLECTION_SETTINGS (settings_bson (time_now env) (change st)) False))))"

definition addErrorStatusToProjectSettings :: "('s, 'd) commit_env \<Rightarrow> 'd scene_db \<Rightarrow> (('s, 'd) commit_state, unit) act" where
  "addErrorStatusToProjectSettings = addStatusToProjectSettings setErrorStatus"

definition addTimestampToProjectSettings :: "('s, 'd) commit_env \<Rightarrow> 'd scene_db \<Rightarrow> (('s, 'd) commit_state, unit) act" where
  "addTimestampToProjectSettings = addStatusToProjectSettings clearErrorStatus"

definition updateRevisionStatus :: "('s, 'd) commit_env \<Rightarrow> 'd scene_db \<Rightarrow> 32 word \<Rightarrow> (('s, 'd) commit_state, bool) act" where
  "updateRevisionStatus env handler st =
     abind (agets scene) (\<lambda>s.
       case revNode s of
         None \<Rightarrow> areturn False
       | Some r \<Rightarrow>
           let r = updateStatus st r
           in abind (upd_scene (\<lambda>s. s\<lparr>revNode := Some r\<rparr>)) (\<lambda>_.
              abind (aresult (getBSON (make_time (manager_of env)) r)) (\<lambda>b.
              abind (on_db (\<lambda>d. upsertDocument handler d (databaseName s) (project_collection s REPO_COLLECTION_HISTORY) b True)) (\<lambda>_.
                areturn True))))"

subsection \<open>Loading\<close>

text \<open>
  When loading a document throws, the scene of the model is the one before that document (the code may have put its
  node into one of the sets).
\<close>

definition populate_act ::
  "('s, 'd) commit_env \<Rightarrow> GraphType \<Rightarrow> RepoBSON list \<Rightarrow> (('s, 'd) commit_state, bool) act" where
  "populate_act env gType nodes =
     abind (atraverse (\<lambda>bson w. case populate_step (gm_time env) gType bson (scene w) of
           Inl e \<Rightarrow> (Inl e, w) | Inr s \<Rightarrow> (Inr (), w\<lparr>scene := s\<rparr>)) nodes) (\<lambda>_. areturn True)"

definition ensure_revision :: "'d scene_db \<Rightarrow> (('s, 'd) commit_state, bool) act" where
  "ensure_revision h = abind (agets scene) (\<lambda>s. if revNode s = None then loadRevision (Some h) [] else areturn True)"

definition loadScene :: "('s, 'd) commit_env \<Rightarrow> 'd scene_db option \<Rightarrow> (('s, 'd) commit_state, bool) act" where
  "loadScene env handler =
     (case handler of
        None \<Rightarrow> abind (set_err ''Cannot load revision with an empty database handler'') (\<lambda>_. areturn False)
      | Some h \<Rightarrow> abind (ensure_revision h) (\<lambda>ok.
          if \<not> ok then areturn False
          else abind (agets scene) (\<lambda>s.
            abind (from_db (\<lambda>d. findAllByCriteria h d (databaseName s) (project_collection s REPO_COLLECTION_SCENE)
                     (Eq REPO_NODE_REVISION_ID [VUUID (getRevisionID s)]))) (\<lambda>nodes.
              populate_act env DEFAULT nodes))))"

definition loadStash :: "('s, 'd) commit_env \<Rightarrow> 'd scene_db option \<Rightarrow> (('s, 'd) commit_state, bool) act" where
  "loadStash env handler =
     (case handler of
        None \<Rightarrow> abind (amodify (\<lambda>w. w\<lparr>errMsg := errMsg w @ ''Trying to load stash graph without a database handler!''\<rparr>)) (\<lambda>_. areturn False)
      | Some h \<Rightarrow> abind (ensure_revision h) (\<lambda>ok.
          if \<not> ok then areturn False
          else abind (agets scene) (\<lambda>s.
            abind (from_db (\<lambda>d. findAllByCriteria h d (databaseName s) (project_collection s REPO_COLLECTION_STASH_REPO)
                     (Eq REPO_NODE_REVISION_ID [VUUID (getRevisionID s)]))) (\<lambda>nodes.
              if length nodes > 0 then populate_act env OPTIMIZED nodes
              else abind (amodify (\<lambda>w. w\<lparr>errMsg := errMsg w @ ''stash is empty''\<rparr>)) (\<lambda>_. areturn False)))))"

definition loadRootNode :: "('s, 'd) commit_env \<Rightarrow> 'd scene_db \<Rightarrow> (('s, 'd) commit_state, unit) act" where
  "loadRootNode env handler =
     abind (agets scene) (\<lambda>s.
     abind (from_db (\<lambda>d. findOneByCriteria handler d (databaseName s) (project_collection s REPO_COLLECTION_SCENE)
              (RepoQueryBuilder [Eq REPO_NODE_REVISION_ID [VUUID (revision s)], Eq REPO_NODE_LABEL_TYPE [VString REPO_NODE_TYPE_TRANSFORMATION],
                 Exists REPO_NODE_LABEL_PARENTS False]) [])) (\<lambda>bson.
       if isEmpty bson
       then aresult (Inl (RepoSceneProcessingException (''Could not find root node for '' @ databaseName s @ ''.'' @ projectName s @ ''.'' @
              uuid_string (manager_of env) (revision s))))
       else abind (aresult (TransformationNode_of_bson bson)) (\<lambda>n w.
         let (p, s1) = alloc n (scene w)
         in case addNodes [p] s1 of Inl e \<Rightarrow> (Inl e, w\<lparr>scene := s1\<rparr>) | Inr s2 \<Rightarrow> (Inr (), w\<lparr>scene := s2\<rparr>))))"

end
