(* ===== verification/FileService.thy ===== *)
theory FileService
  imports FileManager
begin

text \<open>
  What \<open>FileManager\<close> and \<open>BlobFilesHandler\<close> promise. The lemmas about stored files are proved for every file
  handler that keeps the laws of \<open>file_handler\<close> and used on \<open>FSFileHandler\<close> through its interpretation; the
  database handler is any that keeps \<open>ref_store_laws\<close>.
\<close>

subsection \<open>References\<close>

lemma getters_cong:
  assumes "map_of (doc a) = map_of (doc b)"
  shows "field_as conv a l = field_as conv b l" "hasField a l = hasField b l" "getStringField a l = getStringField b l"
    "getLongField a l = getLongField b l" "getUUIDField a l = getUUIDField b l"
  using assms by (simp_all add: field_as_def getField_def hasField_def getters getLongField_def)

lemma RepoRef_of_bson_cong:
  assumes "map_of (doc a) = map_of (doc b)"
  shows "RepoRef_of_bson a = RepoRef_of_bson b"
  by (simp add: RepoRef_of_bson_def getters_cong [OF assms] del: hasField_iff)

fun RefT_read :: "ref_key \<Rightarrow> RepoBSON \<Rightarrow> (ref_key \<times> RepoRef) result" where
  "RefT_read (KString _) b = RepoRefT_string b"
| "RefT_read (KUUID _) b = RepoRefT_uuid b"

lemma RefT_read_cong:
  assumes "map_of (doc a) = map_of (doc b)"
  shows "RefT_read key a = RefT_read key b"
  by (cases key) (simp_all add: RepoRefT_string_def RepoRefT_uuid_def RepoRef_of_bson_cong [OF assms] getters_cong [OF assms])

lemma append_metadata:
  "rfold (\<lambda>(k, v) b. rbind (bson_of_variant mktime v) (\<lambda>e. Inr (append_field k e b))) meta b = Inr b' \<Longrightarrow>
     \<exists>es. core b' = core b @ es \<and> map fst es = map fst meta \<and> binMapping b' = binMapping b"
proof (induction meta arbitrary: b)
  case (Cons kv meta)
  obtain e where e: "bson_of_variant mktime (snd kv) = Inr e"
      "rfold (\<lambda>(k, v) b. rbind (bson_of_variant mktime v) (\<lambda>e. Inr (append_field k e b))) meta (append_field (fst kv) e b) = Inr b'"
    using Cons.prems by (auto simp: rbind_Inr_iff split: prod.splits)
  obtain es where "core b' = core (append_field (fst kv) e b) @ es" "map fst es = map fst meta" "binMapping b' = binMapping b"
    using Cons.IH [OF e(2)] by auto
  then show ?case by (intro exI [of _ "(fst kv, e) # es"]) simp
qed simp

definition unreserved :: "ref_metadata \<Rightarrow> bool" where
  "unreserved metadata \<longleftrightarrow> REF_LABEL_NAME \<notin> fst ` set metadata \<and> REPO_LABEL_ID \<notin> fst ` set metadata"

lemma ref_bson_fields:
  assumes b: "ref_bson mktime key (RepoRef_new link n metadata) = Inr b" and u: "unreserved metadata"
  shows "map_of (doc b) REPO_REF_LABEL_TYPE = Some (BString REPO_REF_TYPE_FS)" "map_of (doc b) REPO_REF_LABEL_LINK = Some (BString link)"
    "map_of (doc b) REPO_REF_LABEL_SIZE = Some (BInt64 n)" "map_of (doc b) REF_LABEL_NAME = None"
    "map_of (doc b) REPO_LABEL_ID = Some (key_bson key)"
proof -
  obtain es where es: "doc b = [(REPO_REF_LABEL_TYPE, BString REPO_REF_TYPE_FS), (REPO_REF_LABEL_LINK, BString link),
        (REPO_REF_LABEL_SIZE, BInt64 n)] @ es @ [(REPO_LABEL_ID, key_bson key)]" "map fst es = map fst metadata"
    using b by (fastforce simp: ref_bson_def refT_serialise_def ref_serialise_def Let_def RepoRef_new_def rbind_Inr_iff
        dest!: append_metadata)
  have k: "fst ` set es = fst ` set metadata" using es(2) by (metis list.set_map)
  have "map_of es REF_LABEL_NAME = None" "map_of es REPO_LABEL_ID = None"
    using u unfolding unreserved_def k [symmetric] by (simp_all add: map_of_eq_None_iff)
  then show "map_of (doc b) REPO_REF_LABEL_TYPE = Some (BString REPO_REF_TYPE_FS)" "map_of (doc b) REPO_REF_LABEL_LINK = Some (BString link)"
    "map_of (doc b) REPO_REF_LABEL_SIZE = Some (BInt64 n)" "map_of (doc b) REF_LABEL_NAME = None"
    "map_of (doc b) REPO_LABEL_ID = Some (key_bson key)"
    unfolding es(1) by (simp_all add: ref_labels map_add_def)
qed

lemma ref_read_back:
  assumes "ref_bson mktime key (RepoRef_new link n metadata) = Inr b" "unreserved metadata"
    and "map_of (doc b') = map_of (doc b)"
  shows "RefT_read key b' = Inr (key, RepoRef_new link n [])" "doc b' \<noteq> []"
proof -
  note f = ref_bson_fields [OF assms(1,2)]
  have t: "REPO_REF_TYPE_FS = REPO_REF_TYPE_FS" ..
  have "RepoRef_of_bson b = Inr (RepoRef_new link n [])"
    using f by (simp add: RepoRef_of_bson_def getLongField_def getStringField_def RepoRef_new_def)
  then have "RefT_read key b = Inr (key, RepoRef_new link n [])"
    using f(5) by (cases key) (simp_all add: RepoRefT_string_def RepoRefT_uuid_def getStringField_def getUUIDField_def)
  then show "RefT_read key b' = Inr (key, RepoRef_new link n [])" using RefT_read_cong [OF assms(3)] by simp
  show "doc b' \<noteq> []" using f(1) assms(3) by force
qed

lemma key_bson_inject: "key_bson k = key_bson k' \<longleftrightarrow> k = k'"
proof -
  have "uuid_data u = uuid_data v \<longleftrightarrow> u = v" for u v by (metis uuid_of_data_data)
  then show ?thesis by (cases k; cases k') (auto simp: bson_of_uuid_def)
qed

text \<open>
  A reference document is read back with its key, link and size, and as a file of the file system,
  whatever the other metadata says, as long as the metadata does not use the fields name and _id.
\<close>

theorem ref_roundtrip:
  assumes "rbind (makeRepoRef key REF_FS link n metadata) (\<lambda>(k, r). ref_bson mktime k r) = Inr b" "unreserved metadata"
  shows "RefT_read key b = Inr (key, RepoRef_new link (ucast n) [])"
  using ref_read_back(1) [OF _ assms(2) refl] assms(1) by (simp add: makeRepoRef_def)

theorem ref_roundtrip_witness:
  "\<exists>b. rbind (makeRepoRef (KUUID 5) REF_FS ''l'' 9 [(''type'', VString ''svg'')]) (\<lambda>(k, r). ref_bson tm_sec k r) = Inr b \<and>
     RefT_read (KUUID 5) b = Inr (KUUID 5, RepoRef_new ''l'' 9 [])"
proof -
  let ?r = "rbind (makeRepoRef (KUUID 5) REF_FS ''l'' 9 [(''type'', VString ''svg'')]) (\<lambda>(k, r). ref_bson tm_sec k r)"
  have "\<exists>b. ?r = Inr b"
    by (simp add: makeRepoRef_def ref_bson_def refT_serialise_def ref_serialise_def RepoRef_new_def)
  then obtain b where b: "?r = Inr b" by blast
  have "unreserved [(''type'', VString ''svg'')]" by (simp add: unreserved_def ref_labels)
  from ref_roundtrip [OF b this] b show ?thesis by simp
qed

subsection \<open>Stored files\<close>

definition ref_store_laws :: "'d db_ops \<Rightarrow> bool" where
  "ref_store_laws ops \<longleftrightarrow>
     (\<forall>d db col b k d'. upsertDocument ops d db col b True = (Inr (), d') \<and> map_of (doc b) REPO_LABEL_ID = Some (key_bson k) \<longrightarrow>
        (\<exists>b'. findOneByUniqueID ops d' db col (key_bson k) = Inr b' \<and> map_of (doc b') = map_of (doc b))) \<and>
     (\<forall>d db col b k r d' k'. upsertDocument ops d db col b True = (r, d') \<and> map_of (doc b) REPO_LABEL_ID = Some (key_bson k) \<and> k' \<noteq> k \<longrightarrow>
        findOneByUniqueID ops d' db col (key_bson k') = findOneByUniqueID ops d db col (key_bson k'))"

text \<open>The first \<open>n\<close> identifiers made are different, and all print as names of the same length.\<close>

definition fresh_uuids :: "('s, 'd) manager_env \<Rightarrow> nat \<Rightarrow> bool" where
  "fresh_uuids env n \<longleftrightarrow> inj_on (\<lambda>i. uuid_string env (uuid_at env i)) {..<n} \<and>
     (\<forall>u v. length (uuid_string env u) = length (uuid_string env v)) \<and> (\<forall>u. relative_name (uuid_string env u))"

lemma fresh_uuids_suffix:
  assumes "fresh_uuids env n" "i < n" "j < n" "i \<noteq> j" "suffix (uuid_string env (uuid_at env i)) l"
  shows "\<not> suffix (uuid_string env (uuid_at env j)) l"
proof
  assume "suffix (uuid_string env (uuid_at env j)) l"
  then have "uuid_string env (uuid_at env i) = uuid_string env (uuid_at env j)"
    using assms(1,5) unfolding fresh_uuids_def by (metis suffix_def append_eq_append_conv)
  then have "i = j" using assms(1,2,3) unfolding fresh_uuids_def by (auto dest: inj_onD)
  with assms(4) show False ..
qed

definition stored :: "('s, 'd) manager_env \<Rightarrow> string \<Rightarrow> string \<Rightarrow> ref_key \<Rightarrow> bytes \<Rightarrow> ('s, 'd) manager \<Rightarrow> bool" where
  "stored env db col key content m \<longleftrightarrow>
     (\<exists>r i. getFileRef env db col key m = Inr (key, r) \<and> ref_type r = REF_FS \<and> relative_name (ref_link r) \<and>
        i < made m \<and> suffix (uuid_string env (uuid_at env i)) (ref_link r) \<and>
        op_stream (fsHandler env) db col (ref_link r) (fstore m) = Some content)"

lemma upsertFileRef_found:
  assumes laws: "ref_store_laws (dbHandler env)" and u: "unreserved metadata"
    and r: "upsertFileRef env db col key link REF_FS n metadata m = (Inr True, m')"
  shows "fstore m' = fstore m \<and> made m' = made m \<and> getFileRef env db col key m' = Inr (key, RepoRef_new link (ucast n) [])"
proof -
  obtain b where b: "ref_bson (make_time env) key (RepoRef_new link (ucast n) metadata) = Inr b"
    using r by (auto simp: upsertFileRef_def makeRepoRef_def split: sum.splits if_splits)
  obtain d where d: "upsertDocument (dbHandler env) (dbase m) db (ref_collection col) b True = (Inr (), d)" "m' = m\<lparr>dbase := d\<rparr>"
    using r b by (auto simp: upsertFileRef_def makeRepoRef_def split: prod.splits sum.splits if_splits)
  obtain b' where b': "findOneByUniqueID (dbHandler env) d db (ref_collection col) (key_bson key) = Inr b'"
      "map_of (doc b') = map_of (doc b)"
    using laws d(1) ref_bson_fields(5) [OF b u] unfolding ref_store_laws_def by blast
  note rb = ref_read_back [OF b u b'(2)]
  then have "getFileRef env db col key m' = Inr (key, RepoRef_new link (ucast n) [])"
    using b'(1) d(2) by (cases key) (auto simp: getFileRef_def isEmpty_def)
  then show ?thesis using d(2) by simp
qed

lemma upsertFileRef_frame:
  assumes laws: "ref_store_laws (dbHandler env)" and u: "unreserved metadata" and k: "key' \<noteq> key"
    and r: "upsertFileRef env db col key link REF_FS n metadata m = (r, m')"
  shows "fstore m' = fstore m \<and> made m' = made m \<and> getFileRef env db col key' m' = getFileRef env db col key' m"
proof (cases "ref_bson (make_time env) key (RepoRef_new link (ucast n) metadata)")
  case (Inl e)
  then show ?thesis using r by (auto simp: upsertFileRef_def makeRepoRef_def split: if_splits)
next
  case (Inr b)
  obtain q d where d: "upsertDocument (dbHandler env) (dbase m) db (ref_collection col) b True = (q, d)" "m' = m\<lparr>dbase := d\<rparr>"
    using r Inr by (auto simp: upsertFileRef_def makeRepoRef_def split: prod.splits sum.splits if_splits)
  have "findOneByUniqueID (dbHandler env) d db (ref_collection col) (key_bson key') =
      findOneByUniqueID (dbHandler env) (dbase m) db (ref_collection col) (key_bson key')"
    using laws d(1) ref_bson_fields(5) [OF Inr u] k unfolding ref_store_laws_def by blast
  then show ?thesis using d(2) by (simp add: getFileRef_def)
qed

lemma unreserved_encoded: "unreserved metadata \<Longrightarrow> unreserved (encoded_metadata enc metadata)"
  by (cases enc) (auto simp: unreserved_def encoded_metadata_def dom_update ref_labels)

context file_handler
begin

lemma upload_stored:
  assumes h: "fsHandler env = h" and laws: "ref_store_laws (dbHandler env)" "fresh_uuids env n" and u: "unreserved metadata"
    and r: "uploadFileAndCommit env db col key bin metadata enc m = (Inr True, m')"
  shows "stored env db col key (encode env enc bin) m' \<and> made m' = Suc (made m)"
proof -
  let ?name = "uuid_string env (uuid_at env (made m))"
  obtain link s where l: "op_upload h db col ?name (encode env enc bin) (fstore m) = (Inr link, s)" "link \<noteq> []"
    and m': "upsertFileRef env db col key link REF_FS (of_nat (length (encode env enc bin))) (encoded_metadata enc metadata)
       (m\<lparr>fstore := s, made := Suc (made m)\<rparr>) = (Inr True, m')"
    using r by (auto simp: uploadFileAndCommit_def Let_def h split: prod.splits sum.splits if_splits)
  have name: "relative_name ?name" using laws(2) by (simp add: fresh_uuids_def)
  note f = upsertFileRef_found [OF laws(1) unreserved_encoded [OF u] m']
  show ?thesis
    using f upload_stream [OF l(1) name l(2)]
    by (auto simp: stored_def h RepoRef_new_def intro!: exI [of _ "made m"])
qed

lemma upload_keeps:
  assumes h: "fsHandler env = h" and laws: "ref_store_laws (dbHandler env)" "fresh_uuids env n" and u: "unreserved metadata"
    and r: "uploadFileAndCommit env db col key bin metadata enc m = (r, m')"
    and k: "key' \<noteq> key" and s: "stored env db col key' content m" and n: "made m < n"
  shows "stored env db col key' content m' \<and> made m' = Suc (made m)"
proof -
  let ?name = "uuid_string env (uuid_at env (made m))"
  obtain q s where l: "op_upload h db col ?name (encode env enc bin) (fstore m) = (q, s)" by fastforce
  let ?m1 = "m\<lparr>fstore := s, made := Suc (made m)\<rparr>"
  have m': "fstore m' = s \<and> made m' = Suc (made m) \<and> getFileRef env db col key' m' = getFileRef env db col key' m"
  proof (cases "\<exists>link. q = Inr link \<and> link \<noteq> []")
    case True
    then obtain link where "upsertFileRef env db col key link REF_FS (of_nat (length (encode env enc bin)))
        (encoded_metadata enc metadata) ?m1 = (r, m')"
      using r l by (auto simp: uploadFileAndCommit_def Let_def h)
    from upsertFileRef_frame [OF laws(1) unreserved_encoded [OF u] k this] show ?thesis by (simp add: getFileRef_def)
  next
    case False
    then have "m' = ?m1" using r l by (auto simp: uploadFileAndCommit_def Let_def h split: sum.splits if_splits)
    then show ?thesis by (simp add: getFileRef_def)
  qed
  obtain ref i where ref: "getFileRef env db col key' m = Inr (key', ref)" "ref_type ref = REF_FS" "relative_name (ref_link ref)"
      "i < made m" "suffix (uuid_string env (uuid_at env i)) (ref_link ref)" "op_stream h db col (ref_link ref) (fstore m) = Some content"
    using s by (auto simp: stored_def h)
  have "\<not> suffix ?name (ref_link ref)" using fresh_uuids_suffix [OF laws(2) _ n _ ref(5)] ref(4) n by simp
  moreover have "relative_name ?name" using laws(2) by (simp add: fresh_uuids_def)
  ultimately have "op_stream h db col (ref_link ref) s = Some content" using upload_frame [OF l _ ref(3)] ref(6) by simp
  then show ?thesis
    using m' ref unfolding stored_def h by (intro conjI exI [of _ ref] exI [of _ i]) auto
qed

lemma stored_getFile:
  assumes "fsHandler env = h" "stored env db col key content m"
  shows "getFile env db col key enc m = decode env enc content" "key = KString f \<Longrightarrow> getFileStream env db col f m = Inr (Some content)"
proof -
  have g: "op_get (fsHandler env) db col l s = (case op_stream (fsHandler env) db col l s of Some b \<Rightarrow> b | None \<Rightarrow> [])" for l s
    using get_stream unfolding assms(1) .
  show "getFile env db col key enc m = decode env enc content" "key = KString f \<Longrightarrow> getFileStream env db col f m = Inr (Some content)"
    using assms(2) by (auto simp: stored_def getFile_def getFileStream_def g)
qed

end

text \<open>
  C15: files of the file manager: with the file system handler and a database that keeps documents by
  identifier, a file whose upload reports success is read back under its key with the same encoding, and
  every file that was readable under another key reads the same after any upload, also a failed one.
\<close>

theorem uploaded_files_read_back:
  assumes h: "fsHandler env = fs_ops fs_env dir level" and laws: "ref_store_laws (dbHandler env)" "fresh_uuids env n"
    and z: "\<And>b. gunzip env (gzip env b) = Inr b" and u: "unreserved metadata" and n: "made m < n"
    and up: "uploadFileAndCommit env db col key bin metadata enc m = (r, m')"
  shows "(r = Inr True \<longrightarrow> getFile env db col key enc m' = Inr bin) \<and>
    (\<forall>key' content enc'. stored env db col key' content m \<and> key' \<noteq> key \<longrightarrow>
       stored env db col key' content m' \<and> getFile env db col key' enc' m' = decode env enc' content)"
proof -
  have "getFile env db col key enc m' = Inr bin" if "r = Inr True"
  proof -
    have "stored env db col key (encode env enc bin) m'" using fs.upload_stored [OF h laws u] up that by blast
    then have "getFile env db col key enc m' = decode env enc (encode env enc bin)" using fs.stored_getFile(1) [OF h] by blast
    then show ?thesis using z by (cases enc) (simp_all add: decode_def encode_def)
  qed
  then show ?thesis using fs.upload_keeps [OF h laws u up _ _ n] fs.stored_getFile(1) [OF h] by blast
qed

text \<open>A database kept as a map, and an environment that always succeeds.\<close>

definition map_db :: "((string \<times> string \<times> bson) \<Rightarrow> RepoBSON option) db_ops" where
  "map_db = \<lparr>findOneByUniqueID = (\<lambda>d db col k. Inr (case d (db, col, k) of Some b \<Rightarrow> b | None \<Rightarrow> \<lparr>doc = [], bigFiles = []\<rparr>)),
     upsertDocument = (\<lambda>d db col b overwrite. case map_of (doc b) REPO_LABEL_ID of
         None \<Rightarrow> (Inl (DatabaseException ''no _id''), d) | Some k \<Rightarrow> (Inr (), d((db, col, k) \<mapsto> b))),
     dropDocument = (\<lambda>d b db col. case map_of (doc b) REPO_LABEL_ID of
         None \<Rightarrow> (Inl (DatabaseException ''no _id''), d) | Some k \<Rightarrow> (Inr (), d((db, col, k) := None)))\<rparr>"

lemma map_db_laws: "ref_store_laws map_db"
  by (auto simp: ref_store_laws_def map_db_def key_bson_inject)

definition good_env :: fs_env where
  "good_env = \<lparr>write_outcome_of = (\<lambda>k. Written), rand_string = (\<lambda>k. []), string_hash = length, removable = (\<lambda>p. True)\<rparr>"

definition sample_manager_env :: "(file_system, (string \<times> string \<times> bson) \<Rightarrow> RepoBSON option) manager_env" where
  "sample_manager_env = \<lparr>fsHandler = fs_ops good_env ''/store'' 0, dbHandler = map_db, uuid_at = of_nat,
     uuid_string = (\<lambda>u. map (\<lambda>i. if bit u i then CHR ''1'' else CHR ''0'') [0..<128]),
     gzip = rev, gunzip = (\<lambda>b. Inr (rev b)), make_time = tm_sec\<rparr>"

definition empty_manager :: "(file_system, (string \<times> string \<times> bson) \<Rightarrow> RepoBSON option) manager" where
  "empty_manager = \<lparr>fstore = empty_fs, dbase = (\<lambda>_. None), made = 0\<rparr>"

lemma bits_string_inj:
  fixes u v :: uuid
  assumes "map (\<lambda>i. if bit u i then CHR ''1'' else CHR ''0'') [0..<128] = map (\<lambda>i. if bit v i then CHR ''1'' else CHR ''0'') [0..<128]"
  shows "u = v"
proof (rule bit_word_eqI)
  fix i assume "i < LENGTH(128)"
  then show "bit u i = bit v i" using assms by (auto simp: list_eq_iff_nth_eq split: if_splits)
qed

lemma of_nat_uuid_inj: "inj_on (of_nat :: nat \<Rightarrow> uuid) {..<1000}"
proof (rule inj_onI)
  fix i j :: nat assume "i \<in> {..<1000}" "j \<in> {..<1000}" "(of_nat i :: uuid) = of_nat j"
  then have "unat (of_nat i :: uuid) = unat (of_nat j :: uuid)" "i < 2 ^ 128" "j < 2 ^ 128" by simp_all
  then show "i = j" by (simp add: unat_of_nat take_bit_nat_eq_self)
qed

lemma sample_manager_simps:
  "fsHandler sample_manager_env = fs_ops good_env ''/store'' 0" "dbHandler sample_manager_env = map_db"
  "gunzip sample_manager_env (gzip sample_manager_env b) = Inr b"
  by (simp_all add: sample_manager_env_def)

lemma sample_uuid_string: "uuid_string sample_manager_env u = map (\<lambda>i. if bit u i then CHR ''1'' else CHR ''0'') [0..<128]"
  by (simp add: sample_manager_env_def)

lemma sample_fresh: "fresh_uuids sample_manager_env 1000"
proof -
  have "inj_on (\<lambda>i. uuid_string sample_manager_env (uuid_at sample_manager_env i)) {..<1000}"
    using of_nat_uuid_inj bits_string_inj unfolding inj_on_def sample_uuid_string
    by (simp add: sample_manager_env_def)
  moreover have "relative_name (uuid_string sample_manager_env u)" for u
    by (simp add: sample_uuid_string relative_name_def hd_map)
  ultimately show ?thesis by (simp add: fresh_uuids_def sample_uuid_string)
qed

lemma sample_uploads_succeed: "fst (uploadFileAndCommit sample_manager_env db col key bin [] enc m) = Inr True"
proof -
  let ?name = "uuid_string sample_manager_env (uuid_at sample_manager_env (made m))"
  let ?c = "encode sample_manager_env enc bin" and ?meta = "encoded_metadata enc []"
  have name: "?name \<noteq> []" by (simp add: sample_uuid_string)
  obtain s where u: "uploadFile good_env ''/store'' 0 db col ?name ?c (fstore m) = (Inr ?name, s)"
    by (simp add: uploadFile_def write_attempts.simps [of _ _ _ 0] write_once_def good_env_def)
  have meta: "\<exists>b. ref_bson mk key (RepoRef_new ?name n ?meta) = Inr b" for mk n
    by (cases enc) (simp_all add: encoded_metadata_def ref_bson_def refT_serialise_def ref_serialise_def RepoRef_new_def Let_def)
  have res: "unreserved ?meta" by (cases enc) (simp_all add: unreserved_def encoded_metadata_def ref_labels)
  have "fst (upsertFileRef sample_manager_env db col key ?name REF_FS n ?meta m') = Inr True" for n m'
  proof -
    obtain b where b: "ref_bson (make_time sample_manager_env) key (RepoRef_new ?name (ucast n) ?meta) = Inr b" using meta by blast
    show ?thesis
      using ref_bson_fields(5) [OF b res] b by (simp add: upsertFileRef_def makeRepoRef_def sample_manager_simps map_db_def)
  qed
  then show ?thesis using u name by (simp add: uploadFileAndCommit_def Let_def sample_manager_simps)
qed

theorem uploaded_files_read_back_witness:
  "\<exists>m'. uploadFileAndCommit sample_manager_env ''db'' ''raw'' (KString ''a'') [1, 2, 3] [] Gzip empty_manager = (Inr True, m') \<and>
     getFile sample_manager_env ''db'' ''raw'' (KString ''a'') Gzip m' = Inr [1, 2, 3]"
proof -
  let ?u = "uploadFileAndCommit sample_manager_env ''db'' ''raw'' (KString ''a'') [1, 2, 3] [] Gzip empty_manager"
  have u: "?u = (Inr True, snd ?u)" using sample_uploads_succeed by (metis prod.collapse)
  have "ref_store_laws (dbHandler sample_manager_env)" "unreserved []" "made empty_manager < 1000"
    by (simp_all add: sample_manager_simps map_db_laws unreserved_def empty_manager_def)
  from uploaded_files_read_back [OF sample_manager_simps(1) this(1) sample_fresh _ this(2,3) u] u
  show ?thesis by (auto simp: sample_manager_simps)
qed

subsection \<open>Blob files\<close>

lemma set_update_subset: "set (AList.update k v al) \<subseteq> insert (k, v) (set al)"
  by (induction al) auto

text \<open>A reference into a buffer that holds the data it was made for.\<close>

definition points_to :: "DataRef \<Rightarrow> bytes \<Rightarrow> bytes \<Rightarrow> bool" where
  "points_to r buffer data \<longleftrightarrow> length buffer < 2 ^ 63 \<and> unat (data_start r) + unat (data_size r) \<le> length buffer \<and>
     unat (data_size r) = length data \<and> take (length data) (drop (unat (data_start r)) buffer) = data"

lemma sint_unat_small: "sint (w :: 64 word) = int (unat w)" if "unat w < 2 ^ 63"
proof -
  have "int (unat w) < int (2 ^ 63)" using that by (simp only: of_nat_less_iff)
  then have "0 \<le> uint w" "uint w < 2 ^ 63" by simp_all
  then have "signed_take_bit 63 (uint w) = uint w" by (intro signed_take_bit_int_eq_self) (auto intro: order_trans [of _ 0])
  then show ?thesis by (simp add: sint_uint)
qed

lemma unat_of_nat_64: "n < 2 ^ 63 \<Longrightarrow> unat (of_nat n :: 64 word) = n"
  by (simp add: unat_of_nat take_bit_nat_eq_self)

lemma read_at_points_to:
  assumes "points_to r buffer data" "stream_content st = Some buffer" "\<not> stream_failed st"
  shows "read_at (data_start r) (data_size r) st = (data, st)" "\<not> sint (data_size r) < 0"
  using assms sint_unat_small [of "data_start r"] sint_unat_small [of "data_size r"]
  by (auto simp: points_to_def read_at_def)

lemma points_to_append: "points_to r buffer data \<Longrightarrow> length (buffer @ rest) < 2 ^ 63 \<Longrightarrow> points_to r (buffer @ rest) data"
  by (auto simp: points_to_def)

lemma points_to_new:
  assumes "length buffer + length data < 2 ^ 63"
  shows "points_to \<lparr>data_file = f, data_start = of_nat (length buffer), data_size = of_nat (length data)\<rparr> (buffer @ data) data"
  using assms by (simp add: points_to_def unat_of_nat_64)

text \<open>
  The invariant of a blob handler and the pairs \<open>h\<close> of references it has handed out and their data: the active
  file has the name of an identifier made, and so has the file of every reference, which is stored unless
  it is the active one; it holds the data. The open streams are those of stored files and have not failed.
\<close>

abbreviation uuid_name :: "('s, 'd) manager_env \<Rightarrow> nat \<Rightarrow> string" where
  "uuid_name env i \<equiv> uuid_string env (uuid_at env i)"

definition made_name :: "('s, 'd) manager_env \<Rightarrow> ('s, 'd) manager \<Rightarrow> string \<Rightarrow> bool" where
  "made_name env m f \<longleftrightarrow> (\<exists>i < made m. f = uuid_name env i)"

definition blob_inv ::
  "('s, 'd) manager_env \<Rightarrow> string \<Rightarrow> string \<Rightarrow> (DataRef \<times> bytes) list \<Rightarrow> ('s, 'd) blob \<Rightarrow> bool" where
  "blob_inv env db col handed b \<longleftrightarrow>
     (\<forall>name buffer. activeFile b = Some (name, buffer) \<longrightarrow> made_name env (blob_manager b) name \<and> length buffer < 2 ^ 63) \<and>
     (\<forall>(r, data) \<in> set handed. made_name env (blob_manager b) (data_file r) \<and>
        (\<exists>buffer. points_to r buffer data \<and>
           (activeFile b = Some (data_file r, buffer) \<or>
            (\<forall>nb. activeFile b = Some nb \<longrightarrow> fst nb \<noteq> data_file r) \<and>
            stored env db col (KString (data_file r)) buffer (blob_manager b)))) \<and>
     (\<forall>(f, st) \<in> set (readStreams b). \<not> stream_failed st \<and> (\<forall>nb. activeFile b = Some nb \<longrightarrow> fst nb \<noteq> f) \<and>
        made_name env (blob_manager b) f \<and>
        (\<exists>buffer. stream_content st = Some buffer \<and> stored env db col (KString f) buffer (blob_manager b)))"

definition uploads_succeed :: "('s, 'd) manager_env \<Rightarrow> string \<Rightarrow> string \<Rightarrow> ref_metadata \<Rightarrow> bool" where
  "uploads_succeed env db col metadata \<longleftrightarrow>
     (\<forall>key bin m. fst (uploadFileAndCommit env db col key bin metadata NoEncoding m) = Inr True)"

lemma made_name_fresh:
  assumes "fresh_uuids env n" "made m < n" "made_name env m f"
  shows "f \<noteq> uuid_name env (made m)"
proof -
  obtain i where i: "i < made m" "f = uuid_name env i" using assms(3) by (auto simp: made_name_def)
  moreover have "inj_on (\<lambda>i. uuid_name env i) {..<n}" using assms(1) by (simp add: fresh_uuids_def)
  ultimately show ?thesis using assms(2) inj_onD [of "\<lambda>i. uuid_name env i" "{..<n}" i "made m"] by auto
qed

lemma made_name_mono:
  assumes "made_name env m f" "made m \<le> made m'"
  shows "made_name env m' f"
proof -
  obtain i where "i < made m" "f = uuid_name env i" using assms(1) by (auto simp: made_name_def)
  then show ?thesis using assms(2) unfolding made_name_def by (intro exI [of _ i]) simp
qed

lemma blob_invI:
  assumes "\<And>name buffer. activeFile b = Some (name, buffer) \<Longrightarrow> made_name env (blob_manager b) name \<and> length buffer < 2 ^ 63"
    and "\<And>r data. (r, data) \<in> set handed \<Longrightarrow> made_name env (blob_manager b) (data_file r) \<and>
        (\<exists>buffer. points_to r buffer data \<and>
           (activeFile b = Some (data_file r, buffer) \<or>
            (\<forall>nb. activeFile b = Some nb \<longrightarrow> fst nb \<noteq> data_file r) \<and>
            stored env db col (KString (data_file r)) buffer (blob_manager b)))"
    and "\<And>f st. (f, st) \<in> set (readStreams b) \<Longrightarrow> \<not> stream_failed st \<and> (\<forall>nb. activeFile b = Some nb \<longrightarrow> fst nb \<noteq> f) \<and>
        made_name env (blob_manager b) f \<and>
        (\<exists>buffer. stream_content st = Some buffer \<and> stored env db col (KString f) buffer (blob_manager b))"
  shows "blob_inv env db col handed b"
  using assms unfolding blob_inv_def by blast

lemma blob_inv_dest:
  assumes "blob_inv env db col handed b"
  shows "activeFile b = Some (name, buffer) \<Longrightarrow> made_name env (blob_manager b) name \<and> length buffer < 2 ^ 63"
    "(r, data) \<in> set handed \<Longrightarrow> made_name env (blob_manager b) (data_file r) \<and>
        (\<exists>buffer. points_to r buffer data \<and>
           (activeFile b = Some (data_file r, buffer) \<or>
            (\<forall>nb. activeFile b = Some nb \<longrightarrow> fst nb \<noteq> data_file r) \<and>
            stored env db col (KString (data_file r)) buffer (blob_manager b)))"
    "(f, st) \<in> set (readStreams b) \<Longrightarrow> \<not> stream_failed st \<and> (\<forall>nb. activeFile b = Some nb \<longrightarrow> fst nb \<noteq> f) \<and>
        made_name env (blob_manager b) f \<and>
        (\<exists>buffer. stream_content st = Some buffer \<and> stored env db col (KString f) buffer (blob_manager b))"
  using assms unfolding blob_inv_def by blast+

context file_handler
begin

lemma commitActiveFile_inv:
  assumes h: "fsHandler env = h" and laws: "ref_store_laws (dbHandler env)" "fresh_uuids env n" and u: "unreserved metadata"
    and good: "uploads_succeed env db col metadata" and n: "made (blob_manager b) < n" and inv: "blob_inv env db col handed b"
  shows "\<exists>b'. commitActiveFile env db col metadata b = (Inr (), b') \<and> activeFile b' = None \<and>
    made (blob_manager b') \<le> Suc (made (blob_manager b)) \<and> readStreams b' = readStreams b \<and> blob_inv env db col handed b'"
proof (cases "activeFile b")
  case None
  then show ?thesis using inv by (simp add: commitActiveFile_def)
next
  case (Some nb)
  then obtain name buffer where a: "activeFile b = Some (name, buffer)" by (cases nb) auto
  let ?m = "blob_manager b"
  obtain m' where up: "uploadFileAndCommit env db col (KString name) buffer metadata NoEncoding ?m = (Inr True, m')"
    using good unfolding uploads_succeed_def by (metis prod.collapse)
  let ?b = "b\<lparr>blob_manager := m', activeFile := None\<rparr>"
  have new: "stored env db col (KString name) buffer m'" "made m' = Suc (made ?m)"
    using upload_stored [OF h laws u up] by (simp_all add: encode_def)
  have keep: "stored env db col (KString f) c m'" if "stored env db col (KString f) c ?m" "f \<noteq> name" for f c
    using upload_keeps [OF h laws u up _ that(1) n] that(2) by simp
  have mono: "made_name env m' f" if "made_name env ?m f" for f using made_name_mono [OF that] new(2) by simp
  have "made_name env m' (data_file r) \<and> (\<exists>c. points_to r c data \<and> stored env db col (KString (data_file r)) c m')"
    if r: "(r, data) \<in> set handed" for r data
    using blob_inv_dest(2) [OF inv r] a new keep mono by (cases "data_file r = name") auto
  moreover have "\<not> stream_failed st \<and> made_name env m' f \<and>
      (\<exists>c. stream_content st = Some c \<and> stored env db col (KString f) c m')"
    if st: "(f, st) \<in> set (readStreams b)" for f st
    using blob_inv_dest(3) [OF inv st] a keep mono by auto
  ultimately have "blob_inv env db col handed ?b" by (auto simp: blob_inv_def)
  then show ?thesis using a up new(2) by (simp add: commitActiveFile_def)
qed

lemma insertBinary_inv:
  assumes h: "fsHandler env = h" and laws: "ref_store_laws (dbHandler env)" "fresh_uuids env n" and u: "unreserved metadata"
    and good: "uploads_succeed env db col metadata" and n: "Suc (made (blob_manager b)) < n"
    and inv: "blob_inv env db col handed b" and len: "length data < 2 ^ 62"
  shows "\<exists>r b'. insertBinary env db col metadata data b = (Inr r, b') \<and>
    made (blob_manager b') \<le> Suc (Suc (made (blob_manager b))) \<and> blob_inv env db col ((r, data) # handed) b'"
proof -
  let ?full = "case activeFile b of None \<Rightarrow> True | Some (_, buffer) \<Rightarrow> length buffer + length data > MAX_FILE_SIZE_BYTES"
  obtain b1 name buffer where b1: "(if ?full then newActiveFile env db col metadata b else (Inr (), b)) = (Inr (), b1)"
      "activeFile b1 = Some (name, buffer)" "blob_inv env db col handed b1" "length buffer + length data < 2 ^ 63"
      "made (blob_manager b1) \<le> Suc (Suc (made (blob_manager b)))"
  proof (cases ?full)
    case False
    then obtain name buffer where "activeFile b = Some (name, buffer)" "length buffer + length data \<le> MAX_FILE_SIZE_BYTES"
      by (auto split: option.splits)
    then show ?thesis using that [of b name buffer] False inv by (auto simp: MAX_FILE_SIZE_BYTES_def)
  next
    case True
    have n': "made (blob_manager b) < n" using n by simp
    obtain b0 where b0: "commitActiveFile env db col metadata b = (Inr (), b0)" "activeFile b0 = None"
        "made (blob_manager b0) \<le> Suc (made (blob_manager b))" "blob_inv env db col handed b0"
      using commitActiveFile_inv [OF h laws u good n' inv] by blast
    let ?m = "blob_manager b0"
    let ?b1 = "b0\<lparr>activeFile := Some (uuid_name env (made ?m), []), blob_manager := ?m\<lparr>made := Suc (made ?m)\<rparr>\<rparr>"
    have lt: "made ?m < n" using b0(3) n by simp
    have stored_same: "stored env db col k c (?m\<lparr>made := Suc (made ?m)\<rparr>)" if "stored env db col k c ?m" for k c
    proof -
      have "getFileRef env db col k (?m\<lparr>made := Suc (made ?m)\<rparr>) = getFileRef env db col k ?m" by (simp add: getFileRef_def)
      then show ?thesis using that unfolding stored_def by (auto intro: exI [of _ "_ :: nat"] less_SucI)
    qed
    have other: "made_name env (?m\<lparr>made := Suc (made ?m)\<rparr>) f \<and> f \<noteq> uuid_name env (made ?m)" if "made_name env ?m f" for f
      using made_name_fresh [OF laws(2) lt that] made_name_mono [OF that] by simp
    have "blob_inv env db col handed ?b1"
    proof (rule blob_invI, goal_cases)
      case (1 nm buf)
      then show ?case by (auto simp: made_name_def)
    next
      case (2 r d)
      then show ?case using blob_inv_dest(2) [OF b0(4) 2] b0(2) other stored_same by fastforce
    next
      case (3 f st)
      then have "(f, st) \<in> set (readStreams b0)" by simp
      from blob_inv_dest(3) [OF b0(4) this] show ?case using other stored_same by fastforce
    qed
    then show ?thesis using that [of ?b1 "uuid_name env (made ?m)" "[]"] True b0(1,3) len
      by (simp add: newActiveFile_def Let_def)
  qed
  let ?r = "\<lparr>data_file = name, data_start = of_nat (length buffer), data_size = of_nat (length data)\<rparr>"
  let ?b' = "b1\<lparr>activeFile := Some (name, buffer @ data)\<rparr>"
  have len': "length (buffer @ data) < 2 ^ 63" using b1(4) by simp
  have active: "made_name env (blob_manager b1) name" using blob_inv_dest(1) [OF b1(3,2)] by simp
  have "\<exists>c. points_to r c d \<and> (activeFile ?b' = Some (data_file r, c) \<or>
        (\<forall>nb. activeFile ?b' = Some nb \<longrightarrow> fst nb \<noteq> data_file r) \<and> stored env db col (KString (data_file r)) c (blob_manager b1))"
    if rd: "(r, d) \<in> set ((?r, data) # handed)" for r d
  proof (cases "(r, d) = (?r, data)")
    case True
    then show ?thesis using points_to_new [OF b1(4)] by auto
  next
    case False
    then have "(r, d) \<in> set handed" using rd by auto
    then obtain c where c: "points_to r c d" "activeFile b1 = Some (data_file r, c) \<or>
        (\<forall>nb. activeFile b1 = Some nb \<longrightarrow> fst nb \<noteq> data_file r) \<and> stored env db col (KString (data_file r)) c (blob_manager b1)"
      using blob_inv_dest(2) [OF b1(3)] by blast
    then show ?thesis using b1(2) points_to_append [OF c(1) ] len' by (cases "data_file r = name") auto
  qed
  moreover have "made_name env (blob_manager b1) (data_file r)" if "(r, d) \<in> set ((?r, data) # handed)" for r d
    using that active blob_inv_dest(2) [OF b1(3)] by auto
  moreover have "\<not> stream_failed st \<and> f \<noteq> name \<and> made_name env (blob_manager b1) f \<and>
      (\<exists>c. stream_content st = Some c \<and> stored env db col (KString f) c (blob_manager b1))"
    if "(f, st) \<in> set (readStreams b1)" for f st
    using blob_inv_dest(3) [OF b1(3) that] b1(2) by auto
  ultimately have "blob_inv env db col ((?r, data) # handed) ?b'"
  proof (intro blob_invI, goal_cases)
    case (1 nm buf)
    then show ?case using active len' by simp
  next
    case (2 q d)
    show ?case using 2(1) [OF 2(4)] 2(2) [OF 2(4)] by simp
  next
    case (3 f st)
    have "(f, st) \<in> set (readStreams b1)" using 3(4) by simp
    from 3(3) [OF this] show ?case by auto
  qed
  moreover have "insertBinary env db col metadata data b = (Inr ?r, ?b')"
    using b1(1,2) by (simp add: insertBinary_def Let_def)
  ultimately show ?thesis using b1(5) by (intro exI [of _ ?r] exI [of _ ?b']) simp
qed

lemma readToBuffer_inv:
  assumes h: "fsHandler env = h" and inv: "blob_inv env db col handed b" and r: "(r, data) \<in> set handed" and closed: "activeFile b = None"
  shows "\<exists>b'. readToBuffer env db col r b = (Inr data, b') \<and> activeFile b' = None \<and> blob_inv env db col handed b'"
proof -
  obtain c where c: "points_to r c data" "stored env db col (KString (data_file r)) c (blob_manager b)"
      "made_name env (blob_manager b) (data_file r)"
    using blob_inv_dest(2) [OF inv r] closed by auto
  have str: "getFileStream env db col (data_file r) (blob_manager b) = Inr (Some c)" using stored_getFile(2) [OF h c(2)] by simp
  have same: "stream_content st = Some c \<and> \<not> stream_failed st" if "map_of (readStreams b) (data_file r) = Some st" for st
    using blob_inv_dest(3) [OF inv map_of_SomeD [OF that]] stored_getFile(2) [OF h] str by fastforce
  define st where "st = (case map_of (readStreams b) (data_file r) of Some st \<Rightarrow> st | None \<Rightarrow> \<lparr>stream_content = Some c, stream_failed = False\<rparr>)"
  have st: "stream_content st = Some c" "\<not> stream_failed st" using same by (auto simp: st_def split: option.splits)
  let ?b = "b\<lparr>readStreams := AList.update (data_file r) st (readStreams b)\<rparr>"
  have "readToBuffer env db col r b = (Inr data, ?b)"
    using read_at_points_to [OF c(1) st] str by (auto simp: readToBuffer_def st_def split: option.splits)
  moreover have "blob_inv env db col handed ?b"
  proof (rule blob_invI, goal_cases)
    case (1 nm buf)
    then show ?case using closed by simp
  next
    case (2 r d)
    then show ?case using blob_inv_dest(2) [OF inv 2] by simp
  next
    case (3 f s)
    then have "(f, s) = (data_file r, st) \<or> (f, s) \<in> set (readStreams b)"
      using set_update_subset [of "data_file r" st "readStreams b"] by auto
    then show ?case using blob_inv_dest(3) [OF inv, of f s] closed st c(2,3) by auto
  qed
  ultimately show ?thesis using closed by simp
qed

end

text \<open>Inserting a list of binaries, and reading back a list of references.\<close>

fun insert_all ::
  "('s, 'd) manager_env \<Rightarrow> string \<Rightarrow> string \<Rightarrow> ref_metadata \<Rightarrow> bytes list \<Rightarrow> ('s, 'd) blob \<Rightarrow> DataRef list result \<times> ('s, 'd) blob" where
  "insert_all env db col metadata [] b = (Inr [], b)"
| "insert_all env db col metadata (x # xs) b =
     (case insertBinary env db col metadata x b of
        (Inl e, b) \<Rightarrow> (Inl e, b)
      | (Inr r, b) \<Rightarrow> (case insert_all env db col metadata xs b of
          (Inl e, b) \<Rightarrow> (Inl e, b) | (Inr rs, b) \<Rightarrow> (Inr (r # rs), b)))"

fun read_all :: "('s, 'd) manager_env \<Rightarrow> string \<Rightarrow> string \<Rightarrow> DataRef list \<Rightarrow> ('s, 'd) blob \<Rightarrow> bytes list result \<times> ('s, 'd) blob" where
  "read_all env db col [] b = (Inr [], b)"
| "read_all env db col (r # rs) b =
     (case readToBuffer env db col r b of
        (Inl e, b) \<Rightarrow> (Inl e, b)
      | (Inr x, b) \<Rightarrow> (case read_all env db col rs b of (Inl e, b) \<Rightarrow> (Inl e, b) | (Inr xs, b) \<Rightarrow> (Inr (x # xs), b)))"

context file_handler
begin

lemma insert_all_inv:
  assumes h: "fsHandler env = h" and laws: "ref_store_laws (dbHandler env)" "fresh_uuids env n" and u: "unreserved metadata"
    and good: "uploads_succeed env db col metadata"
  shows "made (blob_manager b) + 2 * length xs < n \<Longrightarrow> \<forall>x \<in> set xs. length x < 2 ^ 62 \<Longrightarrow> blob_inv env db col handed b \<Longrightarrow>
    \<exists>rs b'. insert_all env db col metadata xs b = (Inr rs, b') \<and> length rs = length xs \<and>
      made (blob_manager b') \<le> made (blob_manager b) + 2 * length xs \<and>
      blob_inv env db col (rev (zip rs xs) @ handed) b'"
proof (induction xs arbitrary: b handed)
  case (Cons x xs)
  have n: "Suc (made (blob_manager b)) < n" "length x < 2 ^ 62" using Cons.prems by simp_all
  obtain r b1 where b1: "insertBinary env db col metadata x b = (Inr r, b1)"
      "made (blob_manager b1) \<le> Suc (Suc (made (blob_manager b)))" "blob_inv env db col ((r, x) # handed) b1"
    using insertBinary_inv [OF h laws u good n(1) Cons.prems(3) n(2)] by blast
  have "made (blob_manager b1) + 2 * length xs < n" "\<forall>x \<in> set xs. length x < 2 ^ 62" using b1(2) Cons.prems by simp_all
  from Cons.IH [OF this b1(3)] obtain rs b2 where b2: "insert_all env db col metadata xs b1 = (Inr rs, b2)" "length rs = length xs"
      "made (blob_manager b2) \<le> made (blob_manager b1) + 2 * length xs" "blob_inv env db col (rev (zip rs xs) @ (r, x) # handed) b2"
    by blast
  then show ?case using b1(1,2) by simp
qed simp

lemma read_all_inv:
  assumes h: "fsHandler env = h"
  shows "blob_inv env db col handed b \<Longrightarrow> activeFile b = None \<Longrightarrow> length rs = length xs \<Longrightarrow> set (zip rs xs) \<subseteq> set handed \<Longrightarrow>
    \<exists>b'. read_all env db col rs b = (Inr xs, b')"
proof (induction rs arbitrary: xs b)
  case (Cons r rs)
  then obtain x ys where xs: "xs = x # ys" "length rs = length ys" by (cases xs) auto
  obtain b1 where "readToBuffer env db col r b = (Inr x, b1)" "activeFile b1 = None" "blob_inv env db col handed b1"
    using readToBuffer_inv [OF h Cons.prems(1)] Cons.prems(2,4) xs(1) by fastforce
  then show ?case using Cons.IH [of b1 ys] Cons.prems(4) xs by auto
qed simp

lemma blob_files_read_back:
  assumes h: "fsHandler env = h" and laws: "ref_store_laws (dbHandler env)" "fresh_uuids env n" and u: "unreserved metadata"
    and good: "uploads_succeed env db col metadata" and n: "made m + 2 * length xs < n" and len: "\<forall>x \<in> set xs. length x < 2 ^ 62"
  shows "\<exists>rs b1 b2 b3. insert_all env db col metadata xs \<lparr>blob_manager = m, activeFile = None, readStreams = []\<rparr> = (Inr rs, b1) \<and>
    finished env db col metadata b1 = (Inr (), b2) \<and> read_all env db col rs b2 = (Inr xs, b3)"
proof -
  let ?b = "\<lparr>blob_manager = m, activeFile = None, readStreams = []\<rparr>"
  have b: "blob_inv env db col [] ?b" by (rule blob_invI) simp_all
  have "made (blob_manager ?b) + 2 * length xs < n" using n by simp
  from insert_all_inv [OF h laws u good this len b] obtain rs b1 where b1:
      "insert_all env db col metadata xs ?b = (Inr rs, b1)" "length rs = length xs"
      "made (blob_manager b1) \<le> made m + 2 * length xs" "blob_inv env db col (rev (zip rs xs)) b1" by auto
  have "made (blob_manager b1) < n" using b1(3) n by simp
  from commitActiveFile_inv [OF h laws u good this b1(4)] obtain b2 where b2:
      "commitActiveFile env db col metadata b1 = (Inr (), b2)" "activeFile b2 = None" "blob_inv env db col (rev (zip rs xs)) b2"
    by blast
  obtain b3 where "read_all env db col rs b2 = (Inr xs, b3)"
    using read_all_inv [OF h b2(3,2) b1(2)] by auto
  then show ?thesis using b1(1) b2(1) by (auto simp: finished_def)
qed

end

text \<open>
  C7: binaries packed into blob files come back: with the file system handler, a database that keeps
  documents by identifier and uploads that succeed, inserting any binaries never throws, and after
  finishing, reading the references that were handed out gives exactly the binaries, also when
  several of them share a file or one alone exceeds the size limit.
\<close>

theorem blob_binaries_read_back:
  assumes "fsHandler env = fs_ops fs_env dir level" and "ref_store_laws (dbHandler env)" "fresh_uuids env n"
    and "unreserved metadata" and "uploads_succeed env db col metadata"
    and "made m + 2 * length xs < n" and "\<forall>x \<in> set xs. length x < 2 ^ 62"
  shows "\<exists>rs b1 b2 b3. insert_all env db col metadata xs \<lparr>blob_manager = m, activeFile = None, readStreams = []\<rparr> = (Inr rs, b1) \<and>
    finished env db col metadata b1 = (Inr (), b2) \<and> read_all env db col rs b2 = (Inr xs, b3)"
  using fs.blob_files_read_back [OF assms] .

theorem blob_binaries_read_back_witness:
  "\<exists>rs b1 b2 b3. insert_all sample_manager_env ''db'' ''col'' [] [[1, 2], [3]] \<lparr>blob_manager = empty_manager, activeFile = None, readStreams = []\<rparr> = (Inr rs, b1) \<and>
    finished sample_manager_env ''db'' ''col'' [] b1 = (Inr (), b2) \<and> read_all sample_manager_env ''db'' ''col'' rs b2 = (Inr [[1, 2], [3]], b3)"
proof -
  have "ref_store_laws (dbHandler sample_manager_env)" "unreserved []" "uploads_succeed sample_manager_env ''db'' ''col'' []"
    by (simp_all add: sample_manager_simps map_db_laws unreserved_def uploads_succeed_def sample_uploads_succeed)
  from blob_binaries_read_back [OF sample_manager_simps(1) this(1) sample_fresh this(2,3), of empty_manager "[[1, 2], [3]]"]
  show ?thesis by (simp add: empty_manager_def)
qed

text \<open>
  C31: the size of blob files: inserting appends to the active file or starts a new one, and the reference spans
  exactly the bytes that were added at the end of the active file; a file that holds more than one
  binary never exceeds the limit of one hundred megabytes.
\<close>

theorem insertBinary_bounds:
  assumes "insertBinary env db col metadata data b = (Inr r, b')" and "length data < 2 ^ 62"
  shows "\<exists>buffer. activeFile b' = Some (data_file r, buffer @ data) \<and>
    unat (data_start r) = length buffer \<and> unat (data_size r) = length data \<and>
    (buffer \<noteq> [] \<longrightarrow> activeFile b = Some (data_file r, buffer) \<and> length (buffer @ data) \<le> MAX_FILE_SIZE_BYTES)"
proof -
  let ?full = "case activeFile b of None \<Rightarrow> True | Some (_, buffer) \<Rightarrow> length buffer + length data > MAX_FILE_SIZE_BYTES"
  obtain b1 name buffer where b1: "(if ?full then newActiveFile env db col metadata b else (Inr (), b)) = (Inr (), b1)"
      "activeFile b1 = Some (name, buffer)"
      "r = \<lparr>data_file = name, data_start = of_nat (length buffer), data_size = of_nat (length data)\<rparr>"
      "b' = b1\<lparr>activeFile := Some (name, buffer @ data)\<rparr>"
    using assms(1) by (auto simp: insertBinary_def Let_def split: prod.splits sum.splits option.splits)
  show ?thesis
  proof (cases ?full)
    case True
    then have "buffer = []"
      using b1(1,2) by (auto simp: newActiveFile_def Let_def split: prod.splits sum.splits)
    then show ?thesis using b1(2,3,4) assms(2) by (simp add: unat_of_nat_64)
  next
    case False
    then have "b1 = b" "length buffer + length data \<le> MAX_FILE_SIZE_BYTES" using b1(1,2) by (auto split: option.splits)
    then show ?thesis using b1(2,3,4) assms(2) by (simp add: unat_of_nat_64 MAX_FILE_SIZE_BYTES_def)
  qed
qed

theorem insertBinary_bounds_witness:
  "let b = \<lparr>blob_manager = empty_manager, activeFile = Some (''f'', [9]), readStreams = []\<rparr> in
   \<exists>r b'. insertBinary sample_manager_env ''db'' ''col'' [] [1, 2] b = (Inr r, b') \<and>
     activeFile b' = Some (''f'', [9, 1, 2]) \<and> unat (data_start r) = 1"
proof -
  let ?b = "\<lparr>blob_manager = empty_manager, activeFile = Some (''f'', [9]), readStreams = []\<rparr>"
  let ?r = "\<lparr>data_file = ''f'', data_start = 1, data_size = 2\<rparr>"
  have r: "insertBinary sample_manager_env ''db'' ''col'' [] [1, 2] ?b = (Inr ?r, ?b\<lparr>activeFile := Some (''f'', [9, 1, 2])\<rparr>)"
    by (simp add: insertBinary_def Let_def MAX_FILE_SIZE_BYTES_def)
  have "\<exists>buffer. activeFile (?b\<lparr>activeFile := Some (''f'', [9, 1, 2])\<rparr>) = Some (data_file ?r, buffer @ [1, 2]) \<and>
      unat (data_start ?r) = length buffer"
    using insertBinary_bounds [OF r] by auto
  with r show ?thesis by (auto simp: Let_def)
qed

lemma data_ref_roundtrip:
  "DataRef_deserialise (DataRef_serialise r) = Inr r"
  by (simp add: DataRef_deserialise_def DataRef_serialise_def getStringField_def getLongField_def binary_labels)

end
