(* ===== verification/SceneStore.thy ===== *)
theory SceneStore
  imports SceneCommit FileService
begin

text \<open>
  What committing and loading a scene do, over the definitions of \<open>SceneCommit\<close>: what a failed commit keeps, what a
  successful one leaves behind, and that the nodes a commit stores are the nodes the scene loads.
\<close>

subsection \<open>Rules for actions\<close>

lemmas act_defs = areturn_def aresult_def agets_def amodify_def

lemma abind_cases:
  assumes "abind a f w = (r, w')"
  obtains (throws) e where "a w = (Inl e, w')" "r = Inl e"
    | (goes_on) x w1 where "a w = (Inr x, w1)" "f x w1 = (r, w')"
  using assms by (auto simp: abind_def split: prod.splits sum.splits)

lemma abind_Inr: "abind a f w = (Inr y, w') \<longleftrightarrow> (\<exists>x w1. a w = (Inr x, w1) \<and> f x w1 = (Inr y, w'))"
  by (auto simp: abind_def split: prod.splits sum.splits)

lemma act_simps [simp]:
  "abind (areturn x) f = f x" "abind (aresult (Inr x)) f = f x" "abind (agets g) f w = f (g w) w"
  "abind (amodify h) k w = k () (h w)"
  by (simp_all add: abind_def act_defs fun_eq_iff)

text \<open>An action preserves a view of the state when no outcome of it, a throw included, changes the view.\<close>

definition preserves :: "('w \<Rightarrow> 'v) \<Rightarrow> ('w, 'a) act \<Rightarrow> bool" where
  "preserves v a \<longleftrightarrow> (\<forall>w. v (snd (a w)) = v w)"

lemma preserves_abind [inv_intros]:
  assumes "preserves v a" "\<And>x. preserves v (f x)"
  shows "preserves v (abind a f)"
  unfolding preserves_def
proof
  fix w
  obtain r w1 where a: "a w = (r, w1)" by fastforce
  then have "v w1 = v w" using assms(1) unfolding preserves_def by (metis snd_conv)
  then show "v (snd (abind a f w)) = v w" using assms(2) a by (auto simp: abind_def preserves_def split: sum.splits)
qed

lemma preserves_basic [inv_intros]:
  "preserves v (areturn x)" "preserves v (aresult r)" "preserves v (agets g)"
  "(\<And>w. v (h w) = v w) \<Longrightarrow> preserves v (amodify h)"
  by (simp_all add: preserves_def act_defs)

lemma preserves_atraverse [inv_intros]: "(\<And>x. preserves v (g x)) \<Longrightarrow> preserves v (atraverse g xs)"
  by (induction xs) (auto intro!: inv_intros)

lemma preserves_if [inv_intros]: "preserves v a \<Longrightarrow> preserves v b \<Longrightarrow> preserves v (if c then a else b)"
  by simp

lemma preservesD: "preserves v a \<Longrightarrow> a w = (r, w') \<Longrightarrow> v w' = v w"
  by (metis preserves_def snd_conv)

text \<open>What committing the revision keeps of a scene: everything but the revision node it loads.\<close>

definition kept :: "('s, 'd) commit_state \<Rightarrow> RepoScene" where
  "kept w = (scene w)\<lparr>revNode := None, worldOffset := [], unRevisioned := False, commitMsg := []\<rparr>"

lemma kept_fields:
  assumes "kept w' = kept w"
  shows "branch (scene w') = branch (scene w)" "newAdded (scene w') = newAdded (scene w)" "graph (scene w') = graph (scene w)"
    "heap (scene w') = heap (scene w)"
  using assms [THEN arg_cong [where f = branch]] assms [THEN arg_cong [where f = newAdded]]
    assms [THEN arg_cong [where f = graph]] assms [THEN arg_cong [where f = heap]]
  by (simp_all add: kept_def)

lemma preserves_kept [inv_intros]:
  "preserves kept (set_err msg)" "preserves kept (on_db q1)" "preserves kept (from_db q2)" "preserves kept (upload env db col key bin)"
  "(\<And>s. (f s)\<lparr>revNode := None, worldOffset := [], unRevisioned := False, commitMsg := []\<rparr> =
         s\<lparr>revNode := None, worldOffset := [], unRevisioned := False, commitMsg := []\<rparr>) \<Longrightarrow> preserves kept (upd_scene f)"
  by (simp_all add: preserves_def kept_def set_err_def on_db_def from_db_def upload_def upd_scene_def amodify_def
      split: prod.splits)

lemma preserves_loadRevision [inv_intros]: "preserves kept (loadRevision h st)"
  unfolding loadRevision_def Let_def by (auto intro!: inv_intros split: option.splits)

lemma preserves_store_files [inv_intros]: "preserves kept (store_files env s fs ok)"
proof (induction fs arbitrary: ok)
  case (Cons x fs)
  have "preserves kept (store_file env s x b)" for b
    unfolding store_file_def by (auto intro!: inv_intros split: file_read.splits)
  then show ?case using Cons by (auto intro!: inv_intros)
qed (auto intro!: inv_intros)

lemma preserves_commitRevisionNode: "preserves kept (commitRevisionNode env h user msg label rid)"
  unfolding commitRevisionNode_def Let_def by (auto intro!: inv_intros split: option.splits)


lemma committed_revision:
  assumes "commitRevisionNode env h user msg label rid w = (Inr (True, n), w')"
  shows "\<exists>r. n = Some r \<and> uniqueId r = rid \<and> sharedId r = branch (scene w) \<and> upload_status (revision_content r) = GEN_DEFAULT"
proof -
  let ?l = "if \<not> unRevisioned (scene w) \<and> revNode (scene w) = None then loadRevision (Some h) [] else areturn True"
  obtain w1 where l: "?l w = (Inr True, w1)" and
    n: "\<exists>ps. n = Some (updateStatus GEN_DEFAULT (makeRevisionNode (time_now env) user (branch (scene w1)) rid
          (map (revision_file_name env rid) (refFiles (scene w1))) ps (worldOffset (scene w1)) msg label))"
    using assms unfolding commitRevisionNode_def
    by (auto simp: abind_Inr act_defs Let_def split: if_splits)
  have "preserves kept ?l" by (auto intro!: inv_intros)
  from kept_fields(1) [OF preservesD [OF this l]] have "branch (scene w1) = branch (scene w)" .
  then show ?thesis using n by (auto simp: updateStatus_def makeRevisionNode_def revision_content_def RepoNode_default_def)
qed

lemma preserves_scene [inv_intros]: "preserves scene (on_db q)" "preserves scene (upload env db col key bin)"
  by (simp_all add: preserves_def on_db_def upload_def split: prod.splits)

lemma preserves_commitSequence: "preserves scene (commitSequence env h rid)"
  unfolding commitSequence_def Let_def
  by (auto intro!: inv_intros simp del: act_simps split: prod.splits)

text \<open>
  C3: what a commit leaves behind when it returns a code: after 0 nothing is pending any more and the scene is at
  the new revision, whose node is marked as not generated yet; after any other code (the maximum of nodes, or
  the upload failed) the scene keeps its graph and all its pending changes, so that it can be committed again.
\<close>

theorem commit_outcome:
  assumes "commit env h user msg label rid w = (Inr code, w')"
  shows "(code = REPOERR_OK \<and>
            newAdded (scene w') = {||} \<and> newRemoved (scene w') = {||} \<and> newModified (scene w') = {||} \<and>
            toRemove (scene w') = [] \<and> commitMsg (scene w') = [] \<and> \<not> unRevisioned (scene w') \<and> revision (scene w') = rid \<and>
            (\<exists>r. revNode (scene w') = Some r \<and> uniqueId r = rid \<and> sharedId r = branch (scene w) \<and>
               upload_status (revision_content r) = GEN_DEFAULT)) \<or>
         (code \<in> {REPOERR_MAX_NODES_EXCEEDED, REPOERR_UPLOAD_FAILED} \<and> kept w' = kept w)"
proof -
  have fail: "failure_code e \<in> {REPOERR_MAX_NODES_EXCEEDED, REPOERR_UPLOAD_FAILED}" for e
    by (simp add: failure_code_def)
  have err: "set_err m w = (Inr (), w\<lparr>errMsg := m\<rparr>)" for m by (simp add: set_err_def amodify_def)
  have errk: "kept (w\<lparr>errMsg := m\<rparr>) = kept w" for m by (simp add: kept_def)
  show ?thesis
  proof (cases h)
    case None
    then show ?thesis using assms by (auto simp: commit_def err abind_def areturn_def errk)
  next
    case (Some hd)
    let ?set = "if msg \<noteq> [] then upd_scene (\<lambda>s. s\<lparr>commitMsg := msg\<rparr>) else areturn ()"
    show ?thesis
    proof (cases "databaseName (scene w) = [] \<or> projectName (scene w) = [] \<or> rootNode (graph (scene w)) = null")
      case True
      then show ?thesis using assms by (auto simp: commit_def err Some abind_def agets_def areturn_def errk split: if_splits)
    next
      case False
      have "preserves kept ?set" by (auto intro!: inv_intros)
      obtain w1 where w1: "?set w = (Inr (), w1)" by (cases "msg = []") (auto simp: upd_scene_def act_defs)
      have k1: "kept w1 = kept w" by (rule preservesD [OF \<open>preserves kept ?set\<close> w1])
      have b1: "branch (scene w1) = branch (scene w)" using kept_fields(1) k1 .
      obtain ok n w2 where r: "commitRevisionNode env hd user (commitMsg (scene w1)) label rid w1 = (Inr (ok, n), w2)"
          "(if \<not> ok then abind (agets errMsg) (\<lambda>e. areturn (failure_code e))
            else case n of None \<Rightarrow> aresult (Inl NullDeref)
                 | Some r \<Rightarrow> abind (commitSceneChanges env hd rid) (\<lambda>_. abind (upd_scene (committed r)) (\<lambda>_.
                     abind (commitSequence env hd (uniqueId r)) (\<lambda>_. areturn REPOERR_OK)))) w2 = (Inr code, w')"
        using assms False w1 by (auto simp: commit_def Some abind_Inr agets_def)
      have k2: "kept w2 = kept w" using preservesD [OF preserves_commitRevisionNode r(1)] k1 by simp
      show ?thesis
      proof (cases ok)
        case False
        then show ?thesis using r(2) k2 fail by (auto simp: areturn_def)
      next
        case True
        obtain rn where rn: "n = Some rn" "uniqueId rn = rid" "sharedId rn = branch (scene w)"
            "upload_status (revision_content rn) = GEN_DEFAULT"
          using committed_revision r(1) True b1 by metis
        obtain x w3 w4 where w3: "commitSequence env hd rid (w3\<lparr>scene := committed rn (scene w3)\<rparr>) = (Inr x, w4)"
            "areturn REPOERR_OK w4 = (Inr code, w')"
          using r(2) True rn(1,2) by (auto simp: abind_Inr upd_scene_def amodify_def)
        have "scene w' = committed rn (scene w3)" "code = REPOERR_OK"
          using preservesD [OF preserves_commitSequence w3(1)] w3(2) by (simp_all add: areturn_def)
        then show ?thesis using rn by (auto simp: committed_def)
      qed
    qed
  qed
qed

subsection \<open>Loading does not throw\<close>

text \<open>What a load needs to go on: every pointer in the node sets and the root can be read.\<close>

definition sets_live :: "GraphType \<Rightarrow> RepoScene \<Rightarrow> bool" where
  "sets_live gt s \<longleftrightarrow> (\<forall>c. \<forall>p \<in> set (get_collection c (graph_of gt s)). \<exists>n. live s p n) \<and>
     (rootNode (graph_of gt s) = null \<or> (\<exists>n. live s (rootNode (graph_of gt s)) n))"

definition root_candidate :: "RepoNode \<Rightarrow> bool" where
  "root_candidate n \<longleftrightarrow> is_transformation n \<and> parentIds n = {||}"

lemma get_put_collection: "get_collection c (put_collection d ps g) = (if c = d then ps else get_collection c g)"
  by (cases c; cases d) simp_all

lemma get_collection_empty [simp]: "get_collection c empty_graph = []"
  by (cases c) (simp_all add: empty_graph_def)

lemma set_insert_Inr:
  assumes "live s p n" "\<forall>q \<in> set qs. \<exists>m. live s q m"
  shows "\<exists>ps. set_insert s p qs = Inr ps \<and> set ps \<subseteq> insert p (set qs)"
  using assms(2)
proof (induction qs)
  case (Cons q qs)
  then obtain m ps where "live s q m" "set_insert s p qs = Inr ps" "set ps \<subseteq> insert p (set qs)" by auto
  then show ?case using assms(1) by auto
qed simp

lemma get_collection_maps [simp]:
  "get_collection c (g\<lparr>rootNode := r\<rparr>) = get_collection c g"
  "get_collection c (g\<lparr>nodesByUniqueID := us, sharedIDtoUniqueID := shs\<rparr>) = get_collection c g"
  "get_collection c (push_child par p g) = get_collection c g"
  by (cases c; simp add: push_child_def)+

lemma get_collection_fold_push: "get_collection c (fold (\<lambda>par. push_child par p) ps g) = get_collection c g"
  by (induction ps arbitrary: g) auto

lemma choose_root_Inr:
  assumes "root = null \<or> (\<exists>m. live s root m)" "root \<noteq> null \<Longrightarrow> \<not> is_transformation n"
  shows "\<exists>r. choose_root s p n root = Inr r \<and> (r = null \<or> r = p \<and> is_transformation n \<or> r = root) \<and>
    (r \<noteq> null \<longrightarrow> root \<noteq> null \<or> is_transformation n)"
proof (cases "root = null")
  case False
  have "getTypeAsEnum n \<noteq> TRANSFORMATION" using assms(2) [OF False]
    by (cases "content n") (simp_all add: getTypeAsEnum_def is_transformation_def parseType_def node_type_labels)
  moreover obtain m where "live s root m" using assms(1) False by blast
  ultimately show ?thesis using False by (simp add: choose_root_def Let_def)
qed (simp add: choose_root_def)

lemma populate_step_Inr:
  assumes "heap_ok s" "sets_live gt s" "node_of_bson gm b = Some (Inr n)" "getStringField b REPO_NODE_LABEL_TYPE = Inr t"
    and "rootNode (graph_of gt s) \<noteq> null \<Longrightarrow> \<not> root_candidate n"
  shows "\<exists>s'. populate_step gm gt b s = Inr s' \<and> heap_ok s' \<and> sets_live gt s' \<and>
    (rootNode (graph_of gt s') \<noteq> null \<longrightarrow> rootNode (graph_of gt s) \<noteq> null \<or> root_candidate n)"
proof -
  obtain p s1 where a: "alloc n s = (p, s1)" by fastforce
  note al = alloc_props [OF a assms(1)]
  let ?c = "populate_collection t" and ?g = "graph_of gt s"
  have old: "\<exists>m. live s1 q m" if "q \<in> set (get_collection c ?g)" for q c
    using that assms(2) al(3) unfolding sets_live_def by blast
  then have "\<forall>q \<in> set (get_collection ?c ?g). \<exists>m. live s1 q m" by blast
  then obtain ps where ps: "set_insert s1 p (get_collection ?c ?g) = Inr ps" "set ps \<subseteq> insert p (set (get_collection ?c ?g))"
    using set_insert_Inr [OF al(1)] by blast
  let ?s2 = "set_graph gt (put_collection ?c ps ?g) s1"
  have ins: "collection_insert gt ?c p s1 = Inr ?s2" using ps(1) by (simp add: collection_insert_def al(4))
  have root: "rootNode ?g = null \<or> (\<exists>m. live s1 (rootNode ?g) m)" using assms(2) al(3) by (meson sets_live_def)
  have new_sets: "\<exists>m. live s1 q m" if "q \<in> set (get_collection c (put_collection ?c ps ?g))" for q c
    using that ps(2) al(1) old by (cases "c = ?c") (auto simp: get_put_collection)
  show ?thesis
  proof (cases "parentIds n = {||}")
    case False
    let ?g' = "fold (\<lambda>par. push_child par p) (getParentIDs n) (put_collection ?c ps ?g)"
    let ?s' = "set_graph gt (?g'\<lparr>nodesByUniqueID := AList.update (uniqueId n) p (nodesByUniqueID ?g),
        sharedIDtoUniqueID := AList.update (sharedId n) (uniqueId n) (sharedIDtoUniqueID ?g)\<rparr>) ?s2"
    have "populate_step gm gt b s = Inr ?s'"
      using False a ins al(1) assms(3,4) by (simp add: populate_step_def addNodeToMaps_def Let_def)
    moreover have "sets_live gt ?s'"
      using new_sets root by (simp add: sets_live_def get_collection_fold_push)
    ultimately show ?thesis using al(2) by (intro exI [of _ ?s']) (simp add: heap_ok_def)
  next
    case True
    have "rootNode ?g \<noteq> null \<Longrightarrow> \<not> is_transformation n" using assms(5) True by (simp add: root_candidate_def)
    moreover have "rootNode ?g = null \<or> (\<exists>m. live ?s2 (rootNode ?g) m)" using root by simp
    ultimately obtain r where r: "choose_root ?s2 p n (rootNode ?g) = Inr r" "r = null \<or> r = p \<and> is_transformation n \<or> r = rootNode ?g"
      "r \<noteq> null \<longrightarrow> rootNode ?g \<noteq> null \<or> is_transformation n"
      using choose_root_Inr by blast
    let ?s' = "set_graph gt ((put_collection ?c ps ?g)\<lparr>rootNode := r, nodesByUniqueID := AList.update (uniqueId n) p (nodesByUniqueID ?g),
        sharedIDtoUniqueID := AList.update (sharedId n) (uniqueId n) (sharedIDtoUniqueID ?g)\<rparr>) ?s2"
    have "populate_step gm gt b s = Inr ?s'"
      using True a ins al(1) assms(3,4) r(1) by (simp add: populate_step_def addNodeToMaps_def Let_def)
    moreover have "sets_live gt ?s'"
      using new_sets root r(2) al(1) by (auto simp: sets_live_def get_collection_fold_push)
    ultimately show ?thesis using al(2) r(3) True by (intro exI [of _ ?s']) (simp add: heap_ok_def root_candidate_def)
  qed
qed

lemma populate_Inr:
  assumes "list_all2 (\<lambda>b n. node_of_bson gm b = Some (Inr n) \<and> (\<exists>t. getStringField b REPO_NODE_LABEL_TYPE = Inr t)) bs ns"
    and "heap_ok s" "sets_live gt s"
    and "length (filter root_candidate ns) + (if rootNode (graph_of gt s) = null then 0 else 1) \<le> 1"
  shows "\<exists>s'. populate gm gt bs s = Inr s'"
  using assms
proof (induction bs ns arbitrary: s rule: list_all2_induct)
  case (Cons b bs n ns)
  obtain t where t: "getStringField b REPO_NODE_LABEL_TYPE = Inr t" using Cons.hyps by blast
  have "rootNode (graph_of gt s) \<noteq> null \<Longrightarrow> \<not> root_candidate n" using Cons.prems(3) by (auto split: if_splits)
  then obtain s1 where s1: "populate_step gm gt b s = Inr s1" "heap_ok s1" "sets_live gt s1"
      "rootNode (graph_of gt s1) \<noteq> null \<longrightarrow> rootNode (graph_of gt s) \<noteq> null \<or> root_candidate n"
    using populate_step_Inr [OF Cons.prems(1,2) _ t] Cons.hyps by blast
  then have "length (filter root_candidate ns) + (if rootNode (graph_of gt s1) = null then 0 else 1) \<le> 1"
    using Cons.prems(3) by (auto split: if_splits)
  from Cons.IH [OF s1(2,3) this] show ?case using s1(1) by (simp add: populate_def)
qed (simp add: populate_def)

subsection \<open>Collecting documents\<close>

lemma rtraverse_list_all2: "rtraverse f xs = Inr ys \<Longrightarrow> list_all2 (\<lambda>y x. f x = Inr y) ys xs"
  by (induction xs arbitrary: ys) (auto simp: rbind_Inr_iff)

lemma rtraverse_all_exists: "(\<And>x. x \<in> set xs \<Longrightarrow> \<exists>y. f x = Inr y) \<Longrightarrow> \<exists>ys. rtraverse f xs = Inr ys"
  by (cases "rtraverse f xs", fastforce dest!: rtraverse_Inl, blast)

lemma rtraverse_source: "rtraverse f xs = Inr ys \<Longrightarrow> y \<in> set ys \<Longrightarrow> \<exists>x \<in> set xs. f x = Inr y"
  by (induction xs arbitrary: ys) (auto simp: rbind_Inr_iff)

lemma getBSON_carries:
  assumes "getBSON mk n = Inr b" "content_storable mk gm (content n)" "revId n \<noteq> default_uuid"
  shows "map_of (doc b) REPO_NODE_REVISION_ID = Some (bson_of_uuid (revId n))"
  using node_reads_back [OF assms(2)] assms(1,3) by (auto simp: getBSON_def obj_def make_RepoBSON_def carries_def carries_field_def)

text \<open>
  One round over a well-formed graph finds the node, stamps it in place and yields its document; the graph
  stays, and so do the identifiers, parents and kinds of all nodes.
\<close>

lemma stamp_node_eq:
  assumes "map_of (sharedIDtoUniqueID (graph (scene w))) i = Some u" "map_of (nodesByUniqueID (graph (scene w))) u = Some p"
    and "live (scene w) p n"
  shows "stamp_node env DEFAULT True rid i w =
    (getBSON (make_time (manager_of env)) (setRevision rid n), w\<lparr>scene := store p (setRevision rid n) (scene w)\<rparr>)"
  using assms by (simp add: stamp_node_def shared_index_def unique_index_def graph_of_def set_graph_def Let_def)

lemma stamp_nodes:
  assumes "distinct is" "\<And>i. i \<in> set is \<Longrightarrow> map_of (sharedIDtoUniqueID (graph (scene w))) i = Some (uniqueId (nd i)) \<and>
      map_of (nodesByUniqueID (graph (scene w))) (uniqueId (nd i)) = Some (pt i) \<and> live (scene w) (pt i) (nd i)"
    and "inj_on pt (set is)"
    and "\<And>i. i \<in> set is \<Longrightarrow> getBSON (make_time (manager_of env)) (setRevision rid (nd i)) = Inr (bs i)"
  shows "\<exists>w'. atraverse (stamp_node env DEFAULT True rid) is w = (Inr (map bs is), w') \<and> mgr w' = mgr w \<and> errMsg w' = errMsg w \<and>
    (\<exists>h. scene w' = (scene w)\<lparr>heap := h\<rparr>)"
  using assms
proof (induction "is" arbitrary: w)
  case Nil
  show ?case by (intro exI [of _ w]) (auto simp: areturn_def intro: exI [of _ "heap (scene w)"])
next
  case (Cons i js)
  let ?w1 = "w\<lparr>scene := store (pt i) (setRevision rid (nd i)) (scene w)\<rparr>"
  have step: "stamp_node env DEFAULT True rid i w = (Inr (bs i), ?w1)"
    using Cons.prems(2,4) [of i] stamp_node_eq [of w i "uniqueId (nd i)" "pt i" "nd i" env rid] by simp
  have g: "graph (scene ?w1) = graph (scene w)" by (simp add: store_def)
  have "live (scene ?w1) (pt j) (nd j)" if "j \<in> set js" for j
    using that Cons.prems(1,2) inj_onD [OF Cons.prems(3), of j i] by (auto simp: live_def)
  then have pre: "map_of (sharedIDtoUniqueID (graph (scene ?w1))) j = Some (uniqueId (nd j)) \<and>
      map_of (nodesByUniqueID (graph (scene ?w1))) (uniqueId (nd j)) = Some (pt j) \<and> live (scene ?w1) (pt j) (nd j)"
    if "j \<in> set js" for j using that Cons.prems(2) g by simp
  have "distinct js" "inj_on pt (set js)" using Cons.prems(1,3) by (auto intro: inj_on_subset)
  from Cons.IH [OF this(1) pre this(2) Cons.prems(4)]
  obtain w' h where w': "atraverse (stamp_node env DEFAULT True rid) js ?w1 = (Inr (map bs js), w')" "mgr w' = mgr w" "errMsg w' = errMsg w"
      "scene w' = (scene ?w1)\<lparr>heap := h\<rparr>" by auto
  show ?case
    by (intro exI [of _ w'])
      (use w' in \<open>auto simp: abind_def step areturn_def store_def intro: exI [of _ h]\<close>)
qed

subsection \<open>What is committed is loaded\<close>

definition pending_nodes :: "RepoScene \<Rightarrow> RepoNode list" where
  "pending_nodes s = map (\<lambda>i. the (heap s (getNodeBySharedID DEFAULT i s))) (sorted_list_of_fset (newAdded s))"

text \<open>
  What the code relies on of the handler: documents of a revision that has none yet are found again, in
  order, by the revision they carry.
\<close>

definition returns_revision :: "'d scene_db \<Rightarrow> 'd \<Rightarrow> string \<Rightarrow> string \<Rightarrow> uuid \<Rightarrow> bool" where
  "returns_revision h d db col rid \<longleftrightarrow>
     (\<forall>docs. (\<forall>b \<in> set docs. map_of (doc b) REPO_NODE_REVISION_ID = Some (bson_of_uuid rid)) \<longrightarrow>
        (\<exists>d'. insertManyDocuments h d db col docs = (Inr (), d') \<and>
              findAllByCriteria h d' db col (Eq REPO_NODE_REVISION_ID [VUUID rid]) = Inr docs))"

lemma populate_act_eq:
  "populate gm gt bs (scene w) = Inr s' \<Longrightarrow> w' = w\<lparr>scene := s'\<rparr> \<Longrightarrow> gm = gm_time env \<Longrightarrow>
     populate_act env gt bs w = (Inr True, w')"
proof -
  have "populate (gm_time env) gt bs (scene w) = Inr s' \<Longrightarrow>
     atraverse (\<lambda>bson w. case populate_step (gm_time env) gt bson (scene w) of
           Inl e \<Rightarrow> (Inl e, w) | Inr s \<Rightarrow> (Inr (), w\<lparr>scene := s\<rparr>)) bs w = (Inr (map (\<lambda>_. ()) bs), w\<lparr>scene := s'\<rparr>)"
    by (induction bs arbitrary: w) (auto simp: populate_def areturn_def abind_def rbind_Inr_iff)
  then show "populate gm gt bs (scene w) = Inr s' \<Longrightarrow> w' = w\<lparr>scene := s'\<rparr> \<Longrightarrow> gm = gm_time env \<Longrightarrow>
     populate_act env gt bs w = (Inr True, w')"
    by (simp add: populate_act_def abind_def areturn_def)
qed

lemma pending_found:
  assumes wf: "graph_wf s (graph s)" and i: "i |\<in>| newAdded s" "getNodeBySharedID DEFAULT i s \<noteq> null"
  defines "n \<equiv> the (heap s (getNodeBySharedID DEFAULT i s))"
  shows "map_of (sharedIDtoUniqueID (graph s)) i = Some (uniqueId n)" "sharedId n = i"
    "map_of (nodesByUniqueID (graph s)) (uniqueId n) = Some (getNodeBySharedID DEFAULT i s)"
    "live s (getNodeBySharedID DEFAULT i s) n"
proof -
  obtain u where u: "map_of (sharedIDtoUniqueID (graph s)) i = Some u"
    using i(2) by (auto simp: getNodeBySharedID_def graph_of_def split: option.splits)
  obtain p m where m: "map_of (nodesByUniqueID (graph s)) u = Some p" "live s p m" "sharedId m = i"
    using graph_wf_dest(2) [OF wf u] by blast
  have p: "getNodeBySharedID DEFAULT i s = p" using u m(1) by (simp add: getNodeBySharedID_def getNodeByUniqueID_def graph_of_def)
  have n: "n = m" using m(2) by (simp add: n_def p live_def)
  have "uniqueId m = u" using graph_wf_dest(1) [OF wf m(1)] m(2) live_unique by blast
  then show "map_of (sharedIDtoUniqueID (graph s)) i = Some (uniqueId n)" "sharedId n = i"
    "map_of (nodesByUniqueID (graph s)) (uniqueId n) = Some (getNodeBySharedID DEFAULT i s)"
    "live s (getNodeBySharedID DEFAULT i s) n"
    using u m n p by simp_all
qed

lemma pending_distinct:
  assumes wf: "graph_wf s (graph s)" and "\<forall>i. i |\<in>| newAdded s \<longrightarrow> getNodeBySharedID DEFAULT i s \<noteq> null"
  shows "distinct (map uniqueId (pending_nodes s))"
proof -
  have "map_of (sharedIDtoUniqueID (graph s)) i = Some (uniqueId (the (heap s (getNodeBySharedID DEFAULT i s)))) \<and>
      map_of (nodesByUniqueID (graph s)) (uniqueId (the (heap s (getNodeBySharedID DEFAULT i s)))) = Some (getNodeBySharedID DEFAULT i s) \<and>
      sharedId (the (heap s (getNodeBySharedID DEFAULT i s))) = i" if "i |\<in>| newAdded s" for i
    using pending_found [OF wf that] assms(2) that by simp
  then have "inj_on (\<lambda>i. uniqueId (the (heap s (getNodeBySharedID DEFAULT i s)))) (fset (newAdded s))"
    by (intro inj_onI) (metis option.inject)
  then show ?thesis by (simp add: pending_nodes_def distinct_map sorted_list_of_fset.rep_eq comp_def)
qed

lemma commit_pending:
  fixes w :: "('s, 'd) commit_state"
  assumes wf: "graph_wf (scene w) (graph (scene w))" and new: "newAdded (scene w) \<noteq> {||}" "newModified (scene w) = {||}"
    and found: "\<And>i. i |\<in>| newAdded (scene w) \<Longrightarrow> getNodeBySharedID DEFAULT i (scene w) \<noteq> null"
    and docs: "rtraverse (getBSON (make_time (manager_of env))) (map (setRevision rid) (pending_nodes (scene w))) = Inr bs"
    and ins: "insertManyDocuments h (dbase (mgr w)) (databaseName (scene w)) (project_collection (scene w) REPO_COLLECTION_SCENE) bs
       = (Inr (), d)"
  shows "\<exists>w1. commitSceneChanges env h rid w = (Inr True, w1) \<and> dbase (mgr w1) = d"
proof -
  let ?s = "scene w" and ?is = "sorted_list_of_fset (newAdded (scene w))"
  let ?pt = "\<lambda>i. getNodeBySharedID DEFAULT i ?s" and ?nd = "\<lambda>i. the (heap (scene w) (getNodeBySharedID DEFAULT i (scene w)))"
  have "set ?is = fset (newAdded ?s)" "distinct ?is" by (simp_all add: sorted_list_of_fset.rep_eq)
  note iset = this
  have f: "map_of (sharedIDtoUniqueID (graph ?s)) i = Some (uniqueId (?nd i)) \<and> sharedId (?nd i) = i \<and>
      map_of (nodesByUniqueID (graph ?s)) (uniqueId (?nd i)) = Some (?pt i) \<and> live ?s (?pt i) (?nd i)" if "i \<in> set ?is" for i
    using pending_found [OF wf, of i] found that iset(1) by simp
  have inj: "inj_on ?pt (set ?is)"
    by (rule inj_onI) (metis f)
  have bson: "\<exists>b. getBSON (make_time (manager_of env)) (setRevision rid (?nd i)) = Inr b" if "i \<in> set ?is" for i
    using rtraverse_Inr_all [OF docs] that by (auto simp: pending_nodes_def)
  let ?b = "\<lambda>i. the_result (getBSON (make_time (manager_of env)) (setRevision rid (?nd i))) \<lparr>doc = [], bigFiles = []\<rparr>"
  have b: "getBSON (make_time (manager_of env)) (setRevision rid (?nd i)) = Inr (?b i)" if "i \<in> set ?is" for i
    using bson [OF that] by (auto simp: the_result_def)
  have bs: "bs = map ?b ?is"
    using docs rtraverse_all_Inr [of ?is "\<lambda>i. getBSON (make_time (manager_of env)) (setRevision rid (?nd i))" ?b] b
    by (simp add: pending_nodes_def)
  obtain w' where w': "atraverse (stamp_node env DEFAULT True rid) ?is w = (Inr bs, w')" "mgr w' = mgr w"
    using stamp_nodes [of ?is w ?nd ?pt env rid ?b] iset(2) f inj b bs by blast
  show ?thesis
    using w' new ins by (simp add: commitSceneChanges_def Let_def abind_def on_db_def areturn_def agets_def)
qed


subsection \<open>A small database\<close>

text \<open>Documents in a list with their collections, queried by the values of a field; the witnesses run on it.\<close>

type_synonym list_db = "(string \<times> string \<times> RepoBSON) list"

fun matches :: "RepoQuery \<Rightarrow> RepoBSON \<Rightarrow> bool" where
  "matches (Eq f vs) b = list_ex (\<lambda>v. case bson_of_variant tm_sec v of Inr x \<Rightarrow> map_of (doc b) f = Some x | Inl _ \<Rightarrow> False) vs"
| "matches (Exists f e) b = (hasField b f = e)"
| "matches (Or qs) b = list_ex (\<lambda>q. matches q b) qs"
| "matches (ArrayContains f q) b =
     (case map_of (doc b) f of
        Some (BArray xs) \<Rightarrow> list_ex (\<lambda>x. case x of BDocument d \<Rightarrow> matches q \<lparr>doc = d, bigFiles = []\<rparr> | _ \<Rightarrow> False) xs
      | _ \<Rightarrow> False)"
| "matches (RepoQueryBuilder qs) b = list_all (\<lambda>q. matches q b) qs"
| "matches (RepoProjectionBuilder included excluded) b =
     (list_all (\<lambda>f. map_of (doc b) f = Some (BInt32 1)) included \<and> list_all (\<lambda>f. map_of (doc b) f = Some (BInt32 0)) excluded)"

definition listed :: "(RepoBSON \<Rightarrow> bool) \<Rightarrow> list_db \<Rightarrow> string \<Rightarrow> string \<Rightarrow> RepoBSON list" where
  "listed P d db col = map (\<lambda>(_, _, b). b) (filter (\<lambda>(x, y, b). x = db \<and> y = col \<and> P b) d)"

definition first_of :: "RepoBSON list \<Rightarrow> RepoBSON" where
  "first_of bs = (case bs of b # _ \<Rightarrow> b | [] \<Rightarrow> \<lparr>doc = [], bigFiles = []\<rparr>)"

definition list_handler :: "list_db scene_db" where
  "list_handler = \<lparr>findOneByUniqueID = (\<lambda>d db col k. Inr (first_of (listed (\<lambda>b. map_of (doc b) REPO_LABEL_ID = Some k) d db col))),
     upsertDocument = (\<lambda>d db col b _. (Inr (), (db, col, b) #
        filter (\<lambda>(x, y, c). \<not> (x = db \<and> y = col \<and> map_of (doc c) REPO_LABEL_ID = map_of (doc b) REPO_LABEL_ID)) d)),
     dropDocument = (\<lambda>d b db col. (Inr (),
        filter (\<lambda>(x, y, c). \<not> (x = db \<and> y = col \<and> map_of (doc c) REPO_LABEL_ID = map_of (doc b) REPO_LABEL_ID)) d)),
     insertDocument = (\<lambda>d db col b. (Inr (), d @ [(db, col, b)])),
     insertManyDocuments = (\<lambda>d db col bs. (Inr (), d @ map (\<lambda>b. (db, col, b)) bs)),
     createIndex = (\<lambda>d db col i. (Inr (), d)),
     findOneByCriteria = (\<lambda>d db col q _. Inr (first_of (listed (matches q) d db col))),
     findAllByCriteria = (\<lambda>d db col q. Inr (listed (matches q) d db col))\<rparr>"

lemma list_handler_returns:
  assumes "listed (matches (Eq REPO_NODE_REVISION_ID [VUUID rid])) d db col = []"
  shows "returns_revision list_handler d db col rid"
proof -
  have "listed P (d @ map (\<lambda>b. (db, col, b)) bs) db col = listed P d db col @ filter P bs" for P bs
    by (simp add: listed_def filter_map comp_def)
  then show ?thesis
    using assms by (auto simp: returns_revision_def list_handler_def intro!: filter_True)
qed

definition store_env :: "(file_system, list_db) commit_env" where
  "store_env = \<lparr>manager_of = \<lparr>fsHandler = fs_ops good_env ''/store'' 0,
        dbHandler = db_ops.truncate list_handler, uuid_at = of_nat, uuid_string = (\<lambda>u. ''u''),
        gzip = rev, gunzip = (\<lambda>b. Inr (rev b)), make_time = tm_sec\<rparr>,
     filename_of = (\<lambda>f. f), read_file = (\<lambda>f. FileBytes [1, 2]), time_now = 7, gm_time = (\<lambda>t. undefined),
     lexical_casts = \<lparr>cast_int64 = (\<lambda>_. None), cast_double = (\<lambda>_. None)\<rparr>\<rparr>"

text \<open>The sample scene with both nodes pending and nothing stored yet.\<close>

definition sample_state :: "(file_system, list_db) commit_state" where
  "sample_state = \<lparr>scene = sample\<lparr>newAdded := {|20, 21|}, unRevisioned := True\<rparr>,
     mgr = \<lparr>fstore = empty_fs, dbase = [], made = 0\<rparr>, errMsg = [], sequence = empty_sequence 5, frameStates = [], tasks = [],
     taskList = []\<rparr>"


theorem commit_outcome_witness:
  "\<exists>w'. commit store_env (Some list_handler) ''u'' ''m'' [] 9 sample_state = (Inr 0, w') \<and>
     newAdded (scene w') = {||} \<and> revision (scene w') = 9 \<and> length (dbase (mgr w')) = 3"
proof -
  let ?r = "commit store_env (Some list_handler) ''u'' ''m'' [] 9 sample_state"
  have "fst ?r = Inr 0" "length (dbase (mgr (snd ?r))) = 3" by code_simp+
  then have "?r = (Inr 0, snd ?r)" by (metis prod.collapse)
  from commit_outcome [OF this] this \<open>length (dbase (mgr (snd ?r))) = 3\<close> show ?thesis
    by (auto simp: REPOERR_OK_def REPOERR_MAX_NODES_EXCEEDED_def REPOERR_UPLOAD_FAILED_def)
qed

lemma sample_state_simps:
  "graph (scene sample_state) = sample_graph" "heap (scene sample_state) = heap sample"
  "newAdded (scene sample_state) = {|20, 21|}" "newModified (scene sample_state) = {||}"
  "databaseName (scene sample_state) = databaseName sample" "projectName (scene sample_state) = projectName sample"
  "dbase (mgr sample_state) = []"
  by (simp_all add: sample_state_def sample_simps) (simp_all add: sample_def)

lemma sample_pending: "pending_nodes (scene sample_state) = [sample_root, sample_child]"
proof -
  have "sorted_list_of_fset {|20, 21 :: uuid|} = [20, 21]" by code_simp
  moreover have "getNodeBySharedID DEFAULT 20 (scene sample_state) = 1" "getNodeBySharedID DEFAULT 21 (scene sample_state) = 2"
    by (simp_all add: getNodeBySharedID_def getNodeByUniqueID_def graph_of_def sample_state_simps sample_uids)
  ultimately show ?thesis by (simp add: pending_nodes_def sample_state_simps sample_simps)
qed


subsection \<open>Reference files and revisions\<close>

lemma store_files_append:
  "store_files env s (fs @ gs) ok = abind (store_files env s fs ok) (store_files env s gs)"
proof (induction fs arbitrary: ok)
  case (Cons x fs)
  then show ?case by (auto simp: abind_def fun_eq_iff split: prod.splits sum.splits)
qed simp



definition bad_start :: "(file_system, list_db) commit_env" where
  "bad_start = store_env\<lparr>manager_of := (manager_of store_env)\<lparr>fsHandler :=
     fs_ops (good_env\<lparr>write_outcome_of := (\<lambda>k. if k < 3 then Lost None else Written)\<rparr>) ''/store'' 0\<rparr>\<rparr>"


text \<open>
  A revision is hidden until it is complete: whatever the state of an upload, its revision has a document under its
  identifier and branch, and the field that the search for a branch's head asks to be missing is there
  exactly while the status is not complete; the uploads of \<open>commit\<close> start with it.
\<close>

theorem revision_hidden_until_complete:
  "\<exists>b. getBSON mk (updateStatus st (makeRevisionNode now user br rid fileNames parents offs msg label)) = Inr b \<and>
     map_of (doc b) REPO_NODE_LABEL_ID = Some (bson_of_uuid rid) \<and>
     map_of (doc b) REPO_NODE_LABEL_SHARED_ID = Some (bson_of_uuid br) \<and>
     (hasField b REPO_NODE_REVISION_LABEL_INCOMPLETE \<longleftrightarrow> st \<noteq> 0) \<and> GEN_DEFAULT \<noteq> 0"
proof -
  let ?n = "updateStatus st (makeRevisionNode now user br rid fileNames parents offs msg label)"
  have n: "content ?n = ModelRevisionNode (revision_content ?n)" "uniqueId ?n = rid" "sharedId ?n = br"
    "upload_status (revision_content ?n) = st"
    by (simp_all add: updateStatus_def makeRevisionNode_def revision_content_def RepoNode_default_def)
  have l: "map_of (core (model_revision_serialise (sharedId n) r (base_serialise n RepoBSONBuilder))) REPO_NODE_LABEL_ID = Some (bson_of_uuid (uniqueId n))"
    "map_of (core (model_revision_serialise (sharedId n) r (base_serialise n RepoBSONBuilder))) REPO_NODE_LABEL_SHARED_ID = Some (bson_of_uuid (sharedId n))"
    "map_of (core (model_revision_serialise (sharedId n) r (base_serialise n RepoBSONBuilder))) REPO_NODE_REVISION_LABEL_INCOMPLETE =
       (if upload_status r \<noteq> 0 then Some (BInt32 (upload_status r)) else None)" for r n
    by (simp_all add: model_revision_serialise_def revision_serialise_def base_serialise_def node_labels revision_labels
        del: append_field_simps)
  show ?thesis
    using l [of ?n "revision_content ?n"]
    by (simp add: getBSON_def serialise_def n make_RepoBSON_def obj_def hasField_def GEN_DEFAULT_def)
qed

end
