(* ===== verification/MeshMap.thy ===== *)
theory MeshMap
  imports MeshOps
begin

text \<open>
  Fitting a supermesh into vertex and face limits: \<open>MeshMapReorganiser\<close> of
  \<open>manipulator/modelutility/repo_mesh_map_reorganiser.cpp\<close>. The buffers of the supermesh are shared by its mappings;
  small mappings are merged into one new mapping until a limit is reached, a mapping over a limit is
  split face by face and its vertices copied where splits share them. \<open>size_t\<close> counters are numbers,
  with the wrap-around written out where an \<open>int32_t\<close> is converted; a box, a vector of none
  or three floats in the code, is an option.
\<close>

subsection \<open>State\<close>

record repo_mesh_mapping_t =
  map_min :: vec3f
  map_max :: vec3f
  mesh_id :: uuid
  shared_id :: uuid
  material_id :: uuid
  map_material :: repo_material
  texture_id :: uuid
  vertFrom :: "32 word"
  vertTo :: "32 word"
  triFrom :: "32 word"
  triTo :: "32 word"

definition empty_mapping :: repo_mesh_mapping_t where
  "empty_mapping = \<lparr>map_min = (0, 0, 0), map_max = (0, 0, 0), mesh_id = default_uuid, shared_id = default_uuid,
     material_id = default_uuid, map_material = default_material, texture_id = default_uuid,
     vertFrom = 0, vertTo = 0, triFrom = 0, triTo = 0\<rparr>"

text \<open>What is constant while a mesh is reorganised.\<close>

record supermesh =
  super_mappings :: "repo_mesh_mapping_t list"
  super_id :: uuid
  super_box :: RepoBounds
  maxVertices :: nat
  maxFaces :: nat
  oldVertices :: "vec3f list"
  oldNormals :: "vec3f list"
  oldUVs :: "vec2f list list"
  oldFaces :: "face list"

record MeshMapReorganiser =
  newVertices :: "vec3f list"
  newNormals :: "vec3f list"
  newUVs :: "vec2f list list"
  newFaces :: "face list"
  serialisedFaces :: "16 word list"
  idMapBuf :: "cfloat list list"
  splitMap :: "(uuid \<times> 32 word list) list"
  matMap :: "repo_mesh_mapping_t list list"

text \<open>The variables of \<open>performSplitting\<close>, most of which \<open>splitLargeMesh\<close> gets by reference.\<close>

record splitting = MeshMapReorganiser +
  newMappings :: "repo_mesh_mapping_t list"
  subMeshVertexCount :: nat
  subMeshFaceCount :: nat
  totalVertexCount :: nat
  totalFaceCount :: nat
  idMapIdx :: nat
  orgFaceIdx :: nat
  finishedSubMesh :: bool
  bbox :: "(vec3f \<times> vec3f) option"

text \<open>The variables of \<open>splitLargeMesh\<close>; its \<open>startedLargeMeshSplit\<close> is never false.\<close>

record large_split = splitting +
  reIndexMap :: "(32 word \<times> 32 word) list"
  reMappedVertices :: "vec3f list"
  reMappedNormals :: "vec3f list"
  reMappedUVs :: "vec2f list list"
  splitMeshVertexCount :: nat
  splitMeshFaceCount :: nat
  totalLargeMeshVertexCount :: nat
  split_bbox :: "(vec3f \<times> vec3f) option"

text \<open>\<open>back()\<close> is only used on vectors that were added to before.\<close>

definition update_last :: "('a \<Rightarrow> 'a) \<Rightarrow> 'a list \<Rightarrow> 'a list" where
  "update_last f xs = (if xs = [] then [] else butlast xs @ [f (last xs)])"

text \<open>An \<open>int32_t\<close> that becomes a \<open>size_t\<close>, and their sum.\<close>

definition size_of_int32 :: "32 word \<Rightarrow> nat" where
  "size_of_int32 w = unat (scast w :: 64 word)"

definition add_size :: "nat \<Rightarrow> 32 word \<Rightarrow> nat" where
  "add_size n w = unat (of_nat n + scast w :: 64 word)"

definition num_vertices :: "repo_mesh_mapping_t \<Rightarrow> 32 word" where "num_vertices m = vertTo m - vertFrom m"
definition num_faces :: "repo_mesh_mapping_t \<Rightarrow> 32 word" where "num_faces m = triTo m - triFrom m"

subsection \<open>Bookkeeping\<close>

definition merge_min :: "cfloat \<Rightarrow> cfloat \<Rightarrow> cfloat" where "merge_min a b = (if f_lt b a then b else a)"
definition merge_max :: "cfloat \<Rightarrow> cfloat \<Rightarrow> cfloat" where "merge_max a b = (if f_lt a b then b else a)"

definition updateBoundingBoxes :: "vec3f \<Rightarrow> vec3f \<Rightarrow> (vec3f \<times> vec3f) option \<Rightarrow> (vec3f \<times> vec3f) option" where
  "updateBoundingBoxes smMin smMax box =
     (case box of
        None \<Rightarrow> Some (smMin, smMax)
      | Some ((x, y, z), (a, b, c)) \<Rightarrow>
          (case (smMin, smMax) of ((x', y', z'), (a', b', c')) \<Rightarrow>
             Some ((merge_min x x', merge_min y y', merge_min z z'), (merge_max a a', merge_max b b', merge_max c c'))))"

definition set_box :: "(vec3f \<times> vec3f) option \<Rightarrow> repo_mesh_mapping_t \<Rightarrow> repo_mesh_mapping_t" where
  "set_box box m = (case box of None \<Rightarrow> m | Some (lo, hi) \<Rightarrow> m\<lparr>map_min := lo, map_max := hi\<rparr>)"

definition finishSubMesh ::
  "(vec3f \<times> vec3f) option \<Rightarrow> nat \<Rightarrow> nat \<Rightarrow> repo_mesh_mapping_t \<Rightarrow> repo_mesh_mapping_t" where
  "finishSubMesh box nVertices nFaces m =
     set_box box (m\<lparr>vertTo := vertFrom m + of_nat nVertices, triTo := triFrom m + of_nat nFaces\<rparr>)"

definition newMatMapEntry :: "repo_mesh_mapping_t \<Rightarrow> nat \<Rightarrow> nat \<Rightarrow> 'a splitting_scheme \<Rightarrow> 'a splitting_scheme" where
  "newMatMapEntry m sVertices sFaces st =
     st\<lparr>matMap := update_last (\<lambda>ms. ms @ [m\<lparr>vertFrom := of_nat sVertices, triFrom := of_nat sFaces\<rparr>]) (matMap st)\<rparr>"

definition completeLastMatMapEntry ::
  "(repo_mesh_mapping_t \<Rightarrow> 32 word) \<Rightarrow> (repo_mesh_mapping_t \<Rightarrow> 32 word) \<Rightarrow> (vec3f \<times> vec3f) option \<Rightarrow>
     'a splitting_scheme \<Rightarrow> 'a splitting_scheme" where
  "completeLastMatMapEntry eVertices eFaces box st =
     st\<lparr>matMap := update_last (update_last (\<lambda>m. set_box box (m\<lparr>vertTo := eVertices m, triTo := eFaces m\<rparr>))) (matMap st)\<rparr>"

text \<open>A new mapping is added and started: its identifiers stay invalid.\<close>

definition startSubMesh :: "nat \<Rightarrow> nat \<Rightarrow> 'a splitting_scheme \<Rightarrow> 'a splitting_scheme" where
  "startSubMesh sVertices sFaces st =
     st\<lparr>newMappings := newMappings st @ [empty_mapping\<lparr>vertFrom := of_nat sVertices, triFrom := of_nat sFaces\<rparr>],
       idMapBuf := idMapBuf st @ [[]], matMap := matMap st @ [[]]\<rparr>"

definition updateIDMapArray :: "nat \<Rightarrow> nat \<Rightarrow> 'a splitting_scheme \<Rightarrow> 'a splitting_scheme" where
  "updateIDMapArray n value st =
     st\<lparr>idMapBuf := update_last (\<lambda>ids. ids @ replicate n (float_of_size value)) (idMapBuf st)\<rparr>"

definition split_into :: "uuid \<Rightarrow> 'a splitting_scheme \<Rightarrow> 'a splitting_scheme" where
  "split_into mesh st =
     st\<lparr>splitMap := AList.map_entry mesh (\<lambda>js. js @ [of_nat (length (newMappings st) - 1)]) (splitMap st)\<rparr>"

text \<open>A step that can also return false.\<close>

definition obind :: "'a option result \<Rightarrow> ('a \<Rightarrow> 'b option result) \<Rightarrow> 'b option result" where
  "obind r f = rbind r (\<lambda>x. case x of None \<Rightarrow> Inr None | Some y \<Rightarrow> f y)"

subsection \<open>Splitting a large mapping\<close>

text \<open>One corner of a face: a vertex this split has not seen is copied to the end.\<close>

definition large_corner :: "supermesh \<Rightarrow> 32 word \<Rightarrow> large_split \<Rightarrow> (32 word \<times> large_split) option result" where
  "large_corner c indexValue st =
     rbind (case map_of (reIndexMap st) indexValue of
              Some _ \<Rightarrow> Inr st
            | None \<Rightarrow>
                rbind (at (oldVertices c) (unat indexValue)) (\<lambda>v.
                rbind (if oldNormals c \<noteq> [] then rbind (at (oldNormals c) (unat indexValue)) (\<lambda>n. Inr [n]) else Inr []) (\<lambda>ns.
                rbind (rtraverse (\<lambda>uvs. at uvs (unat indexValue)) (oldUVs c)) (\<lambda>us.
                  Inr (st\<lparr>reIndexMap := AList.update indexValue (of_nat (splitMeshVertexCount st)) (reIndexMap st),
                          reMappedVertices := reMappedVertices st @ [v],
                          reMappedNormals := reMappedNormals st @ ns,
                          reMappedUVs := map2 (\<lambda>us u. us @ [u]) (reMappedUVs st) us,
                          split_bbox := updateBoundingBoxes v v (split_bbox st),
                          splitMeshVertexCount := Suc (splitMeshVertexCount st)\<rparr>)))))
       (\<lambda>st. let r = (case map_of (reIndexMap st) indexValue of Some r \<Rightarrow> r | None \<Rightarrow> 0)
             in if splitMeshVertexCount st < unat r then Inr None
                else Inr (Some (r, st\<lparr>serialisedFaces := serialisedFaces st @ [ucast r]\<rparr>)))"

fun large_corners :: "supermesh \<Rightarrow> face \<Rightarrow> large_split \<Rightarrow> (face \<times> large_split) option result" where
  "large_corners c [] st = Inr (Some ([], st))"
| "large_corners c (i # is) st =
     obind (large_corner c i st) (\<lambda>(r, st). obind (large_corners c is st) (\<lambda>(rs, st). Inr (Some (r # rs, st))))"

text \<open>
  Finishing a split before the next face: \<open>finishSubMesh\<close> clears the box, so the
  material map never gets it.
\<close>

definition finish_split :: "large_split \<Rightarrow> large_split" where
  "finish_split st =
     completeLastMatMapEntry (\<lambda>m. vertFrom m + of_nat (splitMeshVertexCount st)) (\<lambda>m. triFrom m + of_nat (splitMeshFaceCount st)) None
       (st\<lparr>newMappings := update_last (finishSubMesh (split_bbox st) (splitMeshVertexCount st) (splitMeshFaceCount st)) (newMappings st),
           split_bbox := None\<rparr>)"

definition next_split :: "repo_mesh_mapping_t \<Rightarrow> nat \<Rightarrow> large_split \<Rightarrow> large_split" where
  "next_split currentSubMesh fIdx st =
     (let st = (if fIdx \<noteq> 0 then split_into (mesh_id currentSubMesh) st else st);
          st = finish_split (updateIDMapArray (splitMeshVertexCount st) (idMapIdx st) st);
          st = st\<lparr>totalVertexCount := totalVertexCount st + splitMeshVertexCount st,
                  totalFaceCount := totalFaceCount st + splitMeshFaceCount st,
                  totalLargeMeshVertexCount := totalLargeMeshVertexCount st + splitMeshVertexCount st\<rparr>;
          st = newMatMapEntry currentSubMesh (totalVertexCount st) (totalFaceCount st)
                 (startSubMesh (totalVertexCount st) (totalFaceCount st) st)
      in st\<lparr>splitMeshVertexCount := 0, splitMeshFaceCount := 0, reIndexMap := []\<rparr>)"

definition large_face :: "supermesh \<Rightarrow> repo_mesh_mapping_t \<Rightarrow> nat \<Rightarrow> large_split \<Rightarrow> large_split option result" where
  "large_face c currentSubMesh fIdx st =
     rbind (at (oldFaces c) (orgFaceIdx st)) (\<lambda>currentFace.
       let st = st\<lparr>orgFaceIdx := Suc (orgFaceIdx st)\<rparr>;
           st = (if splitMeshVertexCount st + length currentFace > maxVertices c \<or> splitMeshFaceCount st \<ge> maxFaces c
                 then next_split currentSubMesh fIdx st else st)
       in obind (large_corners c currentFace st) (\<lambda>(newFace, st).
            Inr (Some (st\<lparr>newFaces := newFaces st @ [newFace], splitMeshFaceCount := Suc (splitMeshFaceCount st)\<rparr>))))"

fun large_faces :: "supermesh \<Rightarrow> repo_mesh_mapping_t \<Rightarrow> nat list \<Rightarrow> large_split \<Rightarrow> large_split option result" where
  "large_faces c currentSubMesh [] st = Inr (Some st)"
| "large_faces c currentSubMesh (fIdx # fIdxs) st =
     obind (large_face c currentSubMesh fIdx st) (large_faces c currentSubMesh fIdxs)"

text \<open>
  The region of a buffer that held the mapping's vertices gets the size of the copied ones, by
  chopping behind the last split or by inserting in front, and is overwritten with them.
\<close>

definition resize_region :: "'a \<Rightarrow> int \<Rightarrow> int \<Rightarrow> nat \<Rightarrow> nat \<Rightarrow> 'a list \<Rightarrow> 'a list result" where
  "resize_region dflt from stop num copied xs =
     (if num > copied
      then if 0 \<le> stop \<and> nat stop + (num - copied) \<le> length xs
           then Inr (take (nat stop) xs @ drop (nat stop + (num - copied)) xs) else Inl OutOfRange
      else if num < copied
      then if 0 \<le> from \<and> nat from \<le> length xs
           then Inr (take (nat from) xs @ replicate (copied - num) dflt @ drop (nat from) xs) else Inl OutOfRange
      else Inr xs)"

definition copy_to :: "int \<Rightarrow> 'a list \<Rightarrow> 'a list \<Rightarrow> 'a list result" where
  "copy_to from ys xs =
     (if 0 \<le> from \<and> nat from + length ys \<le> length xs
      then Inr (take (nat from) xs @ ys @ drop (nat from + length ys) xs) else Inl OutOfRange)"

definition rearrange :: "'a \<Rightarrow> int \<Rightarrow> int \<Rightarrow> nat \<Rightarrow> nat \<Rightarrow> 'a list \<Rightarrow> 'a list \<Rightarrow> 'a list result" where
  "rearrange dflt from stop num copied ys xs = rbind (resize_region dflt from stop num copied xs) (copy_to from ys)"

definition splitLargeMesh :: "supermesh \<Rightarrow> repo_mesh_mapping_t \<Rightarrow> splitting \<Rightarrow> splitting option result" where
  "splitLargeMesh c currentSubMesh st0 =
     (let newVerticesVFrom = sint (vertFrom (last (newMappings st0)));
          st = splitting.extend st0 (large_split.fields [] [] [] (map (\<lambda>_. []) (oldUVs c)) 0 0 0 None)
      in obind (large_faces c currentSubMesh [0..<unat (num_faces currentSubMesh)] st) (\<lambda>st.
         let st = updateIDMapArray (splitMeshVertexCount st) (idMapIdx st) st;
             st = st\<lparr>totalVertexCount := totalVertexCount st + splitMeshVertexCount st,
                     totalLargeMeshVertexCount := totalLargeMeshVertexCount st + splitMeshVertexCount st,
                     totalFaceCount := totalFaceCount st + splitMeshFaceCount st\<rparr>;
             stop = sint (vertFrom (last (newMappings st))) + int (splitMeshVertexCount st);
             num = size_of_int32 (num_vertices currentSubMesh); copied = totalLargeMeshVertexCount st
         in rbind (rearrange (0, 0, 0) newVerticesVFrom stop num copied (reMappedVertices st) (newVertices st)) (\<lambda>vs.
            rbind (if oldNormals c \<noteq> []
                   then rearrange (0, 0, 0) newVerticesVFrom stop num copied (reMappedNormals st) (newNormals st)
                   else Inr (newNormals st)) (\<lambda>ns.
            rbind (rtraverse (\<lambda>(new, old). rearrange (0, 0) newVerticesVFrom stop num copied new old)
                     (zip (reMappedUVs st) (newUVs st))) (\<lambda>us.
              Inr (Some (splitting.truncate
                (finish_split (split_into (mesh_id currentSubMesh) (st\<lparr>newVertices := vs, newNormals := ns, newUVs := us\<rparr>))))))))))"

subsection \<open>Merging small mappings\<close>

fun merge_faces :: "supermesh \<Rightarrow> 32 word \<Rightarrow> nat \<Rightarrow> splitting \<Rightarrow> splitting result" where
  "merge_faces c currentMeshVFrom 0 st = Inr st"
| "merge_faces c currentMeshVFrom (Suc n) st =
     rbind (at (oldFaces c) (orgFaceIdx st)) (\<lambda>currentFace.
       let newFace = map (\<lambda>indexValue. indexValue + (of_nat (subMeshVertexCount st) - currentMeshVFrom)) currentFace
       in merge_faces c currentMeshVFrom n
            (st\<lparr>orgFaceIdx := Suc (orgFaceIdx st), newFaces := newFaces st @ [newFace],
                serialisedFaces := serialisedFaces st @ map ucast newFace,
                subMeshFaceCount := Suc (subMeshFaceCount st), totalFaceCount := Suc (totalFaceCount st)\<rparr>))"

definition merge_mapping :: "supermesh \<Rightarrow> repo_mesh_mapping_t \<Rightarrow> splitting \<Rightarrow> splitting result" where
  "merge_mapping c currentSubMesh st =
     rbind (merge_faces c (vertFrom currentSubMesh) (unat (num_faces currentSubMesh))
              (newMatMapEntry currentSubMesh (totalVertexCount st) (totalFaceCount st) st)) (\<lambda>st.
       let st = updateIDMapArray (size_of_int32 (num_vertices currentSubMesh)) (idMapIdx st) st;
           st = st\<lparr>idMapIdx := Suc (idMapIdx st),
                   bbox := updateBoundingBoxes (map_min currentSubMesh) (map_max currentSubMesh) (bbox st),
                   subMeshVertexCount := add_size (subMeshVertexCount st) (num_vertices currentSubMesh),
                   totalVertexCount := add_size (totalVertexCount st) (num_vertices currentSubMesh)\<rparr>;
           st = split_into (mesh_id currentSubMesh) st
       in Inr (completeLastMatMapEntry (\<lambda>_. of_nat (totalVertexCount st)) (\<lambda>_. of_nat (totalFaceCount st)) None st))"

definition finish_mapping :: "splitting \<Rightarrow> splitting" where
  "finish_mapping st =
     st\<lparr>newMappings := update_last (finishSubMesh (bbox st) (subMeshVertexCount st) (subMeshFaceCount st)) (newMappings st),
        bbox := None\<rparr>"

definition start_mapping :: "splitting \<Rightarrow> splitting" where
  "start_mapping st =
     (let st = (if finishedSubMesh st then st else finish_mapping st)
      in startSubMesh (totalVertexCount st) (totalFaceCount st)
           (st\<lparr>subMeshVertexCount := 0, subMeshFaceCount := 0, finishedSubMesh := False\<rparr>))"

definition split_mapping :: "supermesh \<Rightarrow> repo_mesh_mapping_t \<Rightarrow> splitting \<Rightarrow> splitting option result" where
  "split_mapping c currentSubMesh st =
     (let st = st\<lparr>splitMap := AList.update (mesh_id currentSubMesh) [] (splitMap st)\<rparr>;
          nV = num_vertices currentSubMesh; nF = num_faces currentSubMesh;
          st = (if add_size (subMeshVertexCount st) nV > maxVertices c \<or> add_size (subMeshFaceCount st) nF > maxFaces c \<or>
                   finishedSubMesh st
                then start_mapping st else st)
      in if size_of_int32 nV > maxVertices c \<or> size_of_int32 nF > maxFaces c
         then obind (splitLargeMesh c currentSubMesh (newMatMapEntry currentSubMesh (totalVertexCount st) (totalFaceCount st) st))
                (\<lambda>st. Inr (Some (st\<lparr>idMapIdx := Suc (idMapIdx st), finishedSubMesh := True\<rparr>)))
         else rbind (merge_mapping c currentSubMesh st) (\<lambda>st. Inr (Some st)))"

fun split_mappings :: "supermesh \<Rightarrow> repo_mesh_mapping_t list \<Rightarrow> splitting \<Rightarrow> splitting option result" where
  "split_mappings c [] st = Inr (Some st)"
| "split_mappings c (m # ms) st = obind (split_mapping c m st) (split_mappings c ms)"

definition initial_splitting :: "supermesh \<Rightarrow> splitting" where
  "initial_splitting c =
     \<lparr>newVertices = oldVertices c, newNormals = oldNormals c, newUVs = oldUVs c, newFaces = [], serialisedFaces = [],
      idMapBuf = [], splitMap = [], matMap = [], newMappings = [], subMeshVertexCount = 0, subMeshFaceCount = 0,
      totalVertexCount = 0, totalFaceCount = 0, idMapIdx = 0, orgFaceIdx = 0, finishedSubMesh = True, bbox = None\<rparr>"

definition performSplitting :: "supermesh \<Rightarrow> splitting option result" where
  "performSplitting c =
     obind (split_mappings c (super_mappings c) (initial_splitting c)) (\<lambda>st.
       Inr (Some (if subMeshVertexCount st > 0 then finish_mapping st else st)))"

subsection \<open>Results\<close>

text \<open>The constructor; without a remapping the getters return empty values.\<close>

definition reorganise :: "supermesh \<Rightarrow> splitting option result" where
  "reorganise c = (if super_mappings c \<noteq> [] then performSplitting c else Inr None)"

definition getIDMapArrays :: "splitting option \<Rightarrow> cfloat list list" where
  "getIDMapArrays r = (case r of Some st \<Rightarrow> idMapBuf st | None \<Rightarrow> [])"

definition getMappingsPerSubMesh :: "splitting option \<Rightarrow> repo_mesh_mapping_t list list" where
  "getMappingsPerSubMesh r = (case r of Some st \<Rightarrow> matMap st | None \<Rightarrow> [])"

definition getSerialisedFaces :: "splitting option \<Rightarrow> 16 word list" where
  "getSerialisedFaces r = (case r of Some st \<Rightarrow> serialisedFaces st | None \<Rightarrow> [])"

definition getSplitMapping :: "splitting option \<Rightarrow> (uuid \<times> 32 word list) list" where
  "getSplitMapping r = (case r of Some st \<Rightarrow> splitMap st | None \<Rightarrow> [])"

record SupermeshData =
  super_node :: RepoNode
  mappings :: "repo_mesh_mapping_t list"
  submeshIds :: "cfloat list"

definition empty_supermesh :: "uuid \<Rightarrow> SupermeshData" where
  "empty_supermesh newId = \<lparr>super_node = (RepoNode_default newId)\<lparr>content := SupermeshNode empty_mesh\<rparr>, mappings = [], submeshIds = []\<rparr>"

text \<open>The shared identifier is an argument that is not used.\<close>

definition makeSupermeshNode ::
  "vec3f list \<Rightarrow> face list \<Rightarrow> vec3f list \<Rightarrow> RepoBounds \<Rightarrow> vec2f list list \<Rightarrow> repo_mesh_mapping_t list \<Rightarrow> uuid \<Rightarrow> uuid \<Rightarrow>
     cfloat list \<Rightarrow> SupermeshData" where
  "makeSupermeshNode vs fs ns box uvs ms ident sharedIdent mappingIds =
     (let m = (setFaces fs (setVertices vs False empty_mesh))\<lparr>normals := ns, boundingBox := box\<rparr>;
          m = fold (\<lambda>(i, uvs). setUVChannel i uvs) (enumerate 0 uvs) m
      in \<lparr>super_node = (RepoNode_default ident)\<lparr>sharedId := ident, content := SupermeshNode m\<rparr>, mappings = ms, submeshIds = mappingIds\<rparr>)"

definition getRemappedMesh :: "supermesh \<Rightarrow> uuid \<Rightarrow> uuid \<Rightarrow> splitting option \<Rightarrow> SupermeshData" where
  "getRemappedMesh c sharedIdent newId r =
     (case r of
        Some st \<Rightarrow> makeSupermeshNode (newVertices st) (newFaces st) (newNormals st) (super_box c) (newUVs st) (newMappings st)
                    (super_id c) sharedIdent (concat (getIDMapArrays r))
      | None \<Rightarrow> empty_supermesh newId)"

end
