(* ===== verification/MeshMapInv.thy ===== *)
theory MeshMapInv
  imports MeshMap
begin

text \<open>
  What reorganising a supermesh keeps. The new buffers are described by one ghost list that says for each new vertex
  which old one it is a copy of; a span is a range of new vertices and faces. Each new face lies
  in a span, and its corners, counted from the span's first vertex, are copies of its old corners.
\<close>

subsection \<open>Numbers\<close>

lemma sint_small:
  fixes w :: "32 word"
  assumes "unat w < 2 ^ 31"
  shows "sint w = int (unat w)"
proof -
  have "0 \<le> uint w" by simp
  have "int (unat w) < int (2 ^ 31)" using assms by (simp only: of_nat_less_iff)
  then have "uint w < 2 ^ 31" by (simp only: uint_nat) simp
  then have "signed_take_bit 31 (uint w) = uint w" using \<open>0 \<le> uint w\<close>
    by (intro signed_take_bit_int_eq_self) linarith+
  then show ?thesis unfolding uint_nat [symmetric] by (simp add: sint_uint)
qed

lemma size_of_int32_small:
  assumes "unat w < 2 ^ 31"
  shows "size_of_int32 w = unat w"
proof -
  obtain n where n: "unat w = n" by simp
  have "(scast w :: 64 word) = of_nat n" using sint_small [OF assms] n by (simp only: scast_eq of_int_of_nat_eq)
  then show ?thesis using assms unfolding size_of_int32_def n by (simp add: unat_of_nat take_bit_nat_eq_self)
qed

lemma unat_diff: "unat a \<le> unat (b :: 32 word) \<Longrightarrow> unat (b - a) = unat b - unat a"
  by (simp add: unat_sub word_le_nat_alt)

lemma unat_of_nat32: "n < 2 ^ 31 \<Longrightarrow> unat (of_nat n :: 32 word) = n"
  by (simp add: unat_of_nat take_bit_nat_eq_self)



lemma unat_sum32: "a + b < 2 ^ 31 \<Longrightarrow> unat (of_nat a + of_nat b :: 32 word) = a + b"
  by (metis of_nat_add unat_of_nat32)

lemma unat_plus32: "unat (w :: 32 word) + n < 2 ^ 31 \<Longrightarrow> unat (w + of_nat n) = unat w + n"
proof -
  assume "unat w + n < 2 ^ 31"
  moreover have "w + of_nat n = of_nat (unat w + n)" by simp
  ultimately show ?thesis using unat_of_nat32 by metis
qed

lemma update_last_simps [simp]:
  "update_last f (xs @ [x]) = xs @ [f x]" "length (update_last f xs) = length xs" "update_last f xs = [] \<longleftrightarrow> xs = []"
  by (simp_all add: update_last_def)

lemma butlast_update_last [simp]: "butlast (update_last f xs) = butlast xs"
  by (simp add: update_last_def)

lemma last_update_last [simp]: "xs \<noteq> [] \<Longrightarrow> last (update_last f xs) = f (last xs)"
  by (simp add: update_last_def)

lemma obind_simps [simp]: "obind (Inr (Some x)) f = f x" "obind (Inr None) f = Inr None" "obind (Inl e) f = Inl e"
  by (simp_all add: obind_def)

subsection \<open>Well-formed supermeshes\<close>

text \<open>The mappings follow each other through the buffers, none is empty, and a face uses its own mapping's vertices.\<close>

fun mappings_wf :: "supermesh \<Rightarrow> nat \<Rightarrow> nat \<Rightarrow> repo_mesh_mapping_t list \<Rightarrow> bool" where
  "mappings_wf c v f [] \<longleftrightarrow> v = length (oldVertices c) \<and> f = length (oldFaces c)"
| "mappings_wf c v f (m # ms) \<longleftrightarrow>
     unat (vertFrom m) = v \<and> unat (triFrom m) = f \<and> v < unat (vertTo m) \<and> f \<le> unat (triTo m) \<and>
     unat (vertTo m) \<le> length (oldVertices c) \<and> unat (triTo m) \<le> length (oldFaces c) \<and>
     (\<forall>face \<in> set (take (unat (triTo m) - f) (drop f (oldFaces c))). \<forall>i \<in> set face. v \<le> unat i \<and> unat i < unat (vertTo m)) \<and>
     mappings_wf c (unat (vertTo m)) (unat (triTo m)) ms"

definition supermesh_ok :: "supermesh \<Rightarrow> bool" where
  "supermesh_ok c \<longleftrightarrow> 3 \<le> maxVertices c \<and> 1 \<le> maxFaces c \<and> mappings_wf c 0 0 (super_mappings c) \<and>
     (\<forall>f \<in> set (oldFaces c). length f \<le> 3) \<and> length (oldVertices c) + 3 * length (oldFaces c) < 2 ^ 31 \<and>
     (oldNormals c = [] \<or> length (oldNormals c) = length (oldVertices c)) \<and>
     (\<forall>uvs \<in> set (oldUVs c). length uvs = length (oldVertices c))"

subsection \<open>Spans\<close>

type_synonym span = "nat \<times> nat \<times> nat \<times> nat"

definition span_of :: "repo_mesh_mapping_t \<Rightarrow> span" where
  "span_of m = (unat (vertFrom m), unat (vertTo m), unat (triFrom m), unat (triTo m))"

text \<open>\<open>orig ! p\<close> is the old index of the vertex that new vertex \<open>p\<close> is a copy of.\<close>

definition corners_in :: "nat list \<Rightarrow> nat \<Rightarrow> nat \<Rightarrow> face \<Rightarrow> face \<Rightarrow> bool" where
  "corners_in orig vf vt new old \<longleftrightarrow>
     list_all2 (\<lambda>i' i. vf + unat i' < vt \<and> orig ! (vf + unat i') = unat i) new old"

definition face_in :: "supermesh \<Rightarrow> nat list \<Rightarrow> face list \<Rightarrow> nat \<Rightarrow> span \<Rightarrow> bool" where
  "face_in c orig fs k s \<longleftrightarrow> (case s of (vf, vt, tf, tt) \<Rightarrow>
     tf \<le> k \<and> k < tt \<and> corners_in orig vf vt (fs ! k) (oldFaces c ! k))"

definition span_ok :: "supermesh \<Rightarrow> nat \<Rightarrow> nat \<Rightarrow> span \<Rightarrow> bool" where
  "span_ok c v f s \<longleftrightarrow> (case s of (vf, vt, tf, tt) \<Rightarrow>
     vf \<le> vt \<and> vt \<le> v \<and> tf \<le> tt \<and> tt \<le> f \<and> vt - vf \<le> maxVertices c \<and> tt - tf \<le> maxFaces c)"

definition geometry :: "supermesh \<Rightarrow> nat list \<Rightarrow> face list \<Rightarrow> span list \<Rightarrow> bool" where
  "geometry c orig fs spans \<longleftrightarrow> (\<forall>k < length fs. \<exists>s \<in> set spans. face_in c orig fs k s) \<and>
     (\<forall>s \<in> set spans. span_ok c (length orig) (length fs) s)"

lemma corners_append: "corners_in orig vf vt new old \<Longrightarrow> vt \<le> length orig \<Longrightarrow> corners_in (orig @ extra) vf vt new old"
  unfolding corners_in_def by (erule list_all2_mono) (auto simp: nth_append)

lemma corners_widen: "corners_in orig vf vt new old \<Longrightarrow> vt \<le> vt' \<Longrightarrow> corners_in orig vf vt' new old"
  unfolding corners_in_def by (erule list_all2_mono) auto

lemma span_ok_mono: "span_ok c v f s \<Longrightarrow> v \<le> v' \<Longrightarrow> f \<le> f' \<Longrightarrow> span_ok c v' f' s"
  by (auto simp: span_ok_def)

text \<open>Vertices and faces are only added at the end, and only the last span grows.\<close>

lemma geometry_extend:
  assumes g: "geometry c orig fs (spans @ [(vf, vt, tf, tt)])"
    and new: "\<And>j. j < length gs \<Longrightarrow> corners_in (orig @ extra) vf vt' (gs ! j) (oldFaces c ! (length fs + j))"
    and grow: "vt \<le> vt'" "vt' \<le> length orig + length extra" "vt' - vf \<le> maxVertices c"
      "tt = length fs" "tt + length gs - tf \<le> maxFaces c"
  shows "geometry c (orig @ extra) (fs @ gs) (spans @ [(vf, vt', tf, tt + length gs)])"
proof -
  let ?last = "(vf, vt', tf, tt + length gs)"
  have ok: "span_ok c (length orig) (length fs) s" if "s \<in> set spans \<or> s = (vf, vt, tf, tt)" for s
    using g that by (auto simp: geometry_def)
  have tf: "tf \<le> length fs" "vf \<le> vt" using ok [of "(vf, vt, tf, tt)"] grow(4) by (auto simp: span_ok_def)
  have "\<exists>s \<in> set (spans @ [?last]). face_in c (orig @ extra) (fs @ gs) k s" if k: "k < length (fs @ gs)" for k
  proof (cases "k < length fs")
    case True
    then obtain s where s: "s \<in> set spans \<or> s = (vf, vt, tf, tt)" "face_in c orig fs k s"
      using g unfolding geometry_def set_append list.set by blast
    from ok [OF s(1)] s(2) have f: "face_in c (orig @ extra) (fs @ gs) k s"
      using True by (auto simp: face_in_def span_ok_def nth_append intro: corners_append)
    show ?thesis
    proof (cases "s \<in> set spans")
      case False
      then have "face_in c (orig @ extra) (fs @ gs) k ?last"
        using f s(1) grow(1) by (auto simp: face_in_def intro: corners_widen)
      then show ?thesis by auto
    qed (use f in auto)
  next
    case False
    then have "face_in c (orig @ extra) (fs @ gs) k ?last"
      using new [of "k - length fs"] k tf grow(4) by (auto simp: face_in_def nth_append)
    then show ?thesis by auto
  qed
  moreover have "span_ok c (length (orig @ extra)) (length (fs @ gs)) s" if "s \<in> set (spans @ [?last])" for s
  proof (cases "s \<in> set spans")
    case True
    then show ?thesis using span_ok_mono [OF ok, of s] by simp
  next
    case False
    then have "s = ?last" using that by auto
    then show ?thesis using grow tf by (simp add: span_ok_def)
  qed
  ultimately show ?thesis unfolding geometry_def by blast
qed

lemma geometry_new_span:
  "geometry c orig fs spans \<Longrightarrow> geometry c orig fs (spans @ [(length orig, length orig, length fs, length fs)])"
  by (auto simp: geometry_def span_ok_def)

subsection \<open>The invariant of the outer loop\<close>

text \<open>A buffer whose mappings up to old vertex \<open>v\<close> have been rewritten to copies of \<open>orig\<close>.\<close>

definition rewritten :: "nat list \<Rightarrow> nat \<Rightarrow> 'a list \<Rightarrow> 'a list" where
  "rewritten orig v old = map ((!) old) orig @ drop v old"

definition buffers :: "supermesh \<Rightarrow> nat list \<Rightarrow> nat \<Rightarrow> 'a MeshMapReorganiser_scheme \<Rightarrow> bool" where
  "buffers c orig v st \<longleftrightarrow> newVertices st = rewritten orig v (oldVertices c) \<and>
     newNormals st = (if oldNormals c = [] then [] else rewritten orig v (oldNormals c)) \<and>
     newUVs st = map (rewritten orig v) (oldUVs c)"

definition serialised :: "'a MeshMapReorganiser_scheme \<Rightarrow> bool" where
  "serialised st \<longleftrightarrow> serialisedFaces st = concat (map (map ucast) (newFaces st))"

definition spans :: "splitting \<Rightarrow> span list" where
  "spans st =
     (if finishedSubMesh st then map span_of (newMappings st)
      else map span_of (butlast (newMappings st)) @
             [(totalVertexCount st - subMeshVertexCount st, totalVertexCount st, totalFaceCount st - subMeshFaceCount st, totalFaceCount st)])"

text \<open>The mapping that is being filled starts where its counters say.\<close>

definition open_ok :: "supermesh \<Rightarrow> splitting \<Rightarrow> bool" where
  "open_ok c st \<longleftrightarrow> newMappings st \<noteq> [] \<and>
     unat (vertFrom (last (newMappings st))) + subMeshVertexCount st = totalVertexCount st \<and>
     unat (triFrom (last (newMappings st))) + subMeshFaceCount st = totalFaceCount st"

definition loop_inv :: "supermesh \<Rightarrow> nat list \<Rightarrow> nat \<Rightarrow> nat \<Rightarrow> splitting \<Rightarrow> bool" where
  "loop_inv c orig v f st \<longleftrightarrow>
     orgFaceIdx st = f \<and> totalFaceCount st = f \<and> length (newFaces st) = f \<and>
     totalVertexCount st = length orig \<and> length orig \<le> v + 3 * f \<and> (\<forall>i \<in> set orig. i < length (oldVertices c)) \<and>
     buffers c orig v st \<and> serialised st \<and> geometry c orig (newFaces st) (spans st) \<and>
     (\<not> finishedSubMesh st \<longrightarrow> open_ok c st) \<and>
     (finishedSubMesh st \<longrightarrow> subMeshVertexCount st = 0 \<and> subMeshFaceCount st = 0)"

lemma set_box_frame [simp]:
  "vertFrom (set_box b m) = vertFrom m" "vertTo (set_box b m) = vertTo m" "triFrom (set_box b m) = triFrom m" "triTo (set_box b m) = triTo m"
  by (simp_all add: set_box_def split: option.splits prod.splits)

lemma span_of_finish:
  assumes "unat (vertFrom m) + nV < 2 ^ 31" "unat (triFrom m) + nF < 2 ^ 31"
  shows "span_of (finishSubMesh box nV nF m) = (unat (vertFrom m), unat (vertFrom m) + nV, unat (triFrom m), unat (triFrom m) + nF)"
  using assms by (simp add: span_of_def finishSubMesh_def unat_plus32)

lemma finish_mapping_inv:
  assumes inv: "loop_inv c orig v f st" and "\<not> finishedSubMesh st" and "length orig < 2 ^ 31" "f < 2 ^ 31"
  shows "map span_of (newMappings (finish_mapping st)) = spans st"
proof -
  have o: "open_ok c st" "totalVertexCount st = length orig" "totalFaceCount st = f" using assms by (auto simp: loop_inv_def)
  then obtain ms m where ms: "newMappings st = ms @ [m]" by (metis open_ok_def append_butlast_last_id)
  have "span_of (finishSubMesh (bbox st) (subMeshVertexCount st) (subMeshFaceCount st) m) =
      (totalVertexCount st - subMeshVertexCount st, totalVertexCount st, totalFaceCount st - subMeshFaceCount st, totalFaceCount st)"
    using o assms(3,4) ms by (subst span_of_finish) (auto simp: open_ok_def)
  then show ?thesis using assms(2) ms by (simp add: finish_mapping_def spans_def)
qed

lemma start_mapping_inv:
  assumes inv: "loop_inv c orig v f st" and small: "length orig < 2 ^ 31" "f < 2 ^ 31"
  shows "loop_inv c orig v f (start_mapping st)" "\<not> finishedSubMesh (start_mapping st)"
    "subMeshVertexCount (start_mapping st) = 0" "subMeshFaceCount (start_mapping st) = 0"
    "orgFaceIdx (start_mapping st) = orgFaceIdx st"
proof -
  define fin where "fin = (if finishedSubMesh st then st else finish_mapping st)"
  have start: "start_mapping st = startSubMesh (totalVertexCount fin) (totalFaceCount fin)
      (fin\<lparr>subMeshVertexCount := 0, subMeshFaceCount := 0, finishedSubMesh := False\<rparr>)"
    by (simp add: start_mapping_def fin_def Let_def)
  have maps: "map span_of (newMappings fin) = spans st"
    using finish_mapping_inv [OF inv _ small] by (auto simp: spans_def fin_def)
  have frame: "newVertices fin = newVertices st" "newNormals fin = newNormals st" "newUVs fin = newUVs st"
    "newFaces fin = newFaces st" "serialisedFaces fin = serialisedFaces st" "orgFaceIdx fin = orgFaceIdx st"
    "totalVertexCount fin = totalVertexCount st" "totalFaceCount fin = totalFaceCount st"
    by (simp_all add: finish_mapping_def fin_def)
  show "\<not> finishedSubMesh (start_mapping st)" "subMeshVertexCount (start_mapping st) = 0" "subMeshFaceCount (start_mapping st) = 0"
      "orgFaceIdx (start_mapping st) = orgFaceIdx st"
    by (simp_all add: start startSubMesh_def frame)
  have sp: "spans (start_mapping st) = spans st @ [(length orig, length orig, f, f)]"
    unfolding spans_def [of "start_mapping st"] using inv by (simp add: start startSubMesh_def maps frame loop_inv_def)
  have "open_ok c (start_mapping st)"
    using inv small by (simp add: open_ok_def start startSubMesh_def frame loop_inv_def unat_of_nat32)
  moreover have "geometry c orig (newFaces st) (spans st @ [(length orig, length orig, f, f)])"
    using inv geometry_new_span [of c orig "newFaces st" "spans st"] unfolding loop_inv_def by simp
  ultimately show "loop_inv c orig v f (start_mapping st)"
    using inv unfolding loop_inv_def sp
    by (simp add: start startSubMesh_def frame buffers_def serialised_def)
qed

subsection \<open>Merging\<close>

lemma merge_faces_eq:
  fixes vf :: "32 word"
  assumes "orgFaceIdx st + n \<le> length (oldFaces c)"
  defines "gs \<equiv> map (map (\<lambda>i. i + (of_nat (subMeshVertexCount st) - vf))) (take n (drop (orgFaceIdx st) (oldFaces c)))"
  shows "merge_faces c vf n st = Inr (st\<lparr>orgFaceIdx := orgFaceIdx st + n, newFaces := newFaces st @ gs,
     serialisedFaces := serialisedFaces st @ concat (map (map ucast) gs),
     subMeshFaceCount := subMeshFaceCount st + n, totalFaceCount := totalFaceCount st + n\<rparr>)"
  using assms(1) unfolding gs_def
proof (induction n arbitrary: st)
  case (Suc n)
  then have "orgFaceIdx st < length (oldFaces c)" by simp
  then have "take (Suc n) (drop (orgFaceIdx st) (oldFaces c)) =
      oldFaces c ! orgFaceIdx st # take n (drop (Suc (orgFaceIdx st)) (oldFaces c))"
    by (simp add: Cons_nth_drop_Suc [symmetric])
  then show ?case using Suc by (simp add: at_def Let_def)
qed simp

lemma merged_index:
  fixes i :: "32 word"
  assumes "unat vf \<le> unat i" "unat i - unat vf + n < 2 ^ 31"
  shows "unat (i + (of_nat n - vf)) = unat i - unat vf + n"
proof -
  have eq: "i + (of_nat n - vf) = (i - vf) + of_nat n" by simp
  have "unat (i - vf) = unat i - unat vf" using unat_diff [OF assms(1)] .
  then show ?thesis unfolding eq using unat_plus32 [of "i - vf" n] assms by linarith
qed

lemma map_nth_range: "v \<le> v' \<Longrightarrow> v' \<le> length xs \<Longrightarrow> map ((!) xs) [v..<v'] = take (v' - v) (drop v xs)"
  by (rule nth_equalityI) simp_all

lemma rewritten_copy: "v \<le> v' \<Longrightarrow> v' \<le> length old \<Longrightarrow> rewritten (orig @ [v..<v']) v' old = rewritten orig v old"
  using append_take_drop_id [of "v' - v" "drop v old"] by (simp add: rewritten_def map_nth_range)

lemma supermesh_lengths:
  assumes "supermesh_ok c"
  shows "3 \<le> maxVertices c" "1 \<le> maxFaces c" "length (oldVertices c) + 3 * length (oldFaces c) < 2 ^ 31"
    "oldNormals c \<noteq> [] \<Longrightarrow> length (oldNormals c) = length (oldVertices c)"
    "uvs \<in> set (oldUVs c) \<Longrightarrow> length uvs = length (oldVertices c)" "f \<in> set (oldFaces c) \<Longrightarrow> length f \<le> 3"
  using assms by (auto simp: supermesh_ok_def)

lemma buffers_copy:
  assumes "supermesh_ok c" "v \<le> v'" "v' \<le> length (oldVertices c)" "buffers c orig v st"
    and "newVertices st' = newVertices st" "newNormals st' = newNormals st" "newUVs st' = newUVs st"
  shows "buffers c (orig @ [v..<v']) v' st'"
  using assms supermesh_lengths(4,5) [OF assms(1)] by (auto simp: buffers_def rewritten_copy)

lemma mapping_counts:
  assumes "mappings_wf c v f (m # ms)" "supermesh_ok c"
  shows "size_of_int32 (num_vertices m) = unat (vertTo m) - v" "size_of_int32 (num_faces m) = unat (triTo m) - f"
    "unat (num_faces m) = unat (triTo m) - f"
proof -
  have u: "unat (num_vertices m) = unat (vertTo m) - v" "unat (num_faces m) = unat (triTo m) - f"
    using assms(1) by (simp_all add: num_vertices_def num_faces_def unat_diff)
  then show "unat (num_faces m) = unat (triTo m) - f" by simp
  have "unat (num_vertices m) < 2 ^ 31" "unat (num_faces m) < 2 ^ 31"
    using u assms(1) supermesh_lengths(3) [OF assms(2)] unfolding mappings_wf.simps by linarith+
  then show "size_of_int32 (num_vertices m) = unat (vertTo m) - v" "size_of_int32 (num_faces m) = unat (triTo m) - f"
    using u by (simp_all add: size_of_int32_small)
qed

lemma add_size_small: "size_of_int32 w = k \<Longrightarrow> n + k < 2 ^ 64 \<Longrightarrow> add_size n w = n + k"
  by (simp add: add_size_def size_of_int32_def unat_word_ariths unat_of_nat take_bit_nat_eq_self)

lemma merge_mapping_inv:
  assumes inv: "loop_inv c orig v f st" and open_mapping: "\<not> finishedSubMesh st" and ok: "supermesh_ok c"
    and wf: "mappings_wf c v f (m # ms)"
  defines "v' \<equiv> unat (vertTo m)" and "f' \<equiv> unat (triTo m)"
  assumes fit: "subMeshVertexCount st + (v' - v) \<le> maxVertices c" "subMeshFaceCount st + (f' - f) \<le> maxFaces c"
  shows "\<exists>st'. merge_mapping c m st = Inr st' \<and> loop_inv c (orig @ [v..<v']) v' f' st' \<and>
    \<not> finishedSubMesh st' \<and> 0 < subMeshVertexCount st'"
proof -
  have m: "unat (vertFrom m) = v" "unat (triFrom m) = f" "v < v'" "f \<le> f'" "v' \<le> length (oldVertices c)" "f' \<le> length (oldFaces c)"
      "\<And>face i. face \<in> set (take (f' - f) (drop f (oldFaces c))) \<Longrightarrow> i \<in> set face \<Longrightarrow> v \<le> unat i \<and> unat i < v'"
    using wf by (auto simp: v'_def f'_def)
  note len = supermesh_lengths [OF ok]
  have I: "orgFaceIdx st = f" "totalFaceCount st = f" "length (newFaces st) = f" "totalVertexCount st = length orig"
      "length orig \<le> v + 3 * f" "buffers c orig v st" "serialised st" "geometry c orig (newFaces st) (spans st)" "open_ok c st"
      "\<forall>i \<in> set orig. i < length (oldVertices c)"
    using inv open_mapping by (simp_all add: loop_inv_def)
  have sub: "subMeshVertexCount st \<le> length orig" "subMeshFaceCount st \<le> f" using I(2,4,9) by (auto simp: open_ok_def)
  note counts = mapping_counts [OF wf ok, folded v'_def f'_def]
  let ?st0 = "newMatMapEntry m (totalVertexCount st) (totalFaceCount st) st"
  let ?gs = "map (map (\<lambda>i. i + (of_nat (subMeshVertexCount st) - vertFrom m))) (take (f' - f) (drop f (oldFaces c)))"
  have faces: "merge_faces c (vertFrom m) (unat (num_faces m)) ?st0 = Inr (?st0\<lparr>orgFaceIdx := f', newFaces := newFaces st @ ?gs,
      serialisedFaces := serialisedFaces st @ concat (map (map ucast) ?gs),
      subMeshFaceCount := subMeshFaceCount st + (f' - f), totalFaceCount := f'\<rparr>)"
    using merge_faces_eq [of ?st0 "f' - f" c "vertFrom m"] m(4,6) counts(3) I(1,2) by (simp add: newMatMapEntry_def)
  have add: "add_size (subMeshVertexCount st) (num_vertices m) = subMeshVertexCount st + (v' - v)"
      "add_size (totalVertexCount st) (num_vertices m) = length orig + (v' - v)"
    using add_size_small [OF counts(1)] sub I(4,5) m(5,6) len(3) m(3,4) by simp_all
  have corners: "corners_in (orig @ [v..<v']) (length orig - subMeshVertexCount st) (length orig + (v' - v)) (?gs ! j) (oldFaces c ! (f + j))"
    if j: "j < length ?gs" for j
  proof -
    have face: "oldFaces c ! (f + j) \<in> set (take (f' - f) (drop f (oldFaces c)))"
      using j m(4,6) by (auto simp: in_set_conv_nth)
    let ?p = "\<lambda>i. length orig - subMeshVertexCount st + unat (i + (of_nat (subMeshVertexCount st) - vertFrom m))"
    have "?p i < length orig + (v' - v) \<and> (orig @ [v..<v']) ! ?p i = unat i" if "i \<in> set (oldFaces c ! (f + j))" for i
    proof -
      have "v \<le> unat i" "unat i < v'" using m(7) [OF face that] by auto
      moreover have "?p i = length orig + (unat i - v)"
        using calculation merged_index [of "vertFrom m" i "subMeshVertexCount st"] sub I(5) m(1,4-6) len(3) by linarith
      ultimately show ?thesis by (simp only: nth_append_length_plus) simp
    qed
    then show ?thesis
      using j m(4,6) by (simp add: corners_in_def list.rel_map) (simp only: list_all2_same, blast)
  qed
  obtain st' where st': "merge_mapping c m st = Inr st'" and frame: "newVertices st' = newVertices st" "newNormals st' = newNormals st"
      "newUVs st' = newUVs st" "newFaces st' = newFaces st @ ?gs" "serialisedFaces st' = serialisedFaces st @ concat (map (map ucast) ?gs)"
      "orgFaceIdx st' = f'" "totalFaceCount st' = f'" "totalVertexCount st' = length orig + (v' - v)"
      "subMeshVertexCount st' = subMeshVertexCount st + (v' - v)" "subMeshFaceCount st' = subMeshFaceCount st + (f' - f)"
      "newMappings st' = newMappings st" "finishedSubMesh st' = finishedSubMesh st"
    using faces by (simp add: merge_mapping_def Let_def updateIDMapArray_def split_into_def completeLastMatMapEntry_def newMatMapEntry_def add
        flip: I(4))
  have "spans st = map span_of (butlast (newMappings st)) @ [(length orig - subMeshVertexCount st, length orig, f - subMeshFaceCount st, f)]"
    using open_mapping I(2,4) by (simp add: spans_def)
  then have "geometry c (orig @ [v..<v']) (newFaces st') (map span_of (butlast (newMappings st)) @
      [(length orig - subMeshVertexCount st, length orig + (v' - v), f - subMeshFaceCount st, f + length ?gs)])"
    unfolding frame(4) using I(8,3) sub fit m(3,4,6) corners
    by (intro geometry_extend [where vt = "length orig"]) simp_all
  moreover have "spans st' = map span_of (butlast (newMappings st)) @
      [(length orig - subMeshVertexCount st, length orig + (v' - v), f - subMeshFaceCount st, f + length ?gs)]"
    using open_mapping frame sub m(3,4,6) by (simp add: spans_def)
  moreover have "buffers c (orig @ [v..<v']) v' st'" using buffers_copy [OF ok _ m(5) I(6) frame(1-3)] m(3) by simp
  moreover have "length orig + (v' - v) \<le> v' + 3 * f'" using I(5) m(3,4) by linarith
  ultimately have "loop_inv c (orig @ [v..<v']) v' f' st'"
    using frame I open_mapping m(3-6) by (simp add: loop_inv_def serialised_def open_ok_def) auto
  then show ?thesis using st' frame(9,12) open_mapping m(3) by auto
qed

subsection \<open>Splitting\<close>

text \<open>The remapped buffers hold copies of the old vertices \<open>q\<close>; the index map leads into the current split's part.\<close>

definition copied :: "supermesh \<Rightarrow> nat list \<Rightarrow> large_split \<Rightarrow> bool" where
  "copied c q st \<longleftrightarrow> reMappedVertices st = map ((!) (oldVertices c)) q \<and>
     reMappedNormals st = (if oldNormals c = [] then [] else map ((!) (oldNormals c)) q) \<and>
     reMappedUVs st = map (\<lambda>old. map ((!) old) q) (oldUVs c) \<and>
     length q = totalLargeMeshVertexCount st + splitMeshVertexCount st \<and> (\<forall>i \<in> set q. i < length (oldVertices c)) \<and>
     (\<forall>i r. map_of (reIndexMap st) i = Some r \<longrightarrow>
        unat r < splitMeshVertexCount st \<and> q ! (totalLargeMeshVertexCount st + unat r) = unat i)"

definition large_frame where
  "large_frame st = ((newVertices st, newNormals st, newUVs st, newFaces st, newMappings st, subMeshVertexCount st, subMeshFaceCount st),
     totalVertexCount st, totalFaceCount st, orgFaceIdx st, finishedSubMesh st, splitMeshFaceCount st, totalLargeMeshVertexCount st)"

lemma large_corner_ok:
  assumes cp: "copied c q st" and i: "unat i < length (oldVertices c)" and ok: "supermesh_ok c" and small: "splitMeshVertexCount st < 2 ^ 31"
  shows "\<exists>r st' e. large_corner c i st = Inr (Some (r, st')) \<and> copied c (q @ e) st' \<and> length e \<le> 1 \<and>
    splitMeshVertexCount st' = splitMeshVertexCount st + length e \<and> unat r < splitMeshVertexCount st' \<and>
    (q @ e) ! (totalLargeMeshVertexCount st + unat r) = unat i \<and> large_frame st' = large_frame st \<and>
    serialisedFaces st' = serialisedFaces st @ [ucast r]"
proof (cases "map_of (reIndexMap st) i")
  case (Some r)
  then have r: "unat r < splitMeshVertexCount st" "q ! (totalLargeMeshVertexCount st + unat r) = unat i"
    using cp by (auto simp: copied_def)
  let ?st' = "st\<lparr>serialisedFaces := serialisedFaces st @ [ucast r]\<rparr>"
  have "large_corner c i st = Inr (Some (r, ?st'))" using Some r(1) by (simp add: large_corner_def Let_def)
  moreover have "copied c (q @ []) ?st'" using cp by (simp add: copied_def)
  ultimately show ?thesis using r by (intro exI [of _ r] exI [of _ ?st'] exI [of _ "[]"]) (simp add: large_frame_def)
next
  case None
  note len = supermesh_lengths [OF ok]
  let ?n = "splitMeshVertexCount st" and ?r = "of_nat (splitMeshVertexCount st) :: 32 word"
  have r: "unat ?r = ?n" using small by (rule unat_of_nat32)
  let ?ns = "if oldNormals c = [] then [] else [oldNormals c ! unat i]"
  let ?us = "map (\<lambda>old. old ! unat i) (oldUVs c)"
  have reads: "at (oldVertices c) (unat i) = Inr (oldVertices c ! unat i)"
    "(if oldNormals c \<noteq> [] then rbind (at (oldNormals c) (unat i)) (\<lambda>n. Inr [n]) else Inr []) = Inr ?ns"
    "rtraverse (\<lambda>uvs. at uvs (unat i)) (oldUVs c) = Inr ?us"
    using i len(4,5) by (auto simp: at_def intro!: rtraverse_all_Inr)
  let ?st' = "st\<lparr>reIndexMap := AList.update i ?r (reIndexMap st),
      reMappedVertices := reMappedVertices st @ [oldVertices c ! unat i], reMappedNormals := reMappedNormals st @ ?ns,
      reMappedUVs := map2 (\<lambda>us u. us @ [u]) (reMappedUVs st) ?us,
      split_bbox := updateBoundingBoxes (oldVertices c ! unat i) (oldVertices c ! unat i) (split_bbox st),
      splitMeshVertexCount := Suc ?n, serialisedFaces := serialisedFaces st @ [ucast ?r]\<rparr>"
  have "large_corner c i st = Inr (Some (?r, ?st'))"
    using None reads r by (simp add: large_corner_def Let_def update_conv')
  moreover have "copied c (q @ [unat i]) ?st'"
  proof -
    have "map2 (\<lambda>us u. us @ [u]) (map (\<lambda>old. map ((!) old) q) olds) (map (\<lambda>old. old ! unat i) olds) =
        map (\<lambda>old. map ((!) old) (q @ [unat i])) olds" for olds :: "vec2f list list"
      by (induction olds) auto
    then show ?thesis
      using cp i r by (auto simp: copied_def update_conv' nth_append intro: less_SucI split: if_splits)
  qed
  moreover have "(q @ [unat i]) ! (totalLargeMeshVertexCount st + unat ?r) = unat i"
    using cp r by (simp add: copied_def nth_append)
  ultimately show ?thesis
    using r by (intro exI [of _ ?r] exI [of _ ?st'] exI [of _ "[unat i]"]) (simp add: large_frame_def)
qed

lemma large_corners_ok:
  assumes "copied c q st" and "\<forall>i \<in> set is. unat i < length (oldVertices c)" and ok: "supermesh_ok c"
    and "splitMeshVertexCount st + length is < 2 ^ 31"
  shows "\<exists>rs st' e. large_corners c is st = Inr (Some (rs, st')) \<and> copied c (q @ e) st' \<and> length e \<le> length is \<and>
    splitMeshVertexCount st' = splitMeshVertexCount st + length e \<and>
    list_all2 (\<lambda>r i. unat r < splitMeshVertexCount st' \<and> (q @ e) ! (totalLargeMeshVertexCount st + unat r) = unat i) rs is \<and>
    large_frame st' = large_frame st \<and> serialisedFaces st' = serialisedFaces st @ map ucast rs"
  using assms(1,2,4)
proof (induction "is" arbitrary: q st)
  case Nil
  show ?case by (intro exI [of _ "[]"] exI [of _ st]) (use Nil in simp)
next
  case (Cons i js)
  obtain r st1 e where 1: "large_corner c i st = Inr (Some (r, st1))" "copied c (q @ e) st1" "length e \<le> 1"
      "splitMeshVertexCount st1 = splitMeshVertexCount st + length e" "unat r < splitMeshVertexCount st1"
      "(q @ e) ! (totalLargeMeshVertexCount st + unat r) = unat i" "large_frame st1 = large_frame st"
      "serialisedFaces st1 = serialisedFaces st @ [ucast r]"
    using large_corner_ok [OF Cons.prems(1) _ ok, of i] Cons.prems(2,3) by auto
  have "splitMeshVertexCount st1 + length js < 2 ^ 31" "\<forall>i \<in> set js. unat i < length (oldVertices c)"
    using 1(3,4) Cons.prems(2,3) by auto
  from Cons.IH [OF 1(2) this(2,1)]
  obtain rs st2 e' where 2: "large_corners c js st1 = Inr (Some (rs, st2))" "copied c (q @ e @ e') st2" "length e' \<le> length js"
      "splitMeshVertexCount st2 = splitMeshVertexCount st1 + length e'"
      "list_all2 (\<lambda>r i. unat r < splitMeshVertexCount st2 \<and> (q @ e @ e') ! (totalLargeMeshVertexCount st1 + unat r) = unat i) rs js"
      "large_frame st2 = large_frame st1" "serialisedFaces st2 = serialisedFaces st1 @ map ucast rs" by auto
  have t: "totalLargeMeshVertexCount st1 = totalLargeMeshVertexCount st" using 1(7) by (simp add: large_frame_def)
  have len: "totalLargeMeshVertexCount st + unat r < length (q @ e)"
    using 1(2,5) t by (simp add: copied_def)
  have "(q @ e @ e') ! (totalLargeMeshVertexCount st + unat r) = unat i"
    using 1(6) len by (metis append.assoc nth_append)
  then show ?case
    using 1 2 t by (intro exI [of _ "r # rs"] exI [of _ st2] exI [of _ "e @ e'"]) simp
qed

text \<open>\<open>orig\<close> are the vertices before the large mapping, \<open>q\<close> the copies made so far.\<close>

definition large_spans :: "large_split \<Rightarrow> span list" where
  "large_spans st = map span_of (butlast (newMappings st)) @
     [(totalVertexCount st, totalVertexCount st + splitMeshVertexCount st, totalFaceCount st, length (newFaces st))]"

definition large_inv :: "supermesh \<Rightarrow> nat list \<Rightarrow> nat \<Rightarrow> nat list \<Rightarrow> large_split \<Rightarrow> bool" where
  "large_inv c orig v q st \<longleftrightarrow> copied c q st \<and> newMappings st \<noteq> [] \<and>
     totalVertexCount st = length orig + totalLargeMeshVertexCount st \<and>
     totalFaceCount st + splitMeshFaceCount st = length (newFaces st) \<and> orgFaceIdx st = length (newFaces st) \<and>
     unat (vertFrom (last (newMappings st))) = totalVertexCount st \<and>
     unat (triFrom (last (newMappings st))) = totalFaceCount st \<and>
     length orig + length q \<le> v + 3 * length (newFaces st) \<and> serialised st \<and>
     geometry c (orig @ q) (newFaces st) (large_spans st)"

text \<open>What the loop over the faces leaves alone.\<close>

definition outer_frame where
  "outer_frame st = (newVertices st, newNormals st, newUVs st, subMeshVertexCount st, subMeshFaceCount st, finishedSubMesh st)"

lemma finish_split_spans:
  assumes "large_inv c orig v q st" "length orig + length q < 2 ^ 31" "length (newFaces st) < 2 ^ 31"
  shows "map span_of (newMappings (finish_split (updateIDMapArray n k st))) = large_spans st"
proof -
  obtain ms m where ms: "newMappings st = ms @ [m]" using assms(1) by (metis large_inv_def append_butlast_last_id)
  have "span_of (finishSubMesh (split_bbox st) (splitMeshVertexCount st) (splitMeshFaceCount st) m) =
      (totalVertexCount st, totalVertexCount st + splitMeshVertexCount st, totalFaceCount st, length (newFaces st))"
    using assms ms by (subst span_of_finish) (auto simp: large_inv_def copied_def)
  then show ?thesis using ms by (simp add: finish_split_def large_spans_def completeLastMatMapEntry_def updateIDMapArray_def)
qed

lemma next_split_inv:
  assumes inv: "large_inv c orig v q st" and small: "length orig + length q < 2 ^ 31" "length (newFaces st) < 2 ^ 31"
  shows "large_inv c orig v q (next_split m k st)" "splitMeshVertexCount (next_split m k st) = 0"
    "splitMeshFaceCount (next_split m k st) = 0" "newFaces (next_split m k st) = newFaces st"
    "outer_frame (next_split m k st) = outer_frame st"
proof -
  define st0 where "st0 = (if k \<noteq> 0 then split_into (mesh_id m) st else st)"
  define st1 where "st1 = finish_split (updateIDMapArray (splitMeshVertexCount st0) (idMapIdx st0) st0)"
  have spi: "large_spans (split_into i st) = large_spans st" for i by (simp add: large_spans_def split_into_def)
  then have sp: "large_spans st0 = large_spans st" "newFaces st0 = newFaces st" by (simp_all add: st0_def split_into_def)
  have "large_inv c orig v q (split_into i st)" for i
    using inv unfolding large_inv_def spi by (simp add: copied_def split_into_def serialised_def)
  then have inv0: "large_inv c orig v q st0" using inv by (simp add: st0_def)
  have maps: "map span_of (newMappings st1) = large_spans st"
    unfolding st1_def using finish_split_spans [OF inv0] small sp by simp
  have frame: "newVertices st1 = newVertices st" "newNormals st1 = newNormals st" "newUVs st1 = newUVs st" "newFaces st1 = newFaces st"
    "serialisedFaces st1 = serialisedFaces st" "orgFaceIdx st1 = orgFaceIdx st" "totalVertexCount st1 = totalVertexCount st"
    "totalFaceCount st1 = totalFaceCount st" "totalLargeMeshVertexCount st1 = totalLargeMeshVertexCount st"
    "splitMeshVertexCount st1 = splitMeshVertexCount st" "splitMeshFaceCount st1 = splitMeshFaceCount st"
    "reMappedVertices st1 = reMappedVertices st" "reMappedNormals st1 = reMappedNormals st" "reMappedUVs st1 = reMappedUVs st"
    "subMeshVertexCount st1 = subMeshVertexCount st" "subMeshFaceCount st1 = subMeshFaceCount st" "finishedSubMesh st1 = finishedSubMesh st"
    by (simp_all add: st1_def st0_def finish_split_def completeLastMatMapEntry_def updateIDMapArray_def split_into_def)
  let ?tv = "totalVertexCount st + splitMeshVertexCount st" and ?tf = "totalFaceCount st + splitMeshFaceCount st"
  have ns: "next_split m k st = (newMatMapEntry m ?tv ?tf (startSubMesh ?tv ?tf (st1\<lparr>totalVertexCount := ?tv, totalFaceCount := ?tf,
      totalLargeMeshVertexCount := totalLargeMeshVertexCount st + splitMeshVertexCount st\<rparr>)))\<lparr>splitMeshVertexCount := 0,
      splitMeshFaceCount := 0, reIndexMap := []\<rparr>"
    unfolding next_split_def Let_def st0_def [symmetric] st1_def [symmetric] by (simp add: frame)
  show "splitMeshVertexCount (next_split m k st) = 0" "splitMeshFaceCount (next_split m k st) = 0"
      "newFaces (next_split m k st) = newFaces st" "outer_frame (next_split m k st) = outer_frame st"
    by (simp_all add: ns newMatMapEntry_def startSubMesh_def frame outer_frame_def)
  have tv: "?tv = length (orig @ q)" "?tf = length (newFaces st)" using inv by (auto simp: large_inv_def copied_def)
  have "large_spans (next_split m k st) = large_spans st @ [(?tv, ?tv, ?tf, length (newFaces st))]"
    unfolding large_spans_def [of "next_split m k st"] by (simp add: ns newMatMapEntry_def startSubMesh_def maps frame)
  then have "geometry c (orig @ q) (newFaces st) (large_spans (next_split m k st))"
    using inv geometry_new_span [of c "orig @ q" "newFaces st" "large_spans st"] tv by (simp add: large_inv_def)
  moreover have "unat (of_nat (totalVertexCount st) + of_nat (splitMeshVertexCount st) :: 32 word) = ?tv"
      "unat (of_nat (totalFaceCount st) + of_nat (splitMeshFaceCount st) :: 32 word) = ?tf"
    using tv small by (simp_all add: unat_sum32)
  ultimately show "large_inv c orig v q (next_split m k st)"
    using inv tv unat_of_nat32 [OF small(2)] unfolding large_inv_def
    by (simp add: ns newMatMapEntry_def startSubMesh_def frame copied_def serialised_def)
qed

lemma next_split_org: "next_split m k (st\<lparr>orgFaceIdx := x\<rparr>) = (next_split m k st)\<lparr>orgFaceIdx := x\<rparr>"
  by (simp add: next_split_def finish_split_def updateIDMapArray_def split_into_def completeLastMatMapEntry_def
      newMatMapEntry_def startSubMesh_def Let_def)

lemma large_face_ok:
  assumes inv: "large_inv c orig v q st" and ok: "supermesh_ok c" and face: "length (newFaces st) < length (oldFaces c)"
    and used: "\<forall>i \<in> set (oldFaces c ! length (newFaces st)). unat i < length (oldVertices c)" and v: "v \<le> length (oldVertices c)"
  shows "\<exists>st' e. large_face c m k st = Inr (Some st') \<and> large_inv c orig v (q @ e) st' \<and>
    length (newFaces st') = Suc (length (newFaces st)) \<and> outer_frame st' = outer_frame st"
proof -
  note len = supermesh_lengths [OF ok]
  let ?face = "oldFaces c ! length (newFaces st)"
  let ?st0 = "st\<lparr>orgFaceIdx := Suc (orgFaceIdx st)\<rparr>"
  let ?full = "splitMeshVertexCount st + length ?face > maxVertices c \<or> splitMeshFaceCount st \<ge> maxFaces c"
  let ?st1 = "if ?full then next_split m k ?st0 else ?st0"
  have small: "length orig + length q < 2 ^ 31" "length (newFaces st) < 2 ^ 31"
    using inv face len(3) v by (auto simp: large_inv_def)
  have l3: "length ?face \<le> 3" using len(6) face by simp
  define st2 where "st2 = (if ?full then next_split m k st else st)"
  have st1: "?st1 = st2\<lparr>orgFaceIdx := Suc (length (newFaces st))\<rparr>"
    using inv by (simp add: st2_def next_split_org large_inv_def)
  have inv2: "large_inv c orig v q st2" "newFaces st2 = newFaces st" "outer_frame st2 = outer_frame st"
    using next_split_inv [OF inv small, of m k] inv by (simp_all add: st2_def)
  have fit: "splitMeshVertexCount st2 + length ?face \<le> maxVertices c" "splitMeshFaceCount st2 < maxFaces c"
    using next_split_inv(2,3) [OF inv small, of m k] l3 len(1,2) by (auto simp: st2_def)
  have cp: "copied c q ?st1" "splitMeshVertexCount ?st1 = splitMeshVertexCount st2"
    using inv2(1) unfolding st1 by (simp_all add: large_inv_def copied_def)
  have "splitMeshVertexCount ?st1 \<le> length q" using cp by (simp add: copied_def)
  then have "splitMeshVertexCount ?st1 + length ?face < 2 ^ 31"
    using inv face l3 len(3) v by (simp add: large_inv_def)
  from large_corners_ok [OF cp(1) used ok this]
  obtain rs st3 e where c: "large_corners c ?face ?st1 = Inr (Some (rs, st3))" "copied c (q @ e) st3" "length e \<le> length ?face"
      "splitMeshVertexCount st3 = splitMeshVertexCount st2 + length e"
      "list_all2 (\<lambda>r i. unat r < splitMeshVertexCount st3 \<and> (q @ e) ! (totalLargeMeshVertexCount ?st1 + unat r) = unat i) rs ?face"
      "large_frame st3 = large_frame ?st1" "serialisedFaces st3 = serialisedFaces ?st1 @ map ucast rs"
    unfolding cp(2) by blast
  let ?st' = "st3\<lparr>newFaces := newFaces st3 @ [rs], splitMeshFaceCount := Suc (splitMeshFaceCount st3)\<rparr>"
  have run: "large_face c m k st = Inr (Some ?st')"
  proof -
    have "at (oldFaces c) (orgFaceIdx st) = Inr ?face" using inv face by (simp add: at_def large_inv_def)
    then have "large_face c m k st = obind (large_corners c ?face ?st1) (\<lambda>(newFace, st).
        Inr (Some (st\<lparr>newFaces := newFaces st @ [newFace], splitMeshFaceCount := Suc (splitMeshFaceCount st)\<rparr>)))"
      by (simp add: large_face_def Let_def)
    then show ?thesis unfolding c(1) by simp
  qed
  have fr: "newVertices st3 = newVertices st2" "newNormals st3 = newNormals st2" "newUVs st3 = newUVs st2" "newFaces st3 = newFaces st"
      "newMappings st3 = newMappings st2" "totalVertexCount st3 = totalVertexCount st2" "totalFaceCount st3 = totalFaceCount st2"
      "orgFaceIdx st3 = Suc (length (newFaces st))" "splitMeshFaceCount st3 = splitMeshFaceCount st2"
      "totalLargeMeshVertexCount st3 = totalLargeMeshVertexCount st2" "outer_frame st3 = outer_frame st2"
      "serialisedFaces st3 = serialisedFaces st2 @ map ucast rs"
    using c(6,7) inv2(2) unfolding st1 by (simp_all add: large_frame_def outer_frame_def)
  have I: "totalVertexCount st2 = length orig + totalLargeMeshVertexCount st2"
      "totalFaceCount st2 + splitMeshFaceCount st2 = length (newFaces st)"
      "length q = totalLargeMeshVertexCount st2 + splitMeshVertexCount st2"
      "geometry c (orig @ q) (newFaces st) (large_spans st2)" "length orig + length q \<le> v + 3 * length (newFaces st)"
    using inv2 by (simp_all add: large_inv_def copied_def)
  have "corners_in ((orig @ q) @ e) (totalVertexCount st2) (totalVertexCount st2 + splitMeshVertexCount st3) rs ?face"
    unfolding corners_in_def
  proof (rule list.rel_mono_strong [OF c(5)])
    fix r i assume ri: "unat r < splitMeshVertexCount st3 \<and> (q @ e) ! (totalLargeMeshVertexCount ?st1 + unat r) = unat i"
    have "totalLargeMeshVertexCount ?st1 = totalLargeMeshVertexCount st2" unfolding st1 by simp
    then show "totalVertexCount st2 + unat r < totalVertexCount st2 + splitMeshVertexCount st3 \<and>
        ((orig @ q) @ e) ! (totalVertexCount st2 + unat r) = unat i"
      using ri I(1) by (simp add: nth_append_length_plus add.assoc)
  qed
  then have "geometry c ((orig @ q) @ e) (newFaces st @ [rs]) (map span_of (butlast (newMappings st2)) @
      [(totalVertexCount st2, totalVertexCount st2 + splitMeshVertexCount st3, totalFaceCount st2, length (newFaces st) + length [rs])])"
    using I fit c(3,4) inv2(2)
    by (intro geometry_extend [where vt = "totalVertexCount st2 + splitMeshVertexCount st2"]) (simp_all add: large_spans_def)
  then have geo: "geometry c (orig @ q @ e) (newFaces ?st') (large_spans ?st')"
    by (simp add: large_spans_def fr)
  have "large_inv c orig v (q @ e) ?st'"
    using inv2 geo c(2,3) I l3 unfolding large_inv_def
    by (simp add: fr copied_def serialised_def)
  then show ?thesis using run fr(4,11) inv2(3) by (intro exI [of _ ?st'] exI [of _ e]) (simp add: outer_frame_def)
qed

lemma large_faces_ok:
  assumes "large_inv c orig v q st" "supermesh_ok c" "v \<le> length (oldVertices c)"
    and "length (newFaces st) + length ks \<le> length (oldFaces c)"
    and "\<forall>j < length ks. \<forall>i \<in> set (oldFaces c ! (length (newFaces st) + j)). unat i < length (oldVertices c)"
  shows "\<exists>st' e. large_faces c m ks st = Inr (Some st') \<and> large_inv c orig v (q @ e) st' \<and>
    length (newFaces st') = length (newFaces st) + length ks \<and> outer_frame st' = outer_frame st"
  using assms(1,4,5)
proof (induction ks arbitrary: q st)
  case Nil
  show ?case by (intro exI [of _ st] exI [of _ "[]"]) (use Nil in simp)
next
  case (Cons k ks)
  have here: "length (newFaces st) < length (oldFaces c)" "\<forall>i \<in> set (oldFaces c ! length (newFaces st)). unat i < length (oldVertices c)"
    using Cons.prems(2) spec [OF Cons.prems(3), of 0] by simp_all
  obtain st1 e where 1: "large_face c m k st = Inr (Some st1)" "large_inv c orig v (q @ e) st1"
      "length (newFaces st1) = Suc (length (newFaces st))" "outer_frame st1 = outer_frame st"
    using large_face_ok [OF Cons.prems(1) assms(2) here assms(3)] by blast
  have "length (newFaces st1) + length ks \<le> length (oldFaces c)" using 1(3) Cons.prems(2) by simp
  moreover have "\<forall>i \<in> set (oldFaces c ! (length (newFaces st1) + j)). unat i < length (oldVertices c)" if "j < length ks" for j
    using spec [OF Cons.prems(3), of "Suc j"] 1(3) that by simp
  ultimately have "length (newFaces st1) + length ks \<le> length (oldFaces c)"
      "\<forall>j < length ks. \<forall>i \<in> set (oldFaces c ! (length (newFaces st1) + j)). unat i < length (oldVertices c)" by blast+
  from Cons.IH [OF 1(2) this] 1 show ?case by fastforce
qed

lemma rearrange_rewritten:
  assumes "v \<le> v'" "v' \<le> length old"
  shows "rearrange d (int (length orig)) (int (length orig + length q)) (v' - v) (length q) (map ((!) old) q) (rewritten orig v old)
    = Inr (rewritten (orig @ q) v' old)"
proof -
  let ?n = "v' - v"
  consider (chop) "?n > length q" | (grow) "?n < length q" | (same) "?n = length q" by linarith
  then show ?thesis
  proof cases
    case chop
    have n: "nat (int (length orig + length q)) = length orig + length q" by simp
    have "length orig + length q + (?n - length q) = length orig + ?n" using chop by simp
    then have "resize_region d (int (length orig)) (int (length orig + length q)) ?n (length q) (rewritten orig v old) =
        Inr (map ((!) old) orig @ take (length q) (drop v old) @ drop v' old)"
      using assms chop unfolding resize_region_def n by (simp add: rewritten_def)
    then show ?thesis
      using assms chop by (simp add: rearrange_def copy_to_def rewritten_def)
  next
    case grow
    then have "resize_region d (int (length orig)) (int (length orig + length q)) ?n (length q) (rewritten orig v old) =
        Inr (map ((!) old) orig @ replicate (length q - ?n) d @ drop v old)"
      by (simp add: resize_region_def rewritten_def)
    then show ?thesis
      using assms grow by (simp add: rearrange_def copy_to_def rewritten_def)
  next
    case same
    then have "v' = v + length q" using assms(1) by simp
    then show ?thesis
      using assms by (simp add: rearrange_def resize_region_def copy_to_def rewritten_def add.commute)
  qed
qed

text \<open>The variables of \<open>splitLargeMesh\<close> at its start.\<close>

definition enter_split :: "supermesh \<Rightarrow> splitting \<Rightarrow> large_split" where
  "enter_split c st = splitting.extend st (large_split.fields [] [] [] (map (\<lambda>_. []) (oldUVs c)) 0 0 0 None)"

lemma enter_split_simps [simp]:
  "newVertices (enter_split c st) = newVertices st" "newNormals (enter_split c st) = newNormals st" "newUVs (enter_split c st) = newUVs st"
  "newFaces (enter_split c st) = newFaces st" "serialisedFaces (enter_split c st) = serialisedFaces st"
  "newMappings (enter_split c st) = newMappings st" "subMeshVertexCount (enter_split c st) = subMeshVertexCount st"
  "subMeshFaceCount (enter_split c st) = subMeshFaceCount st" "totalVertexCount (enter_split c st) = totalVertexCount st"
  "totalFaceCount (enter_split c st) = totalFaceCount st" "orgFaceIdx (enter_split c st) = orgFaceIdx st"
  "finishedSubMesh (enter_split c st) = finishedSubMesh st" "reIndexMap (enter_split c st) = []"
  "reMappedVertices (enter_split c st) = []" "reMappedNormals (enter_split c st) = []"
  "reMappedUVs (enter_split c st) = map (\<lambda>_. []) (oldUVs c)" "splitMeshVertexCount (enter_split c st) = 0"
  "splitMeshFaceCount (enter_split c st) = 0" "totalLargeMeshVertexCount (enter_split c st) = 0"
  by (simp_all add: enter_split_def splitting.defs large_split.defs)

lemma truncate_simps [simp]:
  fixes st :: "'a splitting_scheme"
  shows "newVertices (splitting.truncate st) = newVertices st" "newNormals (splitting.truncate st) = newNormals st"
  "newUVs (splitting.truncate st) = newUVs st" "newFaces (splitting.truncate st) = newFaces st"
  "serialisedFaces (splitting.truncate st) = serialisedFaces st" "newMappings (splitting.truncate st) = newMappings st"
  "subMeshVertexCount (splitting.truncate st) = subMeshVertexCount st" "subMeshFaceCount (splitting.truncate st) = subMeshFaceCount st"
  "totalVertexCount (splitting.truncate st) = totalVertexCount st" "totalFaceCount (splitting.truncate st) = totalFaceCount st"
  "orgFaceIdx (splitting.truncate st) = orgFaceIdx st" "finishedSubMesh (splitting.truncate st) = finishedSubMesh st"
  by (simp_all add: splitting.defs)

lemma enter_split_inv:
  assumes "loop_inv c orig v f st" "\<not> finishedSubMesh st" "subMeshVertexCount st = 0" "subMeshFaceCount st = 0"
  shows "large_inv c orig v [] (enter_split c st)"
proof -
  have "large_spans (enter_split c st) = spans st"
    using assms by (simp add: large_spans_def spans_def loop_inv_def)
  then show ?thesis
    using assms by (simp add: large_inv_def copied_def loop_inv_def open_ok_def serialised_def)
qed

text \<open>What is left to do after the loop over the faces.\<close>

lemma splitLargeMesh_eq:
  assumes run: "large_faces c m [0..<unat (num_faces m)] (enter_split c st) = Inr (Some st1)"
    and begins: "sint (vertFrom (last (newMappings st))) = int (length orig)"
    and stops: "sint (vertFrom (last (newMappings st1))) + int (splitMeshVertexCount st1) = int (length orig + length q)"
    and num: "size_of_int32 (num_vertices m) = v' - v" and cp: "copied c q st1"
    and bufs: "buffers c orig v st1" and v: "v \<le> v'" "v' \<le> length (oldVertices c)" and ok: "supermesh_ok c"
  shows "\<exists>st'. splitLargeMesh c m st = Inr (Some st') \<and> buffers c (orig @ q) v' st' \<and>
    newMappings st' = newMappings (finish_split (updateIDMapArray (splitMeshVertexCount st1) (idMapIdx st1) st1)) \<and>
    newFaces st' = newFaces st1 \<and> serialisedFaces st' = serialisedFaces st1 \<and> orgFaceIdx st' = orgFaceIdx st1 \<and>
    totalVertexCount st' = totalVertexCount st1 + splitMeshVertexCount st1 \<and>
    totalFaceCount st' = totalFaceCount st1 + splitMeshFaceCount st1 \<and>
    subMeshVertexCount st' = subMeshVertexCount st1 \<and> subMeshFaceCount st' = subMeshFaceCount st1"
proof -
  note len = supermesh_lengths [OF ok]
  define st2 where "st2 = updateIDMapArray (splitMeshVertexCount st1) (idMapIdx st1) st1"
  define st3 where "st3 = st2\<lparr>totalVertexCount := totalVertexCount st2 + splitMeshVertexCount st2,
      totalLargeMeshVertexCount := totalLargeMeshVertexCount st2 + splitMeshVertexCount st2,
      totalFaceCount := totalFaceCount st2 + splitMeshFaceCount st2\<rparr>"
  have copied_len: "totalLargeMeshVertexCount st3 = length q"
    using cp by (simp add: st3_def st2_def updateIDMapArray_def copied_def)
  have bufs3: "newVertices st3 = rewritten orig v (oldVertices c)" "reMappedVertices st3 = map ((!) (oldVertices c)) q"
      "newNormals st3 = (if oldNormals c = [] then [] else rewritten orig v (oldNormals c))"
      "reMappedNormals st3 = (if oldNormals c = [] then [] else map ((!) (oldNormals c)) q)"
      "newUVs st3 = map (rewritten orig v) (oldUVs c)" "reMappedUVs st3 = map (\<lambda>old. map ((!) old) q) (oldUVs c)"
    using cp bufs by (simp_all add: st3_def st2_def updateIDMapArray_def copied_def buffers_def)
  have maps3: "newMappings st3 = newMappings st1" "splitMeshVertexCount st3 = splitMeshVertexCount st1"
    by (simp_all add: st3_def st2_def updateIDMapArray_def)
  let ?vs = "rewritten (orig @ q) v' (oldVertices c)"
  let ?ns = "if oldNormals c = [] then [] else rewritten (orig @ q) v' (oldNormals c)"
  let ?us = "map (rewritten (orig @ q) v') (oldUVs c)"
  let ?st' = "finish_split (split_into (mesh_id m) (st3\<lparr>newVertices := ?vs, newNormals := ?ns, newUVs := ?us\<rparr>))"
  have v_ok: "rearrange (0, 0, 0) (int (length orig)) (int (length orig + length q)) (v' - v) (length q)
      (reMappedVertices st3) (newVertices st3) = Inr ?vs"
    unfolding bufs3 by (rule rearrange_rewritten [OF v])
  have n_ok: "(if oldNormals c \<noteq> [] then rearrange (0, 0, 0) (int (length orig)) (int (length orig + length q)) (v' - v) (length q)
      (reMappedNormals st3) (newNormals st3) else Inr (newNormals st3)) = Inr ?ns"
    unfolding bufs3 using rearrange_rewritten [OF v(1), of "oldNormals c"] v(2) len(4) by simp
  have u_ok: "rtraverse (\<lambda>(new, old). rearrange (0, 0) (int (length orig)) (int (length orig + length q)) (v' - v) (length q) new old)
      (zip (reMappedUVs st3) (newUVs st3)) = Inr ?us"
    unfolding bufs3 zip_map_map zip_same_conv_map map_map rtraverse_map
    by (intro rtraverse_all_Inr) (simp only: prod.case o_apply, rule rearrange_rewritten, use len(5) v in simp_all)
  have "splitLargeMesh c m st = Inr (Some (splitting.truncate ?st'))"
    unfolding splitLargeMesh_def Let_def begins enter_split_def [symmetric] run obind_simps
      st2_def [symmetric] st3_def [symmetric] maps3 stops num copied_len v_ok n_ok u_ok rbind_simps by (rule refl)
  then show ?thesis
    by (intro exI [of _ "splitting.truncate ?st'"])
      (simp add: buffers_def finish_split_def completeLastMatMapEntry_def split_into_def st3_def st2_def updateIDMapArray_def)
qed

lemma splitLargeMesh_inv:
  assumes inv: "loop_inv c orig v f st" and start: "\<not> finishedSubMesh st" "subMeshVertexCount st = 0" "subMeshFaceCount st = 0"
    and ok: "supermesh_ok c" and wf: "mappings_wf c v f (m # ms)"
  defines "v' \<equiv> unat (vertTo m)" and "f' \<equiv> unat (triTo m)"
  shows "\<exists>st' q. splitLargeMesh c m st = Inr (Some st') \<and> loop_inv c (orig @ q) v' f' (st'\<lparr>idMapIdx := Suc (idMapIdx st'), finishedSubMesh := True\<rparr>)"
proof -
  note len = supermesh_lengths [OF ok]
  have m: "v \<le> v'" "f \<le> f'" "v' \<le> length (oldVertices c)" "f' \<le> length (oldFaces c)"
      "\<And>face i. face \<in> set (take (f' - f) (drop f (oldFaces c))) \<Longrightarrow> i \<in> set face \<Longrightarrow> v \<le> unat i \<and> unat i < v'"
    using wf by (auto simp: v'_def f'_def)
  have I: "length (newFaces st) = f" "length orig \<le> v + 3 * f" "buffers c orig v st" "totalVertexCount st = length orig"
      "unat (vertFrom (last (newMappings st))) = length orig" "\<forall>i \<in> set orig. i < length (oldVertices c)"
    using inv start by (auto simp: loop_inv_def open_ok_def)
  have "oldFaces c ! (f + j) \<in> set (take (f' - f) (drop f (oldFaces c)))" if "j < f' - f" for j
    using that m(2,4) by (auto simp: in_set_conv_nth)
  then have used: "\<forall>j < length [0..<f' - f]. \<forall>i \<in> set (oldFaces c ! (length (newFaces (enter_split c st)) + j)). unat i < length (oldVertices c)"
    using m(3,5) I(1) by fastforce
  have v: "v \<le> length (oldVertices c)" and n: "length (newFaces (enter_split c st)) + length [0..<f' - f] \<le> length (oldFaces c)"
    using m I(1) by simp_all
  obtain st1 q where 1: "large_faces c m [0..<f' - f] (enter_split c st) = Inr (Some st1)" "large_inv c orig v q st1"
      "length (newFaces st1) = f'" "outer_frame st1 = outer_frame st"
    using large_faces_ok [OF enter_split_inv [OF inv start] ok v n used, where m = m] I(1) m(2) by (auto simp: outer_frame_def)
  have J: "copied c q st1" "totalVertexCount st1 = length orig + totalLargeMeshVertexCount st1"
      "length q = totalLargeMeshVertexCount st1 + splitMeshVertexCount st1"
      "unat (vertFrom (last (newMappings st1))) = totalVertexCount st1" "totalFaceCount st1 + splitMeshFaceCount st1 = f'"
      "length orig + length q \<le> v + 3 * f'" "orgFaceIdx st1 = f'" "serialised st1" "\<forall>i \<in> set q. i < length (oldVertices c)"
      "geometry c (orig @ q) (newFaces st1) (large_spans st1)"
    using 1(2,3) by (simp_all add: large_inv_def copied_def)
  have small: "length orig + length q < 2 ^ 31" "f' < 2 ^ 31" using J(6) m len(3) v by simp_all
  have begins: "sint (vertFrom (last (newMappings st))) = int (length orig)"
    using I(5) small by (subst sint_small) simp_all
  have stops: "sint (vertFrom (last (newMappings st1))) + int (splitMeshVertexCount st1) = int (length orig + length q)"
    using J(2-4) small by (subst sint_small) simp_all
  have bufs: "buffers c orig v st1" using I(3) 1(4) by (simp add: buffers_def outer_frame_def)
  note counts = mapping_counts [OF wf ok, folded v'_def f'_def]
  obtain st' where st': "splitLargeMesh c m st = Inr (Some st')" "buffers c (orig @ q) v' st'"
      "newMappings st' = newMappings (finish_split (updateIDMapArray (splitMeshVertexCount st1) (idMapIdx st1) st1))"
      "newFaces st' = newFaces st1" "serialisedFaces st' = serialisedFaces st1" "orgFaceIdx st' = orgFaceIdx st1"
      "totalVertexCount st' = totalVertexCount st1 + splitMeshVertexCount st1"
      "totalFaceCount st' = totalFaceCount st1 + splitMeshFaceCount st1"
      "subMeshVertexCount st' = subMeshVertexCount st1" "subMeshFaceCount st' = subMeshFaceCount st1"
    using splitLargeMesh_eq [OF _ begins stops counts(1) J(1) bufs m(1,3) ok] 1(1) counts(3) by auto
  have "map span_of (newMappings st') = large_spans st1"
    unfolding st'(3) using finish_split_spans [OF 1(2)] small 1(3) by simp
  then have "spans (st'\<lparr>idMapIdx := Suc (idMapIdx st'), finishedSubMesh := True\<rparr>) = large_spans st1" by (simp add: spans_def)
  then have "loop_inv c (orig @ q) v' f' (st'\<lparr>idMapIdx := Suc (idMapIdx st'), finishedSubMesh := True\<rparr>)"
    using J st' 1(3,4) I(6) start(2,3) m(1)
    unfolding loop_inv_def by (auto simp: buffers_def serialised_def outer_frame_def)
  then show ?thesis using st'(1) by blast
qed

subsection \<open>The outer loop\<close>

lemma loop_inv_frame [simp]:
  "loop_inv c orig v f (st\<lparr>splitMap := sm\<rparr>) = loop_inv c orig v f st"
  "loop_inv c orig v f (newMatMapEntry m a b st) = loop_inv c orig v f st"
  by (simp_all add: loop_inv_def buffers_def serialised_def spans_def open_ok_def newMatMapEntry_def)

lemma newMatMapEntry_frame [simp]:
  "finishedSubMesh (newMatMapEntry m a b st) = finishedSubMesh st" "subMeshVertexCount (newMatMapEntry m a b st) = subMeshVertexCount st"
  "subMeshFaceCount (newMatMapEntry m a b st) = subMeshFaceCount st" "idMapIdx (newMatMapEntry m a b st) = idMapIdx st"
  by (simp_all add: newMatMapEntry_def)

lemma split_mapping_inv:
  assumes inv: "loop_inv c orig v f st" and ok: "supermesh_ok c" and wf: "mappings_wf c v f (m # ms)"
  shows "\<exists>st' q. split_mapping c m st = Inr (Some st') \<and> loop_inv c (orig @ q) (unat (vertTo m)) (unat (triTo m)) st' \<and>
    (finishedSubMesh st' \<or> 0 < subMeshVertexCount st')"
proof -
  note len = supermesh_lengths [OF ok]
  let ?v' = "unat (vertTo m)" and ?f' = "unat (triTo m)"
  have m: "v < ?v'" "f \<le> ?f'" "?v' \<le> length (oldVertices c)" "?f' \<le> length (oldFaces c)" using wf by auto
  note counts = mapping_counts [OF wf ok]
  define st0 where "st0 = st\<lparr>splitMap := AList.update (mesh_id m) [] (splitMap st)\<rparr>"
  let ?start = "add_size (subMeshVertexCount st0) (num_vertices m) > maxVertices c \<or>
    add_size (subMeshFaceCount st0) (num_faces m) > maxFaces c \<or> finishedSubMesh st0"
  define st1 where "st1 = (if ?start then start_mapping st0 else st0)"
  have inv0: "loop_inv c orig v f st0" using inv by (simp add: st0_def)
  have sub: "subMeshVertexCount st0 \<le> length orig" "subMeshFaceCount st0 \<le> f" "length orig \<le> v + 3 * f"
    using inv0 by (cases "finishedSubMesh st0"; auto simp: loop_inv_def open_ok_def)+
  have add: "add_size (subMeshVertexCount st0) (num_vertices m) = subMeshVertexCount st0 + (?v' - v)"
      "add_size (subMeshFaceCount st0) (num_faces m) = subMeshFaceCount st0 + (?f' - f)"
    using add_size_small [OF counts(1)] add_size_small [OF counts(2)] sub m len(3) by simp_all
  have small: "length orig < 2 ^ 31" "f < 2 ^ 31" using sub(3) m len(3) by simp_all
  have inv1: "loop_inv c orig v f st1" "\<not> finishedSubMesh st1"
    using start_mapping_inv [OF inv0 small] inv0 by (auto simp: st1_def)
  have zero: "subMeshVertexCount st1 = 0 \<and> subMeshFaceCount st1 = 0" if ?start
    using start_mapping_inv [OF inv0 small] that by (simp add: st1_def)
  let ?large = "size_of_int32 (num_vertices m) > maxVertices c \<or> size_of_int32 (num_faces m) > maxFaces c"
  have run: "split_mapping c m st = (if ?large
      then obind (splitLargeMesh c m (newMatMapEntry m (totalVertexCount st1) (totalFaceCount st1) st1))
             (\<lambda>st. Inr (Some (st\<lparr>idMapIdx := Suc (idMapIdx st), finishedSubMesh := True\<rparr>)))
      else rbind (merge_mapping c m st1) (\<lambda>st. Inr (Some st)))"
    unfolding split_mapping_def Let_def st0_def [symmetric] st1_def [symmetric] by (rule refl)
  show ?thesis
  proof (cases ?large)
    case True
    then have "?start" using counts(1,2) add by auto
    note z = zero [OF this]
    obtain st2 q where "splitLargeMesh c m (newMatMapEntry m (totalVertexCount st1) (totalFaceCount st1) st1) = Inr (Some st2)"
        "loop_inv c (orig @ q) ?v' ?f' (st2\<lparr>idMapIdx := Suc (idMapIdx st2), finishedSubMesh := True\<rparr>)"
      using splitLargeMesh_inv [OF _ _ _ _ ok wf, of orig "newMatMapEntry m (totalVertexCount st1) (totalFaceCount st1) st1"] inv1 z
      by (simp only: loop_inv_frame newMatMapEntry_frame) blast
    then show ?thesis unfolding run using True by fastforce
  next
    case False
    then have "subMeshVertexCount st1 + (?v' - v) \<le> maxVertices c" "subMeshFaceCount st1 + (?f' - f) \<le> maxFaces c"
      using zero add counts(1,2) by (cases "?start"; auto simp: st1_def)+
    from merge_mapping_inv [OF inv1 ok wf this] show ?thesis unfolding run using False by fastforce
  qed
qed

lemma split_mappings_inv:
  assumes "loop_inv c orig v f st" "supermesh_ok c" "mappings_wf c v f ms" "finishedSubMesh st \<or> 0 < subMeshVertexCount st"
  shows "\<exists>st' orig'. split_mappings c ms st = Inr (Some st') \<and>
    loop_inv c orig' (length (oldVertices c)) (length (oldFaces c)) st' \<and> (finishedSubMesh st' \<or> 0 < subMeshVertexCount st')"
  using assms(1,3,4)
proof (induction ms arbitrary: orig v f st)
  case (Cons m ms)
  from split_mapping_inv [OF Cons.prems(1) assms(2) Cons.prems(2)]
  obtain st1 q where "split_mapping c m st = Inr (Some st1)" "loop_inv c (orig @ q) (unat (vertTo m)) (unat (triTo m)) st1"
      "finishedSubMesh st1 \<or> 0 < subMeshVertexCount st1" by blast
  with Cons.IH [OF this(2) _ this(3)] Cons.prems(2) show ?case by simp
qed auto

lemma rewritten_all: "rewritten orig (length old) old = map ((!) old) orig"
  by (simp add: rewritten_def)

lemma reorganise_inv:
  assumes ok: "supermesh_ok c" and maps: "super_mappings c \<noteq> []"
  shows "\<exists>st orig. reorganise c = Inr (Some st) \<and> buffers c orig (length (oldVertices c)) st \<and> serialised st \<and>
    length (newFaces st) = length (oldFaces c) \<and> (\<forall>i \<in> set orig. i < length (oldVertices c)) \<and>
    geometry c orig (newFaces st) (map span_of (newMappings st))"
proof -
  let ?n = "length (oldVertices c)" and ?f = "length (oldFaces c)"
  have "loop_inv c [] 0 0 (initial_splitting c)"
    by (simp add: loop_inv_def initial_splitting_def buffers_def rewritten_def serialised_def geometry_def spans_def map_idI)
  moreover have "mappings_wf c 0 0 (super_mappings c)" using ok by (simp add: supermesh_ok_def)
  moreover have "finishedSubMesh (initial_splitting c)" by (simp add: initial_splitting_def)
  ultimately obtain st orig where st: "split_mappings c (super_mappings c) (initial_splitting c) = Inr (Some st)"
      "loop_inv c orig ?n ?f st" "finishedSubMesh st \<or> 0 < subMeshVertexCount st"
    using split_mappings_inv [of c "[]" 0 0 "initial_splitting c" "super_mappings c"] ok by blast
  let ?st' = "if subMeshVertexCount st > 0 then finish_mapping st else st"
  have run: "reorganise c = Inr (Some ?st')" using maps st(1) by (simp add: reorganise_def performSplitting_def)
  have I: "buffers c orig ?n st" "serialised st" "length (newFaces st) = ?f" "\<forall>i \<in> set orig. i < ?n"
      "geometry c orig (newFaces st) (spans st)" "length orig \<le> ?n + 3 * ?f"
      "finishedSubMesh st \<Longrightarrow> subMeshVertexCount st = 0"
    using st(2) by (auto simp: loop_inv_def)
  have small: "length orig < 2 ^ 31" "?f < 2 ^ 31" using I(6) supermesh_lengths(3) [OF ok] by simp_all
  have "map span_of (newMappings ?st') = spans st"
    using finish_mapping_inv [OF st(2) _ small] st(3) I(7) by (auto simp: spans_def)
  then show ?thesis
    using run I by (intro exI [of _ ?st'] exI [of _ orig]) (simp add: buffers_def serialised_def finish_mapping_def)
qed

subsection \<open>Properties\<close>

text \<open>
  C10: reorganising keeps the geometry: on a supermesh whose mappings follow each other, with limits of at least
  one triangle, it succeeds, whatever is merged and split. The new buffers are copies of old entries (\<open>orig\<close>
  says which, the same for positions, normals and all texture coordinates), the faces stay in
  their order, and each lies in one of the new mappings, where its corners, counted from the first
  vertex of that mapping, are copies of its old corners.
\<close>

theorem reorganising_keeps_geometry:
  assumes "supermesh_ok c" and "super_mappings c \<noteq> []"
  shows "\<exists>st orig. reorganise c = Inr (Some st) \<and>
    newVertices st = map ((!) (oldVertices c)) orig \<and>
    newNormals st = (if oldNormals c = [] then [] else map ((!) (oldNormals c)) orig) \<and>
    newUVs st = map (\<lambda>uvs. map ((!) uvs) orig) (oldUVs c) \<and>
    length (newFaces st) = length (oldFaces c) \<and>
    (\<forall>k < length (oldFaces c). \<exists>m \<in> set (newMappings st). unat (triFrom m) \<le> k \<and> k < unat (triTo m) \<and>
       list_all2 (\<lambda>new old. unat (vertFrom m) + unat new < unat (vertTo m) \<and> orig ! (unat (vertFrom m) + unat new) = unat old)
         (newFaces st ! k) (oldFaces c ! k))"
proof -
  obtain st orig where st: "reorganise c = Inr (Some st)" "buffers c orig (length (oldVertices c)) st"
      "length (newFaces st) = length (oldFaces c)" "geometry c orig (newFaces st) (map span_of (newMappings st))"
    using reorganise_inv [OF assms] by blast
  note len = supermesh_lengths(4,5) [OF assms(1)]
  have "newNormals st = (if oldNormals c = [] then [] else map ((!) (oldNormals c)) orig)"
    using st(2) len(1) rewritten_all [of orig "oldNormals c"] by (auto simp: buffers_def)
  moreover have "newUVs st = map (\<lambda>uvs. map ((!) uvs) orig) (oldUVs c)"
  proof -
    have "rewritten orig (length (oldVertices c)) uvs = map ((!) uvs) orig" if "uvs \<in> set (oldUVs c)" for uvs
      using len(2) [OF that] rewritten_all by metis
    then show ?thesis using st(2) by (simp add: buffers_def cong: map_cong)
  qed
  moreover have "newVertices st = map ((!) (oldVertices c)) orig" using st(2) by (simp add: buffers_def rewritten_all)
  moreover have "\<exists>m \<in> set (newMappings st). unat (triFrom m) \<le> k \<and> k < unat (triTo m) \<and>
      list_all2 (\<lambda>new old. unat (vertFrom m) + unat new < unat (vertTo m) \<and> orig ! (unat (vertFrom m) + unat new) = unat old)
        (newFaces st ! k) (oldFaces c ! k)" if "k < length (oldFaces c)" for k
    using st(3,4) that by (auto simp: geometry_def face_in_def span_of_def corners_in_def)
  ultimately show ?thesis using st(1,3) by blast
qed

text \<open>
  C30: the limits are never exceeded: every new mapping spans at most the allowed vertices and faces, so with a
  limit of at most 65536 vertices the serialised 16-bit indices are the indices of the faces.
\<close>

theorem reorganised_within_limits:
  assumes "supermesh_ok c" and "super_mappings c \<noteq> []"
  shows "\<exists>st. reorganise c = Inr (Some st) \<and>
    list_all (\<lambda>m. vertFrom m \<le> vertTo m \<and> triFrom m \<le> triTo m \<and> unat (vertTo m - vertFrom m) \<le> maxVertices c \<and>
      unat (triTo m - triFrom m) \<le> maxFaces c) (newMappings st) \<and>
    (maxVertices c \<le> 65536 \<longrightarrow> map unat (getSerialisedFaces (Some st)) = map unat (concat (newFaces st)))"
proof -
  obtain st orig where st: "reorganise c = Inr (Some st)" "serialised st" "length (newFaces st) = length (oldFaces c)"
      "geometry c orig (newFaces st) (map span_of (newMappings st))"
    using reorganise_inv [OF assms] by blast
  have spans: "span_ok c (length orig) (length (newFaces st)) (span_of m)" if "m \<in> set (newMappings st)" for m
    using st(4) that by (simp add: geometry_def)
  have "vertFrom m \<le> vertTo m \<and> triFrom m \<le> triTo m \<and> unat (vertTo m - vertFrom m) \<le> maxVertices c \<and>
      unat (triTo m - triFrom m) \<le> maxFaces c" if "m \<in> set (newMappings st)" for m
    using spans [OF that] by (simp add: span_ok_def span_of_def word_le_nat_alt unat_diff)
  moreover have "unat (ucast i :: 16 word) = unat i" if "maxVertices c \<le> 65536" "f \<in> set (newFaces st)" "i \<in> set f" for f i
  proof -
    obtain k where k: "k < length (newFaces st)" "newFaces st ! k = f" using \<open>f \<in> set (newFaces st)\<close> by (meson in_set_conv_nth)
    then obtain m where m: "m \<in> set (newMappings st)" "face_in c orig (newFaces st) k (span_of m)"
      using st(4) by (auto simp: geometry_def)
    then have "list_all2 (\<lambda>new old. unat (vertFrom m) + unat new < unat (vertTo m)) f (oldFaces c ! k)"
      using k(2) by (auto simp: face_in_def span_of_def corners_in_def elim: list_all2_mono)
    then have "unat (vertFrom m) + unat i < unat (vertTo m)"
      using \<open>i \<in> set f\<close> by (auto simp: list_all2_conv_all_nth in_set_conv_nth)
    then have "unat i < 65536" using spans [OF m(1)] that(1) unfolding span_ok_def span_of_def prod.case by linarith
    then show ?thesis by (simp add: unsigned_ucast_eq take_bit_nat_eq_self)
  qed
  then have "maxVertices c \<le> 65536 \<longrightarrow> map unat (getSerialisedFaces (Some st)) = map unat (concat (newFaces st))"
    using st(2) by (auto simp: getSerialisedFaces_def serialised_def map_concat intro!: arg_cong [where f = concat])
  ultimately show ?thesis using st(1) by (auto simp: list_all_iff)
qed

text \<open>
  A square of two triangles over a limit of three vertices, behind a single triangle: the square is split in two and
  the two corners its triangles share are copied.
\<close>

definition sample_super :: supermesh where
  "sample_super = \<lparr>super_mappings =
       [empty_mapping\<lparr>mesh_id := 1, vertFrom := 0, vertTo := 3, triFrom := 0, triTo := 1\<rparr>,
        empty_mapping\<lparr>mesh_id := 2, vertFrom := 3, vertTo := 7, triFrom := 1, triTo := 3\<rparr>],
     super_id = 9, super_box = empty_bounds, maxVertices = 3, maxFaces = 2,
     oldVertices = map (\<lambda>i. (i, i, i)) [0, 1, 2, 3, 4, 5, 6], oldNormals = [], oldUVs = [map (\<lambda>i. (i, i)) [0, 1, 2, 3, 4, 5, 6]],
     oldFaces = [[0, 1, 2], [3, 4, 5], [5, 4, 6]]\<rparr>"

lemma sample_super_ok: "supermesh_ok sample_super" "super_mappings sample_super \<noteq> []"
  by (simp_all add: supermesh_ok_def sample_super_def empty_mapping_def)

theorem reorganising_keeps_geometry_witness:
  "\<exists>st orig m. reorganise sample_super = Inr (Some st) \<and> newVertices st = map ((!) (oldVertices sample_super)) orig \<and>
     length (newFaces st) = 3 \<and> m \<in> set (newMappings st) \<and> unat (triFrom m) \<le> 2 \<and> 2 < unat (triTo m) \<and>
     list_all2 (\<lambda>new old. orig ! (unat (vertFrom m) + unat new) = unat old) (newFaces st ! 2) [5 :: 32 word, 4, 6]"
proof -
  have f: "length (oldFaces sample_super) = 3" "oldFaces sample_super ! 2 = [5, 4, 6]" by (simp_all add: sample_super_def)
  obtain st orig where st: "reorganise sample_super = Inr (Some st)" "newVertices st = map ((!) (oldVertices sample_super)) orig"
      "length (newFaces st) = 3"
      "\<forall>k < 3. \<exists>m \<in> set (newMappings st). unat (triFrom m) \<le> k \<and> k < unat (triTo m) \<and>
         list_all2 (\<lambda>new old. unat (vertFrom m) + unat new < unat (vertTo m) \<and> orig ! (unat (vertFrom m) + unat new) = unat old)
           (newFaces st ! k) (oldFaces sample_super ! k)"
    using reorganising_keeps_geometry [OF sample_super_ok] unfolding f by blast
  have "(2 :: nat) < 3" by simp
  from mp [OF spec [OF st(4)] this]
  obtain m where m: "m \<in> set (newMappings st)" "unat (triFrom m) \<le> 2" "2 < unat (triTo m)"
      and full: "list_all2 (\<lambda>new old. unat (vertFrom m) + unat new < unat (vertTo m) \<and> orig ! (unat (vertFrom m) + unat new) = unat old)
        (newFaces st ! 2) (oldFaces sample_super ! 2)"
    by blast
  have "list_all2 (\<lambda>new old. orig ! (unat (vertFrom m) + unat new) = unat old) (newFaces st ! 2) [5 :: 32 word, 4, 6]"
    using full unfolding f(2) by (rule list_all2_mono) blast
  note m = m this
  show ?thesis using st(1-3) m by blast
qed

theorem reorganised_within_limits_witness:
  "\<exists>st. reorganise sample_super = Inr (Some st) \<and> list_all (\<lambda>m. unat (vertTo m - vertFrom m) \<le> 3) (newMappings st) \<and>
     map unat (getSerialisedFaces (Some st)) = map unat (concat (newFaces st))"
proof -
  have "maxVertices sample_super = 3" by (simp add: sample_super_def)
  then show ?thesis using reorganised_within_limits [OF sample_super_ok] by (auto simp: list_all_iff)
qed

end
