(* ===== verification/Json.thy ===== *)
theory Json
  imports Prelude
begin

text \<open>
  The JSON writer (\<open>bouncer/src/repo/lib/rapidjson/writer.h\<close>) as the program uses it: UTF-8 text into a string
  buffer, default flags. \<open>Writer\<close> is a handler of events; its stack of levels decides which separator a value
  gets. Every call that the source asserts something about can fail with \<open>AssertionFailed\<close>. The cast of a
  length to 32 bits is not modelled: no string of the program has four gigabytes.

  The second part is the specification: a JSON value, its text, and the lemmas that a sequence of events is the
  text of a value (\<open>emits\<close>) or of members of an object (\<open>members\<close>), which compose.
\<close>

subsection \<open>The writer\<close>

datatype Type = kNullType | kFalseType | kTrueType | kObjectType | kArrayType | kStringType | kNumberType

record Level =
  valueCount :: nat
  inArray :: bool

record Writer =
  os :: string
  level_stack :: "Level list" \<comment> \<open>the top first\<close>
  hasRoot :: bool

definition new_Writer :: Writer where
  "new_Writer = \<lparr>os = [], level_stack = [], hasRoot = False\<rparr>"

definition IsComplete :: "Writer \<Rightarrow> bool" where
  "IsComplete w \<longleftrightarrow> hasRoot w \<and> level_stack w = []"

definition Put :: "string \<Rightarrow> Writer \<Rightarrow> Writer" where
  "Put s w = w\<lparr>os := os w @ s\<rparr>"

definition Prefix :: "Type \<Rightarrow> Writer \<Rightarrow> Writer result" where
  "Prefix ty w =
     (case level_stack w of
        l # ls \<Rightarrow>
          let w = (if valueCount l > 0
                   then if inArray l then Put '','' w else Put (if even (valueCount l) then '','' else '':'') w
                   else w)
          in if \<not> inArray l \<and> even (valueCount l) \<and> ty \<noteq> kStringType then Inl AssertionFailed
             else Inr (w\<lparr>level_stack := l\<lparr>valueCount := valueCount l + 1\<rparr> # ls\<rparr>)
      | [] \<Rightarrow> if hasRoot w then Inl AssertionFailed else Inr (w\<lparr>hasRoot := True\<rparr>))"

definition hexDigits :: string where "hexDigits = ''0123456789ABCDEF''"

text \<open>The table \<open>escape\<close>, with no entry where the table has a zero; 34 is the quote, 92 the backslash.\<close>

definition escape :: "char \<Rightarrow> char option" where
  "escape c =
     (let n = of_char c :: nat
      in if n = 8 then Some CHR ''b'' else if n = 9 then Some CHR ''t'' else if n = 10 then Some CHR ''n''
         else if n = 12 then Some CHR ''f'' else if n = 13 then Some CHR ''r''
         else if n < 32 then Some CHR ''u'' else if n = 34 \<or> n = 92 then Some c else None)"

definition write_char :: "char \<Rightarrow> string" where
  "write_char c =
     (case escape c of
        None \<Rightarrow> [c]
      | Some e \<Rightarrow> [CHR 0x5C, e] @
          (if e = CHR ''u''
           then [CHR ''0'', CHR ''0'', hexDigits ! (of_char c div 16), hexDigits ! (of_char c mod 16)] else []))"

definition WriteString :: "string \<Rightarrow> Writer \<Rightarrow> Writer" where
  "WriteString s w = Put ([CHR 0x22] @ concat (map write_char s) @ [CHR 0x22]) w"

definition String :: "string \<Rightarrow> Writer \<Rightarrow> Writer result" where
  "String s w = rbind (Prefix kStringType w) (\<lambda>w. Inr (WriteString s w))"

definition Key :: "string \<Rightarrow> Writer \<Rightarrow> Writer result" where
  "Key = String"

definition Null :: "Writer \<Rightarrow> Writer result" where
  "Null w = rbind (Prefix kNullType w) (\<lambda>w. Inr (Put ''null'' w))"

definition Bool :: "bool \<Rightarrow> Writer \<Rightarrow> Writer result" where
  "Bool b w = rbind (Prefix (if b then kTrueType else kFalseType) w) (\<lambda>w. Inr (Put (if b then ''true'' else ''false'') w))"

definition StartObject :: "Writer \<Rightarrow> Writer result" where
  "StartObject w = rbind (Prefix kObjectType w) (\<lambda>w.
     Inr (Put ''{'' (w\<lparr>level_stack := \<lparr>valueCount = 0, inArray = False\<rparr> # level_stack w\<rparr>)))"

definition EndObject :: "Writer \<Rightarrow> Writer result" where
  "EndObject w =
     (case level_stack w of
        [] \<Rightarrow> Inl AssertionFailed
      | l # ls \<Rightarrow> if inArray l \<or> odd (valueCount l) then Inl AssertionFailed
                  else Inr (Put ''}'' (w\<lparr>level_stack := ls\<rparr>)))"

definition StartArray :: "Writer \<Rightarrow> Writer result" where
  "StartArray w = rbind (Prefix kArrayType w) (\<lambda>w.
     Inr (Put ''['' (w\<lparr>level_stack := \<lparr>valueCount = 0, inArray = True\<rparr> # level_stack w\<rparr>)))"

definition EndArray :: "Writer \<Rightarrow> Writer result" where
  "EndArray w =
     (case level_stack w of
        [] \<Rightarrow> Inl AssertionFailed
      | l # ls \<Rightarrow> if \<not> inArray l then Inl AssertionFailed else Inr (Put '']'' (w\<lparr>level_stack := ls\<rparr>)))"

text \<open>A sequence of calls on one writer.\<close>

definition calls :: "(Writer \<Rightarrow> Writer result) list \<Rightarrow> Writer \<Rightarrow> Writer result" where
  "calls = rfold (\<lambda>f. f)"

lemma calls_simps [simp]:
  "calls [] w = Inr w" "calls (f # fs) w = rbind (f w) (calls fs)" "calls (fs @ gs) w = rbind (calls fs w) (calls gs)"
  by (simp_all add: calls_def rfold_append)

subsection \<open>Values and their text\<close>

datatype json = JString string | JArray "json list" | JObject "(string \<times> json) list"

definition quoted :: "string \<Rightarrow> string" where
  "quoted s = [CHR 0x22] @ concat (map write_char s) @ [CHR 0x22]"

fun comma_separated :: "string list \<Rightarrow> string" where
  "comma_separated [] = []"
| "comma_separated [x] = x"
| "comma_separated (x # y # ys) = x @ '','' @ comma_separated (y # ys)"

fun json_text :: "json \<Rightarrow> string" where
  "json_text (JString s) = quoted s"
| "json_text (JArray js) = ''['' @ comma_separated (map json_text js) @ '']''"
| "json_text (JObject kvs) = ''{'' @ comma_separated (map (\<lambda>(k, v). quoted k @ '':'' @ json_text v) kvs) @ ''}''"

subsection \<open>Events that write a value\<close>

text \<open>A value may be written here, and what the writer is after one that has the given text.\<close>

definition at_value :: "Writer \<Rightarrow> bool" where
  "at_value w \<longleftrightarrow> (case level_stack w of [] \<Rightarrow> \<not> hasRoot w | l # ls \<Rightarrow> inArray l \<or> odd (valueCount l))"

definition separator :: "Level \<Rightarrow> string" where
  "separator l = (if valueCount l = 0 then '''' else if inArray l \<or> even (valueCount l) then '','' else '':'')"

definition after_value :: "string \<Rightarrow> Writer \<Rightarrow> Writer" where
  "after_value txt w =
     (case level_stack w of
        [] \<Rightarrow> w\<lparr>hasRoot := True, os := os w @ txt\<rparr>
      | l # ls \<Rightarrow> w\<lparr>os := os w @ separator l @ txt, level_stack := l\<lparr>valueCount := valueCount l + 1\<rparr> # ls\<rparr>)"

definition emits :: "(Writer \<Rightarrow> Writer result) \<Rightarrow> json \<Rightarrow> bool" where
  "emits f j \<longleftrightarrow> (\<forall>w. at_value w \<longrightarrow> f w = Inr (after_value (json_text j) w))"

text \<open>Events between the start and the end of an object or array; \<open>n\<close> values were written before.\<close>

definition listed_to :: "nat \<Rightarrow> string list \<Rightarrow> string" where
  "listed_to n xs = (if n > 0 \<and> xs \<noteq> [] then '','' else '''') @ comma_separated xs"

definition members :: "(Writer \<Rightarrow> Writer result) \<Rightarrow> (string \<times> json) list \<Rightarrow> bool" where
  "members f kvs \<longleftrightarrow>
     (\<forall>w n ls. level_stack w = \<lparr>valueCount = n, inArray = False\<rparr> # ls \<and> even n \<longrightarrow>
        f w = Inr (w\<lparr>os := os w @ listed_to n (map (\<lambda>(k, v). quoted k @ '':'' @ json_text v) kvs),
                     level_stack := \<lparr>valueCount = n + 2 * length kvs, inArray = False\<rparr> # ls\<rparr>))"

definition elements :: "(Writer \<Rightarrow> Writer result) \<Rightarrow> json list \<Rightarrow> bool" where
  "elements f js \<longleftrightarrow>
     (\<forall>w n ls. level_stack w = \<lparr>valueCount = n, inArray = True\<rparr> # ls \<longrightarrow>
        f w = Inr (w\<lparr>os := os w @ listed_to n (map json_text js),
                     level_stack := \<lparr>valueCount = n + length js, inArray = True\<rparr> # ls\<rparr>))"

lemma membersD:
  "members f kvs \<Longrightarrow> level_stack w = \<lparr>valueCount = n, inArray = False\<rparr> # ls \<Longrightarrow> even n \<Longrightarrow>
   f w = Inr (w\<lparr>os := os w @ listed_to n (map (\<lambda>(k, v). quoted k @ '':'' @ json_text v) kvs),
                level_stack := \<lparr>valueCount = n + 2 * length kvs, inArray = False\<rparr> # ls\<rparr>)"
  by (simp add: members_def)

lemma elementsD:
  "elements f js \<Longrightarrow> level_stack w = \<lparr>valueCount = n, inArray = True\<rparr> # ls \<Longrightarrow>
   f w = Inr (w\<lparr>os := os w @ listed_to n (map json_text js),
                level_stack := \<lparr>valueCount = n + length js, inArray = True\<rparr> # ls\<rparr>)"
  by (simp add: elements_def)

lemma comma_separated_append:
  "comma_separated (xs @ ys) = comma_separated xs @ (if xs \<noteq> [] \<and> ys \<noteq> [] then '','' else '''') @ comma_separated ys"
proof (induction xs rule: comma_separated.induct)
  case (2 x)
  then show ?case by (cases ys) simp_all
qed simp_all

lemma listed_append: "listed_to n xs @ listed_to (n + k * length xs) ys = listed_to n (xs @ ys)" if "k > 0"
  using that by (auto simp: listed_to_def comma_separated_append)

lemma emits_String [intro!]: "emits (String s) (JString s)"
  by (auto simp: emits_def String_def Prefix_def at_value_def after_value_def separator_def WriteString_def quoted_def Put_def
      split: list.splits)

lemma members_Nil [intro!]: "members (calls []) []"
  by (simp add: members_def listed_to_def)

lemma members_append [intro]:
  assumes "members (calls fs) as" and "members (calls gs) bs"
  shows "members (calls (fs @ gs)) (as @ bs)"
  unfolding members_def
proof safe
  fix w :: Writer and n ls assume w: "level_stack w = \<lparr>valueCount = n, inArray = False\<rparr> # ls" "even (n :: nat)"
  let ?texts = "map (\<lambda>(k, v). quoted k @ '':'' @ json_text v)"
  define w1 where "w1 = w\<lparr>os := os w @ listed_to n (?texts as),
      level_stack := \<lparr>valueCount = n + 2 * length as, inArray = False\<rparr> # ls\<rparr>"
  have "calls fs w = Inr w1" unfolding w1_def by (rule membersD [OF assms(1) w])
  moreover have "calls gs w1 = Inr (w1\<lparr>os := os w1 @ listed_to (n + 2 * length as) (?texts bs),
      level_stack := \<lparr>valueCount = n + 2 * length as + 2 * length bs, inArray = False\<rparr> # ls\<rparr>)"
    by (rule membersD [OF assms(2)]) (use w(2) in \<open>simp_all add: w1_def\<close>)
  ultimately show "calls (fs @ gs) w = Inr (w\<lparr>os := os w @ listed_to n (?texts (as @ bs)),
          level_stack := \<lparr>valueCount = n + 2 * length (as @ bs), inArray = False\<rparr> # ls\<rparr>)"
    using listed_append [of 2 n "?texts as" "?texts bs"] by (simp add: w1_def add.assoc add_mult_distrib2)
qed

lemma members_Cons:
  assumes "emits f v" and "members (calls gs) kvs"
  shows "members (calls (Key k # f # gs)) ((k, v) # kvs)"
proof -
  have "members (calls [Key k, f]) [(k, v)]"
    using assms(1)
    by (auto simp: members_def emits_def Key_def String_def Prefix_def WriteString_def Put_def quoted_def at_value_def
        after_value_def separator_def listed_to_def)
  from members_append [OF this assms(2)] show ?thesis by simp
qed

lemma elements_Nil: "elements (calls []) []"
  by (simp add: elements_def listed_to_def)

lemma elements_Cons:
  assumes "emits f j" and "elements (calls gs) js"
  shows "elements (calls (f # gs)) (j # js)"
  unfolding elements_def
proof safe
  fix w :: Writer and n ls assume w: "level_stack w = \<lparr>valueCount = n, inArray = True\<rparr> # ls"
  define w1 where "w1 = w\<lparr>os := os w @ listed_to n [json_text j],
      level_stack := \<lparr>valueCount = n + 1, inArray = True\<rparr> # ls\<rparr>"
  have "f w = Inr w1"
    using assms(1) w by (simp add: emits_def at_value_def after_value_def separator_def listed_to_def w1_def)
  moreover have "calls gs w1 = Inr (w1\<lparr>os := os w1 @ listed_to (n + 1) (map json_text js),
      level_stack := \<lparr>valueCount = n + 1 + length js, inArray = True\<rparr> # ls\<rparr>)"
    by (rule elementsD [OF assms(2)]) (simp add: w1_def)
  ultimately show "calls (f # gs) w = Inr (w\<lparr>os := os w @ listed_to n (map json_text (j # js)),
               level_stack := \<lparr>valueCount = n + length (j # js), inArray = True\<rparr> # ls\<rparr>)"
    using listed_append [of 1 n "[json_text j]" "map json_text js"] by (simp add: w1_def)
qed

lemma elements_map:
  assumes "\<And>x. x \<in> set xs \<Longrightarrow> emits (f x) (j x)"
  shows "elements (calls (map f xs)) (map j xs)"
  using assms by (induction xs) (auto intro: elements_Nil elements_Cons)

lemma emits_object:
  assumes "members (calls fs) kvs"
  shows "emits (calls (StartObject # fs @ [EndObject])) (JObject kvs)"
  unfolding emits_def
proof safe
  fix w :: Writer assume w: "at_value w"
  have s: "StartObject w = Inr ((after_value ''{'' w)\<lparr>level_stack :=
      \<lparr>valueCount = 0, inArray = False\<rparr> # level_stack (after_value ''{'' w)\<rparr>)"
    using w by (auto simp: StartObject_def Prefix_def at_value_def after_value_def separator_def Put_def split: list.splits)
  show "calls (StartObject # fs @ [EndObject]) w = Inr (after_value (json_text (JObject kvs)) w)"
    using s membersD [OF assms, of "(after_value ''{'' w)\<lparr>level_stack := \<lparr>valueCount = 0, inArray = False\<rparr> # level_stack (after_value ''{'' w)\<rparr>"]
    by (auto simp: EndObject_def listed_to_def after_value_def Put_def split: list.splits)
qed

lemma emits_array:
  assumes "elements (calls fs) js"
  shows "emits (calls (StartArray # fs @ [EndArray])) (JArray js)"
  unfolding emits_def
proof safe
  fix w :: Writer assume w: "at_value w"
  have s: "StartArray w = Inr ((after_value ''['' w)\<lparr>level_stack :=
      \<lparr>valueCount = 0, inArray = True\<rparr> # level_stack (after_value ''['' w)\<rparr>)"
    using w by (auto simp: StartArray_def Prefix_def at_value_def after_value_def separator_def Put_def split: list.splits)
  show "calls (StartArray # fs @ [EndArray]) w = Inr (after_value (json_text (JArray js)) w)"
    using s elementsD [OF assms, of "(after_value ''['' w)\<lparr>level_stack := \<lparr>valueCount = 0, inArray = True\<rparr> # level_stack (after_value ''['' w)\<rparr>"]
    by (auto simp: EndArray_def listed_to_def after_value_def Put_def split: list.splits)
qed

lemma emitted_document:
  assumes "emits f j"
  shows "\<exists>w. f new_Writer = Inr w \<and> IsComplete w \<and> os w = json_text j"
  using assms by (simp add: emits_def at_value_def new_Writer_def after_value_def IsComplete_def)

end
