(* ===== verification/SelectionTree.thy ===== *)
theory SelectionTree
  imports Json SceneCommit
begin

text \<open>
  The selection tree (\<open>bouncer/src/repo/manipulator/modelutility/repo_maker_selection_tree.cpp\<close>): from the documents of
  a revision a vector of nodes is read, pointers into it become the edges, a recursive traversal from the root sorts
  the children and computes paths, visibility and the meshes below each node, and the result is written as JSON.

  A pointer into the vector is an index. \<open>std::sort\<close> with the comparison \<open>P a && !P b\<close> and the order in which an
  \<open>unordered_map\<close> is iterated are not determined by the language: they are arguments (\<open>tree_env\<close>).
\<close>

subsection \<open>Data\<close>

datatype ToggleState = SHOW | HIDDEN | HALF_HIDDEN

record tree_node =
  tn_type :: NodeType
  tn_name :: string
  tn_id :: uuid
  tn_shared :: uuid
  tn_meta :: "uuid list"
  tn_children :: "nat list"
  tn_path :: "uuid list"
  tn_toggle :: ToggleState

record SelectionTreesSet =
  account :: string
  project :: string
  root :: "nat option" \<comment> \<open>\<open>None\<close>: the pointer was never set\<close>
  nodes :: "tree_node list"
  idToPath :: "(uuid \<times> uuid list) list"
  idToMeshes :: "(uuid \<times> uuid list) list"
  idToName :: "(uuid \<times> string) list"
  idMap :: "(uuid \<times> uuid) list"
  hiddenNodes :: "uuid list"

record tree_env =
  partition_sort :: "(nat \<Rightarrow> bool) \<Rightarrow> nat list \<Rightarrow> nat list" \<comment> \<open>\<open>std::sort\<close> with the comparison above\<close>
  map_order :: "uuid list \<Rightarrow> uuid list"
  uuid_text :: "uuid \<Rightarrow> string" \<comment> \<open>\<open>RepoUUID::toString\<close>\<close>
  defaultInvisible :: "uuid fset" \<comment> \<open>of the scene\<close>

definition isHiddenByDefault :: "tree_env \<Rightarrow> uuid \<Rightarrow> bool" where
  "isHiddenByDefault env uniqueID \<longleftrightarrow> uniqueID |\<in>| defaultInvisible env"

definition iterate :: "tree_env \<Rightarrow> (uuid \<times> 'a) list \<Rightarrow> (uuid \<times> 'a) list" where
  "iterate env m = map (\<lambda>k. (k, the (map_of m k))) (map_order env (map fst m))"

definition empty_trees :: SelectionTreesSet where
  "empty_trees = \<lparr>account = [], project = [], root = None, nodes = [], idToPath = [], idToMeshes = [], idToName = [],
     idMap = [], hiddenNodes = []\<rparr>"

definition IFC_TYPE_SPACE_LABEL :: string where "IFC_TYPE_SPACE_LABEL = ''(IFC Space)''"

text \<open>\<open>find(p) != npos\<close>.\<close>

fun str_contains :: "string \<Rightarrow> string \<Rightarrow> bool" where
  "str_contains p [] \<longleftrightarrow> p = []"
| "str_contains p (c # s) \<longleftrightarrow> take (length p) (c # s) = p \<or> str_contains p s"

definition is_space :: "tree_node \<Rightarrow> bool" where
  "is_space n \<longleftrightarrow> str_contains IFC_TYPE_SPACE_LABEL (tn_name n)"

definition upd_node :: "nat \<Rightarrow> (tree_node \<Rightarrow> tree_node) \<Rightarrow> SelectionTreesSet \<Rightarrow> SelectionTreesSet" where
  "upd_node i f trees = trees\<lparr>nodes := (nodes trees)[i := f (nodes trees ! i)]\<rparr>"

subsection \<open>Traversal\<close>

definition hides :: "tree_env \<Rightarrow> tree_node \<Rightarrow> bool" where
  "hides env n \<longleftrightarrow> isHiddenByDefault env (tn_id n) \<or> is_space n \<and> tn_type n = MESH"

text \<open>What \<open>traversePtree\<close> does to a node after its children.\<close>

definition finish_node ::
  "tree_env \<Rightarrow> nat \<Rightarrow> uuid list \<Rightarrow> bool \<Rightarrow> uuid list \<Rightarrow> SelectionTreesSet \<Rightarrow> bool \<times> uuid list \<times> SelectionTreesSet" where
  "finish_node env i currentPath hasHiddenChildren meshIds trees =
     (let n = nodes trees ! i;
          (hasHiddenChildren, trees) =
            (if hides env n
             then (True, (upd_node i (tn_toggle_update (\<lambda>_. HIDDEN)) trees)\<lparr>hiddenNodes := hiddenNodes trees @ [tn_id n]\<rparr>)
             else if hasHiddenChildren then (True, upd_node i (tn_toggle_update (\<lambda>_. HALF_HIDDEN)) trees)
             else (False, upd_node i (tn_toggle_update (\<lambda>_. SHOW)) trees));
          meshIds = (if tn_type n = MESH then meshIds @ [tn_id n] else meshIds)
      in (hasHiddenChildren, meshIds, trees\<lparr>
            idToPath := AList.update (tn_id n) currentPath (idToPath trees),
            idToMeshes := AList.update (tn_id n) meshIds (idToMeshes trees),
            idToName := AList.update (tn_id n) (tn_name n) (idToName trees),
            idMap := AList.update (tn_id n) (tn_shared n) (idMap trees)\<rparr>))"

definition enter_node :: "tree_env \<Rightarrow> nat \<Rightarrow> uuid list \<Rightarrow> SelectionTreesSet \<Rightarrow> SelectionTreesSet" where
  "enter_node env i currentPath trees =
     upd_node i (\<lambda>n. n\<lparr>tn_children := partition_sort env (\<lambda>c. is_space (nodes trees ! c)) (tn_children n),
                       tn_path := currentPath\<rparr>) trees"

fun traversePtree ::
  "tree_env \<Rightarrow> nat \<Rightarrow> nat \<Rightarrow> uuid list \<Rightarrow> SelectionTreesSet \<Rightarrow> (bool \<times> uuid list \<times> SelectionTreesSet) result" where
  "traversePtree env 0 i currentPath trees = Inl StackOverflow"
| "traversePtree env (Suc fuel) i currentPath trees =
     (let currentPath = currentPath @ [tn_id (nodes trees ! i)];
          trees = enter_node env i currentPath trees
      in rbind (rfold (\<lambda>child (hasHiddenChildren, meshIds, trees).
             rbind (traversePtree env fuel child currentPath trees) (\<lambda>(childIsHidden, childMeshes, trees).
               Inr (hasHiddenChildren \<or> childIsHidden, meshIds @ childMeshes, trees)))
           (tn_children (nodes trees ! i)) (False, [], trees))
         (\<lambda>(hasHiddenChildren, meshIds, trees). Inr (finish_node env i currentPath hasHiddenChildren meshIds trees)))"

subsection \<open>Reading the nodes\<close>

record tree_maps =
  parentSharedId :: "(uuid \<times> uuid) list" \<comment> \<open>\<open>uniqueIdToParentSharedId\<close>\<close>
  metadataParents :: "(uuid \<times> uuid list) list" \<comment> \<open>\<open>metadataUniqueIdToParentsSharedIds\<close>\<close>

definition read_tree_node :: "RepoBSON \<Rightarrow> tree_node list \<times> tree_maps \<Rightarrow> (tree_node list \<times> tree_maps) result" where
  "read_tree_node bson = (\<lambda>(ns, ms).
     rbind (RepoNode_of_bson bson) (\<lambda>repo.
     rbind (getStringField bson REPO_NODE_LABEL_TYPE) (\<lambda>ty. Inr (
       let type = parseType ty in
       if type = MESH \<or> type = TRANSFORMATION
       then (ns @ [\<lparr>tn_type = type, tn_name = node_name repo, tn_id = uniqueId repo, tn_shared = sharedId repo, tn_meta = [],
                     tn_children = [], tn_path = [], tn_toggle = SHOW\<rparr>],
             (case getParentIDs repo of
                [] \<Rightarrow> ms
              | p # _ \<Rightarrow> ms\<lparr>parentSharedId := AList.update (uniqueId repo) p (parentSharedId ms)\<rparr>))
       else if type = METADATA
       then (ns, ms\<lparr>metadataParents := AList.update (uniqueId repo) (getParentIDs repo) (metadataParents ms)\<rparr>)
       else (ns, ms)))))"

text \<open>\<open>sharedIdToNode\<close>: the last node with a shared identifier.\<close>

definition shared_nodes :: "tree_node list \<Rightarrow> (uuid \<times> nat) list" where
  "shared_nodes ns = fold (\<lambda>i m. AList.update (tn_shared (ns ! i)) i m) [0..<length ns] []"

text \<open>\<open>operator[]\<close> gives a node without an entry the default identifier as the one of its parent.\<close>

definition parent_shared :: "tree_maps \<Rightarrow> tree_node \<Rightarrow> uuid" where
  "parent_shared ms n = (case map_of (parentSharedId ms) (tn_id n) of None \<Rightarrow> default_uuid | Some p \<Rightarrow> p)"

definition connect :: "tree_maps \<Rightarrow> (uuid \<times> nat) list \<Rightarrow> nat \<Rightarrow> SelectionTreesSet \<Rightarrow> SelectionTreesSet" where
  "connect ms shared i trees =
     (case map_of shared (parent_shared ms (nodes trees ! i)) of
        Some p \<Rightarrow> upd_node p (\<lambda>n. n\<lparr>tn_children := tn_children n @ [i]\<rparr>) trees
      | None \<Rightarrow> trees\<lparr>root := Some i\<rparr>)"

definition add_meta :: "(uuid \<times> nat) list \<Rightarrow> uuid \<times> uuid list \<Rightarrow> SelectionTreesSet \<Rightarrow> SelectionTreesSet result" where
  "add_meta shared = (\<lambda>(metadataUniqueId, parents).
     rfold (\<lambda>parentSharedId trees.
       case map_of shared parentSharedId of
         None \<Rightarrow> Inl NullDeref
       | Some p \<Rightarrow> Inr (upd_node p (\<lambda>n. n\<lparr>tn_meta := tn_meta n @ [metadataUniqueId]\<rparr>) trees)) parents)"

text \<open>The tree before it is traversed, from the documents of the cursor.\<close>

definition connected_trees :: "tree_env \<Rightarrow> RepoScene \<Rightarrow> RepoBSON list \<Rightarrow> SelectionTreesSet result" where
  "connected_trees env s bsons =
     rbind (rfold read_tree_node bsons ([], \<lparr>parentSharedId = [], metadataParents = []\<rparr>)) (\<lambda>(ns, ms).
       let shared = shared_nodes ns;
           trees = empty_trees\<lparr>account := databaseName s, project := projectName s, nodes := ns\<rparr>;
           trees = fold (connect ms shared) [0..<length ns] trees
       in rfold (add_meta shared) (iterate env (metadataParents ms)) trees)"

text \<open>
  The filter and the projection the documents are asked for with. The recursion gets as much fuel as there are nodes
  and one more.
\<close>

definition tree_filter :: "RepoScene \<Rightarrow> RepoQuery list" where
  "tree_filter s = [Eq REPO_NODE_REVISION_ID [VUUID (revision s)]]"

definition tree_projection :: "string list" where
  "tree_projection = [REPO_NODE_LABEL_ID, REPO_NODE_LABEL_SHARED_ID, REPO_NODE_LABEL_PARENTS, REPO_NODE_LABEL_TYPE]"

definition generateSelectionTrees ::
  "tree_env \<Rightarrow> (string \<Rightarrow> string \<Rightarrow> RepoQuery list \<Rightarrow> string list \<Rightarrow> RepoBSON list result) \<Rightarrow> RepoScene \<Rightarrow>
     SelectionTreesSet result" where
  "generateSelectionTrees env findCursorByCriteria s =
     rbind (findCursorByCriteria (databaseName s) (project_collection s REPO_COLLECTION_SCENE) (tree_filter s) tree_projection)
       (\<lambda>bsons. rbind (connected_trees env s bsons) (\<lambda>trees.
          case root trees of
            None \<Rightarrow> Inl NullDeref
          | Some r \<Rightarrow> rbind (traversePtree env (Suc (length (nodes trees))) r [] trees) (\<lambda>(_, _, trees). Inr trees)))"

subsection \<open>Writing JSON\<close>

fun nodeTypeToString :: "NodeType \<Rightarrow> string" where
  "nodeTypeToString MESH = REPO_NODE_TYPE_MESH"
| "nodeTypeToString TRANSFORMATION = REPO_NODE_TYPE_TRANSFORMATION"
| "nodeTypeToString METADATA = REPO_NODE_TYPE_METADATA"
| "nodeTypeToString MATERIAL = REPO_NODE_TYPE_MATERIAL"
| "nodeTypeToString REVISION = REPO_NODE_TYPE_REVISION"
| "nodeTypeToString TEXTURE = REPO_NODE_TYPE_TEXTURE"
| "nodeTypeToString UNKNOWN = ''UNKNOWN''"

fun childPathToString :: "tree_env \<Rightarrow> uuid list \<Rightarrow> string" where
  "childPathToString env [] = []"
| "childPathToString env [u] = uuid_text env u"
| "childPathToString env (u # v # us) = uuid_text env u @ ''__'' @ childPathToString env (v # us)"

fun toggleStateToString :: "ToggleState \<Rightarrow> string" where
  "toggleStateToString SHOW = ''visible''"
| "toggleStateToString HIDDEN = ''invisible''"
| "toggleStateToString HALF_HIDDEN = ''parentOfInvisible''"

fun writePropertyTree :: "tree_env \<Rightarrow> nat \<Rightarrow> SelectionTreesSet \<Rightarrow> nat \<Rightarrow> Writer \<Rightarrow> Writer result" where
  "writePropertyTree env 0 trees i w = Inl StackOverflow"
| "writePropertyTree env (Suc fuel) trees i w =
     (let n = nodes trees ! i in
      calls ([StartObject,
        Key ''account'', String (account trees), Key ''project'', String (project trees),
        Key ''type'', String (nodeTypeToString (tn_type n))] @
        (if tn_name n \<noteq> [] then [Key ''name'', String (tn_name n)] else []) @
        [Key ''path'', String (childPathToString env (tn_path n)), Key ''_id'', String (uuid_text env (tn_id n)),
         Key ''shared_id'', String (uuid_text env (tn_shared n))] @
        (if tn_children n \<noteq> []
         then [Key ''children'', StartArray, rfold (writePropertyTree env fuel trees) (tn_children n), EndArray] else []) @
        (if tn_meta n \<noteq> []
         then [Key ''meta'', StartArray, calls (map (\<lambda>u. String (uuid_text env u)) (tn_meta n)), EndArray] else []) @
        [Key ''toggleState'', String (toggleStateToString (tn_toggle n)), EndObject]) w)"

definition write_map :: "tree_env \<Rightarrow> ('a \<Rightarrow> (Writer \<Rightarrow> Writer result) list) \<Rightarrow> (uuid \<times> 'a) list \<Rightarrow> (Writer \<Rightarrow> Writer result) list" where
  "write_map env value m = [StartObject] @ concat (map (\<lambda>(u, x). Key (uuid_text env u) # value x) (iterate env m)) @ [EndObject]"

definition write_ids :: "tree_env \<Rightarrow> uuid list \<Rightarrow> (Writer \<Rightarrow> Writer result) list" where
  "write_ids env us = [StartArray] @ map (\<lambda>u. String (uuid_text env u)) us @ [EndArray]"

definition written :: "(Writer \<Rightarrow> Writer result) list \<Rightarrow> string result" where
  "written fs = rbind (calls fs new_Writer) (\<lambda>w. Inr (os w))"

definition serialiseSelectionTreesToJson :: "tree_env \<Rightarrow> SelectionTreesSet \<Rightarrow> (string \<times> string) list result" where
  "serialiseSelectionTreesToJson env trees =
     (case root trees of
        None \<Rightarrow> Inl NullDeref
      | Some r \<Rightarrow>
          rbind (written ([StartObject, Key ''nodes'', writePropertyTree env (Suc (length (nodes trees))) trees r, Key ''idToName''] @
                   write_map env (\<lambda>s. [String s]) (idToName trees) @ [EndObject])) (\<lambda>fulltree.
          rbind (written ([StartObject, Key ''idToPath''] @
                   write_map env (\<lambda>p. [String (childPathToString env p)]) (idToPath trees) @ [EndObject])) (\<lambda>tree_path.
          rbind (written ([StartObject, Key ''idMap''] @
                   write_map env (\<lambda>u. [String (uuid_text env u)]) (idMap trees) @ [EndObject])) (\<lambda>idmap.
          rbind (written (write_map env (write_ids env) (idToMeshes trees))) (\<lambda>meshes.
          rbind (if hiddenNodes trees = [] then Inr []
                 else rbind (written ([StartObject, Key ''hiddenNodes''] @ write_ids env (hiddenNodes trees) @ [EndObject]))
                        (\<lambda>hidden. Inr [(''modelProperties.json'', hidden)])) (\<lambda>hidden.
            Inr ([(''fulltree.json'', fulltree), (''tree_path.json'', tree_path), (''idMap.json'', idmap),
                  (''idToMeshes.json'', meshes)] @ hidden)))))))"

definition getSelectionTreeAsBuffer :: "tree_env \<Rightarrow> SelectionTreesSet \<Rightarrow> (string \<times> byte list) list result" where
  "getSelectionTreeAsBuffer env trees =
     rbind (serialiseSelectionTreesToJson env trees) (\<lambda>maps.
       Inr (map (\<lambda>(name, jsonString). (name, map of_char jsonString)) (filter (\<lambda>(_, jsonString). jsonString \<noteq> []) maps)))"

end
