(* ===== verification/SelectionTreeSpec.thy ===== *)
theory SelectionTreeSpec
  imports SelectionTree
begin

text \<open>
  What the selection tree promises. The pointers of a connected tree stand for a rooted tree (\<open>stree\<close>), over which
  the traversal is specified: which paths, visibility states and tables it leaves (\<open>shown\<close>), and that it touches
  nothing else (\<open>outcome\<close>). That the pointers below the root never form a cycle is proved from the way they are
  made, so the recursion ends whatever the documents say.
\<close>

subsection \<open>Sorting the children\<close>

lemma mset_image_list: "mset ys = image_mset f M \<Longrightarrow> \<exists>us. mset us = M \<and> ys = map f us"
proof (induction ys arbitrary: M)
  case (Cons y ys)
  then have "y \<in># image_mset f M" by (metis list.set_intros(1) set_mset_mset)
  then obtain x where x: "x \<in># M" "y = f x" by auto
  then obtain N where N: "M = add_mset x N" by (metis mset_add)
  then obtain us where "mset us = N" "ys = map f us" using Cons x by auto
  then show ?case using x N by (intro exI [of _ "x # us"]) simp
qed simp

locale cpp_partition =
  fixes srt :: "(nat \<Rightarrow> bool) \<Rightarrow> nat list \<Rightarrow> nat list"
  assumes part_perm: "mset (srt P xs) = mset xs"
    and part_order: "sorted_wrt (\<lambda>a b. P b \<longrightarrow> P a) (srt P xs)"
begin

lemma part_set: "set (srt P xs) = set xs"
  using part_perm by (metis set_mset_mset)

lemma part_map:
  assumes "srt P (map f ts) = ys"
  obtains us where "mset us = mset ts" and "ys = map f us"
proof -
  have "mset ys = image_mset f (mset ts)" using part_perm assms by (metis mset_map)
  then show ?thesis using mset_image_list that by blast
qed

end

definition spaces_first :: "(nat \<Rightarrow> bool) \<Rightarrow> nat list \<Rightarrow> nat list" where
  "spaces_first P xs = filter P xs @ filter (\<lambda>x. \<not> P x) xs"

interpretation stable_partition: cpp_partition spaces_first
proof
  fix P xs
  show "mset (spaces_first P xs) = mset xs" by (simp add: spaces_first_def mset_filter_partition)
  have "sorted_wrt (\<lambda>a b. P b \<longrightarrow> P a) (filter P xs)" "sorted_wrt (\<lambda>a b. P b \<longrightarrow> P a) (filter (\<lambda>x. \<not> P x) xs)"
    by (induction xs) auto
  then show "sorted_wrt (\<lambda>a b. P b \<longrightarrow> P a) (spaces_first P xs)" by (auto simp: spaces_first_def sorted_wrt_append)
qed

subsection \<open>Trees behind the pointers\<close>

datatype stree = SNode (label: nat) (subtrees: "stree list")

fun labels :: "stree \<Rightarrow> nat list" where
  "labels (SNode i ts) = i # concat (map labels ts)"

fun depth :: "stree \<Rightarrow> nat" where
  "depth (SNode i ts) = Suc (Max (insert 0 (set (map depth ts))))"

fun represents :: "tree_node list \<Rightarrow> stree \<Rightarrow> bool" where
  "represents ns (SNode i ts) \<longleftrightarrow> i < length ns \<and> tn_children (ns ! i) = map label ts \<and> (\<forall>t \<in> set ts. represents ns t)"

definition all_labels :: "stree list \<Rightarrow> nat set" where
  "all_labels ts = set (concat (map labels ts))"

lemma all_labels_simps [simp]:
  "all_labels [] = {}" "all_labels (t # ts) = set (labels t) \<union> all_labels ts"
  by (simp_all add: all_labels_def)

lemma label_in_labels [simp]: "label t \<in> set (labels t)"
  by (cases t) simp

lemma all_labels_mset: "mset ts = mset us \<Longrightarrow> all_labels ts = all_labels us"
  unfolding all_labels_def by (metis set_concat set_map set_mset_mset)

lemma depth_subtree: "t \<in> set ts \<Longrightarrow> depth (SNode i ts) \<le> Suc k \<Longrightarrow> depth t \<le> k"
  by (simp add: Max_le_iff)

lemma represents_cong:
  "represents ns t \<Longrightarrow> (\<And>j. j \<in> set (labels t) \<Longrightarrow> ns' ! j = ns ! j) \<Longrightarrow> length ns' = length ns \<Longrightarrow> represents ns' t"
  by (induction ns t rule: represents.induct) fastforce

lemma represents_bound: "represents ns t \<Longrightarrow> j \<in> set (labels t) \<Longrightarrow> j < length ns"
  by (induction ns t rule: represents.induct) auto

subsection \<open>Specification of the traversal\<close>

definition node_data :: "tree_node \<Rightarrow> NodeType \<times> string \<times> uuid \<times> uuid \<times> uuid list" where
  "node_data n = (tn_type n, tn_name n, tn_id n, tn_shared n, tn_meta n)"

definition node_at :: "SelectionTreesSet \<Rightarrow> nat \<Rightarrow> tree_node" where "node_at T j = nodes T ! j"
definition id_at :: "SelectionTreesSet \<Rightarrow> nat \<Rightarrow> uuid" where "id_at T j = tn_id (nodes T ! j)"

definition mesh_ids :: "SelectionTreesSet \<Rightarrow> nat list \<Rightarrow> uuid multiset" where
  "mesh_ids T js = mset (map (id_at T) (filter (\<lambda>j. tn_type (node_at T j) = MESH) js))"

definition hidden_ids :: "tree_env \<Rightarrow> SelectionTreesSet \<Rightarrow> nat list \<Rightarrow> uuid multiset" where
  "hidden_ids env T js = mset (map (id_at T) (filter (\<lambda>j. hides env (node_at T j)) js))"

definition toggle_spec :: "tree_env \<Rightarrow> SelectionTreesSet \<Rightarrow> nat \<Rightarrow> nat list \<Rightarrow> ToggleState" where
  "toggle_spec env T i below =
     (if hides env (node_at T i) then HIDDEN else if \<exists>j \<in> set below. hides env (node_at T j) then HALF_HIDDEN else SHOW)"

text \<open>The tables' entries for an identifier.\<close>

definition entries :: "SelectionTreesSet \<Rightarrow> uuid \<Rightarrow> uuid list option \<times> uuid list option \<times> string option \<times> uuid option" where
  "entries T u = (map_of (idToPath T) u, map_of (idToMeshes T) u, map_of (idToName T) u, map_of (idMap T) u)"

definition shown_node :: "tree_env \<Rightarrow> SelectionTreesSet \<Rightarrow> uuid list \<Rightarrow> nat \<Rightarrow> stree list \<Rightarrow> bool" where
  "shown_node env T path i ts \<longleftrightarrow>
     (let n = node_at T i; below = concat (map labels ts)
      in tn_path n = path @ [tn_id n] \<and> tn_toggle n = toggle_spec env T i below \<and>
         mset (tn_children n) = mset (map label ts) \<and>
         sorted_wrt (\<lambda>a b. is_space (node_at T b) \<longrightarrow> is_space (node_at T a)) (tn_children n) \<and>
         (\<exists>ms. entries T (tn_id n) = (Some (tn_path n), Some ms, Some (tn_name n), Some (tn_shared n)) \<and>
               mset ms = mesh_ids T (i # below)))"

fun shown :: "tree_env \<Rightarrow> SelectionTreesSet \<Rightarrow> uuid list \<Rightarrow> stree \<Rightarrow> bool" where
  "shown env T path (SNode i ts) \<longleftrightarrow> shown_node env T path i ts \<and> (\<forall>t \<in> set ts. shown env T (path @ [id_at T i]) t)"

text \<open>What visiting a list of trees leaves; \<open>L\<close> are their nodes.\<close>

definition outcome :: "tree_env \<Rightarrow> uuid list \<Rightarrow> stree list \<Rightarrow> SelectionTreesSet \<Rightarrow> uuid list \<Rightarrow> SelectionTreesSet \<Rightarrow> bool" where
  "outcome env path ts T ms T' \<longleftrightarrow>
     length (nodes T') = length (nodes T) \<and> root T' = root T \<and> account T' = account T \<and> project T' = project T \<and>
     (\<forall>j. node_data (node_at T' j) = node_data (node_at T j)) \<and>
     (\<forall>j. j \<notin> all_labels ts \<longrightarrow> node_at T' j = node_at T j) \<and>
     (\<forall>u. u \<notin> id_at T ` all_labels ts \<longrightarrow> entries T' u = entries T u) \<and>
     mset ms = mesh_ids T (concat (map labels ts)) \<and>
     mset (hiddenNodes T') = mset (hiddenNodes T) + hidden_ids env T (concat (map labels ts)) \<and>
     (\<forall>t \<in> set ts. shown env T' path t)"

lemma hides_data: "node_data n = node_data m \<Longrightarrow> hides env n = hides env m"
  by (simp add: node_data_def hides_def is_space_def)

lemma is_space_data: "node_data n = node_data m \<Longrightarrow> is_space n = is_space m"
  by (simp add: node_data_def is_space_def)

lemma id_data: "node_data (node_at T' j) = node_data (node_at T j) \<Longrightarrow> id_at T' j = id_at T j"
  by (simp add: node_data_def id_at_def node_at_def)

lemma mesh_ids_data:
  assumes "\<And>j. j \<in> set js \<Longrightarrow> node_data (node_at T' j) = node_data (node_at T j)"
  shows "mesh_ids T' js = mesh_ids T js"
  using assms by (induction js) (auto simp: mesh_ids_def node_data_def id_at_def node_at_def)

lemma hidden_ids_data:
  assumes "\<And>j. j \<in> set js \<Longrightarrow> node_data (node_at T' j) = node_data (node_at T j)"
  shows "hidden_ids env T' js = hidden_ids env T js"
  using assms hides_data [of "node_at T' _" "node_at T _"] by (induction js) (auto simp: hidden_ids_def node_data_def id_at_def node_at_def)

lemma mesh_ids_append: "mesh_ids T (xs @ ys) = mesh_ids T xs + mesh_ids T ys"
  by (simp add: mesh_ids_def)

lemma hidden_ids_append: "hidden_ids env T (xs @ ys) = hidden_ids env T xs + hidden_ids env T ys"
  by (simp add: hidden_ids_def)

lemma ids_Cons:
  "mesh_ids T (i # js) = (if tn_type (node_at T i) = MESH then {#id_at T i#} else {#}) + mesh_ids T js"
  "hidden_ids env T (i # js) = (if hides env (node_at T i) then {#id_at T i#} else {#}) + hidden_ids env T js"
  by (simp_all add: mesh_ids_def hidden_ids_def)

lemma tn_id_node_at: "tn_id (node_at T i) = id_at T i"
  by (simp add: node_at_def id_at_def)

lemma ids_mset:
  assumes "mset xs = mset ys"
  shows "mesh_ids T xs = mesh_ids T ys" "hidden_ids env T xs = hidden_ids env T ys"
  using assms by (simp_all add: mesh_ids_def hidden_ids_def)

lemma concat_mset: "mset ts = mset us \<Longrightarrow> mset (concat (map f ts)) = mset (concat (map f us))"
  by (metis mset_concat mset_map sum_mset_sum_list)

lemma shown_node_cong:
  assumes "shown_node env T path i ts"
    and "\<And>j. j \<in> set (labels (SNode i ts)) \<Longrightarrow> node_at T' j = node_at T j"
    and "entries T' (id_at T i) = entries T (id_at T i)"
  shows "shown_node env T' path i ts"
proof -
  let ?below = "concat (map labels ts)"
  have i: "node_at T' i = node_at T i" and below: "\<And>j. j \<in> set ?below \<Longrightarrow> node_at T' j = node_at T j"
    using assms(2) by auto
  have "set (tn_children (node_at T i)) = set (map label ts)"
    using assms(1) unfolding shown_node_def Let_def by (metis set_mset_mset)
  moreover have cs: "node_at T' c = node_at T c" if c: "c \<in> set (tn_children (node_at T i))" for c
  proof -
    obtain t where "t \<in> set ts" "c = label t" using calculation c by auto
    then have "c \<in> set ?below" by (auto intro: bexI [of _ t])
    then show ?thesis by (rule below)
  qed
  have "sorted_wrt (\<lambda>a b. is_space (node_at T' b) \<longrightarrow> is_space (node_at T' a)) (tn_children (node_at T i)) \<longleftrightarrow>
        sorted_wrt (\<lambda>a b. is_space (node_at T b) \<longrightarrow> is_space (node_at T a)) (tn_children (node_at T i))"
    by (rule iffI; erule sorted_wrt_mono_rel [rotated]) (simp_all add: cs)
  moreover have "mesh_ids T' (i # ?below) = mesh_ids T (i # ?below)"
    using assms(2) by (intro mesh_ids_data) simp
  moreover have "toggle_spec env T' i ?below = toggle_spec env T i ?below"
    using i below by (simp add: toggle_spec_def)
  ultimately show ?thesis
    using assms(1,3) i unfolding shown_node_def Let_def id_at_def node_at_def by auto
qed

lemma shown_cong:
  assumes "shown env T path t"
    and "\<And>j. j \<in> set (labels t) \<Longrightarrow> node_at T' j = node_at T j \<and> entries T' (id_at T j) = entries T (id_at T j)"
  shows "shown env T' path t"
  using assms
proof (induction env T path t rule: shown.induct)
  case (1 env T path i ts)
  have "id_at T' i = id_at T i" using 1(3) [of i] by (simp add: id_at_def node_at_def)
  moreover have "shown_node env T' path i ts"
    using 1(2) by (intro shown_node_cong [of env T path i ts T']) (simp_all add: 1(3))
  moreover have "shown env T' (path @ [id_at T i]) t" if "t \<in> set ts" for t
    using that 1(2,3) by (intro 1(1)) auto
  ultimately show ?case by simp
qed

lemma outcome_Nil: "outcome env path [] T [] T"
  by (simp add: outcome_def mesh_ids_def hidden_ids_def)

lemma outcome_append:
  assumes a: "outcome env path ts T ms T1" and b: "outcome env path us T1 ns T2"
    and disjoint: "all_labels ts \<inter> all_labels us = {}"
    and inj: "inj_on (id_at T) (all_labels ts \<union> all_labels us)"
  shows "outcome env path (ts @ us) T (ms @ ns) T2"
proof -
  have data: "node_data (node_at T1 j) = node_data (node_at T j)" for j using a by (simp add: outcome_def)
  have ids: "id_at T1 j = id_at T j" for j by (rule id_data [OF data])
  have ms: "mesh_ids T1 js = mesh_ids T js" "hidden_ids env T1 js = hidden_ids env T js" for js
    by (rule mesh_ids_data hidden_ids_data, rule data)+
  have L: "all_labels (ts @ us) = all_labels ts \<union> all_labels us" by (simp add: all_labels_def)
  have keep: "node_at T2 j = node_at T1 j \<and> entries T2 (id_at T1 j) = entries T1 (id_at T1 j)" if "j \<in> all_labels ts" for j
  proof -
    have "j \<notin> all_labels us" using disjoint that by blast
    moreover have "id_at T j \<notin> id_at T ` all_labels us"
      using disjoint that inj_on_image_mem_iff [OF inj, of j "all_labels us"] by blast
    ultimately show ?thesis using b by (simp add: outcome_def ids)
  qed
  have "shown env T2 path t" if "t \<in> set ts" for t
  proof (rule shown_cong)
    show "shown env T1 path t" using a that by (simp add: outcome_def)
    show "node_at T2 j = node_at T1 j \<and> entries T2 (id_at T1 j) = entries T1 (id_at T1 j)" if "j \<in> set (labels t)" for j
      using keep that \<open>t \<in> set ts\<close> by (auto simp: all_labels_def)
  qed
  then show ?thesis
    using a b unfolding outcome_def L by (simp add: ids ms mesh_ids_append hidden_ids_append image_Un ball_Un)
qed

subsection \<open>The traversal meets its specification\<close>

lemma enter_node_at:
  assumes "i < length (nodes T)"
  shows "node_at (enter_node env i cp T) j =
     (if j = i then (node_at T i)\<lparr>tn_children := partition_sort env (\<lambda>c. is_space (node_at T c)) (tn_children (node_at T i)),
                                 tn_path := cp\<rparr> else node_at T j)"
  using assms by (simp add: enter_node_def upd_node_def node_at_def nth_list_update)

lemma enter_node_frame [simp]:
  "length (nodes (enter_node env i cp T)) = length (nodes T)" "root (enter_node env i cp T) = root T"
  "account (enter_node env i cp T) = account T" "project (enter_node env i cp T) = project T"
  "entries (enter_node env i cp T) u = entries T u" "hiddenNodes (enter_node env i cp T) = hiddenNodes T"
  by (simp_all add: enter_node_def upd_node_def entries_def)

lemma finish_node_spec:
  assumes "i < length (nodes T)" and "finish_node env i cp h ms T = (h', ms', T')"
  defines "n \<equiv> node_at T i"
  shows "h' \<longleftrightarrow> hides env n \<or> h"
    and "ms' = ms @ (if tn_type n = MESH then [tn_id n] else [])"
    and "node_at T' j = (if j = i then n\<lparr>tn_toggle := if hides env n then HIDDEN else if h then HALF_HIDDEN else SHOW\<rparr> else node_at T j)"
    and "entries T' u = (if u = tn_id n then (Some cp, Some ms', Some (tn_name n), Some (tn_shared n)) else entries T u)"
    and "hiddenNodes T' = hiddenNodes T @ (if hides env n then [tn_id n] else [])"
    and "length (nodes T') = length (nodes T)" "root T' = root T" "account T' = account T" "project T' = project T"
  using assms(1,2) unfolding finish_node_def Let_def
  by (auto simp: n_def node_at_def upd_node_def nth_list_update entries_def update_conv split: if_splits)

definition visit_ok :: "tree_env \<Rightarrow> nat \<Rightarrow> bool" where
  "visit_ok env fuel \<longleftrightarrow>
     (\<forall>t path T. represents (nodes T) t \<and> distinct (labels t) \<and> inj_on (id_at T) (set (labels t)) \<and> depth t \<le> fuel \<longrightarrow>
        (\<exists>ms T'. traversePtree env fuel (label t) path T = Inr (\<exists>j \<in> set (labels t). hides env (node_at T j), ms, T') \<and>
           outcome env path [t] T ms T'))"

lemma visit_okD:
  assumes "visit_ok env fuel" and "represents (nodes T) t" "distinct (labels t)" "inj_on (id_at T) (set (labels t))" "depth t \<le> fuel"
  obtains ms T' where "traversePtree env fuel (label t) path T = Inr (\<exists>j \<in> set (labels t). hides env (node_at T j), ms, T')"
    and "outcome env path [t] T ms T'"
  using assms unfolding visit_ok_def by blast

definition visit_child ::
  "tree_env \<Rightarrow> nat \<Rightarrow> uuid list \<Rightarrow> nat \<Rightarrow> bool \<times> uuid list \<times> SelectionTreesSet \<Rightarrow> (bool \<times> uuid list \<times> SelectionTreesSet) result" where
  "visit_child env fuel cp child = (\<lambda>(hasHiddenChildren, meshIds, trees).
     rbind (traversePtree env fuel child cp trees) (\<lambda>(childIsHidden, childMeshes, trees).
       Inr (hasHiddenChildren \<or> childIsHidden, meshIds @ childMeshes, trees)))"

lemma visit_children:
  assumes "visit_ok env fuel"
  shows "\<forall>t \<in> set ts. represents (nodes T) t \<and> depth t \<le> fuel \<Longrightarrow> distinct (concat (map labels ts)) \<Longrightarrow>
    inj_on (id_at T) (all_labels ts) \<Longrightarrow>
    \<exists>ns T'. rfold (visit_child env fuel cp) (map label ts) (h, ms, T) =
             Inr (h \<or> (\<exists>j \<in> all_labels ts. hides env (node_at T j)), ms @ ns, T') \<and> outcome env cp ts T ns T'"
proof (induction ts arbitrary: T h ms)
  case Nil
  then show ?case using outcome_Nil by force
next
  case (Cons t ts)
  have disjoint: "set (labels t) \<inter> all_labels ts = {}" using Cons.prems(2) by (auto simp: all_labels_def)
  obtain ms1 T1 where t: "traversePtree env fuel (label t) cp T = Inr (\<exists>j \<in> set (labels t). hides env (node_at T j), ms1, T1)"
      and o1: "outcome env cp [t] T ms1 T1"
    by (rule visit_okD [OF assms, of T t cp]) (use Cons.prems in \<open>auto simp: inj_on_Un\<close>)
  have T1: "node_data (node_at T1 j) = node_data (node_at T j)" "length (nodes T1) = length (nodes T)"
      "j \<in> all_labels ts \<Longrightarrow> node_at T1 j = node_at T j" for j
    using o1 disjoint unfolding outcome_def by auto
  have "represents (nodes T1) s" if "s \<in> set ts" for s
  proof (rule represents_cong)
    show "represents (nodes T) s" using Cons.prems(1) that by simp
    show "nodes T1 ! j = nodes T ! j" if "j \<in> set (labels s)" for j
      using T1(3) [of j] that \<open>s \<in> set ts\<close> by (auto simp: all_labels_def node_at_def)
  qed (rule T1)
  moreover have "inj_on (id_at T1) (all_labels ts)"
    using Cons.prems(3) id_data [OF T1(1)] by (auto simp: inj_on_def)
  ultimately obtain ms2 T2 where ts: "rfold (visit_child env fuel cp) (map label ts)
        (h \<or> (\<exists>j \<in> set (labels t). hides env (node_at T j)), ms @ ms1, T1) =
      Inr ((h \<or> (\<exists>j \<in> set (labels t). hides env (node_at T j))) \<or> (\<exists>j \<in> all_labels ts. hides env (node_at T1 j)), (ms @ ms1) @ ms2, T2)"
      and o2: "outcome env cp ts T1 ms2 T2"
    using Cons.IH [of T1 "h \<or> (\<exists>j \<in> set (labels t). hides env (node_at T j))" "ms @ ms1"] Cons.prems by auto
  have step: "visit_child env fuel cp (label t) (h, ms, T) =
      Inr (h \<or> (\<exists>j \<in> set (labels t). hides env (node_at T j)), ms @ ms1, T1)"
    by (simp add: visit_child_def t)
  have "outcome env cp ([t] @ ts) T (ms1 @ ms2) T2"
    by (rule outcome_append [OF o1 o2]) (use disjoint Cons.prems(3) in simp_all)
  moreover have "(\<exists>j \<in> all_labels ts. hides env (node_at T1 j)) = (\<exists>j \<in> all_labels ts. hides env (node_at T j))"
    using T1(3) by auto
  ultimately show ?case
    using step ts by (intro exI [of _ "ms1 @ ms2"] exI [of _ T2]) (simp add: bex_Un disj_assoc)
qed

lemma outcome_node:
  assumes i: "i < length (nodes T)" "i \<notin> all_labels ts" "inj_on (id_at T) (insert i (all_labels ts))"
    and children: "tn_children (node_at T i) = map label ts"
      "partition_sort env (\<lambda>c. is_space (node_at T c)) (map label ts) = map label us" "mset us = mset ts"
      "sorted_wrt (\<lambda>a b. is_space (node_at T b) \<longrightarrow> is_space (node_at T a)) (map label us)"
    and cp: "cp = path @ [id_at T i]"
    and visit: "outcome env cp us (enter_node env i cp T) ms T1"
    and finish: "finish_node env i cp (\<exists>j \<in> all_labels ts. hides env (node_at T j)) ms T1 = (h', ms', T2)"
  shows "(h' \<longleftrightarrow> (\<exists>j \<in> set (labels (SNode i ts)). hides env (node_at T j))) \<and> outcome env path [SNode i ts] T ms' T2"
proof -
  let ?below = "concat (map labels ts)"
  note e = enter_node_at [OF i(1), of env cp]
  have L: "all_labels us = all_labels ts" by (rule all_labels_mset [OF children(3)])
  have e_data: "node_data (node_at (enter_node env i cp T) j) = node_data (node_at T j)" for j
    by (simp add: e node_data_def)
  have T1: "length (nodes T1) = length (nodes T)" "root T1 = root T" "account T1 = account T" "project T1 = project T"
      "node_data (node_at T1 j) = node_data (node_at T j)" for j
    using visit e_data by (simp_all add: outcome_def)
  have ids1: "id_at (enter_node env i cp T) = id_at T" by (rule ext) (rule id_data [OF e_data])
  have n: "node_at T1 i = (node_at T i)\<lparr>tn_children := map label us, tn_path := cp\<rparr>"
    using visit i(2) children(1,2) by (simp add: outcome_def L e)
  note f = finish_node_spec [OF i(1) [folded T1(1)] finish, unfolded T1 n, simplified]
  have hide: "hides env (node_at T1 i) = hides env (node_at T i)" by (rule hides_data [OF T1(5)])
  have T2: "node_data (node_at T2 j) = node_data (node_at T j)" for j
    using T1(5) [of j] f(3) [of j] n by (simp add: node_data_def)
  have ids2: "id_at T2 = id_at T" by (rule ext) (rule id_data [OF T2])
  have ms: "mesh_ids T2 js = mesh_ids T js" "mesh_ids (enter_node env i cp T) js = mesh_ids T js"
      "hidden_ids env (enter_node env i cp T) js = hidden_ids env T js" for js
    by (intro mesh_ids_data hidden_ids_data T2 e_data)+
  have us: "concat (map labels us) = concat (map labels us)" "set us = set ts" "mset (concat (map labels us)) = mset ?below"
    using children(3) concat_mset by (simp, metis set_mset_mset, blast)
  have below: "set ?below = all_labels ts" by (simp add: all_labels_def)
  have n2: "node_at T2 i = (node_at T i)\<lparr>tn_children := map label us, tn_path := cp,
      tn_toggle := toggle_spec env T2 i ?below\<rparr>"
    unfolding toggle_spec_def below hides_data [OF T2] using f(3) [of i] hide n by simp
  have keep: "node_at T2 j = node_at T1 j \<and> entries T2 (id_at T j) = entries T1 (id_at T j)" if "j \<in> all_labels ts" for j
  proof -
    have "j \<noteq> i" "id_at T j \<noteq> id_at T i" using that i(2,3) by (auto simp: inj_on_def)
    then show ?thesis using f(3,4) by (simp add: id_at_def node_at_def)
  qed
  have "shown env T2 cp u" if "u \<in> set ts" for u
  proof (rule shown_cong)
    show "shown env T1 cp u" using visit that us(2) by (simp add: outcome_def)
    have "id_at T1 j = id_at T j" for j by (rule id_data [OF T1(5)])
    then show "node_at T2 j = node_at T1 j \<and> entries T2 (id_at T1 j) = entries T1 (id_at T1 j)" if "j \<in> set (labels u)" for j
      using keep [of j] that \<open>u \<in> set ts\<close> by (auto simp: all_labels_def)
  qed
  moreover have "mset ms' = mesh_ids T (i # ?below)"
    using visit f(2) ids_mset(1) [OF us(3)] by (simp add: outcome_def ms ids_Cons tn_id_node_at)
  moreover have "mset (hiddenNodes T2) = mset (hiddenNodes T) + hidden_ids env T (i # ?below)"
    using visit f(5) hide n ids_mset(2) [OF us(3)] by (simp add: outcome_def ms ids_Cons tn_id_node_at)
  moreover have "sorted_wrt (\<lambda>a b. is_space (node_at T2 b) \<longrightarrow> is_space (node_at T2 a)) (map label us)"
    using children(4) is_space_data [OF T2] by simp
  moreover have "entries T2 (id_at T i) = (Some cp, Some ms', Some (tn_name (node_at T i)), Some (tn_shared (node_at T i)))"
    using f(4) by (simp add: tn_id_node_at)
  moreover have "entries T2 u = entries T u" if "u \<notin> id_at T ` insert i (all_labels ts)" for u
    using f(4) visit that by (simp add: outcome_def ids1 L tn_id_node_at)
  moreover have "node_at T2 j = node_at T j" if "j \<noteq> i" "j \<notin> all_labels ts" for j
    using f(3) visit that by (simp add: outcome_def L e)
  moreover have "all_labels [SNode i ts] = insert i (all_labels ts)" by (simp add: all_labels_def)
  ultimately show ?thesis
    using f(1,6,7,8,9) hide n T1 T2 n2 us(2) children(3) cp
    by (auto simp: outcome_def shown_node_def Let_def below tn_id_node_at ids2 ms)
qed

theorem traversal_visits:
  assumes "cpp_partition (partition_sort env)"
  shows "visit_ok env fuel"
proof (induction fuel)
  case 0
  have "0 < depth t" for t by (cases t) simp
  then show ?case by (auto simp: visit_ok_def)
next
  case (Suc fuel)
  show ?case unfolding visit_ok_def
  proof (intro allI impI, elim conjE)
    fix t path T
    assume t: "represents (nodes T) t" "distinct (labels t)" "inj_on (id_at T) (set (labels t))" "depth t \<le> Suc fuel"
    obtain i ts where [simp]: "t = SNode i ts" by (cases t)
    define cp where "cp = path @ [id_at T i]"
    define P where "P = (\<lambda>c. is_space (node_at T c))"
    have children: "tn_children (node_at T i) = map label ts" and i: "i < length (nodes T)" using t(1) by (simp_all add: node_at_def)
    obtain us where us: "mset us = mset ts" "partition_sort env P (map label ts) = map label us"
      by (rule cpp_partition.part_map [OF assms, where f = label and ts = ts and P = P, OF refl]) metis
    have L: "all_labels us = all_labels ts" "set us = set ts" using us(1) all_labels_mset by (blast, metis set_mset_mset)
    note e = enter_node_at [OF i, of env cp]
    have ids: "id_at (enter_node env i cp T) = id_at T" by (rule ext) (simp add: e flip: tn_id_node_at)
    have ninj: "i \<notin> all_labels ts" "inj_on (id_at T) (insert i (all_labels ts))" using t(2,3) by (simp_all add: all_labels_def)
    have "represents (nodes (enter_node env i cp T)) u \<and> depth u \<le> fuel" if "u \<in> set us" for u
    proof
      show "represents (nodes (enter_node env i cp T)) u"
      proof (rule represents_cong)
        show "represents (nodes T) u" using t(1) that L(2) by simp
        show "nodes (enter_node env i cp T) ! j = nodes T ! j" if "j \<in> set (labels u)" for j
        proof -
          have "j \<noteq> i" using ninj(1) that \<open>u \<in> set us\<close> L(2) by (auto simp: all_labels_def)
          then show ?thesis using e [of j] by (simp add: node_at_def)
        qed
      qed simp
      show "depth u \<le> fuel" by (rule depth_subtree [of u ts i]) (use that L(2) t(4) in simp_all)
    qed
    moreover have "distinct (concat (map labels us))"
      using t(2) concat_mset [OF us(1)] by (metis \<open>t = SNode i ts\<close> distinct.simps(2) labels.simps mset_eq_imp_distinct_iff)
    ultimately obtain ms T1 where visit: "rfold (visit_child env fuel cp) (map label us) (False, [], enter_node env i cp T) =
          Inr (\<exists>j \<in> all_labels us. hides env (node_at (enter_node env i cp T) j), ms, T1)"
        and o1: "outcome env cp us (enter_node env i cp T) ms T1"
      using visit_children [OF Suc.IH, of us "enter_node env i cp T" cp False "[]"] ninj(2) by (auto simp: ids L)
    have hidden: "(\<exists>j \<in> all_labels us. hides env (node_at (enter_node env i cp T) j)) = (\<exists>j \<in> all_labels ts. hides env (node_at T j))"
      using ninj(1) by (auto simp: e L)
    obtain h' ms' T2 where finish: "finish_node env i cp (\<exists>j \<in> all_labels ts. hides env (node_at T j)) ms T1 = (h', ms', T2)"
      by (metis prod_cases3)
    have "sorted_wrt (\<lambda>a b. P b \<longrightarrow> P a) (map label us)" using cpp_partition.part_order [OF assms] us(2) by metis
    then have "(h' \<longleftrightarrow> (\<exists>j \<in> set (labels t). hides env (node_at T j))) \<and> outcome env path [t] T ms' T2"
      using outcome_node [OF i ninj children us(2) [unfolded P_def] us(1) _ cp_def o1 finish] by (simp add: P_def)
    moreover have "traversePtree env (Suc fuel) (label t) path T = Inr (h', ms', T2)"
    proof -
      have "tn_children (nodes (enter_node env i cp T) ! i) = map label us"
        using e [of i] children us(2) by (simp add: node_at_def P_def)
      then show ?thesis
        using visit finish hidden by (simp add: Let_def flip: visit_child_def cp_def [unfolded id_at_def])
    qed
    ultimately show "\<exists>ms T'. traversePtree env (Suc fuel) (label t) path T =
        Inr (\<exists>j \<in> set (labels t). hides env (node_at T j), ms, T') \<and> outcome env path [t] T ms T'"
      by blast
  qed
qed

end
