(* ===== verification/SelectionTreeProps.thy ===== *)
theory SelectionTreeProps
  imports SelectionTreeSpec
begin

text \<open>
  The selection tree of a revision, from its documents to its files: below the root the pointers form a tree,
  because every node is put into the list of one parent at most and the root into none; so the traversal ends, its result
  meets the specification, and the files hold the text of the JSON values of the tree.
\<close>

subsection \<open>Parents\<close>

text \<open>The node \<open>k\<close> steps above, and pointers that are the inverse of a parent function.\<close>

fun up :: "(nat \<Rightarrow> nat option) \<Rightarrow> nat \<Rightarrow> nat \<Rightarrow> nat option" where
  "up par 0 j = Some j"
| "up par (Suc k) j = (case par j of None \<Rightarrow> None | Some p \<Rightarrow> up par k p)"

definition links :: "tree_node list \<Rightarrow> (nat \<Rightarrow> nat option) \<Rightarrow> bool" where
  "links ns par \<longleftrightarrow> (\<forall>c < length ns. \<forall>p. par c = Some p \<longrightarrow> p < length ns) \<and> (\<forall>p < length ns. distinct (tn_children (ns ! p)) \<and>
     set (tn_children (ns ! p)) = {c. c < length ns \<and> par c = Some p})"

lemma up_add: "up par (a + b) j = (case up par a j of None \<Rightarrow> None | Some p \<Rightarrow> up par b p)"
  by (induction a arbitrary: j) (auto split: option.splits)

lemma up_child: "up par d i = Some r \<Longrightarrow> par c = Some i \<Longrightarrow> up par (Suc d) c = Some r"
  by simp

lemma up_root_unique:
  assumes "par r = None"
  shows "up par a j = Some r \<Longrightarrow> up par b j = Some r \<Longrightarrow> a = b"
proof (induction a arbitrary: b j)
  case 0
  then show ?case using assms by (cases b) auto
next
  case (Suc a)
  show ?case
  proof (cases b)
    case 0
    then show ?thesis using Suc.prems assms by simp
  next
    case (Suc b')
    then show ?thesis using Suc.prems Suc.IH by (auto split: option.splits)
  qed
qed

lemma up_bound:
  assumes root: "par r = None" and closed: "\<forall>c < n. \<forall>p. par c = Some p \<longrightarrow> p < n"
    and i: "up par d i = Some r" "i < n"
  shows "d < n"
proof -
  define f where "f = (\<lambda>a. the (up par a i))"
  have f: "up par a i = Some (f a)" "f a < n" "up par (d - a) (f a) = Some r" if "a \<le> d" for a
  proof -
    have "up par (a + (d - a)) i = Some r" using i(1) that by simp
    then show u: "up par a i = Some (f a)" "up par (d - a) (f a) = Some r"
      unfolding up_add by (auto simp: f_def split: option.splits)
    have "up par a j = Some q \<Longrightarrow> j < n \<Longrightarrow> q < n" for j q
      by (induction a arbitrary: j) (use closed in \<open>auto split: option.splits\<close>)
    then show "f a < n" using u(1) i(2) by blast
  qed
  have "inj_on f {0..d}"
  proof (rule inj_onI)
    fix a b assume "a \<in> {0..d}" "b \<in> {0..d}" "f a = f b"
    then have "d - a = d - b" using up_root_unique [of par r "d - a" "f a" "d - b"] root f(3) [of a] f(3) [of b] by simp
    then show "a = b" using \<open>a \<in> {0..d}\<close> \<open>b \<in> {0..d}\<close> by simp
  qed
  moreover have "f ` {0..d} \<subseteq> {0..<n}" using f(2) by auto
  ultimately have "card {0..d} \<le> card {0..<n}" by (metis card_inj_on_le finite_atLeastLessThan)
  then show ?thesis by simp
qed

subsection \<open>The tree below the root\<close>

fun build :: "(nat \<Rightarrow> nat list) \<Rightarrow> nat \<Rightarrow> nat \<Rightarrow> stree" where
  "build ch 0 i = SNode i []"
| "build ch (Suc k) i = SNode i (map (build ch k) (ch i))"

lemma label_build [simp]: "label (build ch k i) = i"
  by (cases k) simp_all

lemma depth_build: "depth (build ch k i) \<le> Suc k"
  by (induction k arbitrary: i) auto

lemma build_below:
  assumes "\<And>p c. p < n \<Longrightarrow> c \<in> set (ch p) \<Longrightarrow> c < n \<and> par c = Some p"
  shows "i < n \<Longrightarrow> j \<in> set (labels (build ch k i)) \<Longrightarrow> j < n \<and> (\<exists>m. up par m j = Some i)"
proof (induction k arbitrary: i)
  case 0
  then show ?case by (auto intro: exI [of _ 0])
next
  case (Suc k)
  show ?case
  proof (cases "j = i")
    case True
    then show ?thesis using Suc.prems(1) by (auto intro: exI [of _ 0])
  next
    case False
    then obtain c where c: "c \<in> set (ch i)" "j \<in> set (labels (build ch k c))" using Suc.prems(2) by auto
    then obtain m where "j < n" "up par m j = Some c" "par c = Some i" using Suc.IH assms Suc.prems(1) by blast
    then show ?thesis using up_add [of par m 1 j] by (auto intro!: exI [of _ "m + 1"])
  qed
qed

lemma build_distinct:
  assumes ch: "\<And>p c. p < n \<Longrightarrow> c \<in> set (ch p) \<Longrightarrow> c < n \<and> par c = Some p" "\<And>p. p < n \<Longrightarrow> distinct (ch p)"
    and root: "par r = None"
  shows "i < n \<Longrightarrow> up par d i = Some r \<Longrightarrow> distinct (labels (build ch k i))"
proof (induction k arbitrary: i d)
  case (Suc k)
  let ?lab = "\<lambda>c. labels (build ch k c)"
  have child: "c < n" "up par (Suc d) c = Some r" "par c = Some i" if "c \<in> set (ch i)" for c
    using ch(1) [OF Suc.prems(1) that] up_child [OF Suc.prems(2)] by auto
  have height: "up par (m + Suc d) j = Some r" if "c \<in> set (ch i)" "up par m j = Some c" for c m j
    using child(2) [OF that(1)] that(2) up_add [of par m "Suc d" j] by simp
  have below: "\<exists>m. up par m j = Some c" if "c \<in> set (ch i)" "j \<in> set (?lab c)" for c j
    using build_below [OF ch(1) child(1) [OF that(1)] that(2)] by blast
  have "i \<notin> set (?lab c)" if "c \<in> set (ch i)" for c
  proof
    assume "i \<in> set (?lab c)"
    with below that obtain m where "up par m i = Some c" by blast
    with height [OF that] have "up par (m + Suc d) i = Some r" by blast
    then show False using up_root_unique [OF root Suc.prems(2)] by fastforce
  qed
  moreover have "set (?lab c) \<inter> set (?lab e) = {}" if ce: "c \<in> set (ch i)" "e \<in> set (ch i)" "c \<noteq> e" for c e
  proof (rule ccontr)
    assume "set (?lab c) \<inter> set (?lab e) \<noteq> {}"
    then obtain j a b where j: "up par a j = Some c" "up par b j = Some e" using below ce(1,2) by blast
    then have "a + Suc d = b + Suc d" using up_root_unique [OF root height [OF ce(1)] height [OF ce(2)]] by blast
    then show False using j ce(3) by simp
  qed
  moreover have "distinct (concat (map ?lab cs))" if "distinct cs" "set cs \<subseteq> set (ch i)" for cs
    using that
  proof (induction cs)
    case (Cons c cs)
    have "distinct (?lab c)" using Suc.IH [OF child(1,2)] Cons.prems(2) by simp
    moreover have "set (?lab c) \<inter> set (?lab e) = {}" if "e \<in> set cs" for e
      using \<open>\<And>c e. c \<in> set (ch i) \<Longrightarrow> e \<in> set (ch i) \<Longrightarrow> c \<noteq> e \<Longrightarrow> set (?lab c) \<inter> set (?lab e) = {}\<close> Cons.prems that
      by auto
    ultimately show ?case using Cons by auto
  qed simp
  ultimately show ?case using ch(2) Suc.prems(1) by (simp add: comp_def)
qed simp

lemma build_represents:
  assumes link: "links ns par" and root: "par r = None"
  shows "i < length ns \<Longrightarrow> up par d i = Some r \<Longrightarrow> length ns \<le> d + k \<Longrightarrow>
    represents ns (build (\<lambda>p. tn_children (ns ! p)) k i)"
proof (induction k arbitrary: i d)
  case 0
  then show ?case using up_bound [where par = par and r = r and n = "length ns" and d = d and i = i] link root by (auto simp: links_def)
next
  case (Suc k)
  have "c < length ns" "up par (Suc d) c = Some r" if "c \<in> set (tn_children (ns ! i))" for c
    using link Suc.prems(1,2) that up_child unfolding links_def by (blast, metis (mono_tags, lifting) mem_Collect_eq)
  moreover have "represents ns (build (\<lambda>p. tn_children (ns ! p)) k c)" if "c \<in> set (tn_children (ns ! i))" for c
    using Suc.IH [of c "Suc d"] calculation [OF that] Suc.prems(3) by simp
  ultimately show ?case using Suc.prems by (simp add: comp_def)
qed

theorem root_has_tree:
  assumes "links ns par" "par r = None" "r < length ns"
  obtains t where "represents ns t" "distinct (labels t)" "label t = r" "depth t \<le> Suc (length ns)"
proof
  let ?t = "build (\<lambda>p. tn_children (ns ! p)) (length ns) r"
  show "represents ns ?t" using build_represents [OF assms(1,2), where d = 0] assms(3) by simp
  show "distinct (labels ?t)"
    by (rule build_distinct [where par = par and d = 0 and n = "length ns" and r = r]) (use assms in \<open>auto simp: links_def\<close>)
  show "label ?t = r" by simp
  show "depth ?t \<le> Suc (length ns)" by (rule depth_build)
qed

subsection \<open>Connecting the nodes\<close>

text \<open>What is left alone by everything before the traversal, but the pointers and the metadata.\<close>

definition fresh_node :: "tree_node \<Rightarrow> bool" where
  "fresh_node n \<longleftrightarrow> tn_children n = [] \<and> tn_meta n = []"

lemma read_tree_node_fresh:
  "rfold read_tree_node bsons (ns, ms) = Inr (ns', ms') \<Longrightarrow> list_all fresh_node ns \<Longrightarrow> list_all fresh_node ns'"
proof (induction bsons arbitrary: ns ms)
  case (Cons b bs)
  then obtain ns1 ms1 where "read_tree_node b (ns, ms) = Inr (ns1, ms1)" "rfold read_tree_node bs (ns1, ms1) = Inr (ns', ms')"
    by (auto simp: rbind_Inr_iff)
  moreover from this(1) have "list_all fresh_node ns1"
    using Cons.prems(2) by (auto simp: read_tree_node_def rbind_Inr_iff Let_def fresh_node_def list_all_iff split: if_splits)
  ultimately show ?case using Cons.IH by blast
qed simp

lemma shared_nodes_bound: "map_of (shared_nodes ns) u = Some p \<Longrightarrow> p < length ns"
proof -
  have "map_of (fold (\<lambda>i m. AList.update (tn_shared (ns ! i)) i m) is m) u = Some p \<Longrightarrow>
      (\<And>v q. map_of m v = Some q \<Longrightarrow> q < n) \<Longrightarrow> (\<And>i. i \<in> set is \<Longrightarrow> i < n) \<Longrightarrow> p < n" for "is" m n
  proof (induction "is" arbitrary: m)
    case (Cons i "is")
    show ?case by (rule Cons.IH [of "AList.update (tn_shared (ns ! i)) i m"])
      (use Cons.prems in \<open>auto simp: update_conv split: if_splits\<close>)
  qed auto
  then show "map_of (shared_nodes ns) u = Some p \<Longrightarrow> p < length ns" by (fastforce simp: shared_nodes_def)
qed

definition parent_of :: "tree_node list \<Rightarrow> tree_maps \<Rightarrow> nat \<Rightarrow> nat option" where
  "parent_of ns ms i = map_of (shared_nodes ns) (parent_shared ms (ns ! i))"

definition connected :: "tree_node list \<Rightarrow> (nat \<Rightarrow> nat option) \<Rightarrow> nat \<Rightarrow> SelectionTreesSet \<Rightarrow> SelectionTreesSet \<Rightarrow> bool" where
  "connected ns par k T0 T \<longleftrightarrow>
     length (nodes T) = length ns \<and>
     (\<forall>p < length ns. nodes T ! p = (ns ! p)\<lparr>tn_children := filter (\<lambda>i. par i = Some p) [0..<k]\<rparr>) \<and>
     root T = (case filter (\<lambda>i. par i = None) [0..<k] of [] \<Rightarrow> None | is \<Rightarrow> Some (last is)) \<and>
     T\<lparr>nodes := [], root := None\<rparr> = T0\<lparr>nodes := [], root := None\<rparr>"

lemma connect_all:
  assumes ns: "list_all fresh_node ns" and T0: "nodes T0 = ns" "root T0 = None" and k: "k \<le> length ns"
  shows "connected ns (parent_of ns ms) k T0 (fold (connect ms (shared_nodes ns)) [0..<k] T0)"
  using k
proof (induction k)
  case 0
  have "ns ! p = (ns ! p)\<lparr>tn_children := []\<rparr>" if "p < length ns" for p
    using ns that by (simp add: list_all_length fresh_node_def)
  then show ?case using T0 by (simp add: connected_def)
next
  case (Suc k)
  let ?par = "parent_of ns ms"
  define T where "T = fold (connect ms (shared_nodes ns)) [0..<k] T0"
  have I: "connected ns ?par k T0 T" using Suc by (simp add: T_def)
  have here: "map_of (shared_nodes ns) (parent_shared ms (nodes T ! k)) = ?par k"
    using I Suc.prems by (simp add: connected_def parent_of_def parent_shared_def)
  have "connected ns ?par (Suc k) T0 (connect ms (shared_nodes ns) k T)"
  proof (cases "?par k")
    case None
    have "root (connect ms (shared_nodes ns) k T) = Some k" using None here by (simp add: connect_def)
    then show ?thesis using I None here
      by (simp add: connected_def connect_def split: list.splits)
  next
    case (Some p)
    then have p: "p < length ns" using shared_nodes_bound by (simp add: parent_of_def)
    show ?thesis using I Some here p
      by (simp add: connected_def connect_def upd_node_def nth_list_update)
  qed
  then show ?case by (simp add: T_def)
qed

definition same_links :: "SelectionTreesSet \<Rightarrow> SelectionTreesSet \<Rightarrow> bool" where
  "same_links T T' \<longleftrightarrow> T'\<lparr>nodes := []\<rparr> = T\<lparr>nodes := []\<rparr> \<and> length (nodes T') = length (nodes T) \<and>
     (\<forall>i < length (nodes T). \<exists>us. nodes T' ! i = (nodes T ! i)\<lparr>tn_meta := us\<rparr>)"

lemma same_links_refl: "same_links T T"
proof -
  have "\<exists>us. nodes T ! i = (nodes T ! i)\<lparr>tn_meta := us\<rparr>" for i by (rule exI [of _ "tn_meta (nodes T ! i)"]) simp
  then show ?thesis by (simp add: same_links_def)
qed

lemma same_linksD:
  assumes "same_links T T'" and "i < length (nodes T)"
  obtains us where "nodes T' ! i = (nodes T ! i)\<lparr>tn_meta := us\<rparr>"
  using assms unfolding same_links_def by blast

lemma same_links_trans:
  assumes "same_links T T1" and "same_links T1 T'"
  shows "same_links T T'"
proof -
  have "\<exists>us. nodes T' ! i = (nodes T ! i)\<lparr>tn_meta := us\<rparr>" if i: "i < length (nodes T)" for i
  proof -
    obtain us1 where 1: "nodes T1 ! i = (nodes T ! i)\<lparr>tn_meta := us1\<rparr>" by (rule same_linksD [OF assms(1) i])
    have "i < length (nodes T1)" using assms(1) i by (simp add: same_links_def)
    then obtain us2 where "nodes T' ! i = (nodes T1 ! i)\<lparr>tn_meta := us2\<rparr>" using same_linksD [OF assms(2)] by blast
    then show ?thesis using 1 by auto
  qed
  then show ?thesis using assms by (simp add: same_links_def)
qed

lemma add_meta_outcome:
  "(\<forall>u \<in> set us. map_of shared u \<noteq> None \<longrightarrow> the (map_of shared u) < length (nodes T)) \<Longrightarrow>
   (if \<forall>u \<in> set us. map_of shared u \<noteq> None
    then \<exists>T'. add_meta shared (v, us) T = Inr T' \<and> same_links T T'
    else add_meta shared (v, us) T = Inl NullDeref)"
proof (induction us arbitrary: T)
  case Nil
  then show ?case using same_links_refl by (simp add: add_meta_def)
next
  case (Cons u us)
  show ?case
  proof (cases "map_of shared u")
    case None
    then show ?thesis by (simp add: add_meta_def)
  next
    case (Some p)
    define T1 where "T1 = upd_node p (\<lambda>n. n\<lparr>tn_meta := tn_meta n @ [v]\<rparr>) T"
    have p: "p < length (nodes T)" using Cons.prems Some by auto
    have T1: "same_links T T1"
    proof -
      have "nodes T1 ! i = (nodes T ! i)\<lparr>tn_meta := (if i = p then tn_meta (nodes T ! i) @ [v] else tn_meta (nodes T ! i))\<rparr>"
        if "i < length (nodes T)" for i using that by (simp add: T1_def upd_node_def nth_list_update)
      moreover have "T1\<lparr>nodes := []\<rparr> = T\<lparr>nodes := []\<rparr>" "length (nodes T1) = length (nodes T)"
        by (simp_all add: T1_def upd_node_def)
      ultimately show ?thesis unfolding same_links_def by blast
    qed
    have step: "add_meta shared (v, u # us) T = add_meta shared (v, us) T1"
      by (simp add: add_meta_def Some T1_def)
    note trans_links = same_links_trans [OF T1]
    have "\<forall>u \<in> set us. map_of shared u \<noteq> None \<longrightarrow> the (map_of shared u) < length (nodes T1)"
      using Cons.prems T1 by (auto simp: same_links_def)
    from Cons.IH [OF this] show ?thesis using step trans_links Some by (auto split: if_splits)
  qed
qed

lemma add_metas_outcome:
  "\<forall>u p. map_of shared u = Some p \<longrightarrow> p < length (nodes T) \<Longrightarrow>
   (if \<forall>(v, us) \<in> set vs. \<forall>u \<in> set us. map_of shared u \<noteq> None
    then \<exists>T'. rfold (add_meta shared) vs T = Inr T' \<and> same_links T T'
    else rfold (add_meta shared) vs T = Inl NullDeref)"
proof (induction vs arbitrary: T)
  case Nil
  then show ?case using same_links_refl by simp
next
  case (Cons e vs)
  obtain v us where e: "e = (v, us)" by (cases e)
  have bound: "\<forall>u \<in> set us. map_of shared u \<noteq> None \<longrightarrow> the (map_of shared u) < length (nodes T)"
    using Cons.prems by auto
  show ?case
  proof (cases "\<forall>u \<in> set us. map_of shared u \<noteq> None")
    case True
    then obtain T1 where T1: "add_meta shared (v, us) T = Inr T1" "same_links T T1"
      using add_meta_outcome [OF bound] by auto
    have "\<forall>u p. map_of shared u = Some p \<longrightarrow> p < length (nodes T1)"
      using Cons.prems T1(2) by (simp add: same_links_def)
    from Cons.IH [OF this] show ?thesis
      using T1 True same_links_trans [OF T1(2)] by (auto simp: e split: if_splits)
  next
    case False
    then show ?thesis using add_meta_outcome [OF bound] by (auto simp: e)
  qed
qed

text \<open>The entries of the metadata table are known when every parent is among the nodes.\<close>

definition parents_known :: "tree_node list \<Rightarrow> tree_maps \<Rightarrow> bool" where
  "parents_known ns ms \<longleftrightarrow>
     (\<forall>v us. map_of (metadataParents ms) v = Some us \<longrightarrow> (\<forall>u \<in> set us. map_of (shared_nodes ns) u \<noteq> None))"

lemma iterate_known:
  assumes "\<And>us. set (map_order env us) = set us"
  shows "(\<forall>(v, us) \<in> set (iterate env m). P us) \<longleftrightarrow> (\<forall>v us. map_of m v = Some us \<longrightarrow> P us)"
proof -
  have "v \<in> fst ` set m \<longleftrightarrow> (\<exists>us. map_of m v = Some us)" for v
    by (metis domD domI dom_map_of_conv_image_fst)
  then have "(\<forall>k \<in> fst ` set m. P (the (map_of m k))) \<longleftrightarrow> (\<forall>v us. map_of m v = Some us \<longrightarrow> P us)"
    unfolding Ball_def by (simp del: map_of_eq_None_iff) (metis option.sel)
  then show ?thesis by (simp add: iterate_def assms)
qed

lemma connected_trees_cases:
  assumes "\<And>us. set (map_order env us) = set us"
    and read: "rfold read_tree_node bsons ([], \<lparr>parentSharedId = [], metadataParents = []\<rparr>) = Inr (ns, ms)"
  shows "if parents_known ns ms then \<exists>T. connected_trees env s bsons = Inr T else connected_trees env s bsons = Inl NullDeref"
proof -
  define T0 where "T0 = empty_trees\<lparr>account := databaseName s, project := projectName s, nodes := ns\<rparr>"
  define T1 where "T1 = fold (connect ms (shared_nodes ns)) [0..<length ns] T0"
  have "connected ns (parent_of ns ms) (length ns) T0 T1"
    unfolding T1_def using read_tree_node_fresh [OF read] by (intro connect_all) (simp_all add: T0_def empty_trees_def)
  then have "length (nodes T1) = length ns" by (simp add: connected_def)
  moreover have "connected_trees env s bsons = rfold (add_meta (shared_nodes ns)) (iterate env (metadataParents ms)) T1"
    by (simp add: connected_trees_def read T0_def T1_def Let_def)
  ultimately show ?thesis
    using add_metas_outcome [of "shared_nodes ns" T1 "iterate env (metadataParents ms)"] shared_nodes_bound
    unfolding parents_known_def iterate_known [OF assms(1), of "metadataParents ms" "\<lambda>us. \<forall>u \<in> set us. map_of (shared_nodes ns) u \<noteq> None", symmetric]
    by (auto split: if_splits)
qed

lemma connected_trees_nodes:
  assumes "connected_trees env s bsons = Inr T"
    and read: "rfold read_tree_node bsons ([], \<lparr>parentSharedId = [], metadataParents = []\<rparr>) = Inr (ns, ms)"
  shows "links (nodes T) (parent_of ns ms)" "root T = Some r \<Longrightarrow> r < length (nodes T) \<and> parent_of ns ms r = None"
    "root T = None \<longleftrightarrow> (\<forall>i < length ns. parent_of ns ms i \<noteq> None)" "hiddenNodes T = []"
    "map tn_id (nodes T) = map tn_id ns"
proof -
  define T0 where "T0 = empty_trees\<lparr>account := databaseName s, project := projectName s, nodes := ns\<rparr>"
  define T1 where "T1 = fold (connect ms (shared_nodes ns)) [0..<length ns] T0"
  have metas: "rfold (add_meta (shared_nodes ns)) (iterate env (metadataParents ms)) T1 = Inr T"
    using assms read by (simp add: connected_trees_def T0_def T1_def Let_def)
  let ?par = "parent_of ns ms"
  have C: "connected ns ?par (length ns) T0 T1"
    unfolding T1_def using read_tree_node_fresh [OF read] by (intro connect_all) (simp_all add: T0_def empty_trees_def)
  have "same_links T1 T"
    using add_metas_outcome [of "shared_nodes ns" T1 "iterate env (metadataParents ms)"] metas shared_nodes_bound C
    by (auto simp: connected_def split: if_splits)
  note T = this
  have len: "length (nodes T) = length ns" using T C by (simp add: same_links_def connected_def)
  have other: "T\<lparr>nodes := []\<rparr> = T1\<lparr>nodes := []\<rparr>" using T by (simp add: same_links_def)
  have children: "tn_children (nodes T ! p) = filter (\<lambda>i. ?par i = Some p) [0..<length ns]" if "p < length ns" for p
    by (rule same_linksD [OF T, of p]) (use C that in \<open>simp_all add: connected_def\<close>)
  have links: "links (nodes T) ?par"
    using shared_nodes_bound by (auto simp: links_def len children parent_of_def)
  have "T\<lparr>nodes := [], root := None\<rparr> = T0\<lparr>nodes := [], root := None\<rparr>"
    using arg_cong [OF other, of "root_update (\<lambda>_. None)"] C by (simp add: connected_def)
  then have frame: "idToPath T = idToPath T0" "hiddenNodes T = hiddenNodes T0" "account T = account T0" "project T = project T0"
    by (metis SelectionTreesSet.select_convs SelectionTreesSet.surjective SelectionTreesSet.update_convs(3,4))+
  have root: "root T = (case filter (\<lambda>i. ?par i = None) [0..<length ns] of [] \<Rightarrow> None | is \<Rightarrow> Some (last is))"
    using arg_cong [OF other, of root] C by (simp add: connected_def)
  have root_None: "r < length (nodes T) \<and> ?par r = None" if "root T = Some r" for r
  proof -
    have "r \<in> set (filter (\<lambda>i. ?par i = None) [0..<length ns])"
      using that root last_in_set [of "filter (\<lambda>i. ?par i = None) [0..<length ns]"] by (auto split: list.splits)
    then show ?thesis by (simp add: len)
  qed
  have has_root: "root T = None \<longleftrightarrow> (\<forall>i < length ns. ?par i \<noteq> None)"
  proof -
    have "root T = None \<longleftrightarrow> filter (\<lambda>i. ?par i = None) [0..<length ns] = []"
      unfolding root by (simp split: list.split)
    then show ?thesis by (auto simp: filter_empty_conv)
  qed
  have "tn_id (nodes T ! p) = tn_id (ns ! p)" if "p < length ns" for p
    by (rule same_linksD [OF T, of p]) (use C that in \<open>simp_all add: connected_def\<close>)
  then show "map tn_id (nodes T) = map tn_id ns" by (simp add: len list_eq_iff_nth_eq)
  show "links (nodes T) ?par" by (rule links)
  show "root T = Some r \<Longrightarrow> r < length (nodes T) \<and> ?par r = None" by (rule root_None)
  show "root T = None \<longleftrightarrow> (\<forall>i < length ns. ?par i \<noteq> None)" by (rule has_root)
  show "hiddenNodes T = []" using frame by (simp add: T0_def empty_trees_def)
qed

theorem connected_trees_links:
  assumes "connected_trees env s bsons = Inr T" and "root T = Some r"
  obtains par where "links (nodes T) par" "r < length (nodes T)" "par r = None" "hiddenNodes T = []"
proof -
  obtain ns ms where "rfold read_tree_node bsons ([], \<lparr>parentSharedId = [], metadataParents = []\<rparr>) = Inr (ns, ms)"
    using assms(1) by (auto simp: connected_trees_def rbind_Inr_iff)
  note props = connected_trees_nodes [OF assms(1) this]
  show ?thesis by (rule that [OF props(1)]) (use props(2) [OF assms(2)] props(4) in simp_all)
qed

subsection \<open>Below a node\<close>

inductive below :: "SelectionTreesSet \<Rightarrow> nat \<Rightarrow> nat \<Rightarrow> bool" for T i where
  below_refl: "below T i i"
| below_child: "below T i p \<Longrightarrow> p < length (nodes T) \<Longrightarrow> c \<in> set (tn_children (nodes T ! p)) \<Longrightarrow> below T i c"

lemma below_front: "below T c j \<Longrightarrow> i < length (nodes T) \<Longrightarrow> c \<in> set (tn_children (nodes T ! i)) \<Longrightarrow> below T i j"
  by (induction rule: below.induct) (auto intro: below.intros)

lemma shown_children:
  assumes "shown env T path (SNode i ts)"
  shows "set (tn_children (nodes T ! i)) = label ` set ts"
proof -
  have "mset (tn_children (nodes T ! i)) = mset (map label ts)"
    using assms by (simp add: shown_node_def Let_def node_at_def)
  from arg_cong [OF this, of set_mset] show ?thesis by simp
qed

lemma shown_subtree:
  "shown env T path t \<Longrightarrow> j \<in> set (labels t) \<Longrightarrow>
   \<exists>path' ts. shown env T path' (SNode j ts) \<and> set (labels (SNode j ts)) \<subseteq> set (labels t)"
proof (induction env T path t rule: shown.induct)
  case (1 env T path i ts)
  show ?case
  proof (cases "j = i")
    case True
    then show ?thesis using 1(2) by blast
  next
    case False
    then obtain t where t: "t \<in> set ts" "j \<in> set (labels t)" using 1(3) by auto
    then obtain path' us where "shown env T path' (SNode j us)" "set (labels (SNode j us)) \<subseteq> set (labels t)"
      using 1(1) [OF t(1)] 1(2) by auto
    moreover have "set (labels t) \<subseteq> set (labels (SNode i ts))" using t(1) by auto
    ultimately show ?thesis by blast
  qed
qed

lemma labels_below:
  assumes "shown env T path t" and "\<And>j. j \<in> set (labels t) \<Longrightarrow> j < length (nodes T)"
  shows "j \<in> set (labels t) \<longleftrightarrow> below T (label t) j"
proof
  show "j \<in> set (labels t) \<Longrightarrow> below T (label t) j"
    using assms
  proof (induction env T path t rule: shown.induct)
    case (1 env T path i ts)
    show ?case
    proof (cases "j = i")
      case False
      then obtain t where t: "t \<in> set ts" "j \<in> set (labels t)" using 1(2) by auto
      then have "below T (label t) j" using 1 by auto
      moreover have "label t \<in> set (tn_children (nodes T ! i))" using t(1) shown_children [OF 1(3)] by auto
      ultimately show ?thesis using below_front 1(4) by simp
    qed (simp add: below_refl)
  qed
next
  assume "below T (label t) j"
  then show "j \<in> set (labels t)"
  proof (induction rule: below.induct)
    case (below_child p c)
    obtain path' ts where p: "shown env T path' (SNode p ts)" "set (labels (SNode p ts)) \<subseteq> set (labels t)"
      using shown_subtree [OF assms(1) below_child.IH] by blast
    then obtain s where "s \<in> set ts" "c = label s" using below_child.hyps(3) shown_children [OF p(1)] by auto
    then have "c \<in> set (labels (SNode p ts))" by (auto intro!: bexI [of _ s])
    then show ?case using p(2) by blast
  qed simp
qed

lemma shown_below:
  assumes t: "shown env T path t" and bound: "\<And>j. j \<in> set (labels t) \<Longrightarrow> j < length (nodes T)" and i: "below T (label t) i"
  obtains path' ts where "shown env T path' (SNode i ts)" "\<And>j. j \<in> set (i # concat (map labels ts)) \<longleftrightarrow> below T i j"
proof -
  obtain path' ts where s: "shown env T path' (SNode i ts)" "set (labels (SNode i ts)) \<subseteq> set (labels t)"
    using shown_subtree [OF t] labels_below [OF t bound] i by blast
  have "j \<in> set (labels (SNode i ts)) \<longleftrightarrow> below T i j" for j
    using labels_below [OF s(1), of j] bound s(2) by auto
  then show ?thesis using that [OF s(1)] by simp
qed

lemma shown_path: "shown env T path t \<Longrightarrow> tn_path (nodes T ! label t) = path @ [tn_id (nodes T ! label t)]"
  by (cases t) (simp add: shown_node_def Let_def node_at_def)

subsection \<open>The tree of a revision\<close>

lemma traversal_result:
  assumes part: "cpp_partition (partition_sort env)" and T0: "connected_trees env s bsons = Inr T0" "root T0 = Some r"
    and ids: "distinct (map tn_id (nodes T0))"
  obtains t ms T h par where "represents (nodes T0) t" "label t = r" "distinct (labels t)"
    "traversePtree env (Suc (length (nodes T0))) r [] T0 = Inr (h, ms, T)" "outcome env [] [t] T0 ms T"
    "links (nodes T0) par" "par r = None" "r < length (nodes T0)" "hiddenNodes T0 = []"
proof -
  obtain par where par: "links (nodes T0) par" "r < length (nodes T0)" "par r = None" "hiddenNodes T0 = []"
    by (rule connected_trees_links [OF T0])
  obtain t where t: "represents (nodes T0) t" "distinct (labels t)" "label t = r" "depth t \<le> Suc (length (nodes T0))"
    using root_has_tree [OF par(1,3,2)] .
  have "inj_on (id_at T0) (set (labels t))"
  proof (rule inj_onI)
    fix a b assume "a \<in> set (labels t)" "b \<in> set (labels t)" "id_at T0 a = id_at T0 b"
    then show "a = b" using ids represents_bound [OF t(1)] by (simp add: id_at_def distinct_conv_nth) metis
  qed
  from visit_okD [OF traversal_visits [OF part] t(1,2) this t(4), of "[]"]
  obtain ms T where "traversePtree env (Suc (length (nodes T0))) r [] T0 = Inr (\<exists>j \<in> set (labels t). hides env (node_at T0 j), ms, T)"
      "outcome env [] [t] T0 ms T" unfolding t(3) .
  then show ?thesis using that t(1-3) par by blast
qed

text \<open>What the tree shows of a node: its visibility, the paths of its children, their order, and its table entries.\<close>

definition node_spec :: "tree_env \<Rightarrow> SelectionTreesSet \<Rightarrow> nat \<Rightarrow> bool" where
  "node_spec env T i \<longleftrightarrow> (let n = nodes T ! i in
     tn_toggle n = (if hides env n then HIDDEN
                    else if \<exists>j. below T i j \<and> hides env (nodes T ! j) then HALF_HIDDEN else SHOW) \<and>
     (\<forall>c \<in> set (tn_children n). tn_path (nodes T ! c) = tn_path n @ [tn_id (nodes T ! c)]) \<and>
     sorted_wrt (\<lambda>a b. is_space (nodes T ! b) \<longrightarrow> is_space (nodes T ! a)) (tn_children n) \<and>
     map_of (idToPath T) (tn_id n) = Some (tn_path n) \<and> map_of (idToName T) (tn_id n) = Some (tn_name n) \<and>
     map_of (idMap T) (tn_id n) = Some (tn_shared n) \<and>
     (\<exists>ms. map_of (idToMeshes T) (tn_id n) = Some ms \<and>
        set ms = {tn_id (nodes T ! j) |j. below T i j \<and> tn_type (nodes T ! j) = MESH}))"

lemma shown_node_spec:
  assumes sh: "shown env T path (SNode i ts)" and bl: "\<And>j. j \<in> set (i # concat (map labels ts)) \<longleftrightarrow> below T i j"
  shows "node_spec env T i"
proof -
  let ?n = "nodes T ! i"
  obtain ms where n: "tn_path ?n = path @ [tn_id ?n]" "tn_toggle ?n = toggle_spec env T i (concat (map labels ts))"
      "sorted_wrt (\<lambda>a b. is_space (nodes T ! b) \<longrightarrow> is_space (nodes T ! a)) (tn_children ?n)"
      "entries T (tn_id ?n) = (Some (tn_path ?n), Some ms, Some (tn_name ?n), Some (tn_shared ?n))"
      and ms: "mset ms = mesh_ids T (i # concat (map labels ts))"
    using sh by (auto simp: shown_node_def Let_def node_at_def)
  have "tn_path (nodes T ! c) = tn_path ?n @ [tn_id (nodes T ! c)]" if c: "c \<in> set (tn_children ?n)" for c
  proof -
    obtain u where "u \<in> set ts" "c = label u" using c shown_children [OF sh] by auto
    then show ?thesis using sh shown_path [of env T "path @ [id_at T i]" u] n(1) by (simp add: id_at_def)
  qed
  moreover have "set ms = {tn_id (nodes T ! j) |j. below T i j \<and> tn_type (nodes T ! j) = MESH}"
  proof -
    have "set ms = set_mset (mesh_ids T (i # concat (map labels ts)))" unfolding ms [symmetric] by simp
    also have "\<dots> = {tn_id (nodes T ! j) |j. j \<in> set (i # concat (map labels ts)) \<and> tn_type (nodes T ! j) = MESH}"
      by (auto simp: mesh_ids_def id_at_def node_at_def)
    finally show ?thesis unfolding bl .
  qed
  moreover have "tn_toggle ?n = (if hides env ?n then HIDDEN
      else if \<exists>j. below T i j \<and> hides env (nodes T ! j) then HALF_HIDDEN else SHOW)"
    unfolding n(2) toggle_spec_def node_at_def bl [symmetric] by auto
  ultimately show ?thesis using n(3,4) by (auto simp: node_spec_def Let_def entries_def)
qed


end
