(* ===== verification/SelectionTreeFiles.thy ===== *)
theory SelectionTreeFiles
  imports SelectionTreeProps
begin

text \<open>
  The files of a selection tree are the text of JSON values: the events the code sends to the writer are those of the
  values below, and no assertion of the writer fails.
\<close>

subsection \<open>Blocks of events\<close>

lemma rbind_Inr_id [simp]: "rbind r Inr = r"
  by (cases r) simp_all

lemma calls_Nil_eq: "calls [] = Inr"
  by (rule ext) simp

lemma calls_single [simp]: "calls [f] = f"
  by (rule ext) (simp add: calls_Nil_eq)

lemma calls_nest: "calls (calls fs # gs) = calls (fs @ gs)"
  by (rule ext) simp

lemma calls_Key: "calls (Key k # fs) = calls [Key k, calls fs]"
  by (rule ext) (simp add: calls_Nil_eq rbind_def split: sum.splits)

lemma rfold_calls: "rfold f xs = calls (map f xs)"
proof (rule ext)
  show "rfold f xs w = calls (map f xs) w" for w
    by (induction xs arbitrary: w) (simp_all add: rbind_def split: sum.splits)
qed

lemma members_block: "emits (calls fs) v \<Longrightarrow> members (calls (Key k # fs)) [(k, v)]"
  by (subst calls_Key) (rule members_Cons [OF _ members_Nil])

lemma members_String: "members (calls [Key k, String s]) [(k, JString s)]"
  by (rule members_Cons [OF emits_String members_Nil])

lemma members_if: "(b \<Longrightarrow> members (calls fs) kvs) \<Longrightarrow> members (calls (if b then fs else [])) (if b then kvs else [])"
  using members_Nil by simp

lemma emits_array_of:
  assumes "elements F js"
  shows "emits (calls [StartArray, F, EndArray]) (JArray js)"
  using emits_array [of "[F]" js] assms by simp

lemma written_emits:
  assumes "emits (calls fs) j"
  shows "written fs = Inr (json_text j)"
  using emitted_document [OF assms] by (auto simp: written_def)

lemma json_text_nonempty: "json_text j \<noteq> []"
  by (cases j) (simp_all add: quoted_def)

subsection \<open>The tree and the tables\<close>

fun tree_json :: "tree_env \<Rightarrow> SelectionTreesSet \<Rightarrow> stree \<Rightarrow> json" where
  "tree_json env T (SNode i ts) =
     (let n = nodes T ! i in JObject
       ([(''account'', JString (account T)), (''project'', JString (project T)), (''type'', JString (nodeTypeToString (tn_type n)))] @
        (if tn_name n \<noteq> [] then [(''name'', JString (tn_name n))] else []) @
        [(''path'', JString (childPathToString env (tn_path n))), (''_id'', JString (uuid_text env (tn_id n))),
         (''shared_id'', JString (uuid_text env (tn_shared n)))] @
        (if ts \<noteq> [] then [(''children'', JArray (map (tree_json env T) ts))] else []) @
        (if tn_meta n \<noteq> [] then [(''meta'', JArray (map (\<lambda>u. JString (uuid_text env u)) (tn_meta n)))] else []) @
        [(''toggleState'', JString (toggleStateToString (tn_toggle n)))]))"

lemma writePropertyTree_emits:
  "represents (nodes T) t \<Longrightarrow> depth t \<le> fuel \<Longrightarrow> emits (writePropertyTree env fuel T (label t)) (tree_json env T t)"
proof (induction fuel arbitrary: t)
  case 0
  then show ?case by (cases t) simp
next
  case (Suc fuel)
  obtain i ts where t: "t = SNode i ts" by (cases t)
  define n where "n = nodes T ! i"
  have cs: "tn_children n = map label ts" using Suc.prems(1) by (simp add: t n_def)
  have child: "emits (writePropertyTree env fuel T (label u)) (tree_json env T u)" if "u \<in> set ts" for u
    using Suc.IH depth_subtree [OF that] Suc.prems that by (simp add: t)
  define header where "header = [Key ''account'', String (account T), Key ''project'', String (project T),
      Key ''type'', String (nodeTypeToString (tn_type n))]"
  define name where "name = (if tn_name n \<noteq> [] then [Key ''name'', String (tn_name n)] else [])"
  define ids where "ids = [Key ''path'', String (childPathToString env (tn_path n)), Key ''_id'', String (uuid_text env (tn_id n)),
         Key ''shared_id'', String (uuid_text env (tn_shared n))]"
  define kids where "kids = (if ts \<noteq> [] then [Key ''children'', StartArray, rfold (writePropertyTree env fuel T) (tn_children n), EndArray] else [])"
  define metas where "metas = (if tn_meta n \<noteq> []
      then [Key ''meta'', StartArray, calls (map (\<lambda>u. String (uuid_text env u)) (tn_meta n)), EndArray] else [])"
  define state where "state = [Key ''toggleState'', String (toggleStateToString (tn_toggle n))]"
  have header: "members (calls header) [(''account'', JString (account T)), (''project'', JString (project T)),
      (''type'', JString (nodeTypeToString (tn_type n)))]"
    unfolding header_def by (intro members_Cons emits_String members_Nil)
  have name: "members (calls name) (if tn_name n \<noteq> [] then [(''name'', JString (tn_name n))] else [])"
    unfolding name_def by (intro members_if members_String)
  have ids: "members (calls ids) [(''path'', JString (childPathToString env (tn_path n))),
      (''_id'', JString (uuid_text env (tn_id n))), (''shared_id'', JString (uuid_text env (tn_shared n)))]"
    unfolding ids_def by (intro members_Cons emits_String members_Nil)
  have kids: "members (calls kids) (if ts \<noteq> [] then [(''children'', JArray (map (tree_json env T) ts))] else [])"
    unfolding kids_def
  proof (intro members_if members_block emits_array_of)
    show "elements (rfold (writePropertyTree env fuel T) (tn_children n)) (map (tree_json env T) ts)"
      unfolding cs rfold_calls list.map_comp by (rule elements_map) (simp add: child)
  qed
  have metas: "members (calls metas) (if tn_meta n \<noteq> [] then [(''meta'', JArray (map (\<lambda>u. JString (uuid_text env u)) (tn_meta n)))] else [])"
    unfolding metas_def by (intro members_if members_block emits_array_of elements_map emits_String)
  have state: "members (calls state) [(''toggleState'', JString (toggleStateToString (tn_toggle n)))]"
    unfolding state_def by (rule members_String)
  have "writePropertyTree env (Suc fuel) T (label t) = calls (StartObject # (header @ name @ ids @ kids @ metas @ state) @ [EndObject])"
    by (rule ext) (simp add: t n_def [symmetric] Let_def header_def name_def ids_def kids_def metas_def state_def cs del: calls_simps)
  moreover note emits_object [OF members_append [OF header members_append [OF name members_append [OF ids members_append [OF kids
      members_append [OF metas state]]]]]]
  ultimately show ?case by (simp add: t n_def [symmetric] Let_def del: calls_simps split del: if_split)
qed

definition table_json :: "tree_env \<Rightarrow> ('a \<Rightarrow> json) \<Rightarrow> (uuid \<times> 'a) list \<Rightarrow> json" where
  "table_json env value m = JObject (map (\<lambda>(u, x). (uuid_text env u, value x)) (iterate env m))"

definition ids_json :: "tree_env \<Rightarrow> uuid list \<Rightarrow> json" where
  "ids_json env us = JArray (map (\<lambda>u. JString (uuid_text env u)) us)"

lemma write_map_emits:
  assumes "\<And>x. emits (calls (value x)) (j x)"
  shows "emits (calls (write_map env value m)) (table_json env j m)"
proof -
  have "members (calls (concat (map (\<lambda>(u, x). Key (uuid_text env u) # value x) es))) (map (\<lambda>(u, x). (uuid_text env u, j x)) es)" for es
  proof (induction es)
    case (Cons e es)
    obtain u x where e: "e = (u, x)" by (cases e)
    from members_append [OF members_block [OF assms] Cons.IH] show ?case by (simp add: e del: calls_simps)
  qed (use members_Nil in \<open>simp del: calls_simps\<close>)
  from emits_object [OF this] show ?thesis by (simp add: write_map_def table_json_def del: calls_simps)
qed

lemma write_ids_emits: "emits (calls (write_ids env us)) (ids_json env us)"
  using emits_array [of "map (\<lambda>u. String (uuid_text env u)) us" "map (\<lambda>u. JString (uuid_text env u)) us"]
  by (simp add: write_ids_def ids_json_def elements_map emits_String del: calls_simps)

lemma written_object:
  assumes "members (calls fs) kvs"
  shows "written (StartObject # fs @ [EndObject]) = Inr (json_text (JObject kvs))"
  by (rule written_emits [OF emits_object [OF assms]])

lemma string_emits: "emits (calls [String s]) (JString s)"
  using emits_String by simp

lemma serialised_files:
  assumes t: "represents (nodes T) t" "depth t \<le> Suc (length (nodes T))" "root T = Some (label t)"
  shows "getSelectionTreeAsBuffer env T = Inr (map (\<lambda>(name, j). (name, map of_char (json_text j)))
    ([(''fulltree.json'', JObject [(''nodes'', tree_json env T t), (''idToName'', table_json env JString (idToName T))]),
      (''tree_path.json'', JObject [(''idToPath'', table_json env (\<lambda>p. JString (childPathToString env p)) (idToPath T))]),
      (''idMap.json'', JObject [(''idMap'', table_json env (\<lambda>u. JString (uuid_text env u)) (idMap T))]),
      (''idToMeshes.json'', table_json env (ids_json env) (idToMeshes T))] @
     (if hiddenNodes T \<noteq> [] then [(''modelProperties.json'', JObject [(''hiddenNodes'', ids_json env (hiddenNodes T))])] else [])))"
proof -
  note table = members_block [OF write_map_emits]
  have "written (StartObject # (Key ''nodes'' # writePropertyTree env (Suc (length (nodes T))) T (label t) #
      Key ''idToName'' # write_map env (\<lambda>s. [String s]) (idToName T)) @ [EndObject]) =
    Inr (json_text (JObject [(''nodes'', tree_json env T t), (''idToName'', table_json env JString (idToName T))]))"
    by (rule written_object, rule members_Cons [OF writePropertyTree_emits [OF t(1,2)]], rule table, rule string_emits)
  moreover have "written (StartObject # (Key ''idToPath'' # write_map env (\<lambda>p. [String (childPathToString env p)]) (idToPath T)) @ [EndObject]) =
    Inr (json_text (JObject [(''idToPath'', table_json env (\<lambda>p. JString (childPathToString env p)) (idToPath T))]))"
    by (rule written_object, rule table, rule string_emits)
  moreover have "written (StartObject # (Key ''idMap'' # write_map env (\<lambda>u. [String (uuid_text env u)]) (idMap T)) @ [EndObject]) =
    Inr (json_text (JObject [(''idMap'', table_json env (\<lambda>u. JString (uuid_text env u)) (idMap T))]))"
    by (rule written_object, rule table, rule string_emits)
  moreover have "written (write_map env (write_ids env) (idToMeshes T)) = Inr (json_text (table_json env (ids_json env) (idToMeshes T)))"
    by (rule written_emits [OF write_map_emits], rule write_ids_emits)
  moreover have "written (StartObject # (Key ''hiddenNodes'' # write_ids env (hiddenNodes T)) @ [EndObject]) =
    Inr (json_text (JObject [(''hiddenNodes'', ids_json env (hiddenNodes T))]))"
    by (rule written_object, rule members_block, rule write_ids_emits)
  ultimately show ?thesis
    using t(3) by (simp add: getSelectionTreeAsBuffer_def serialiseSelectionTreesToJson_def json_text_nonempty del: json_text.simps)
qed

subsection \<open>Properties\<close>

lemma shown_same_children:
  "shown env T path t \<Longrightarrow> represents ns t \<Longrightarrow> j \<in> set (labels t) \<Longrightarrow>
   mset (tn_children (nodes T ! j)) = mset (tn_children (ns ! j))"
proof (induction env T path t rule: shown.induct)
  case (1 env T path i ts)
  then show ?case by (cases "j = i") (auto simp: shown_node_def Let_def node_at_def)
qed

lemma links_after:
  assumes "links (nodes T0) par" and "represents (nodes T0) t" and "outcome env path [t] T0 ms T"
  shows "links (nodes T) par"
proof -
  have "mset (tn_children (nodes T ! j)) = mset (tn_children (nodes T0 ! j))" for j
  proof (cases "j \<in> set (labels t)")
    case True
    then show ?thesis using shown_same_children [of env T path t "nodes T0" j] assms(2,3) by (simp add: outcome_def)
  next
    case False
    then show ?thesis using assms(3) by (simp add: outcome_def node_at_def)
  qed
  then have "distinct (tn_children (nodes T ! j)) = distinct (tn_children (nodes T0 ! j))"
      "set (tn_children (nodes T ! j)) = set (tn_children (nodes T0 ! j))" for j
    by (metis mset_eq_imp_distinct_iff, metis set_mset_mset)
  then show ?thesis using assms(1,3) by (simp add: links_def outcome_def)
qed

text \<open>
  C17: the files of a selection tree: writing the tree of a revision succeeds, no assertion of the JSON writer
  fails, and each file is the text of the JSON value it should hold: the tree below the root with its children in their order, and
  the tables; the list of hidden nodes has a file only if there are any.
\<close>

theorem selection_tree_files:
  assumes "cpp_partition (partition_sort env)" and "connected_trees env s bsons = Inr T0" and "root T0 = Some r"
    and "distinct (map tn_id (nodes T0))"
  shows "\<exists>T t. generateSelectionTrees env (\<lambda>_ _ _ _. Inr bsons) s = Inr T \<and> represents (nodes T) t \<and> label t = r \<and>
    getSelectionTreeAsBuffer env T = Inr (map (\<lambda>(name, j). (name, map of_char (json_text j)))
    ([(''fulltree.json'', JObject [(''nodes'', tree_json env T t), (''idToName'', table_json env JString (idToName T))]),
      (''tree_path.json'', JObject [(''idToPath'', table_json env (\<lambda>p. JString (childPathToString env p)) (idToPath T))]),
      (''idMap.json'', JObject [(''idMap'', table_json env (\<lambda>u. JString (uuid_text env u)) (idMap T))]),
      (''idToMeshes.json'', table_json env (ids_json env) (idToMeshes T))] @
     (if hiddenNodes T \<noteq> [] then [(''modelProperties.json'', JObject [(''hiddenNodes'', ids_json env (hiddenNodes T))])] else [])))"
proof -
  obtain t0 ms T h par where t0: "represents (nodes T0) t0" and par: "links (nodes T0) par" "par r = None" "r < length (nodes T0)"
      and run: "traversePtree env (Suc (length (nodes T0))) r [] T0 = Inr (h, ms, T)" and out: "outcome env [] [t0] T0 ms T"
    using traversal_result [OF assms] .
  have T: "length (nodes T) = length (nodes T0)" "root T = Some r" using out assms(3) by (simp_all add: outcome_def)
  obtain t where t: "represents (nodes T) t" "label t = r" "depth t \<le> Suc (length (nodes T))"
    by (rule root_has_tree [OF links_after [OF par(1) t0 out] par(2)]) (use par(3) T(1) in auto)
  have "generateSelectionTrees env (\<lambda>_ _ _ _. Inr bsons) s = Inr T"
    using run assms(2,3) by (simp add: generateSelectionTrees_def)
  then show ?thesis using serialised_files [OF t(1,3)] t(1,2) T(2) by blast
qed

text \<open>
  C32: when building a selection tree fails: a metadata document with a parent that is not among the nodes leads to a null
  pointer, and so does a revision without a parentless node (also an empty one); in every other case the recursion ends
  and there is a result.
\<close>

theorem selection_tree_outcomes:
  assumes part: "cpp_partition (partition_sort env)" and ord: "\<And>us. set (map_order env us) = set us"
    and read: "rfold read_tree_node bsons ([], \<lparr>parentSharedId = [], metadataParents = []\<rparr>) = Inr (ns, ms)"
    and ids: "distinct (map tn_id ns)"
  shows "if parents_known ns ms \<and> (\<exists>i < length ns. parent_of ns ms i = None)
    then \<exists>T. generateSelectionTrees env (\<lambda>_ _ _ _. Inr bsons) s = Inr T
    else generateSelectionTrees env (\<lambda>_ _ _ _. Inr bsons) s = Inl NullDeref"
proof (cases "connected_trees env s bsons")
  case (Inl e)
  then show ?thesis
    using connected_trees_cases [OF ord read, of s] by (simp add: generateSelectionTrees_def split: if_splits)
next
  case (Inr T0)
  then have known: "parents_known ns ms" using connected_trees_cases [OF ord read, of s] by (auto split: if_splits)
  note props = connected_trees_nodes [OF Inr read]
  show ?thesis
  proof (cases "root T0")
    case None
    then show ?thesis using Inr props(3) by (auto simp: generateSelectionTrees_def)
  next
    case (Some r)
    have "distinct (map tn_id (nodes T0))" using props(5) ids by simp
    then show ?thesis
      by (rule traversal_result [OF part Inr Some]) (use known props(3) Some Inr in \<open>auto simp: generateSelectionTrees_def\<close>)
  qed
qed

subsection \<open>Witnesses\<close>

text \<open>A root with a mesh and an IFC space, which has a metadata document.\<close>

definition sample_tree_doc :: "string \<Rightarrow> string \<Rightarrow> uuid \<Rightarrow> uuid list \<Rightarrow> RepoBSON" where
  "sample_tree_doc ty name u parents =
     obj (foldl (\<lambda>b (k, v). append_field k v b) RepoBSONBuilder
       [(''_id'', bson_of_uuid u), (''shared_id'', bson_of_uuid (u + 10)), (''type'', BString ty), (''name'', BString name),
        (''parents'', BArray (map bson_of_uuid parents))])"

definition sample_tree_docs :: "RepoBSON list" where
  "sample_tree_docs = [sample_tree_doc ''transformation'' ''root'' 1 [], sample_tree_doc ''mesh'' ''wall'' 2 [11],
     sample_tree_doc ''mesh'' ''room (IFC Space)'' 3 [11], sample_tree_doc ''meta'' ''data'' 4 [13]]"

definition sample_tree_env :: tree_env where
  "sample_tree_env = \<lparr>partition_sort = spaces_first, map_order = (\<lambda>us. us),
     uuid_text = (\<lambda>u. if u = 1 then ''1'' else if u = 2 then ''2'' else ''3''), defaultInvisible = {||}\<rparr>"

definition sample_tree_scene :: RepoScene where
  "sample_tree_scene = RepoScene_empty (\<lambda>_. None) 1 ''db'' ''p''"

lemma sample_tree_part: "cpp_partition (partition_sort sample_tree_env)"
  by (simp add: sample_tree_env_def stable_partition.cpp_partition_axioms)

lemma sample_tree_connected:
  "\<exists>T. connected_trees sample_tree_env sample_tree_scene sample_tree_docs = Inr T \<and> root T = Some 0 \<and> map tn_id (nodes T) = [1, 2, 3]"
proof -
  have "(case connected_trees sample_tree_env sample_tree_scene sample_tree_docs of
      Inl _ \<Rightarrow> False | Inr T \<Rightarrow> root T = Some 0 \<and> map tn_id (nodes T) = [1, 2, 3])"
    by code_simp
  then show ?thesis by (auto split: sum.splits)
qed


theorem selection_tree_files_witness:
  "\<exists>T t. generateSelectionTrees sample_tree_env (\<lambda>_ _ _ _. Inr sample_tree_docs) sample_tree_scene = Inr T \<and> label t = 0 \<and>
     represents (nodes T) t \<and> (\<exists>files. getSelectionTreeAsBuffer sample_tree_env T = Inr files \<and>
       map_of files ''fulltree.json'' = Some (map of_char (json_text
         (JObject [(''nodes'', tree_json sample_tree_env T t), (''idToName'', table_json sample_tree_env JString (idToName T))]))))"
proof -
  obtain T0 where T0: "connected_trees sample_tree_env sample_tree_scene sample_tree_docs = Inr T0" "root T0 = Some 0"
      "map tn_id (nodes T0) = [1, 2, 3]"
    using sample_tree_connected by (elim exE conjE)
  have "distinct (map tn_id (nodes T0))" unfolding T0(3) by simp
  from selection_tree_files [OF sample_tree_part T0(1,2) this]
  obtain T t where "generateSelectionTrees sample_tree_env (\<lambda>_ _ _ _. Inr sample_tree_docs) sample_tree_scene = Inr T"
      "represents (nodes T) t" "label t = 0" and files: "getSelectionTreeAsBuffer sample_tree_env T = Inr (map (\<lambda>(name, j). (name, map of_char (json_text j)))
        ([(''fulltree.json'', JObject [(''nodes'', tree_json sample_tree_env T t), (''idToName'', table_json sample_tree_env JString (idToName T))]),
          (''tree_path.json'', JObject [(''idToPath'', table_json sample_tree_env (\<lambda>p. JString (childPathToString sample_tree_env p)) (idToPath T))]),
          (''idMap.json'', JObject [(''idMap'', table_json sample_tree_env (\<lambda>u. JString (uuid_text sample_tree_env u)) (idMap T))]),
          (''idToMeshes.json'', table_json sample_tree_env (ids_json sample_tree_env) (idToMeshes T))] @
         (if hiddenNodes T \<noteq> [] then [(''modelProperties.json'', JObject [(''hiddenNodes'', ids_json sample_tree_env (hiddenNodes T))])] else [])))"
    by (elim exE conjE)
  then show ?thesis by (intro exI conjI) (assumption+, simp del: json_text.simps)
qed

text \<open>A metadata document below another metadata document has no node as its parent.\<close>

definition sample_nested_docs :: "RepoBSON list" where
  "sample_nested_docs = [sample_tree_doc ''transformation'' ''root'' 1 [], sample_tree_doc ''meta'' ''data'' 4 [11],
     sample_tree_doc ''meta'' ''more'' 5 [14]]"

theorem selection_tree_outcomes_witness:
  "generateSelectionTrees sample_tree_env (\<lambda>_ _ _ _. Inr sample_nested_docs) sample_tree_scene = Inl NullDeref"
proof -
  have "(case rfold read_tree_node sample_nested_docs ([], \<lparr>parentSharedId = [], metadataParents = []\<rparr>) of
      Inl _ \<Rightarrow> False
    | Inr (ns, ms) \<Rightarrow> map tn_id ns = [1] \<and> map_of (metadataParents ms) 5 = Some [14] \<and> map_of (shared_nodes ns) 14 = None)"
    by code_simp
  then obtain ns ms where read: "rfold read_tree_node sample_nested_docs ([], \<lparr>parentSharedId = [], metadataParents = []\<rparr>) = Inr (ns, ms)"
      and "map tn_id ns = [1]" "map_of (metadataParents ms) 5 = Some [14]" "map_of (shared_nodes ns) 14 = None"
    by (auto split: sum.splits)
  moreover from this have "\<not> parents_known ns ms" by (force simp: parents_known_def)
  moreover have "set (map_order sample_tree_env us) = set us" for us by (simp add: sample_tree_env_def)
  ultimately show ?thesis
    using selection_tree_outcomes [OF sample_tree_part _ read, of sample_tree_scene] by simp
qed

end
