(* ===== verification/FloatArith.thy ===== *)
theory FloatArith
  imports Floats
begin

text \<open>
  IEEE arithmetic on the bits of a \<open>float\<close> or \<open>double\<close>, for the code that computes with coordinates: rounding to nearest even,
  gradual underflow, overflow to infinity. The operations are defined once for both widths. Which NaN an invalid operation
  gives is not specified by the language; here it is always the same one.
\<close>

subsection \<open>Formats\<close>

text \<open>Bits of the fraction, the exponent of the last bit of a subnormal number, and the magnitude of infinity.\<close>

definition frac_bits :: "nat \<Rightarrow> nat" where
  "frac_bits l = (if l = 64 then 52 else 23)"

definition min_exp :: "nat \<Rightarrow> int" where
  "min_exp l = (if l = 64 then -1074 else -149)"

definition inf_mag :: "nat \<Rightarrow> int" where
  "inf_mag l = (if l = 64 then 0x7FF0000000000000 else 0x7F800000)"

definition fp_nan :: "'a::len word \<Rightarrow> bool" where "fp_nan x \<longleftrightarrow> mag x > inf_mag LENGTH('a)"
definition fp_inf :: "'a::len word \<Rightarrow> bool" where "fp_inf x \<longleftrightarrow> mag x = inf_mag LENGTH('a)"
definition fp_finite :: "'a::len word \<Rightarrow> bool" where "fp_finite x \<longleftrightarrow> mag x < inf_mag LENGTH('a)"
definition fp_sign :: "'a::len word \<Rightarrow> bool" where "fp_sign x \<longleftrightarrow> bit x (LENGTH('a) - 1)"

fun int_len :: "int \<Rightarrow> int" where
  "int_len n = (if n \<le> 0 then 0 else 1 + int_len (n div 2))"

declare int_len.simps [simp del]

text \<open>The two rounding modes the program uses; \<open>s\<close> is the sign, \<open>d\<close> the unit, \<open>r\<close> what is left over.\<close>

datatype rounding = ToNearest | Upward

fun rounds_away :: "rounding \<Rightarrow> bool \<Rightarrow> int \<Rightarrow> int \<Rightarrow> int \<Rightarrow> bool" where
  "rounds_away ToNearest s n d r \<longleftrightarrow> d < 2 * r \<or> 2 * r = d \<and> odd n"
| "rounds_away Upward s n d r \<longleftrightarrow> \<not> s \<and> r \<noteq> 0"

definition round_int :: "rounding \<Rightarrow> bool \<Rightarrow> int \<Rightarrow> int \<Rightarrow> int \<Rightarrow> int" where
  "round_int rm s m e q =
     (if q \<le> e then m * 2 ^ nat (e - q)
      else let d = 2 ^ nat (q - e); n = m div d in if rounds_away rm s n d (m mod d) then n + 1 else n)"

definition fp_encode :: "rounding \<Rightarrow> bool \<Rightarrow> nat \<Rightarrow> int \<Rightarrow> int \<Rightarrow> int" where
  "fp_encode rm s l m e =
     (if m = 0 then 0
      else let q = max (e + int_len m - int (frac_bits l) - 1) (min_exp l)
           in min ((q - min_exp l) * 2 ^ frac_bits l + round_int rm s m e q)
                  (if rm = Upward \<and> s then inf_mag l - 1 else inf_mag l))"

definition fp_decode :: "nat \<Rightarrow> int \<Rightarrow> int \<times> int" where
  "fp_decode l w =
     (let f = w div 2 ^ frac_bits l
      in if f = 0 then (w, min_exp l) else (w mod 2 ^ frac_bits l + 2 ^ frac_bits l, min_exp l + f - 1))"

definition fp_pack :: "bool \<Rightarrow> int \<Rightarrow> 'a::len word" where
  "fp_pack s w = word_of_int (w + (if s then 2 ^ (LENGTH('a) - 1) else 0))"

definition fp_NaN :: "'a::len word" where "fp_NaN = word_of_int (inf_mag LENGTH('a) + 2 ^ (frac_bits LENGTH('a) - 1))"

subsection \<open>Operations\<close>

definition fp_neg :: "'a::len word \<Rightarrow> 'a word" where
  "fp_neg x = fp_pack (\<not> fp_sign x) (mag x)"

definition fp_abs :: "'a::len word \<Rightarrow> 'a word" where
  "fp_abs x = fp_pack False (mag x)"

definition signed_by :: "bool \<Rightarrow> int \<Rightarrow> int" where
  "signed_by s m = (if s then - m else m)"

definition fp_add_finite :: "rounding \<Rightarrow> 'a::len word \<Rightarrow> 'a word \<Rightarrow> 'a word" where
  "fp_add_finite rm a b =
     (case (fp_decode LENGTH('a) (mag a), fp_decode LENGTH('a) (mag b)) of ((ma, ea), (mb, eb)) \<Rightarrow>
        let e = min ea eb;
            s = signed_by (fp_sign a) (ma * 2 ^ nat (ea - e)) + signed_by (fp_sign b) (mb * 2 ^ nat (eb - e))
        in if s = 0 then fp_pack (fp_sign a \<and> fp_sign b) 0
           else fp_pack (s < 0) (fp_encode rm (s < 0) LENGTH('a) \<bar>s\<bar> e))"

definition fp_add_in :: "rounding \<Rightarrow> 'a::len word \<Rightarrow> 'a word \<Rightarrow> 'a word" where
  "fp_add_in rm a b =
     (if fp_nan a \<or> fp_nan b then fp_NaN
      else if fp_inf a then if fp_inf b \<and> fp_sign a \<noteq> fp_sign b then fp_NaN else a
      else if fp_inf b then b
      else fp_add_finite rm a b)"

definition fp_add :: "'a::len word \<Rightarrow> 'a word \<Rightarrow> 'a word" where "fp_add = fp_add_in ToNearest"

definition fp_sub_in :: "rounding \<Rightarrow> 'a::len word \<Rightarrow> 'a word \<Rightarrow> 'a word" where
  "fp_sub_in rm a b = fp_add_in rm a (fp_neg b)"

definition fp_sub :: "'a::len word \<Rightarrow> 'a word \<Rightarrow> 'a word" where "fp_sub = fp_sub_in ToNearest"

definition fp_mul_in :: "rounding \<Rightarrow> 'a::len word \<Rightarrow> 'a word \<Rightarrow> 'a word" where
  "fp_mul_in rm a b =
     (let s = (fp_sign a \<noteq> fp_sign b) in
      if fp_nan a \<or> fp_nan b then fp_NaN
      else if fp_inf a \<or> fp_inf b then if mag a = 0 \<or> mag b = 0 then fp_NaN else fp_pack s (inf_mag LENGTH('a))
      else case (fp_decode LENGTH('a) (mag a), fp_decode LENGTH('a) (mag b)) of ((ma, ea), (mb, eb)) \<Rightarrow>
        fp_pack s (fp_encode rm s LENGTH('a) (ma * mb) (ea + eb)))"

definition fp_mul :: "'a::len word \<Rightarrow> 'a word \<Rightarrow> 'a word" where "fp_mul = fp_mul_in ToNearest"

text \<open>
  A quotient and a root have enough digits to round and a last digit that says whether anything was cut off.
\<close>

definition fp_div :: "'a::len word \<Rightarrow> 'a word \<Rightarrow> 'a word" where
  "fp_div a b =
     (let s = (fp_sign a \<noteq> fp_sign b) in
      if fp_nan a \<or> fp_nan b \<or> fp_inf a \<and> fp_inf b \<or> mag a = 0 \<and> mag b = 0 then fp_NaN
      else if fp_inf a \<or> mag b = 0 then fp_pack s (inf_mag LENGTH('a))
      else if fp_inf b then fp_pack s 0
      else case (fp_decode LENGTH('a) (mag a), fp_decode LENGTH('a) (mag b)) of ((ma, ea), (mb, eb)) \<Rightarrow>
        let k = nat (int_len mb) + frac_bits LENGTH('a) + 3; n = ma * 2 ^ k
        in fp_pack s (fp_encode ToNearest s LENGTH('a) (2 * (n div mb) + (if n mod mb = 0 then 0 else 1)) (ea - eb - int k - 1)))"

text \<open>The integer square root, digit by digit.\<close>

fun int_sqrt :: "nat \<Rightarrow> int \<Rightarrow> int" where
  "int_sqrt 0 n = 0"
| "int_sqrt (Suc k) n = (let r = int_sqrt k (n div 4) in if (2 * r + 1) * (2 * r + 1) \<le> n then 2 * r + 1 else 2 * r)"

definition fp_sqrt :: "'a::len word \<Rightarrow> 'a word" where
  "fp_sqrt a =
     (if fp_nan a then fp_NaN
      else if mag a = 0 then a
      else if fp_sign a then fp_NaN
      else if fp_inf a then a
      else case fp_decode LENGTH('a) (mag a) of (m, e) \<Rightarrow>
        let k = 2 * frac_bits LENGTH('a) + 6 + (if even e then 0 else 1);
            n = m * 2 ^ k; r = int_sqrt (2 * frac_bits LENGTH('a) + 8) n
        in fp_pack False (fp_encode ToNearest False LENGTH('a) (2 * r + (if r * r = n then 0 else 1)) ((e - int k) div 2 - 1)))"

definition fp_lt :: "'a::len word \<Rightarrow> 'a word \<Rightarrow> bool" where
  "fp_lt a b \<longleftrightarrow> \<not> fp_nan a \<and> \<not> fp_nan b \<and> fkey a < fkey b"
definition fp_le :: "'a::len word \<Rightarrow> 'a word \<Rightarrow> bool" where
  "fp_le a b \<longleftrightarrow> \<not> fp_nan a \<and> \<not> fp_nan b \<and> fkey a \<le> fkey b"
definition fp_eq :: "'a::len word \<Rightarrow> 'a word \<Rightarrow> bool" where
  "fp_eq a b \<longleftrightarrow> \<not> fp_nan a \<and> \<not> fp_nan b \<and> fkey a = fkey b"

definition fp_of_int :: "int \<Rightarrow> 'a::len word" where
  "fp_of_int n = fp_pack (n < 0) (fp_encode ToNearest (n < 0) LENGTH('a) \<bar>n\<bar> 0)"

text \<open>\<open>std::nexttoward\<close> an infinity, upwards or downwards.\<close>

definition fp_next :: "bool \<Rightarrow> 'a::len word \<Rightarrow> 'a word" where
  "fp_next upwards x =
     (if fp_nan x \<or> fp_inf x \<and> fp_sign x \<noteq> upwards then x
      else if mag x = 0 then fp_pack (\<not> upwards) 1
      else fp_pack (fp_sign x) (if fp_sign x = upwards then mag x - 1 else mag x + 1))"

definition fp_one :: "'a::len word" where "fp_one = fp_pack False (inf_mag LENGTH('a) div 2 - 2 ^ (frac_bits LENGTH('a) - 1))"

subsection \<open>Facts\<close>

lemma fp_double [simp]:
  "fp_nan (d :: double) = d_nan d" "fp_lt (d :: double) e = d_lt d e" "fp_le (d :: double) e = d_le d e" "fp_eq (d :: double) e = d_eq d e"
  by (simp_all add: fp_nan_def inf_mag_def d_nan_def fp_lt_def d_lt_def fp_le_def d_le_def fp_eq_def d_eq_def)

lemma mag_bound: "0 \<le> mag w" "mag (w :: 'a::len word) < 2 ^ (LENGTH('a) - 1)"
  by (rule mag_range)+

lemma uint_sign_mag: "uint (w :: 'a::len word) = mag w + (if fp_sign w then 2 ^ (LENGTH('a) - 1) else 0)"
proof -
  obtain k where k: "LENGTH('a) = Suc k" by (metis len_not_eq_0 not0_implies_Suc)
  have "uint w < 2 * 2 ^ k" using uint_lt2p [of w] by (simp add: k)
  have d: "uint w div 2 ^ k < 2"
  proof (rule ccontr)
    assume "\<not> uint w div 2 ^ k < 2"
    then have "2 * 2 ^ k \<le> uint w div 2 ^ k * 2 ^ k" by (intro mult_right_mono) simp_all
    moreover have "uint w div 2 ^ k * 2 ^ k \<le> uint w" using div_mult_mod_eq [of "uint w" "2 ^ k"] by (metis add_increasing2 order_refl pos_mod_sign zero_less_numeral zero_less_power)
    ultimately show False using \<open>uint w < 2 * 2 ^ k\<close> by linarith
  qed
  have "0 \<le> uint w div 2 ^ k" by (simp add: pos_imp_zdiv_nonneg_iff)
  then have "uint w div 2 ^ k = 0 \<or> uint w div 2 ^ k = 1" using d by linarith
  then have "uint w div 2 ^ k = (if odd (uint w div 2 ^ k) then 1 else 0)" by auto
  moreover have "bit w k = odd (uint w div 2 ^ k)"
    using bit_uint_iff [of w k] unfolding bit_iff_odd [of "uint w"] by (simp add: k)
  moreover have "mag w = uint w mod 2 ^ k"
    unfolding mag_def unsigned_take_bit_eq by (simp add: k take_bit_eq_mod)
  ultimately show ?thesis
    using div_mult_mod_eq [of "uint w" "2 ^ k"] by (auto simp: fp_sign_def k split: if_splits)
qed

lemma fp_pack_self [simp]: "fp_pack (fp_sign w) (mag w) = w"
  unfolding fp_pack_def uint_sign_mag [symmetric] by simp

lemma sign_mag_eqI: "fp_sign a = fp_sign b \<Longrightarrow> mag a = mag b \<Longrightarrow> a = b"
  by (subst fp_pack_self [of a, symmetric], subst fp_pack_self [of b, symmetric]) simp

lemma fp_pack_fields:
  assumes "0 \<le> m" and "m < 2 ^ (LENGTH('a) - 1)"
  shows "mag (fp_pack s m :: 'a::len word) = m" "fp_sign (fp_pack s m :: 'a word) = s"
proof -
  obtain k where k: "LENGTH('a) = Suc k" by (metis len_not_eq_0 not0_implies_Suc)
  let ?w = "fp_pack s m :: 'a word"
  have u: "uint ?w = m + (if s then 2 ^ k else 0)"
  proof -
    have "m + (if s then 2 ^ k else 0) < 2 ^ Suc k" using assms by (simp add: k)
    moreover have "0 \<le> m + (if s then 2 ^ k else 0)" using assms(1) by simp
    ultimately have "(m + (if s then 2 ^ k else 0)) mod 2 ^ Suc k = m + (if s then 2 ^ k else 0)"
      by (intro mod_pos_pos_trivial)
    then show ?thesis unfolding fp_pack_def uint_word_of_int_eq k take_bit_eq_mod by (cases s) simp_all
  qed
  have "mag ?w = (m + (if s then 2 ^ k else 0)) mod 2 ^ k"
    unfolding mag_def unsigned_take_bit_eq u by (simp add: k take_bit_eq_mod)
  then have "mag ?w = m" using assms by (cases s) (simp_all add: k)
  then show "mag ?w = m" "fp_sign ?w = s" using u uint_sign_mag [of ?w] by (auto simp: k split: if_splits)
qed

lemma fp_sign_uint: "fp_sign (w :: 'a::len word) \<longleftrightarrow> 2 ^ (LENGTH('a) - 1) \<le> uint w"
  using uint_sign_mag [of w] mag_bound [of w] by auto

lemma fp_add_finite_commute: "fp_add_finite rm a b = fp_add_finite rm b a"
  by (simp add: fp_add_finite_def Let_def min.commute add.commute conj_commute split: prod.splits)

lemma fp_add_commute: "fp_add_in rm a b = fp_add_in rm b a"
proof (cases "fp_inf a \<and> fp_inf b \<and> fp_sign a = fp_sign b")
  case True
  then have "a = b" by (intro sign_mag_eqI) (simp_all add: fp_inf_def)
  then show ?thesis by simp
next
  case False
  then show ?thesis by (auto simp: fp_add_in_def fp_add_finite_commute)
qed

lemma fp_mul_commute: "fp_mul_in rm a b = fp_mul_in rm b a"
proof -
  have "(fp_sign a \<noteq> fp_sign b) = (fp_sign b \<noteq> fp_sign a)" by auto
  then show ?thesis unfolding fp_mul_in_def Let_def by (simp add: mult.commute add.commute conj_commute disj_commute split: prod.splits)
qed

subsection \<open>Exact cases\<close>

lemma int_len_unique: "2 ^ k \<le> n \<Longrightarrow> n < 2 ^ Suc k \<Longrightarrow> int_len n = int (Suc k)"
proof (induction k arbitrary: n)
  case 0
  then have "n = 1" by simp
  then show ?case by (simp add: int_len.simps [of 1] int_len.simps [of 0])
next
  case (Suc k)
  then have "2 ^ k \<le> n div 2" "n div 2 < 2 ^ Suc k" by (simp_all add: mult.commute)
  then have "int_len (n div 2) = int (Suc k)" by (rule Suc.IH)
  moreover have "0 < n" using Suc.prems(1) by (smt (verit) zero_less_power)
  ultimately show ?case by (subst int_len.simps) simp
qed

lemma int_len_bound: "0 \<le> n \<Longrightarrow> n < 2 ^ k \<Longrightarrow> int_len n \<le> int k"
proof (induction k arbitrary: n)
  case 0
  then show ?case by (simp add: int_len.simps)
next
  case (Suc k)
  then have "int_len (n div 2) \<le> int k" by (intro Suc.IH) (simp_all add: pos_imp_zdiv_nonneg_iff mult.commute)
  then show ?case by (subst int_len.simps) simp
qed

lemma round_int_same [simp]: "round_int rm s m e e = m"
  by (simp add: round_int_def)

lemma fp_encode_decode:
  assumes "0 < w" and "w < inf_mag l"
  shows "case fp_decode l w of (m, e) \<Rightarrow> 0 < m \<and> fp_encode rm s l m e = w"
proof -
  let ?p = "frac_bits l"
  define f where "f = w div 2 ^ ?p"
  have f0: "0 \<le> f" using assms(1) by (simp add: f_def pos_imp_zdiv_nonneg_iff)
  have split: "w = f * 2 ^ ?p + w mod 2 ^ ?p" unfolding f_def by (rule div_mult_mod_eq [symmetric])
  have r: "0 \<le> w mod 2 ^ ?p" "w mod 2 ^ ?p < 2 ^ ?p" by simp_all
  show ?thesis
  proof (cases "f = 0")
    case True
    then have "w < 2 ^ ?p" using split r by simp
    then have "int_len w \<le> int ?p" using int_len_bound assms(1) by simp
    then have "max (min_exp l + int_len w - int (frac_bits l) - 1) (min_exp l) = min_exp l" by simp
    then have "fp_encode rm s l w (min_exp l) = w" using assms
      unfolding fp_encode_def Let_def by (simp only: round_int_same) simp
    then show ?thesis using True assms by (simp add: fp_decode_def f_def [symmetric] Let_def)
  next
    case False
    let ?m = "w mod 2 ^ ?p + 2 ^ ?p"
    have "int_len ?m = int (Suc ?p)" using r by (intro int_len_unique) simp_all
    moreover have "0 < ?m" using r(1) by (smt (verit) zero_less_power)
    moreover have "(f - 1) * 2 ^ ?p + ?m = w" using split by (simp add: algebra_simps)
    ultimately show ?thesis using False f0 assms
      by (simp add: fp_decode_def f_def [symmetric] Let_def fp_encode_def round_int_def)
  qed
qed

lemma inf_mag_bound: "LENGTH('a) = 64 \<or> LENGTH('a) = 32 \<Longrightarrow> 0 < inf_mag LENGTH('a::len) \<and> inf_mag LENGTH('a) < 2 ^ (LENGTH('a) - 1)"
  by (auto simp: inf_mag_def)

lemma int_len_shift: "0 < n \<Longrightarrow> int_len (n * 2 ^ k) = int_len n + int k"
proof (induction k)
  case (Suc k)
  have "int_len (n * 2 ^ Suc k) = 1 + int_len (n * 2 ^ k)"
    using Suc.prems by (subst int_len.simps) (simp add: linorder_not_le mult_le_0_iff)
  then show ?case using Suc by simp
qed simp

lemma round_int_shift: "round_int rm s (m * 2 ^ k) e q = round_int rm s m (e + int k) q"
proof -
  consider "q \<le> e" | "e < q" "q \<le> e + int k" | "e + int k < q" by linarith
  then show ?thesis
  proof cases
    case 1
    then have "nat (e + int k - q) = k + nat (e - q)" by linarith
    then show ?thesis using 1 by (simp add: round_int_def power_add mult.assoc)
  next
    case 2
    then have "k = nat (e + int k - q) + nat (q - e)" by linarith
    then have "m * 2 ^ k = m * 2 ^ nat (e + int k - q) * 2 ^ nat (q - e)" by (metis mult.assoc power_add)
    then have "m * 2 ^ k div 2 ^ nat (q - e) = m * 2 ^ nat (e + int k - q)" "m * 2 ^ k mod 2 ^ nat (q - e) = 0"
      by (simp_all only:) simp_all
    then show ?thesis using 2 by (cases rm) (simp_all add: round_int_def Let_def)
  next
    case 3
    then have "nat (q - e) = k + nat (q - (e + int k))" by linarith
    then have D: "(2 :: int) ^ nat (q - e) = 2 ^ k * 2 ^ nat (q - (e + int k))" by (simp add: power_add)
    define c where "c = (2 :: int) ^ k"
    define d where "d = (2 :: int) ^ nat (q - (e + int k))"
    have c: "0 < c" by (simp add: c_def)
    have "c * m div (c * d) = m div d" "c * m mod (c * d) = c * (m mod d)"
      using c by (simp, simp only: mult_mod_right)
    then have dm: "m * c div (c * d) = m div d" "m * c mod (c * d) = c * (m mod d)"
      unfolding mult.commute [of m c] .
    have two: "2 * (c * x) = c * (2 * x)" for x by simp
    have "(c * d < 2 * (c * x)) = (d < 2 * x)" "(2 * (c * x) = c * d) = (2 * x = d)" for x
      unfolding two using c by (simp_all only: mult_less_cancel_left_pos mult_cancel_left) simp_all
    then have cmp: "rounds_away rm s n (c * d) (c * x) = rounds_away rm s n d x" for n x
      using c by (cases rm) simp_all
    have q: "\<not> q \<le> e" "\<not> q \<le> e + int k" using 3 by simp_all
    show ?thesis
      unfolding round_int_def D c_def [symmetric] d_def [symmetric] by (simp only: q if_False Let_def dm cmp)
  qed
qed

lemma fp_encode_shift: "0 < m \<Longrightarrow> fp_encode rm s l (m * 2 ^ k) e = fp_encode rm s l m (e + int k)"
  by (simp add: fp_encode_def int_len_shift round_int_shift add.commute add.left_commute)

lemma min_exp_decode: "0 \<le> w \<Longrightarrow> min_exp l \<le> snd (fp_decode l w)"
proof -
  assume "0 \<le> w"
  then have "0 \<le> w div 2 ^ frac_bits l" by (simp add: pos_imp_zdiv_nonneg_iff)
  then show ?thesis by (auto simp: fp_decode_def Let_def)
qed

text \<open>Adding a zero, and multiplying by one.\<close>

lemma fp_add_zero:
  assumes "\<not> fp_nan a" and "mag b = 0" and "mag a \<noteq> 0" and L: "LENGTH('a) = 64 \<or> LENGTH('a) = 32"
  shows "fp_add_in rm a b = (a :: 'a::len word)"
proof (cases "fp_inf a")
  case True
  then show ?thesis using assms inf_mag_bound [OF L] by (auto simp: fp_add_in_def fp_inf_def fp_nan_def)
next
  case False
  obtain m e where d: "fp_decode LENGTH('a) (mag a) = (m, e)" by force
  have m: "0 < m" "fp_encode rm (fp_sign a) LENGTH('a) m e = mag a"
    using fp_encode_decode [of "mag a" "LENGTH('a)"] assms False mag_bound(1) [of a] by (simp_all add: d fp_nan_def fp_inf_def)
  have b: "fp_decode LENGTH('a) (mag b) = (0, min_exp LENGTH('a))" by (simp add: assms(2) fp_decode_def)
  have e: "min_exp LENGTH('a) \<le> e" using min_exp_decode [OF mag_bound(1), of "LENGTH('a)" a] d by simp
  have "fp_encode rm (fp_sign a) LENGTH('a) (m * 2 ^ nat (e - min_exp LENGTH('a))) (min_exp LENGTH('a)) = mag a"
    using e m by (simp add: fp_encode_shift)
  moreover have "\<not> fp_nan b" "\<not> fp_inf b" using assms(2) inf_mag_bound [OF L] by (simp_all add: fp_nan_def fp_inf_def)
  moreover have "0 < m * 2 ^ nat (e - min_exp LENGTH('a))" using m(1) by simp
  moreover from this have "\<not> m * 2 ^ nat (e - min_exp LENGTH('a)) < 0" by simp
  note facts = calculation this
  show ?thesis
  proof -
    have "fp_add_in rm a b = fp_pack (fp_sign a) (mag a)"
      using False assms(1) e m(1) facts
      by (cases "fp_sign a") (simp_all add: fp_add_in_def fp_add_finite_def d b min_absorb2 signed_by_def Let_def del: fp_pack_self)
    then show ?thesis by simp
  qed
qed

lemma fp_decode_one:
  assumes "LENGTH('a::len) = 64 \<or> LENGTH('a) = 32"
  shows "fp_decode LENGTH('a) (mag (fp_one :: 'a word)) = (2 ^ frac_bits LENGTH('a), - int (frac_bits LENGTH('a)))"
    "\<not> fp_nan (fp_one :: 'a word)" "\<not> fp_inf (fp_one :: 'a word)" "\<not> fp_sign (fp_one :: 'a word)" "mag (fp_one :: 'a word) \<noteq> 0"
proof -
  let ?m = "inf_mag LENGTH('a) div 2 - 2 ^ (frac_bits LENGTH('a) - 1)"
  have b: "0 < ?m \<and> ?m < inf_mag LENGTH('a)" "fp_decode LENGTH('a) ?m = (2 ^ frac_bits LENGTH('a), - int (frac_bits LENGTH('a)))"
    using assms by (elim disjE; simp add: inf_mag_def frac_bits_def fp_decode_def min_exp_def)+
  have "mag (fp_one :: 'a word) = ?m" "\<not> fp_sign (fp_one :: 'a word)"
    unfolding fp_one_def using fp_pack_fields [of ?m False, where 'a = 'a] b(1) inf_mag_bound [OF assms] by simp_all
  then show "fp_decode LENGTH('a) (mag (fp_one :: 'a word)) = (2 ^ frac_bits LENGTH('a), - int (frac_bits LENGTH('a)))"
    "\<not> fp_nan (fp_one :: 'a word)" "\<not> fp_inf (fp_one :: 'a word)" "\<not> fp_sign (fp_one :: 'a word)" "mag (fp_one :: 'a word) \<noteq> 0"
    using b by (simp_all add: fp_nan_def fp_inf_def)
qed

lemma fp_mul_one:
  assumes "\<not> fp_nan a" and L: "LENGTH('a) = 64 \<or> LENGTH('a) = 32"
  shows "fp_mul_in rm a fp_one = (a :: 'a::len word)"
proof (cases "fp_inf a")
  case True
  then have "fp_mul_in rm a fp_one = fp_pack (fp_sign a) (mag a)"
    using assms(1) fp_decode_one [OF L] inf_mag_bound [OF L] by (simp add: fp_mul_in_def fp_inf_def del: fp_pack_self)
  then show ?thesis by simp
next
  case False
  obtain m e where d: "fp_decode LENGTH('a) (mag a) = (m, e)" by force
  have "fp_encode rm (fp_sign a) LENGTH('a) (m * 2 ^ frac_bits LENGTH('a)) (e - int (frac_bits LENGTH('a))) = mag a"
  proof (cases "mag a = 0")
    case True
    then show ?thesis using d by (auto simp: fp_decode_def fp_encode_def)
  next
    case False
    then show ?thesis
      using fp_encode_decode [of "mag a" "LENGTH('a)" rm "fp_sign a"] assms \<open>\<not> fp_inf a\<close> mag_bound(1) [of a]
      by (simp add: d fp_nan_def fp_inf_def fp_encode_shift)
  qed
  then have "fp_mul_in rm a fp_one = fp_pack (fp_sign a) (mag a)"
    using False assms(1) fp_decode_one [OF L] by (simp add: fp_mul_in_def d del: fp_pack_self)
  then show ?thesis by simp
qed

subsection \<open>Evaluation by the simplifier\<close>

text \<open>To be used with the congruence \<open>let_weak_cong\<close>, so that a body waits for the value it depends on.\<close>

lemma fp_literal64:
  "mag (0 :: double) = 0" "\<not> fp_sign (0 :: double)" "mag (1 :: double) = 1" "\<not> fp_sign (1 :: double)"
  "mag (numeral n :: double) = take_bit 63 (take_bit 64 (numeral n))"
  "fp_sign (numeral n :: double) \<longleftrightarrow> 2 ^ 63 \<le> (take_bit 64 (numeral n) :: int)"
proof -
  show "mag (0 :: double) = 0" "\<not> fp_sign (0 :: double)" "mag (1 :: double) = 1" "\<not> fp_sign (1 :: double)"
    by (simp_all add: mag_def unsigned_take_bit_eq fp_sign_uint)
  have l64: "LENGTH(64) = 64" and l: "LENGTH(64) - 1 = 63" by simp_all
  have u: "uint (numeral n :: double) = take_bit 64 (numeral n)"
    unfolding uint_numeral l64 take_bit_eq_mod by (rule refl)
  show "mag (numeral n :: double) = take_bit 63 (take_bit 64 (numeral n))"
    unfolding mag_def unsigned_take_bit_eq unfolding u l by (rule refl)
  show "fp_sign (numeral n :: double) \<longleftrightarrow> 2 ^ 63 \<le> (take_bit 64 (numeral n) :: int)"
    unfolding fp_sign_uint u l by (rule refl)
qed

lemma fp_decode_bits:
  "fp_decode l w = (let f = drop_bit (frac_bits l) w in
     if f = 0 then (w, min_exp l) else (take_bit (frac_bits l) w + 2 ^ frac_bits l, min_exp l + f - 1))"
  unfolding fp_decode_def take_bit_eq_mod drop_bit_eq_div ..

lemma round_int_bits:
  "round_int rm s m e q =
     (if q \<le> e then m * 2 ^ nat (e - q)
      else let k = nat (q - e); n = drop_bit k m in if rounds_away rm s n (2 ^ k) (take_bit k m) then n + 1 else n)"
  unfolding round_int_def take_bit_eq_mod drop_bit_eq_div Let_def ..

lemma int_len_literal: "int_len 0 = 0" "int_len 1 = 1" "int_len (numeral (num.Bit0 n)) = 1 + int_len (numeral n)"
    "int_len (numeral (num.Bit1 n)) = 1 + int_len (numeral n)"
  by (simp_all add: int_len.simps [of 0] int_len.simps [of 1] int_len.simps [of "numeral (num.Bit0 n)"] int_len.simps [of "numeral (num.Bit1 n)"])

lemma fp_add_in_cases:
  fixes a b :: double
  shows "mag a \<noteq> 0 \<Longrightarrow> mag b \<noteq> 0 \<Longrightarrow> fp_add_in rm a b =
     (if fp_nan a \<or> fp_nan b then fp_NaN
      else if fp_inf a then if fp_inf b \<and> fp_sign a \<noteq> fp_sign b then fp_NaN else a
      else if fp_inf b then b
      else fp_add_finite rm a b)"
    and "\<not> fp_nan a \<Longrightarrow> mag a \<noteq> 0 \<Longrightarrow> mag b = 0 \<Longrightarrow> fp_add_in rm a b = a"
    and "\<not> fp_nan b \<Longrightarrow> mag a = 0 \<Longrightarrow> mag b \<noteq> 0 \<Longrightarrow> fp_add_in rm a b = b"
    and "mag a = 0 \<Longrightarrow> mag b = 0 \<Longrightarrow> fp_add_in rm a b = fp_pack (fp_sign a \<and> fp_sign b) 0"
proof -
  show "\<not> fp_nan a \<Longrightarrow> mag a \<noteq> 0 \<Longrightarrow> mag b = 0 \<Longrightarrow> fp_add_in rm a b = a"
    by (rule fp_add_zero) simp_all
  show "\<not> fp_nan b \<Longrightarrow> mag a = 0 \<Longrightarrow> mag b \<noteq> 0 \<Longrightarrow> fp_add_in rm a b = b"
    using fp_add_zero [of b a rm] by (simp add: fp_add_commute)
  show "mag a = 0 \<Longrightarrow> mag b = 0 \<Longrightarrow> fp_add_in rm a b = fp_pack (fp_sign a \<and> fp_sign b) 0"
    by (auto simp: fp_add_in_def fp_add_finite_def fp_nan_def fp_inf_def d_nan_def inf_mag_def fp_decode_def signed_by_def Let_def)
qed (simp only: fp_add_in_def)

lemma bit_len_literal: "bit_len 0 = 0" "bit_len (Suc 0) = 1" "bit_len 1 = 1" "bit_len (numeral (num.Bit0 n)) = Suc (bit_len (numeral n))"
    "bit_len (numeral (num.Bit1 n)) = Suc (bit_len (numeral n))"
  by (simp_all add: bit_len.simps [of "Suc 0"] bit_len.simps [of "numeral (num.Bit0 n)"] bit_len.simps [of "numeral (num.Bit1 n)"])

lemmas fp_eval = fp_literal64 d_nan_def fp_nan_def fp_inf_def fp_neg_def fp_abs_def fp_add_def fp_add_in_cases fp_add_finite_def fp_sub_def fp_sub_in_def
  fp_mul_def fp_mul_in_def fp_decode_bits frac_bits_def min_exp_def inf_mag_def signed_by_def fp_encode_def round_int_bits
  int_len_literal fp_pack_def fp_next_def fp_one_def Let_def

end
