(* ===== verification/Matrix.thy ===== *)
theory Matrix
  imports Complex_Main FloatArith Bounds
begin

text \<open>
  The vector and matrix templates, \<open>lib/datastructure/repo_vector3d.h\<close> and \<open>repo_matrix.cpp\<close>. A template over the number
  type is a polymorphic definition over the type classes of its operations; the program uses it at \<open>fp64\<close>, where they are IEEE
  arithmetic, and at \<open>up64\<close> where it has set the rounding mode to \<open>FE_UPWARD\<close>. What the formulas are meant to compute is stated
  over a field.
\<close>

subsection \<open>Numbers\<close>

datatype fp64 = Fp64 (bits64: double)
datatype fp32 = Fp32 (bits32: cfloat)
datatype up64 = Up64 (bits_up: double)

instantiation fp64 :: "{zero, one, plus, minus, uminus, times, divide, abs}"
begin
definition zero_fp64 :: fp64 where "zero_fp64 = Fp64 0"
definition one_fp64 :: fp64 where "one_fp64 = Fp64 fp_one"
definition plus_fp64 :: "fp64 \<Rightarrow> fp64 \<Rightarrow> fp64" where "plus_fp64 a b = Fp64 (fp_add (bits64 a) (bits64 b))"
definition minus_fp64 :: "fp64 \<Rightarrow> fp64 \<Rightarrow> fp64" where "minus_fp64 a b = Fp64 (fp_sub (bits64 a) (bits64 b))"
definition uminus_fp64 :: "fp64 \<Rightarrow> fp64" where "uminus_fp64 a = Fp64 (fp_neg (bits64 a))"
definition times_fp64 :: "fp64 \<Rightarrow> fp64 \<Rightarrow> fp64" where "times_fp64 a b = Fp64 (fp_mul (bits64 a) (bits64 b))"
definition divide_fp64 :: "fp64 \<Rightarrow> fp64 \<Rightarrow> fp64" where "divide_fp64 a b = Fp64 (fp_div (bits64 a) (bits64 b))"
definition abs_fp64 :: "fp64 \<Rightarrow> fp64" where "abs_fp64 a = Fp64 (fp_abs (bits64 a))"
instance ..
end

instantiation fp32 :: "{zero, one, plus, minus, uminus, times, divide, abs}"
begin
definition zero_fp32 :: fp32 where "zero_fp32 = Fp32 0"
definition one_fp32 :: fp32 where "one_fp32 = Fp32 fp_one"
definition plus_fp32 :: "fp32 \<Rightarrow> fp32 \<Rightarrow> fp32" where "plus_fp32 a b = Fp32 (fp_add (bits32 a) (bits32 b))"
definition minus_fp32 :: "fp32 \<Rightarrow> fp32 \<Rightarrow> fp32" where "minus_fp32 a b = Fp32 (fp_sub (bits32 a) (bits32 b))"
definition uminus_fp32 :: "fp32 \<Rightarrow> fp32" where "uminus_fp32 a = Fp32 (fp_neg (bits32 a))"
definition times_fp32 :: "fp32 \<Rightarrow> fp32 \<Rightarrow> fp32" where "times_fp32 a b = Fp32 (fp_mul (bits32 a) (bits32 b))"
definition divide_fp32 :: "fp32 \<Rightarrow> fp32 \<Rightarrow> fp32" where "divide_fp32 a b = Fp32 (fp_div (bits32 a) (bits32 b))"
definition abs_fp32 :: "fp32 \<Rightarrow> fp32" where "abs_fp32 a = Fp32 (fp_abs (bits32 a))"
instance ..
end

instantiation up64 :: "{plus, minus, times}"
begin
definition plus_up64 :: "up64 \<Rightarrow> up64 \<Rightarrow> up64" where "plus_up64 a b = Up64 (fp_add_in Upward (bits_up a) (bits_up b))"
definition minus_up64 :: "up64 \<Rightarrow> up64 \<Rightarrow> up64" where "minus_up64 a b = Up64 (fp_sub_in Upward (bits_up a) (bits_up b))"
definition times_up64 :: "up64 \<Rightarrow> up64 \<Rightarrow> up64" where "times_up64 a b = Up64 (fp_mul_in Upward (bits_up a) (bits_up b))"
instance ..
end

lemmas fp64_ops = zero_fp64_def one_fp64_def plus_fp64_def minus_fp64_def uminus_fp64_def times_fp64_def divide_fp64_def abs_fp64_def
lemmas fp32_ops = zero_fp32_def one_fp32_def plus_fp32_def minus_fp32_def uminus_fp32_def times_fp32_def divide_fp32_def abs_fp32_def
lemmas up64_ops = plus_up64_def minus_up64_def times_up64_def

definition widen :: "fp32 \<Rightarrow> fp64" where "widen x = Fp64 (float_to_double (bits32 x))"
definition narrow :: "fp64 \<Rightarrow> fp32" where "narrow x = Fp32 (double_to_float (bits64 x))"

subsection \<open>Vectors\<close>

type_synonym 'a vec3 = "'a \<times> 'a \<times> 'a"

definition vec3_of_vector :: "'a::zero list \<Rightarrow> 'a vec3" where
  "vec3_of_vector v = (if 0 < length v then v ! 0 else 0, if 1 < length v then v ! 1 else 0, if 2 < length v then v ! 2 else 0)"

fun crossProduct :: "'a::{minus,times} vec3 \<Rightarrow> 'a vec3 \<Rightarrow> 'a vec3" where
  "crossProduct (x, y, z) (vx, vy, vz) = ((y * vz) - (z * vy), (z * vx) - (x * vz), (x * vy) - (y * vx))"

fun dotProduct :: "'a::{plus,times} vec3 \<Rightarrow> 'a vec3 \<Rightarrow> 'a" where
  "dotProduct (x, y, z) (vx, vy, vz) = x * vx + y * vy + z * vz"

fun norm2 :: "'a::{plus,times} vec3 \<Rightarrow> 'a" where
  "norm2 (x, y, z) = x * x + y * y + z * z"

text \<open>\<open>std::sqrt\<close> and the comparison with zero of the number type are arguments.\<close>

definition vec_norm :: "('a::{plus,times} \<Rightarrow> 'a) \<Rightarrow> 'a vec3 \<Rightarrow> 'a" where
  "vec_norm square_root v = square_root (norm2 v)"

fun normalized :: "('a::{plus,times,divide} \<Rightarrow> 'a) \<Rightarrow> ('a \<Rightarrow> bool) \<Rightarrow> 'a vec3 \<Rightarrow> 'a vec3" where
  "normalized square_root positive (x, y, z) =
     (let l = square_root (x * x + y * y + z * z) in if positive l then (x div l, y div l, z div l) else (x, y, z))"

fun vec_add :: "'a::plus vec3 \<Rightarrow> 'a vec3 \<Rightarrow> 'a vec3" where
  "vec_add (x, y, z) (ox, oy, oz) = (x + ox, y + oy, z + oz)"
fun vec_add_scalar :: "'a::plus vec3 \<Rightarrow> 'a \<Rightarrow> 'a vec3" where
  "vec_add_scalar (x, y, z) s = (x + s, y + s, z + s)"
fun vec_sub :: "'a::minus vec3 \<Rightarrow> 'a vec3 \<Rightarrow> 'a vec3" where
  "vec_sub (x, y, z) (ox, oy, oz) = (x - ox, y - oy, z - oz)"
fun vec_sub_scalar :: "'a::minus vec3 \<Rightarrow> 'a \<Rightarrow> 'a vec3" where
  "vec_sub_scalar (x, y, z) s = (x - s, y - s, z - s)"
fun vec_scale :: "'a::times vec3 \<Rightarrow> 'a \<Rightarrow> 'a vec3" where
  "vec_scale (x, y, z) s = (x * s, y * s, z * s)"
fun vec_mul :: "'a::times vec3 \<Rightarrow> 'a vec3 \<Rightarrow> 'a vec3" where
  "vec_mul (x, y, z) (ox, oy, oz) = (x * ox, y * oy, z * oz)"
fun vec_neg :: "'a::uminus vec3 \<Rightarrow> 'a vec3" where
  "vec_neg (x, y, z) = (- x, - y, - z)"
fun vec_div :: "'a::divide vec3 \<Rightarrow> 'a vec3 \<Rightarrow> 'a vec3" where
  "vec_div (x, y, z) (ox, oy, oz) = (x div ox, y div oy, z div oz)"

fun vec_div_scalar :: "('a::divide \<Rightarrow> bool) \<Rightarrow> 'a vec3 \<Rightarrow> 'a \<Rightarrow> 'a vec3 result" where
  "vec_div_scalar is_zero (x, y, z) s =
     (if is_zero s then Inl (InvalidArgument ''Division by zero'') else Inr (x div s, y div s, z div s))"

fun toStdVector :: "'a vec3 \<Rightarrow> 'a list" where
  "toStdVector (x, y, z) = [x, y, z]"

subsection \<open>Matrices\<close>

text \<open>Sixteen coefficients, row by row.\<close>

type_synonym 'a matrix = "'a list"

definition identity_matrix :: "'a::{zero,one} matrix" where
  "identity_matrix = (replicate 16 0) [0 := 1, 5 := 1, 10 := 1, 15 := 1]"

definition matrix_of_coefficients :: "('b \<Rightarrow> 'a::zero) \<Rightarrow> 'b list \<Rightarrow> bool \<Rightarrow> 'a matrix" where
  "matrix_of_coefficients cast coefficients rowMajor =
     foldl (\<lambda>data (i, j). data [(if rowMajor then i * 4 + j else i + j * 4) := cast (coefficients ! (4 * i + j))])
       (replicate 16 0) (List.product [0..<4] [0..<4])"

definition matrix_of_vector :: "('b \<Rightarrow> 'a::{zero,one}) \<Rightarrow> 'b list \<Rightarrow> 'a matrix" where
  "matrix_of_vector cast mat = foldl (\<lambda>data i. data [i := cast (mat ! i)]) identity_matrix [0..<min 16 (length mat)]"

fun store_cells :: "'a list \<Rightarrow> 'a matrix \<times> nat \<Rightarrow> ('a matrix \<times> nat) result" where
  "store_cells row (data, counter) =
     rfold (\<lambda>col (data, counter). if counter < 16 then Inr (data [counter := col], counter + 1) else Inl OutOfRange) row (data, counter)"

definition matrix_of_rows :: "'a::{zero,one} list list \<Rightarrow> 'a matrix result" where
  "matrix_of_rows mat = rbind (rfold store_cells mat (identity_matrix, 0)) (\<lambda>(data, counter). Inr data)"

definition determinant :: "'a::{plus,minus,uminus,times} matrix \<Rightarrow> 'a" where
  "determinant data =
     (let a1 = data ! 0; a2 = data ! 1; a3 = data ! 2; a4 = data ! 3; b1 = data ! 4; b2 = data ! 5; b3 = data ! 6; b4 = data ! 7; c1 = data ! 8; c2 = data ! 9; c3 = data ! 10; c4 = data ! 11; d1 = data ! 12; d2 = data ! 13; d3 = data ! 14; d4 = data ! 15;
          a1b2 = (a1 * b2) * (c3 * d4 - c4 * d3);
          a1b3 = (a1 * b3) * (c4 * d2 - c2 * d4);
          a1b4 = (a1 * b4) * (c2 * d3 - c3 * d2);
          a2b1 = (- (a2 * b1)) * (c3 * d4 - c4 * d3);
          a2b3 = (- (a2 * b3)) * (c4 * d1 - c1 * d4);
          a2b4 = (- (a2 * b4)) * (c1 * d3 - c3 * d1);
          a3b1 = (a3 * b1) * (c2 * d4 - c4 * d2);
          a3b2 = (a3 * b2) * (c4 * d1 - c1 * d4);
          a3b4 = (a3 * b4) * (c1 * d2 - c2 * d1);
          a4b1 = (- (a4 * b1)) * (c2 * d3 - c3 * d2);
          a4b2 = (- (a4 * b2)) * (c3 * d1 - c1 * d3);
          a4b3 = (- (a4 * b3)) * (c1 * d2 - c2 * d1)
      in a1b2 + a1b3 + a1b4
       + a2b1 + a2b3 + a2b4
       + a3b1 + a3b2 + a3b4
       + a4b1 + a4b2 + a4b3)"

definition matrix_equals :: "('a \<Rightarrow> 'a \<Rightarrow> bool) \<Rightarrow> 'a matrix \<Rightarrow> 'a matrix \<Rightarrow> bool" where
  "matrix_equals same data other = (\<forall>i \<in> set [0..<16]. same (data ! i) (other ! i))"

text \<open>With a determinant of zero the result is sixteen zeros, and a message in the log.\<close>

definition inverse_matrix :: "('a::{zero,one,plus,minus,uminus,times,divide} \<Rightarrow> bool) \<Rightarrow> 'a matrix \<Rightarrow> 'a matrix" where
  "inverse_matrix is_zero data =
     (let det = determinant data in
      if is_zero det then matrix_of_vector (\<lambda>x. x) (replicate 16 0)
      else let inv_det = 1 div det;
               a1 = data ! 0; a2 = data ! 1; a3 = data ! 2; a4 = data ! 3; b1 = data ! 4; b2 = data ! 5; b3 = data ! 6; b4 = data ! 7; c1 = data ! 8; c2 = data ! 9; c3 = data ! 10; c4 = data ! 11; d1 = data ! 12; d2 = data ! 13; d3 = data ! 14; d4 = data ! 15
           in matrix_of_vector (\<lambda>x. x) [
              inv_det * (b2 * (c3 * d4 - c4 * d3) + b3 * (c4 * d2 - c2 * d4) + b4 * (c2 * d3 - c3 * d2)),
              (- inv_det) * (a2 * (c3 * d4 - c4 * d3) + a3 * (c4 * d2 - c2 * d4) + a4 * (c2 * d3 - c3 * d2)),
              inv_det * (a2 * (b3 * d4 - b4 * d3) + a3 * (b4 * d2 - b2 * d4) + a4 * (b2 * d3 - b3 * d2)),
              (- inv_det) * (a2 * (b3 * c4 - b4 * c3) + a3 * (b4 * c2 - b2 * c4) + a4 * (b2 * c3 - b3 * c2)),
              (- inv_det) * (b1 * (c3 * d4 - c4 * d3) + b3 * (c4 * d1 - c1 * d4) + b4 * (c1 * d3 - c3 * d1)),
              inv_det * (a1 * (c3 * d4 - c4 * d3) + a3 * (c4 * d1 - c1 * d4) + a4 * (c1 * d3 - c3 * d1)),
              (- inv_det) * (a1 * (b3 * d4 - b4 * d3) + a3 * (b4 * d1 - b1 * d4) + a4 * (b1 * d3 - b3 * d1)),
              inv_det * (a1 * (b3 * c4 - b4 * c3) + a3 * (b4 * c1 - b1 * c4) + a4 * (b1 * c3 - b3 * c1)),
              inv_det * (b1 * (c2 * d4 - c4 * d2) + b2 * (c4 * d1 - c1 * d4) + b4 * (c1 * d2 - c2 * d1)),
              (- inv_det) * (a1 * (c2 * d4 - c4 * d2) + a2 * (c4 * d1 - c1 * d4) + a4 * (c1 * d2 - c2 * d1)),
              inv_det * (a1 * (b2 * d4 - b4 * d2) + a2 * (b4 * d1 - b1 * d4) + a4 * (b1 * d2 - b2 * d1)),
              (- inv_det) * (a1 * (b2 * c4 - b4 * c2) + a2 * (b4 * c1 - b1 * c4) + a4 * (b1 * c2 - b2 * c1)),
              (- inv_det) * (b1 * (c2 * d3 - c3 * d2) + b2 * (c3 * d1 - c1 * d3) + b3 * (c1 * d2 - c2 * d1)),
              inv_det * (a1 * (c2 * d3 - c3 * d2) + a2 * (c3 * d1 - c1 * d3) + a3 * (c1 * d2 - c2 * d1)),
              (- inv_det) * (a1 * (b2 * d3 - b3 * d2) + a2 * (b3 * d1 - b1 * d3) + a3 * (b1 * d2 - b2 * d1)),
              inv_det * (a1 * (b2 * c3 - b3 * c2) + a2 * (b3 * c1 - b1 * c3) + a3 * (b1 * c2 - b2 * c1))])"

definition transpose_matrix :: "'a::zero matrix \<Rightarrow> 'a matrix" where
  "transpose_matrix data = matrix_of_coefficients (\<lambda>x. x) data False"

definition rotation_part :: "'a::zero matrix \<Rightarrow> 'a matrix" where
  "rotation_part data = data [3 := 0, 7 := 0, 11 := 0, 12 := 0, 13 := 0, 14 := 0]"

definition translation_part :: "'a matrix \<Rightarrow> 'a vec3" where
  "translation_part data = (data ! 3, data ! 7, data ! 11)"

definition scale_part :: "('a::{plus,times} \<Rightarrow> 'a) \<Rightarrow> 'a matrix \<Rightarrow> 'a vec3" where
  "scale_part square_root data =
     (square_root (data ! 0 * data ! 0 + data ! 4 * data ! 4 + data ! 8 * data ! 8),
      square_root (data ! 1 * data ! 1 + data ! 5 * data ! 5 + data ! 9 * data ! 9),
      square_root (data ! 2 * data ! 2 + data ! 6 * data ! 6 + data ! 10 * data ! 10))"

text \<open>The cosine and the sine of the angle are arguments.\<close>

definition rotationX :: "'a::{zero,one,uminus} \<Rightarrow> 'a \<Rightarrow> 'a matrix" where
  "rotationX c s = identity_matrix [5 := c, 6 := - s, 9 := s, 10 := c]"
definition rotationY :: "'a::{zero,one,uminus} \<Rightarrow> 'a \<Rightarrow> 'a matrix" where
  "rotationY c s = identity_matrix [0 := c, 2 := s, 8 := - s, 10 := c]"
definition rotationZ :: "'a::{zero,one,uminus} \<Rightarrow> 'a \<Rightarrow> 'a matrix" where
  "rotationZ c s = identity_matrix [0 := c, 1 := - s, 4 := s, 5 := c]"

definition translate_matrix :: "'a::{zero,one} vec3 \<Rightarrow> 'a matrix" where
  "translate_matrix t = (case t of (x, y, z) \<Rightarrow> identity_matrix [3 := x, 7 := y, 11 := z])"

definition axis_rotation :: "'a::{zero,one,plus,minus,times} vec3 \<Rightarrow> 'a \<Rightarrow> 'a \<Rightarrow> 'a matrix" where
  "axis_rotation axis c s =
     (case axis of (x, y, z) \<Rightarrow>
        let t = 1 - c;
            m = identity_matrix [0 := c + x * x * t, 5 := c + y * y * t, 10 := c + z * z * t];
            j = x * y * t; k = z * s; m = m [4 := j + k, 1 := j - k];
            j = x * z * t; k = y * s; m = m [2 := j + k, 8 := j - k];
            j = y * z * t; k = x * s
        in m [9 := j + k, 6 := j - k, 15 := 1])"

definition scale_matrix :: "'a::{zero,one} vec3 \<Rightarrow> 'a matrix" where
  "scale_matrix s = (case s of (x, y, z) \<Rightarrow> identity_matrix [0 := x, 5 := y, 10 := z])"
definition uniform_scale_matrix :: "'a::{zero,one} \<Rightarrow> 'a matrix" where
  "uniform_scale_matrix s = identity_matrix [0 := s, 5 := s, 10 := s]"

fun transformDirection :: "'a::{plus,times} matrix \<Rightarrow> 'a vec3 \<Rightarrow> 'a vec3" where
  "transformDirection data (x, y, z) =
     (data ! 0 * x + data ! 1 * y + data ! 2 * z,
      data ! 4 * x + data ! 5 * y + data ! 6 * z,
      data ! 8 * x + data ! 9 * y + data ! 10 * z)"

text \<open>The first three rows of the product of a matrix and a point.\<close>

fun affine_image :: "'a::{plus,times} matrix \<Rightarrow> 'a vec3 \<Rightarrow> 'a vec3" where
  "affine_image mat (x, y, z) =
     (mat ! 0 * x + mat ! 1 * y + mat ! 2 * z + mat ! 3,
      mat ! 4 * x + mat ! 5 * y + mat ! 6 * z + mat ! 7,
      mat ! 8 * x + mat ! 9 * y + mat ! 10 * z + mat ! 11)"

definition matrix_mul :: "'a::{zero,plus,times} matrix \<Rightarrow> 'a matrix \<Rightarrow> 'a matrix" where
  "matrix_mul mat1 mat2 =
     map (\<lambda>(i, j). foldl (\<lambda>acc k. acc + mat1 ! (i * 4 + k) * mat2 ! (k * 4 + j)) 0 [0..<4]) (List.product [0..<4] [0..<4])"

subsection \<open>At double precision\<close>

abbreviation fp64_eq :: "fp64 \<Rightarrow> fp64 \<Rightarrow> bool" where "fp64_eq a b \<equiv> d_eq (bits64 a) (bits64 b)"
abbreviation fp64_lt :: "fp64 \<Rightarrow> fp64 \<Rightarrow> bool" where "fp64_lt a b \<equiv> d_lt (bits64 a) (bits64 b)"
abbreviation fp64_le :: "fp64 \<Rightarrow> fp64 \<Rightarrow> bool" where "fp64_le a b \<equiv> d_le (bits64 a) (bits64 b)"
abbreviation fp64_zero :: "fp64 \<Rightarrow> bool" where "fp64_zero a \<equiv> fp64_eq a 0"

text \<open>\<open>float sig = 1e-5\<close>, and the default \<open>eps = 10e-5\<close>.\<close>

definition sig :: fp64 where "sig = Fp64 (float_to_double 0x3727C5AC)"
definition default_eps :: fp32 where "default_eps = Fp32 0x38D1B717"

definition isIdentity :: "fp64 matrix \<Rightarrow> fp32 \<Rightarrow> bool" where
  "isIdentity data eps =
     (let threshold = \<bar>eps\<bar> in
      foldl (\<lambda>iden i. iden \<and>
          (if i mod 5 \<noteq> 0 then fp64_le \<bar>data ! i\<bar> (widen threshold)
           else fp64_le (data ! i) (widen (1 + threshold)) \<and> fp64_le (widen (1 - threshold)) (data ! i))) True [0..<16])"

definition last_row_has_values :: "fp64 matrix \<Rightarrow> bool" where
  "last_row_has_values mat \<longleftrightarrow>
     fp64_lt sig \<bar>mat ! 12\<bar> \<or> fp64_lt sig \<bar>mat ! 13\<bar> \<or> fp64_lt sig \<bar>mat ! 14\<bar> \<or> fp64_lt sig \<bar>mat ! 15 - 1\<bar>"

definition transform64 :: "fp64 matrix \<Rightarrow> fp64 vec3 \<Rightarrow> fp64 vec3 result" where
  "transform64 mat v = (if last_row_has_values mat then Inl ExitProcess else Inr (affine_image mat v))"

fun widen3 :: "fp32 vec3 \<Rightarrow> fp64 vec3" where "widen3 (x, y, z) = (widen x, widen y, widen z)"
fun narrow3 :: "fp64 vec3 \<Rightarrow> fp32 vec3" where "narrow3 (x, y, z) = (narrow x, narrow y, narrow z)"

definition transform32 :: "fp64 matrix \<Rightarrow> fp32 vec3 \<Rightarrow> fp32 vec3 result" where
  "transform32 mat v = (if last_row_has_values mat then Inl ExitProcess else Inr (narrow3 (affine_image mat (widen3 v))))"

text \<open>The product with a double is a double, and so are the sums.\<close>

definition transformDirection32 :: "fp64 matrix \<Rightarrow> fp32 vec3 \<Rightarrow> fp32 vec3" where
  "transformDirection32 data v = narrow3 (transformDirection data (widen3 v))"

subsection \<open>The inverse\<close>

lemma upt_0_4: "[0..<4] = [0, 1, 2, 3 :: nat]"
  by (simp add: upt_rec numeral_eq_Suc)

lemma upt_0_16: "[0..<16] = [0, 1, 2, 3, 4, 5, 6, 7, 8, 9, 10, 11, 12, 13, 14, 15 :: nat]"
  by (simp add: upt_rec numeral_eq_Suc)

lemma matrix_cases:
  assumes "length m = 16"
  obtains a1 a2 a3 a4 b1 b2 b3 b4 c1 c2 c3 c4 d1 d2 d3 d4 where "m = [a1, a2, a3, a4, b1, b2, b3, b4, c1, c2, c3, c4, d1, d2, d3, d4]"
  using assms by (auto simp: numeral_eq_Suc length_Suc_conv)

lemma identity_matrix_cells: "identity_matrix = [1, 0, 0, 0, 0, 1, 0, 0, 0, 0, 1, 0, 0, 0, 0, 1]"
  by (simp add: identity_matrix_def numeral_eq_Suc)

lemma matrix_of_vector_self: "length v = 16 \<Longrightarrow> matrix_of_vector (\<lambda>x. x) v = v"
  by (erule matrix_cases) (simp add: matrix_of_vector_def upt_0_16 identity_matrix_cells)

lemma matrix_mul_cells:
  "matrix_mul x y = map (\<lambda>(i, j). 0 + x ! (i * 4) * y ! j + x ! (i * 4 + 1) * y ! (4 + j) + x ! (i * 4 + 2) * y ! (8 + j) + x ! (i * 4 + 3) * y ! (12 + j))
     [(0, 0), (0, 1), (0, 2), (0, 3), (1, 0), (1, 1), (1, 2), (1, 3), (2, 0), (2, 1), (2, 2), (2, 3), (3, 0), (3, 1), (3, 2), (3, 3)]"
  by (simp add: matrix_mul_def upt_0_4)

lemma length_inverse_matrix: "length (inverse_matrix z m) = 16"
  by (simp add: inverse_matrix_def Let_def matrix_of_vector_self del: numeral_eq_Suc)

text \<open>The cells of the inverse, with \<open>i\<close> for the reciprocal of the determinant.\<close>

definition scaled_cofactors :: "'a::{plus,minus,uminus,times} \<Rightarrow> 'a list \<Rightarrow> 'a list" where
  "scaled_cofactors i data =
     (case data of [a1, a2, a3, a4, b1, b2, b3, b4, c1, c2, c3, c4, d1, d2, d3, d4] \<Rightarrow> [
       i * (b2 * (c3 * d4 - c4 * d3) + b3 * (c4 * d2 - c2 * d4) + b4 * (c2 * d3 - c3 * d2)),
       (- i) * (a2 * (c3 * d4 - c4 * d3) + a3 * (c4 * d2 - c2 * d4) + a4 * (c2 * d3 - c3 * d2)),
       i * (a2 * (b3 * d4 - b4 * d3) + a3 * (b4 * d2 - b2 * d4) + a4 * (b2 * d3 - b3 * d2)),
       (- i) * (a2 * (b3 * c4 - b4 * c3) + a3 * (b4 * c2 - b2 * c4) + a4 * (b2 * c3 - b3 * c2)),
       (- i) * (b1 * (c3 * d4 - c4 * d3) + b3 * (c4 * d1 - c1 * d4) + b4 * (c1 * d3 - c3 * d1)),
       i * (a1 * (c3 * d4 - c4 * d3) + a3 * (c4 * d1 - c1 * d4) + a4 * (c1 * d3 - c3 * d1)),
       (- i) * (a1 * (b3 * d4 - b4 * d3) + a3 * (b4 * d1 - b1 * d4) + a4 * (b1 * d3 - b3 * d1)),
       i * (a1 * (b3 * c4 - b4 * c3) + a3 * (b4 * c1 - b1 * c4) + a4 * (b1 * c3 - b3 * c1)),
       i * (b1 * (c2 * d4 - c4 * d2) + b2 * (c4 * d1 - c1 * d4) + b4 * (c1 * d2 - c2 * d1)),
       (- i) * (a1 * (c2 * d4 - c4 * d2) + a2 * (c4 * d1 - c1 * d4) + a4 * (c1 * d2 - c2 * d1)),
       i * (a1 * (b2 * d4 - b4 * d2) + a2 * (b4 * d1 - b1 * d4) + a4 * (b1 * d2 - b2 * d1)),
       (- i) * (a1 * (b2 * c4 - b4 * c2) + a2 * (b4 * c1 - b1 * c4) + a4 * (b1 * c2 - b2 * c1)),
       (- i) * (b1 * (c2 * d3 - c3 * d2) + b2 * (c3 * d1 - c1 * d3) + b3 * (c1 * d2 - c2 * d1)),
       i * (a1 * (c2 * d3 - c3 * d2) + a2 * (c3 * d1 - c1 * d3) + a3 * (c1 * d2 - c2 * d1)),
       (- i) * (a1 * (b2 * d3 - b3 * d2) + a2 * (b3 * d1 - b1 * d3) + a3 * (b1 * d2 - b2 * d1)),
       i * (a1 * (b2 * c3 - b3 * c2) + a2 * (b3 * c1 - b1 * c3) + a3 * (b1 * c2 - b2 * c1))])"

lemma inverse_matrix_cells:
  fixes m :: "'a::field list"
  assumes "length m = 16" and "determinant m \<noteq> 0"
  shows "inverse_matrix (\<lambda>x. x = 0) m = scaled_cofactors (1 / determinant m) m"
  using assms by (elim matrix_cases) (simp add: inverse_matrix_def scaled_cofactors_def Let_def matrix_of_vector_self)

lemmas cofactor_cells = scaled_cofactors_def determinant_def matrix_mul_cells identity_matrix_cells Let_def

lemma times_cofactors:
  fixes m :: "'a::field list"
  assumes "length m = 16"
  shows "matrix_mul m (scaled_cofactors i m) = map ((*) (determinant m * i)) identity_matrix"
  using assms by (elim matrix_cases) (simp add: cofactor_cells, (intro conjI; simp add: algebra_simps))

lemma cofactors_times:
  fixes m :: "'a::field list"
  assumes "length m = 16"
  shows "matrix_mul (scaled_cofactors i m) m = map ((*) (determinant m * i)) identity_matrix"
  using assms by (elim matrix_cases) (simp add: cofactor_cells, (intro conjI; simp add: algebra_simps))

text \<open>
  C34: over a field the inverse is a two-sided inverse whenever the determinant is not zero; otherwise the result is the zero matrix.
\<close>

theorem matrix_inverse_correct:
  fixes m :: "'a::field list"
  assumes "length m = 16"
  shows "if determinant m = 0 then inverse_matrix (\<lambda>x. x = 0) m = replicate 16 0
         else matrix_mul m (inverse_matrix (\<lambda>x. x = 0) m) = identity_matrix
            \<and> matrix_mul (inverse_matrix (\<lambda>x. x = 0) m) m = identity_matrix"
proof (cases "determinant m = 0")
  case True
  then show ?thesis by (simp add: inverse_matrix_def matrix_of_vector_self)
next
  case False
  then show ?thesis using assms
    by (simp add: inverse_matrix_cells times_cofactors cofactors_times identity_matrix_cells)
qed

theorem matrix_inverse_correct_witness:
  "let m = [2, 1, 0, 5, 0, 3, 0, 6, 1, 0, 4, 7, 0, 0, 0, 1 :: rat] in
     matrix_mul m (inverse_matrix (\<lambda>x. x = 0) m) = identity_matrix \<and> matrix_mul (inverse_matrix (\<lambda>x. x = 0) m) m = identity_matrix"
  using matrix_inverse_correct [of "[2, 1, 0, 5, 0, 3, 0, 6, 1, 0, 4, 7, 0, 0, 0, 1 :: rat]"]
  by (simp add: determinant_def Let_def)

subsection \<open>Composition and rotation\<close>

definition affine_matrix :: "'a::{zero,one} matrix \<Rightarrow> bool" where
  "affine_matrix m \<longleftrightarrow> length m = 16 \<and> drop 12 m = [0, 0, 0, 1]"

lemma affine_cases:
  assumes "affine_matrix m"
  obtains a1 a2 a3 a4 b1 b2 b3 b4 c1 c2 c3 c4 where "m = [a1, a2, a3, a4, b1, b2, b3, b4, c1, c2, c3, c4, 0, 0, 0, 1]"
  using assms by (auto simp: affine_matrix_def elim!: matrix_cases)

lemma product_of_matrices_composes:
  fixes a b :: "'a::field matrix"
  assumes "length a = 16" and "affine_matrix b"
  shows "affine_image (matrix_mul a b) v = affine_image a (affine_image b v)"
  using assms by (cases v; elim matrix_cases affine_cases) (simp add: matrix_mul_cells, (intro conjI; simp add: algebra_simps))

lemma rotations_about_axes:
  fixes c s :: "'a::field"
  shows "rotationX c s = axis_rotation (1, 0, 0) c s" "rotationY c s = axis_rotation (0, 1, 0) c s"
    "rotationZ c s = axis_rotation (0, 0, 1) c s"
  by (simp_all add: rotationX_def rotationY_def rotationZ_def axis_rotation_def identity_matrix_cells Let_def)

lemma axis_rotation_cells:
  "axis_rotation (x, y, z) c s =
     (let t = 1 - c in [c + x * x * t, x * y * t - z * s, x * z * t + y * s, 0, x * y * t + z * s, c + y * y * t, y * z * t - x * s, 0,
       x * z * t - y * s, y * z * t + x * s, c + z * z * t, 0, 0, 0, 0, 1])"
  by (simp add: axis_rotation_def identity_matrix_cells Let_def)

text \<open>
  A rotation about a unit axis, by an angle with cosine \<open>c\<close> and sine \<open>s\<close>, fixes the axis, keeps lengths and has determinant one; the
  rotations about the coordinate axes are instances of it, and products of matrices compose.
\<close>

theorem axis_rotation_rigid:
  fixes c s :: "'a::field"
  assumes "norm2 axis = 1" and "c * c + s * s = 1"
  shows "affine_image (axis_rotation axis c s) axis = axis
    \<and> norm2 (affine_image (axis_rotation axis c s) v) = norm2 v
    \<and> determinant (axis_rotation axis c s) = 1
    \<and> rotationX c s = axis_rotation (1, 0, 0) c s \<and> rotationY c s = axis_rotation (0, 1, 0) c s \<and> rotationZ c s = axis_rotation (0, 0, 1) c s
    \<and> affine_image (matrix_mul (axis_rotation axis c s) (axis_rotation axis c (- s))) v = v"
proof (intro conjI)
  obtain x y z where a: "axis = (x, y, z)" by (cases axis)
  obtain vx vy vz where v: "v = (vx, vy, vz)" by (cases v)
  have n: "x * x + y * y + z * z = 1" using assms(1) by (simp add: a)
  show "affine_image (axis_rotation axis c s) axis = axis"
    using n by (simp add: a axis_rotation_cells Let_def) (intro conjI; algebra)
  show "norm2 (affine_image (axis_rotation axis c s) v) = norm2 v"
    using n assms(2) by (simp add: a v axis_rotation_cells Let_def) algebra
  show "determinant (axis_rotation axis c s) = 1"
    using n assms(2) by (simp add: a axis_rotation_cells Let_def determinant_def) algebra
  have "affine_image (matrix_mul (axis_rotation axis c s) (axis_rotation axis c (- s))) v
      = affine_image (axis_rotation axis c s) (affine_image (axis_rotation axis c (- s)) v)"
    by (rule product_of_matrices_composes) (simp_all add: a axis_rotation_cells affine_matrix_def Let_def)
  also have "\<dots> = v"
    using n assms(2) by (simp add: a v axis_rotation_cells Let_def) (intro conjI; algebra)
  finally show "affine_image (matrix_mul (axis_rotation axis c s) (axis_rotation axis c (- s))) v = v" .
qed (rule rotations_about_axes)+

theorem axis_rotation_rigid_witness:
  "norm2 (affine_image (axis_rotation (2 / 3, 1 / 3, 2 / 3) (3 / 5) (4 / 5)) (1, 2, 3 :: rat)) = 14"
  using axis_rotation_rigid [of "(2 / 3, 1 / 3, 2 / 3)" "3 / 5 :: rat" "4 / 5" "(1, 2, 3)"] by simp

subsection \<open>Triangles, lines and ranges\<close>

text \<open>\<open>repo_triangle.h\<close>, \<open>repo_line.h\<close> and \<open>repo_range.h\<close>.\<close>

record 'a triangle =
  tri_a :: "'a vec3"
  tri_b :: "'a vec3"
  tri_c :: "'a vec3"

definition triangle_add :: "'a::plus triangle \<Rightarrow> 'a vec3 \<Rightarrow> 'a triangle" where
  "triangle_add t v = \<lparr>tri_a = vec_add (tri_a t) v, tri_b = vec_add (tri_b t) v, tri_c = vec_add (tri_c t) v\<rparr>"

definition triangle_normal :: "('a::{plus,minus,times,divide} \<Rightarrow> 'a) \<Rightarrow> ('a \<Rightarrow> bool) \<Rightarrow> 'a triangle \<Rightarrow> 'a vec3" where
  "triangle_normal square_root positive t =
     normalized square_root positive (crossProduct (vec_sub (tri_b t) (tri_a t)) (vec_sub (tri_c t) (tri_a t)))"

definition triangle_at :: "'a triangle \<Rightarrow> nat \<Rightarrow> 'a vec3" where
  "triangle_at t i = [tri_a t, tri_b t, tri_c t] ! (i mod 3)"

definition transform_triangle :: "fp64 matrix \<Rightarrow> fp64 triangle \<Rightarrow> fp64 triangle result" where
  "transform_triangle m t =
     rbind (transform64 m (tri_a t)) (\<lambda>a. rbind (transform64 m (tri_b t)) (\<lambda>b. rbind (transform64 m (tri_c t)) (\<lambda>c.
       Inr \<lparr>tri_a = a, tri_b = b, tri_c = c\<rparr>)))"

record 'a line =
  line_start :: "'a vec3"
  line_end :: "'a vec3"

definition line_d :: "'a::minus line \<Rightarrow> 'a vec3" where
  "line_d l = vec_sub (line_end l) (line_start l)"
definition line_magnitude :: "('a::{plus,minus,times} \<Rightarrow> 'a) \<Rightarrow> 'a line \<Rightarrow> 'a" where
  "line_magnitude square_root l = vec_norm square_root (line_d l)"
definition line_magnitude2 :: "'a::{plus,minus,times} line \<Rightarrow> 'a" where
  "line_magnitude2 l = norm2 (line_d l)"
definition line_center :: "'a::{plus,times} \<Rightarrow> 'a line \<Rightarrow> 'a vec3" where
  "line_center one_half l = vec_scale (vec_add (line_end l) (line_start l)) one_half"
definition line_swap :: "'a line \<Rightarrow> 'a line" where
  "line_swap l = \<lparr>line_start = line_end l, line_end = line_start l\<rparr>"
definition line_Max :: "fp64 line" where
  "line_Max = \<lparr>line_start = (Fp64 minus_DBL_MAX, Fp64 minus_DBL_MAX, Fp64 minus_DBL_MAX), line_end = (Fp64 DBL_MAX, Fp64 DBL_MAX, Fp64 DBL_MAX)\<rparr>"

text \<open>The product and the sum of a range and a number go through the constructor that takes a list of positions.\<close>

type_synonym 'a srange = "'a \<times> 'a"

definition range_of :: "('a \<Rightarrow> 'a \<Rightarrow> bool) \<Rightarrow> 'a \<Rightarrow> 'a \<Rightarrow> 'a srange" where
  "range_of lt mn mx = (if lt mx mn then (mx, mn) else (mn, mx))"

definition range_of_points :: "('a::zero \<Rightarrow> 'a \<Rightarrow> bool) \<Rightarrow> 'a list \<Rightarrow> 'a srange" where
  "range_of_points lt ps =
     (if ps = [] then (0, 0)
      else foldl (\<lambda>(x, y) p. (if lt p x then p else x, if lt y p then p else y)) (hd ps, hd ps) ps)"

definition range_scale :: "('a::{zero,times} \<Rightarrow> 'a \<Rightarrow> bool) \<Rightarrow> 'a srange \<Rightarrow> 'a \<Rightarrow> 'a srange" where
  "range_scale lt r s = range_of_points lt [fst r * s, snd r * s]"
definition range_offset :: "('a::{zero,plus} \<Rightarrow> 'a \<Rightarrow> bool) \<Rightarrow> 'a srange \<Rightarrow> 'a \<Rightarrow> 'a srange" where
  "range_offset lt r s = range_of_points lt [fst r + s, snd r + s]"
definition range_length :: "'a::minus srange \<Rightarrow> 'a" where "range_length r = snd r - fst r"
definition range_contains :: "('a \<Rightarrow> 'a \<Rightarrow> bool) \<Rightarrow> 'a srange \<Rightarrow> 'a \<Rightarrow> bool" where
  "range_contains le r v \<longleftrightarrow> le (fst r) v \<and> le v (snd r)"
definition range_overlaps :: "('a \<Rightarrow> 'a \<Rightarrow> bool) \<Rightarrow> 'a srange \<Rightarrow> 'a srange \<Rightarrow> bool" where
  "range_overlaps le r s \<longleftrightarrow> le (fst r) (snd s) \<and> le (fst s) (snd r)"

lemma range_of_points_fold:
  fixes x y :: "'a::linorder"
  assumes "x \<le> y" and "foldl (\<lambda>(x, y) p. (if p < x then p else x, if y < p then p else y)) (x, y) ps = (lo, hi)"
  shows "lo \<le> x \<and> y \<le> hi \<and> (\<forall>p \<in> set ps. lo \<le> p \<and> p \<le> hi) \<and> lo \<in> insert x (set ps) \<and> hi \<in> insert y (set ps)"
  using assms
proof (induction ps arbitrary: x y)
  case (Cons p ps)
  let ?x = "if p < x then p else x" and ?y = "if y < p then p else y"
  have "?x \<le> ?y" "foldl (\<lambda>(x, y) p. (if p < x then p else x, if y < p then p else y)) (?x, ?y) ps = (lo, hi)"
    using Cons.prems by auto
  from Cons.IH [OF this] show ?case using Cons.prems(1) by (auto split: if_splits)
qed simp

text \<open>Over a linear order two ranges overlap exactly when some value is in both, and the range of a list is the smallest that has all of it.\<close>

lemma ranges_overlap_iff:
  fixes r s :: "'a::linorder srange"
  assumes "fst r \<le> snd r" and "fst s \<le> snd s"
  shows "range_overlaps (\<le>) r s \<longleftrightarrow> (\<exists>v. range_contains (\<le>) r v \<and> range_contains (\<le>) s v)"
proof
  assume "range_overlaps (\<le>) r s"
  then have "range_contains (\<le>) r (max (fst r) (fst s)) \<and> range_contains (\<le>) s (max (fst r) (fst s))"
    using assms by (auto simp: range_overlaps_def range_contains_def max_def)
  then show "\<exists>v. range_contains (\<le>) r v \<and> range_contains (\<le>) s v" ..
qed (auto simp: range_overlaps_def range_contains_def)

lemma range_of_points_contains:
  fixes ps :: "'a::{zero,linorder} list"
  assumes "p \<in> set ps"
  shows "range_contains (\<le>) (range_of_points (<) ps) p"
proof (cases "foldl (\<lambda>(x, y) p. (if p < x then p else x, if y < p then p else y)) (hd ps, hd ps) ps")
  case (Pair lo hi)
  from range_of_points_fold [OF order_refl this] show ?thesis using assms Pair by (auto simp: range_of_points_def range_contains_def)
qed

text \<open>A vector divided by its length has length one.\<close>

lemma normalized_has_length_one:
  fixes v :: "real vec3"
  shows "if v = (0, 0, 0) then normalized sqrt (\<lambda>l. 0 < l) v = v else norm2 (normalized sqrt (\<lambda>l. 0 < l) v) = 1"
proof -
  obtain x y z where v: "v = (x, y, z)" by (cases v)
  define n where "n = x * x + y * y + z * z"
  have "n = 0 \<longleftrightarrow> x = 0 \<and> y = 0 \<and> z = 0" "0 \<le> n"
    unfolding n_def by (smt (verit) mult_eq_0_iff zero_le_square)+
  moreover have "x * x / n + y * y / n + z * z / n = 1" if "0 < n"
    using that by (simp add: n_def add_divide_distrib [symmetric])
  ultimately show ?thesis by (auto simp: v n_def [symmetric] Let_def)
qed

end
