(* ===== verification/FloatMono.thy ===== *)
theory FloatMono
  imports FloatArith
begin

text \<open>
  Rounding is monotone, so sums and products of IEEE numbers are: the facts behind every argument that an interval or a box
  keeps what was in it. A finite number is an integer multiple of the smallest subnormal, its \<open>units\<close>.
\<close>

subsection \<open>Rounding\<close>

lemma rounds_away_mono: "r \<le> r' \<Longrightarrow> 0 \<le> r \<Longrightarrow> rounds_away rm s n d r \<Longrightarrow> rounds_away rm s n d r'"
  by (cases rm) auto

lemma round_int_mono:
  assumes "0 \<le> m" and "m \<le> n"
  shows "round_int rm s m e q \<le> round_int rm s n e q"
proof (cases "q \<le> e")
  case True
  then show ?thesis using assms by (simp add: round_int_def mult_right_mono)
next
  case False
  define d where "d = (2 :: int) ^ nat (q - e)"
  have d: "0 < d" by (simp add: d_def)
  have div: "m div d \<le> n div d" using assms(2) d by (rule zdiv_mono1)
  show ?thesis
  proof (cases "m div d = n div d")
    case True
    then have "m mod d \<le> n mod d" using assms(2) by (simp add: minus_div_mult_eq_mod [symmetric])
    then show ?thesis using False True d rounds_away_mono [of "m mod d" "n mod d"]
      by (auto simp: round_int_def d_def [symmetric] Let_def)
  next
    case F: False
    then show ?thesis using False div by (auto simp: round_int_def d_def [symmetric] Let_def)
  qed
qed

lemma round_int_nonneg: "0 \<le> m \<Longrightarrow> 0 \<le> round_int rm s m e q"
  using round_int_mono [of 0 m rm s e q] by (cases rm) (auto simp: round_int_def)

lemma int_len_ex:
  assumes "0 < n"
  shows "\<exists>k. int_len n = int (Suc k) \<and> 2 ^ k \<le> n \<and> n < 2 ^ Suc k"
proof -
  have "1 \<le> nat n" using assms by simp
  from ex_power_ivl1 [OF order_refl this] obtain k where k: "2 ^ k \<le> nat n" "nat n < 2 ^ (k + 1)" by blast
  from k have "int (2 ^ k) \<le> n" "n < int (2 ^ (k + 1))" using assms by linarith+
  then have "2 ^ k \<le> n" "n < 2 ^ Suc k" by simp_all
  then show ?thesis using int_len_unique by blast
qed

lemma int_len_mono:
  assumes "0 < m" and "m \<le> n"
  shows "int_len m \<le> int_len n"
proof -
  from int_len_ex [of n] assms obtain k where "int_len n = int (Suc k)" "n < 2 ^ Suc k" by fastforce
  then show ?thesis using int_len_bound [of m "Suc k"] assms by simp
qed

lemma int_div_less: "0 < d \<Longrightarrow> (m :: int) < c * d \<Longrightarrow> m div d < c"
proof (rule ccontr)
  assume "0 < d" "m < c * d" "\<not> m div d < c"
  then have "c * d \<le> m div d * d" by (intro mult_right_mono) simp_all
  also have "\<dots> \<le> m" using div_mult_mod_eq [of m d] pos_mod_sign [OF \<open>0 < d\<close>, of m] by linarith
  finally show False using \<open>m < c * d\<close> by simp
qed

lemma int_le_div: "0 < d \<Longrightarrow> c * d \<le> (m :: int) \<Longrightarrow> c \<le> m div d"
  using zdiv_mono1 [of "c * d" m d] by simp

text \<open>The magnitude before it is cut off at infinity.\<close>

definition enc_raw :: "rounding \<Rightarrow> bool \<Rightarrow> nat \<Rightarrow> int \<Rightarrow> int \<Rightarrow> int" where
  "enc_raw rm s l m e =
     (let q = max (e + int_len m - int (frac_bits l) - 1) (min_exp l)
      in (q - min_exp l) * 2 ^ frac_bits l + round_int rm s m e q)"

lemma round_int_upper:
  assumes "0 < m" and "e + int_len m - int p - 1 \<le> q"
  shows "round_int rm s m e q \<le> 2 ^ Suc p"
proof -
  obtain k where k: "int_len m = int (Suc k)" "m < 2 ^ Suc k" using int_len_ex [OF assms(1)] by blast
  show ?thesis
  proof (cases "q \<le> e")
    case True
    then have "m * 2 ^ nat (e - q) \<le> 2 ^ Suc k * 2 ^ nat (e - q)" using k(2) by (intro mult_right_mono) simp_all
    also have "\<dots> = 2 ^ (Suc k + nat (e - q))" by (simp add: power_add)
    also have "\<dots> \<le> (2 :: int) ^ Suc p" using assms(2) k(1) True by (intro power_increasing) linarith+
    finally show ?thesis using True by (simp add: round_int_def)
  next
    case False
    define d where "d = (2 :: int) ^ nat (q - e)"
    have d: "0 < d" by (simp add: d_def)
    have "m < 2 ^ Suc p * d"
    proof -
      have "(2 :: int) ^ Suc k \<le> 2 ^ (Suc p + nat (q - e))" using assms(2) k(1) False by (intro power_increasing) linarith+
      then show ?thesis using k(2) by (simp add: d_def power_add)
    qed
    then have "m div d < 2 ^ Suc p" using int_div_less [OF d] by blast
    then show ?thesis using False by (auto simp: round_int_def d_def [symmetric] Let_def)
  qed
qed

lemma round_int_lower:
  assumes "0 < m" and "q = e + int_len m - int p - 1"
  shows "2 ^ p \<le> round_int rm s m e q"
proof -
  obtain k where k: "int_len m = int (Suc k)" "2 ^ k \<le> m" using int_len_ex [OF assms(1)] by blast
  show ?thesis
  proof (cases "q \<le> e")
    case True
    have "(2 :: int) ^ p = 2 ^ k * 2 ^ nat (e - q)"
      unfolding power_add [symmetric] using True assms(2) k(1) by (intro arg_cong2 [where f = power]) linarith+
    also have "\<dots> \<le> m * 2 ^ nat (e - q)" using k(2) by (intro mult_right_mono) simp_all
    finally show ?thesis using True by (simp add: round_int_def)
  next
    case False
    define d where "d = (2 :: int) ^ nat (q - e)"
    have d: "0 < d" by (simp add: d_def)
    have "2 ^ p * d = 2 ^ k"
      unfolding d_def power_add [symmetric] using False assms(2) k(1) by (intro arg_cong2 [where f = power]) linarith+
    then have "2 ^ p \<le> m div d" using int_le_div [OF d] k(2) by simp
    then show ?thesis using False by (auto simp: round_int_def d_def [symmetric] Let_def)
  qed
qed

lemma enc_raw_mono:
  assumes "0 < m" and "m \<le> n"
  shows "enc_raw rm s l m e \<le> enc_raw rm s l n e"
proof -
  define p where "p = frac_bits l"
  define qm where "qm = max (e + int_len m - int p - 1) (min_exp l)"
  define qn where "qn = max (e + int_len n - int p - 1) (min_exp l)"
  have le: "qm \<le> qn" using int_len_mono [OF assms] by (auto simp: qm_def qn_def)
  have R: "enc_raw rm s l m e = (qm - min_exp l) * 2 ^ p + round_int rm s m e qm"
    "enc_raw rm s l n e = (qn - min_exp l) * 2 ^ p + round_int rm s n e qn"
    by (simp_all add: enc_raw_def p_def qm_def qn_def Let_def)
  show ?thesis
  proof (cases "qm = qn")
    case True
    then show ?thesis using round_int_mono [of m n] assms by (simp add: R)
  next
    case False
    then have lt: "qm + 1 \<le> qn" using le by simp
    then have qn: "qn = e + int_len n - int p - 1" by (auto simp: qm_def qn_def max_def split: if_splits)
    have "round_int rm s m e qm \<le> 2 * 2 ^ p" using round_int_upper [of m e p qm] assms(1) by (simp add: qm_def)
    moreover have "2 ^ p \<le> round_int rm s n e qn" using round_int_lower [OF _ qn] assms by simp
    moreover have "(qm + 1 - min_exp l) * 2 ^ p \<le> (qn - min_exp l) * 2 ^ p" using lt by (intro mult_right_mono) simp_all
    ultimately show ?thesis by (simp add: R algebra_simps)
  qed
qed

lemma enc_raw_nonneg: "0 \<le> m \<Longrightarrow> 0 \<le> enc_raw rm s l m e"
  by (simp add: enc_raw_def Let_def round_int_nonneg)

lemma fp_encode_raw: "fp_encode rm s l m e = (if m = 0 then 0 else min (enc_raw rm s l m e) (if rm = Upward \<and> s then inf_mag l - 1 else inf_mag l))"
  by (simp add: fp_encode_def enc_raw_def Let_def)

lemma fp_encode_nonneg: "0 \<le> m \<Longrightarrow> 0 \<le> fp_encode rm s l m e"
  using enc_raw_nonneg [of m rm s l e] by (simp add: fp_encode_raw inf_mag_def)

lemma fp_encode_mono: "0 \<le> m \<Longrightarrow> m \<le> n \<Longrightarrow> fp_encode rm s l m e \<le> fp_encode rm s l n e"
  using enc_raw_mono [of m n rm s l e] fp_encode_nonneg [of n rm s l e] by (auto simp: fp_encode_raw)

lemma fp_encode_le_inf: "fp_encode rm s l m e \<le> inf_mag l"
  by (auto simp: fp_encode_raw inf_mag_def)

subsection \<open>Units\<close>

definition mag_units :: "nat \<Rightarrow> int \<Rightarrow> int" where
  "mag_units l w = (case fp_decode l w of (m, e) \<Rightarrow> m * 2 ^ nat (e - min_exp l))"

definition fp_units :: "'a::len word \<Rightarrow> int" where
  "fp_units x = signed_by (fp_sign x) (mag_units LENGTH('a) (mag x))"

lemma mag_units_split:
  "mag_units l w = (let f = w div 2 ^ frac_bits l; r = w mod 2 ^ frac_bits l
     in if f = 0 then r else (r + 2 ^ frac_bits l) * 2 ^ nat (f - 1))"
proof (cases "w div 2 ^ frac_bits l = 0")
  case True
  then have "w mod 2 ^ frac_bits l = w" using div_mult_mod_eq [of w "2 ^ frac_bits l"] by simp
  then show ?thesis using True by (simp add: mag_units_def fp_decode_def)
qed (simp add: mag_units_def fp_decode_def Let_def)

lemma mag_units_nonneg: "0 \<le> mag_units l w"
  by (simp add: mag_units_split Let_def)

lemma mag_units_mono:
  assumes "0 \<le> v" and "v \<le> w"
  shows "mag_units l v \<le> mag_units l w"
proof -
  define d where "d = (2 :: int) ^ frac_bits l"
  have d: "0 < d" by (simp add: d_def)
  define f g where "f = v div d" and "g = w div d"
  have fg: "0 \<le> f" "f \<le> g" using assms d by (simp_all add: f_def g_def pos_imp_zdiv_nonneg_iff zdiv_mono1)
  have r: "0 \<le> v mod d" "v mod d < d" "0 \<le> w mod d" using d by simp_all
  have V: "mag_units l v = (if f = 0 then v mod d else (v mod d + d) * 2 ^ nat (f - 1))"
    and W: "mag_units l w = (if g = 0 then w mod d else (w mod d + d) * 2 ^ nat (g - 1))"
    by (simp_all add: mag_units_split d_def f_def g_def Let_def)
  show ?thesis
  proof (cases "f = g")
    case True
    then have "v mod d \<le> w mod d" using assms(2) by (simp add: minus_div_mult_eq_mod [symmetric] f_def g_def)
    then show ?thesis using True by (simp add: V W)
  next
    case False
    then have g: "0 < g" using fg by simp
    have "mag_units l v \<le> d * 2 ^ nat f"
    proof (cases "f = 0")
      case f: False
      have "(v mod d + d) * 2 ^ nat (f - 1) \<le> (2 * d) * 2 ^ nat (f - 1)" using r by (intro mult_right_mono) simp_all
      also have "\<dots> = d * 2 ^ Suc (nat (f - 1))" by simp
      also have "Suc (nat (f - 1)) = nat f" using f fg by linarith
      finally show ?thesis using f by (simp add: V)
    qed (use r V in simp)
    also have "\<dots> \<le> d * 2 ^ nat (g - 1)" using d False fg by (intro mult_left_mono power_increasing) linarith+
    also have "\<dots> \<le> (w mod d + d) * 2 ^ nat (g - 1)" using r by (intro mult_right_mono) simp_all
    finally show ?thesis using g by (simp add: W)
  qed
qed

lemma fkey_sign: "fkey x = signed_by (fp_sign x) (mag x)"
  by (simp add: fkey_def fp_sign_def signed_by_def)

lemma fp_units_mono:
  fixes x y :: "'a::len word"
  shows "fkey x \<le> fkey y \<Longrightarrow> fp_units x \<le> fp_units y"
proof -
  assume le: "fkey x \<le> fkey y"
  note b = mag_bound(1) [of x] mag_bound(1) [of y] mag_units_nonneg [of "LENGTH('a)" "mag x"] mag_units_nonneg [of "LENGTH('a)" "mag y"]
  have z: "mag_units LENGTH('a) 0 = 0" by (simp add: mag_units_split)
  show ?thesis
  proof (cases "fp_sign x"; cases "fp_sign y")
    assume "fp_sign x" "fp_sign y"
    then show ?thesis using le mag_units_mono [of "mag y" "mag x"] b by (simp add: fkey_sign fp_units_def signed_by_def)
  next
    assume "\<not> fp_sign x" "fp_sign y"
    then have "mag x = 0" "mag y = 0" using le b by (simp_all add: fkey_sign signed_by_def)
    then show ?thesis by (simp add: fp_units_def signed_by_def z)
  next
    assume "\<not> fp_sign x" "\<not> fp_sign y"
    then show ?thesis using le mag_units_mono [of "mag x" "mag y"] b by (simp add: fkey_sign fp_units_def signed_by_def)
  next
    assume "fp_sign x" "\<not> fp_sign y"
    then show ?thesis using b by (simp add: fp_units_def signed_by_def)
  qed
qed

subsection \<open>Results\<close>

text \<open>The key of the number an exact result is rounded to.\<close>

definition rounded_key :: "rounding \<Rightarrow> nat \<Rightarrow> int \<Rightarrow> int \<Rightarrow> int" where
  "rounded_key rm l n e = signed_by (n < 0) (fp_encode rm (n < 0) l \<bar>n\<bar> e)"

lemma rounded_key_mono: "n \<le> n' \<Longrightarrow> rounded_key rm l n e \<le> rounded_key rm l n' e"
proof -
  assume le: "n \<le> n'"
  note nn = fp_encode_nonneg [of "\<bar>n\<bar>" rm "n < 0" l e] fp_encode_nonneg [of "\<bar>n'\<bar>" rm "n' < 0" l e]
  consider "n < 0" "n' < 0" | "n < 0" "\<not> n' < 0" | "\<not> n < 0" "\<not> n' < 0" using le by linarith
  then show ?thesis
  proof cases
    case 1
    then show ?thesis using le fp_encode_mono [of "\<bar>n'\<bar>" "\<bar>n\<bar>" rm True l e] by (simp add: rounded_key_def signed_by_def)
  next
    case 2
    then show ?thesis using nn by (simp add: rounded_key_def signed_by_def)
  next
    case 3
    then show ?thesis using le fp_encode_mono [of "\<bar>n\<bar>" "\<bar>n'\<bar>" rm False l e] by (simp add: rounded_key_def signed_by_def)
  qed
qed

text \<open>Widths for which the formats are defined.\<close>

definition ieee :: "'a::len itself \<Rightarrow> bool" where
  "ieee _ \<longleftrightarrow> LENGTH('a) = 64 \<or> LENGTH('a) = 32"

lemma fp_pack_key:
  assumes "ieee TYPE('a::len)" and "0 \<le> m" and "m \<le> inf_mag LENGTH('a)"
  shows "fkey (fp_pack s m :: 'a word) = signed_by s m" "\<not> fp_nan (fp_pack s m :: 'a word)"
proof -
  have "m < 2 ^ (LENGTH('a) - 1)" using assms inf_mag_bound [where 'a = 'a] by (simp add: ieee_def)
  from fp_pack_fields [OF assms(2) this] show "fkey (fp_pack s m :: 'a word) = signed_by s m" "\<not> fp_nan (fp_pack s m :: 'a word)"
    using assms(3) by (simp_all add: fkey_sign fp_nan_def)
qed

lemma decode_units:
  assumes "fp_decode l w = (m, e)" and "0 \<le> w"
  shows "mag_units l w = m * 2 ^ nat (e - min_exp l)" "min_exp l \<le> e" "0 \<le> m"
proof -
  show "mag_units l w = m * 2 ^ nat (e - min_exp l)" by (simp add: mag_units_def assms(1))
  show "min_exp l \<le> e" using min_exp_decode [OF assms(2), of l] assms(1) by simp
  have "0 \<le> w mod 2 ^ frac_bits l" by simp
  then show "0 \<le> m" using assms by (auto simp: fp_decode_def Let_def split: if_splits)
qed

lemma fp_encode_units: "min_exp' \<le> e \<Longrightarrow> 0 \<le> m \<Longrightarrow> fp_encode rm s l m e = fp_encode rm s l (m * 2 ^ nat (e - min_exp')) min_exp'"
  by (cases "m = 0") (simp_all add: fp_encode_shift, simp add: fp_encode_def)

lemma fp_add_finite_key:
  fixes a b :: "'a::len word"
  assumes "ieee TYPE('a)"
  shows "fkey (fp_add_finite rm a b) = rounded_key rm LENGTH('a) (fp_units a + fp_units b) (min_exp LENGTH('a))"
    and "\<not> fp_nan (fp_add_finite rm a b)"
proof -
  let ?L = "LENGTH('a)" and ?z = "min_exp LENGTH('a)"
  obtain ma ea where da: "fp_decode ?L (mag a) = (ma, ea)" by force
  obtain mb eb where db: "fp_decode ?L (mag b) = (mb, eb)" by force
  note a = decode_units [OF da mag_bound(1)] and b = decode_units [OF db mag_bound(1)]
  define e where "e = min ea eb"
  define s where "s = signed_by (fp_sign a) (ma * 2 ^ nat (ea - e)) + signed_by (fp_sign b) (mb * 2 ^ nat (eb - e))"
  have ez: "?z \<le> e" using a b by (simp add: e_def)
  have "nat (ea - ?z) = nat (ea - e) + nat (e - ?z)" "nat (eb - ?z) = nat (eb - e) + nat (e - ?z)"
    using ez a(2) b(2) by (auto simp: e_def min_def nat_add_distrib [symmetric])
  then have "fp_units a + fp_units b = s * 2 ^ nat (e - ?z)"
    by (simp add: fp_units_def s_def a b signed_by_def power_add algebra_simps)
  moreover have "0 < (2 :: int) ^ nat (e - ?z)" by simp
  ultimately have u: "(fp_units a + fp_units b < 0) = (s < 0)" "\<bar>fp_units a + fp_units b\<bar> = \<bar>s\<bar> * 2 ^ nat (e - ?z)" "fp_units a + fp_units b = 0 \<longleftrightarrow> s = 0"
    by (simp_all add: mult_less_0_iff abs_mult)
  have enc: "fp_encode rm (s < 0) ?L \<bar>s\<bar> e = fp_encode rm (s < 0) ?L \<bar>fp_units a + fp_units b\<bar> ?z"
    unfolding u(2) using ez by (intro fp_encode_units) simp_all
  have f: "fp_add_finite rm a b = (if s = 0 then fp_pack (fp_sign a \<and> fp_sign b) 0 else fp_pack (s < 0) (fp_encode rm (s < 0) ?L \<bar>s\<bar> e))"
    by (simp only: fp_add_finite_def da db prod.case Let_def e_def s_def)
  have inf: "0 \<le> inf_mag ?L" by (simp add: inf_mag_def)
  have pe: "0 \<le> fp_encode rm (s < 0) ?L \<bar>s\<bar> e" "fp_encode rm (s < 0) ?L \<bar>s\<bar> e \<le> inf_mag ?L"
    by (simp_all add: fp_encode_nonneg fp_encode_le_inf)
  show "\<not> fp_nan (fp_add_finite rm a b)"
    unfolding f using fp_pack_key(2) [OF assms] pe inf by simp
  show "fkey (fp_add_finite rm a b) = rounded_key rm ?L (fp_units a + fp_units b) ?z"
  proof (cases "s = 0")
    case True
    then show ?thesis using u fp_pack_key(1) [OF assms order_refl inf] by (simp add: f rounded_key_def signed_by_def fp_encode_def)
  next
    case False
    then show ?thesis using fp_pack_key(1) [OF assms pe] by (simp add: f rounded_key_def u(1) enc)
  qed
qed

lemma fp_mul_finite_key:
  fixes a b :: "'a::len word"
  assumes "ieee TYPE('a)" and "fp_finite a" and "fp_finite b"
  shows "fkey (fp_mul_in rm a b) = rounded_key rm LENGTH('a) (fp_units a * fp_units b) (2 * min_exp LENGTH('a))"
    and "\<not> fp_nan (fp_mul_in rm a b)"
proof -
  let ?L = "LENGTH('a)" and ?z = "min_exp LENGTH('a)"
  obtain ma ea where da: "fp_decode ?L (mag a) = (ma, ea)" by force
  obtain mb eb where db: "fp_decode ?L (mag b) = (mb, eb)" by force
  note a = decode_units [OF da mag_bound(1)] and b = decode_units [OF db mag_bound(1)]
  define s where "s = (fp_sign a \<noteq> fp_sign b)"
  have nat: "nat (ea + eb - 2 * ?z) = nat (ea - ?z) + nat (eb - ?z)" using a b by linarith
  have prod: "fp_units a * fp_units b = signed_by s (ma * mb * 2 ^ nat (ea + eb - 2 * ?z))"
    unfolding nat by (simp add: fp_units_def a b signed_by_def s_def power_add algebra_simps)
  have nn: "0 \<le> ma * mb * 2 ^ nat (ea + eb - 2 * ?z)" using a(3) b(3) by simp
  have enc: "fp_encode rm s ?L (ma * mb) (ea + eb) = fp_encode rm s ?L (ma * mb * 2 ^ nat (ea + eb - 2 * ?z)) (2 * ?z)"
    using a b by (intro fp_encode_units) simp_all
  have f: "fp_mul_in rm a b = fp_pack s (fp_encode rm s ?L (ma * mb) (ea + eb))"
    using assms by (simp add: fp_mul_in_def da db s_def fp_finite_def fp_nan_def fp_inf_def Let_def)
  have pe: "0 \<le> fp_encode rm s ?L (ma * mb) (ea + eb)" "fp_encode rm s ?L (ma * mb) (ea + eb) \<le> inf_mag ?L"
    using a b by (simp_all add: fp_encode_nonneg fp_encode_le_inf)
  show "\<not> fp_nan (fp_mul_in rm a b)"
    unfolding f using fp_pack_key(2) [OF assms(1) pe] .
  have "fkey (fp_mul_in rm a b) = signed_by s (fp_encode rm s ?L (ma * mb * 2 ^ nat (ea + eb - 2 * ?z)) (2 * ?z))"
    unfolding f enc fp_pack_key(1) [OF assms(1) pe [unfolded enc]] ..
  also have "\<dots> = rounded_key rm ?L (fp_units a * fp_units b) (2 * ?z)"
  proof (cases "ma * mb * 2 ^ nat (ea + eb - 2 * ?z) = 0")
    case True
    then show ?thesis unfolding prod rounded_key_def True by (simp add: signed_by_def fp_encode_def)
  next
    case False
    then show ?thesis using nn unfolding prod rounded_key_def by (cases s) (simp_all add: signed_by_def)
  qed
  finally show "fkey (fp_mul_in rm a b) = rounded_key rm ?L (fp_units a * fp_units b) (2 * ?z)" .
qed

subsection \<open>Sums and products\<close>

lemma finite_key: "fp_finite (x :: 'a::len word) \<longleftrightarrow> \<not> fp_nan x \<and> \<not> fp_inf x"
  by (auto simp: fp_finite_def fp_nan_def fp_inf_def)

lemma key_cases: "0 \<le> fkey x \<and> \<not> fp_sign x \<and> fkey x = mag x \<or> fkey x \<le> 0 \<and> fp_sign x \<and> fkey x = - mag x"
  using mag_bound(1) [of x] by (auto simp: fkey_sign signed_by_def)

lemma fp_nan_key: "fp_nan (x :: 'a::len word) \<longleftrightarrow> inf_mag LENGTH('a) < \<bar>fkey x\<bar>"
  and fp_inf_key: "fp_inf x \<longleftrightarrow> \<bar>fkey x\<bar> = inf_mag LENGTH('a)"
  using key_cases [of x] mag_bound(1) [of x] by (auto simp: fp_nan_def fp_inf_def)

lemma fp_finite_key: "fp_finite (x :: 'a::len word) \<longleftrightarrow> \<bar>fkey x\<bar> < inf_mag LENGTH('a)"
  using key_cases [of x] mag_bound(1) [of x] by (auto simp: fp_finite_def)

lemma fp_finite_between:
  fixes x y z :: "'a::len word"
  shows "fp_finite x \<Longrightarrow> fp_finite z \<Longrightarrow> fkey x \<le> fkey y \<Longrightarrow> fkey y \<le> fkey z \<Longrightarrow> fp_finite y"
  by (simp add: fp_finite_key)

lemma fp_NaN_nan: "ieee TYPE('a::len) \<Longrightarrow> fp_nan (fp_NaN :: 'a word)"
proof -
  assume ieee: "ieee TYPE('a)"
  let ?m = "inf_mag LENGTH('a) + 2 ^ (frac_bits LENGTH('a) - 1)"
  have "?m < 2 ^ (LENGTH('a) - 1)" "0 \<le> ?m" using ieee by (auto simp: ieee_def inf_mag_def frac_bits_def)
  from fp_pack_fields(1) [OF this(2, 1)] have "mag (fp_pack False ?m :: 'a word) = ?m" .
  then have "mag (fp_NaN :: 'a word) = ?m" by (simp add: fp_NaN_def fp_pack_def)
  then show "fp_nan (fp_NaN :: 'a word)" by (simp add: fp_nan_def)
qed

lemma fp_add_nan:
  fixes a b :: "'a::len word"
  assumes "ieee TYPE('a)"
  shows "fp_nan (fp_add_in rm a b) \<longleftrightarrow> fp_nan a \<or> fp_nan b \<or> fp_inf a \<and> fp_inf b \<and> fp_sign a \<noteq> fp_sign b"
  using fp_NaN_nan [OF assms] fp_add_finite_key(2) [OF assms] by (auto simp: fp_add_in_def)

lemma fp_add_mono:
  fixes a a' b :: "'a::len word"
  assumes ieee: "ieee TYPE('a)" and le: "fkey a \<le> fkey a'"
    and nan: "\<not> fp_nan (fp_add_in rm a b)" "\<not> fp_nan (fp_add_in rm a' b)"
  shows "fkey (fp_add_in rm a b) \<le> fkey (fp_add_in rm a' b)"
proof -
  have inf: "0 < inf_mag LENGTH('a)" by (simp add: inf_mag_def)
  note n = nan [unfolded fp_add_nan [OF ieee]]
  consider "fp_inf b" | "\<not> fp_inf b" "fp_inf a" | "\<not> fp_inf b" "fp_inf a'" | "\<not> fp_inf b" "\<not> fp_inf a" "\<not> fp_inf a'" by blast
  then show ?thesis
  proof cases
    case 1
    have "fp_add_in rm c b = b" if "\<not> fp_nan c" "fp_inf c \<longrightarrow> fp_sign c = fp_sign b" for c
    proof -
      have "c = b" if "fp_inf c" using that \<open>fp_inf c \<longrightarrow> fp_sign c = fp_sign b\<close> 1 by (intro sign_mag_eqI) (simp_all add: fp_inf_def)
      then show ?thesis using that 1 n by (auto simp: fp_add_in_def)
    qed
    then show ?thesis using n 1 by simp
  next
    case 2
    then have s: "fp_add_in rm a b = a" using n by (simp add: fp_add_in_def)
    have r: "\<bar>fkey (fp_add_in rm a' b)\<bar> \<le> inf_mag LENGTH('a)" using nan(2) by (simp add: fp_nan_key)
    have "fp_add_in rm a' b = a'" if "\<not> fp_sign a"
    proof -
      have "fkey a = inf_mag LENGTH('a)" using 2 that key_cases [of a] by (simp add: fp_inf_def)
      then have "fp_inf a'" using le n inf by (simp add: fp_nan_key fp_inf_key)
      then show ?thesis using n 2 by (simp add: fp_add_in_def)
    qed
    then show ?thesis using s r le 2 key_cases [of a] by (cases "fp_sign a") (auto simp: fp_inf_def)
  next
    case 3
    then have s: "fp_add_in rm a' b = a'" using n by (simp add: fp_add_in_def)
    have r: "\<bar>fkey (fp_add_in rm a b)\<bar> \<le> inf_mag LENGTH('a)" using nan(1) by (simp add: fp_nan_key)
    have "fp_add_in rm a b = a" if "fp_sign a'"
    proof -
      have "fkey a' = - inf_mag LENGTH('a)" using 3 that key_cases [of a'] by (simp add: fp_inf_def)
      then have "fp_inf a" using le n inf by (simp add: fp_nan_key fp_inf_key)
      then show ?thesis using n 3 by (simp add: fp_add_in_def)
    qed
    then show ?thesis using s r le 3 key_cases [of a'] by (cases "fp_sign a'") (auto simp: fp_inf_def)
  next
    case 4
    then have "fp_add_in rm c b = fp_add_finite rm c b" if "c \<in> {a, a'}" for c using n that by (auto simp: fp_add_in_def)
    then show ?thesis using rounded_key_mono fp_units_mono [OF le] by (simp add: fp_add_finite_key [OF ieee])
  qed
qed

text \<open>Between two sums that are numbers, every sum is one.\<close>

lemma fp_add_between:
  fixes a m a' b :: "'a::len word"
  assumes ieee: "ieee TYPE('a)" and "fkey a \<le> fkey m" and "fkey m \<le> fkey a'" and "\<not> fp_nan m"
    and "\<not> fp_nan (fp_add_in rm a b)" and "\<not> fp_nan (fp_add_in rm a' b)"
  shows "\<not> fp_nan (fp_add_in rm m b)"
proof -
  have inf: "0 < inf_mag LENGTH('a)" by (simp add: inf_mag_def)
  note n = assms(5,6) [unfolded fp_add_nan [OF ieee]]
  have "fp_sign m = fp_sign a \<and> fp_inf a \<or> fp_sign m = fp_sign a' \<and> fp_inf a'" if "fp_inf m"
    using that assms(2,3) n inf key_cases [of a] key_cases [of m] key_cases [of a'] by (auto simp: fp_nan_def fp_inf_def)
  then show ?thesis unfolding fp_add_nan [OF ieee] using n assms(4) by auto
qed

lemma fp_mul_mono:
  fixes c x y :: "'a::len word"
  assumes "ieee TYPE('a)" and "fp_finite c" and "fp_finite x" and "fp_finite y" and "fkey x \<le> fkey y"
  shows "if fp_sign c then fkey (fp_mul_in rm c y) \<le> fkey (fp_mul_in rm c x) else fkey (fp_mul_in rm c x) \<le> fkey (fp_mul_in rm c y)"
proof -
  have u: "fp_units x \<le> fp_units y" by (rule fp_units_mono [OF assms(5)])
  have c: "if fp_sign c then fp_units c \<le> 0 else 0 \<le> fp_units c" by (simp add: fp_units_def signed_by_def mag_units_nonneg)
  show ?thesis
  proof (cases "fp_sign c")
    case True
    then have "fp_units c * fp_units y \<le> fp_units c * fp_units x" using c u by (intro mult_left_mono_neg) simp_all
    then show ?thesis using True by (simp add: fp_mul_finite_key [OF assms(1)] assms rounded_key_mono)
  next
    case False
    then have "fp_units c * fp_units x \<le> fp_units c * fp_units y" using c u by (intro mult_left_mono) simp_all
    then show ?thesis using False by (simp add: fp_mul_finite_key [OF assms(1)] assms rounded_key_mono)
  qed
qed

text \<open>The sums over a rectangle lie between the sums at its corners.\<close>

lemma fp_add_box:
  fixes al a au bl b bu :: "'a::len word"
  assumes ieee: "ieee TYPE('a)"
    and a: "fkey al \<le> fkey a" "fkey a \<le> fkey au" "\<not> fp_nan a" and b: "fkey bl \<le> fkey b" "fkey b \<le> fkey bu" "\<not> fp_nan b"
    and n: "\<not> fp_nan (fp_add_in rm al bl)" "\<not> fp_nan (fp_add_in rm al bu)" "\<not> fp_nan (fp_add_in rm au bl)" "\<not> fp_nan (fp_add_in rm au bu)"
  shows "\<not> fp_nan (fp_add_in rm a b)"
    and "fkey (fp_add_in rm al bl) \<le> fkey (fp_add_in rm a b)"
    and "fkey (fp_add_in rm a b) \<le> fkey (fp_add_in rm au bu)"
proof -
  have l: "\<not> fp_nan (fp_add_in rm a bl)" and u: "\<not> fp_nan (fp_add_in rm a bu)"
    by (rule fp_add_between [OF ieee a(1,2,3)]; rule n)+
  show num: "\<not> fp_nan (fp_add_in rm a b)"
    using fp_add_between [OF ieee b(1,2,3), of rm a] l u by (simp add: fp_add_commute)
  show "fkey (fp_add_in rm al bl) \<le> fkey (fp_add_in rm a b)"
    using fp_add_mono [OF ieee a(1) n(1) l] fp_add_mono [OF ieee b(1), of rm a] l num by (simp add: fp_add_commute)
  show "fkey (fp_add_in rm a b) \<le> fkey (fp_add_in rm au bu)"
    using fp_add_mono [OF ieee a(2) u n(4)] fp_add_mono [OF ieee b(2), of rm a] u num by (simp add: fp_add_commute)
qed

end
