(* ===== verification/Transform.thy ===== *)
theory Transform
  imports Matrix FloatMono MeshOps SceneGraph
begin

text \<open>
  Moving things: the arithmetic of boxes (\<open>repo_bounds.cpp\<close>), the transformation of mesh and transformation nodes
  (\<open>repo_node_mesh.cpp\<close>, \<open>repo_node_transformation.cpp\<close>) and of a whole scene (\<open>repo_scene.cpp\<close>).
\<close>

fun v64 :: "vec3d \<Rightarrow> fp64 vec3" where "v64 (x, y, z) = (Fp64 x, Fp64 y, Fp64 z)"
fun raw64 :: "fp64 vec3 \<Rightarrow> vec3d" where "raw64 (x, y, z) = (bits64 x, bits64 y, bits64 z)"
fun v32 :: "vec3f \<Rightarrow> fp32 vec3" where "v32 (x, y, z) = (Fp32 x, Fp32 y, Fp32 z)"
fun raw32 :: "fp32 vec3 \<Rightarrow> vec3f" where "raw32 (x, y, z) = (bits32 x, bits32 y, bits32 z)"

lemma raw_v64 [simp]: "raw64 (v64 p) = p" "v64 (raw64 q) = q"
  by (cases p, simp) (cases q, simp)

subsection \<open>Boxes\<close>

definition half :: fp64 where "half = Fp64 0x3FE0000000000000"

definition bounds_size :: "RepoBounds \<Rightarrow> fp64 vec3" where
  "bounds_size b = vec_sub (v64 (bmax b)) (v64 (bmin b))"

definition bounds_center :: "RepoBounds \<Rightarrow> fp64 vec3" where
  "bounds_center b = vec_scale (vec_add (v64 (bmin b)) (v64 (bmax b))) half"

definition bounds_volume :: "RepoBounds \<Rightarrow> fp64" where
  "bounds_volume b = (case bounds_size b of (x, y, z) \<Rightarrow> x * y * z)"

definition sqrt64 :: "fp64 \<Rightarrow> fp64" where "sqrt64 x = Fp64 (fp_sqrt (bits64 x))"
definition sqrt32 :: "fp32 \<Rightarrow> fp32" where "sqrt32 x = Fp32 (fp_sqrt (bits32 x))"

definition bounds_greater :: "RepoBounds \<Rightarrow> RepoBounds \<Rightarrow> bool" where
  "bounds_greater b other = fp64_lt (vec_norm sqrt64 (bounds_size other)) (vec_norm sqrt64 (bounds_size b))"

text \<open>
  The absolute values of the upper left of the matrix, and the half-extents computed with \<open>FE_UPWARD\<close>. The constant \<open>0.5\<close> is
  the same number in both modes.
\<close>

definition abs_3x3 :: "fp64 matrix \<Rightarrow> fp64 matrix" where
  "abs_3x3 data = foldl (\<lambda>data (i, j). data [i * 4 + j := \<bar>data ! (i * 4 + j)\<bar>]) data (List.product [0..<3] [0..<3])"

fun upwards3 :: "fp64 vec3 \<Rightarrow> up64 vec3" where
  "upwards3 (x, y, z) = (Up64 (bits64 x), Up64 (bits64 y), Up64 (bits64 z))"
fun nearest3 :: "up64 vec3 \<Rightarrow> fp64 vec3" where
  "nearest3 (x, y, z) = (Fp64 (bits_up x), Fp64 (bits_up y), Fp64 (bits_up z))"

definition transformed_extents :: "fp64 matrix \<Rightarrow> RepoBounds \<Rightarrow> fp64 vec3" where
  "transformed_extents m b =
     (let extents = vec_scale (vec_sub (upwards3 (v64 (bmax b))) (upwards3 (v64 (bmin b)))) (Up64 (bits64 half))
      in nearest3 (transformDirection (map (\<lambda>x. Up64 (bits64 x)) (abs_3x3 m)) extents))"

fun next3 :: "bool \<Rightarrow> fp64 vec3 \<Rightarrow> fp64 vec3" where
  "next3 up (x, y, z) = (Fp64 (fp_next up (bits64 x)), Fp64 (fp_next up (bits64 y)), Fp64 (fp_next up (bits64 z)))"

definition transform_bounds :: "fp64 matrix \<Rightarrow> RepoBounds \<Rightarrow> RepoBounds result" where
  "transform_bounds m b =
     rbind (transform64 m (vec_scale (vec_add (v64 (bmin b)) (v64 (bmax b))) half)) (\<lambda>center.
       let extents = transformed_extents m b
       in Inr (bounds_of (raw64 (next3 False (vec_sub center extents))) (raw64 (next3 True (vec_add center extents)))))"

definition scale_bounds :: "fp64 vec3 \<Rightarrow> RepoBounds \<Rightarrow> RepoBounds" where
  "scale_bounds s b = bounds_of_points [raw64 (vec_mul (v64 (bmin b)) s), raw64 (vec_mul (v64 (bmax b)) s)]"

definition offset_bounds :: "RepoBounds \<Rightarrow> fp64 vec3 \<Rightarrow> RepoBounds" where
  "offset_bounds b offs = bounds_of_points [raw64 (vec_add (v64 (bmin b)) offs), raw64 (vec_add (v64 (bmax b)) offs)]"

subsection \<open>Meshes\<close>

definition corners :: "RepoBounds \<Rightarrow> vec3d list" where
  "corners b = (case (bmin b, bmax b) of ((lx, ly, lz), (hx, hy, hz)) \<Rightarrow>
     [(lx, ly, lz), (lx, ly, hz), (lx, hy, lz), (lx, hy, hz), (hx, ly, lz), (hx, ly, hz), (hx, hy, lz), (hx, hy, hz)])"

definition transformBoundingBox :: "fp64 matrix \<Rightarrow> RepoBounds \<Rightarrow> RepoBounds result" where
  "transformBoundingBox m b =
     rbind (rtraverse (\<lambda>c. transform64 m (v64 c)) (corners b)) (\<lambda>cs. Inr (foldl encapsulate empty_bounds (map raw64 cs)))"

definition transformNormals :: "fp64 matrix \<Rightarrow> vec3f list \<Rightarrow> vec3f list result" where
  "transformNormals m ns =
     (let worldMat = (transpose_matrix (inverse_matrix fp64_zero m)) [3 := 0, 7 := 0, 11 := 0, 12 := 0, 13 := 0, 14 := 0]
      in rtraverse (\<lambda>n. rbind (transform32 worldMat (v32 n))
           (\<lambda>n. Inr (raw32 (normalized sqrt32 (\<lambda>l. f_lt 0 (bits32 l)) n)))) ns)"

definition mesh_applyTransformation :: "fp64 matrix \<Rightarrow> mesh \<Rightarrow> mesh result" where
  "mesh_applyTransformation m msh =
     (if isIdentity m default_eps then Inr msh
      else rbind (rfold (\<lambda>v (vs, box). rbind (transform32 m (v32 v))
                     (\<lambda>v. Inr (vs @ [raw32 v], encapsulate box (vec3_to_double (raw32 v)))))
                   (vertices msh) ([], empty_bounds)) (\<lambda>(vs, box).
           rbind (transformNormals m (normals msh)) (\<lambda>ns.
             Inr (msh\<lparr>boundingBox := box, vertices := vs, normals := ns\<rparr>))))"

subsection \<open>Transformation nodes and scenes\<close>

definition node_matrix :: "double list \<Rightarrow> fp64 matrix" where "node_matrix = map Fp64"
definition matrix_bits :: "fp64 matrix \<Rightarrow> double list" where "matrix_bits = map bits64"

definition transformation_applyTransformation :: "fp64 matrix \<Rightarrow> double list \<Rightarrow> double list" where
  "transformation_applyTransformation t mat = matrix_bits (matrix_mul (node_matrix mat) t)"

definition transformation_isIdentity :: "double list \<Rightarrow> fp32 \<Rightarrow> bool" where
  "transformation_isIdentity mat eps = isIdentity (node_matrix mat) eps"

definition transformation_sEqual :: "double list \<Rightarrow> RepoNode \<Rightarrow> bool" where
  "transformation_sEqual mat other = (case content other of TransformationNode o' \<Rightarrow> matrix_equals d_eq mat o' | _ \<Rightarrow> False)"

text \<open>\<open>rootNode->applyTransformation\<close>, for a node of the heap that has to be a transformation.\<close>

definition apply_to_node :: "fp64 matrix \<Rightarrow> ptr \<Rightarrow> RepoScene \<Rightarrow> RepoScene result" where
  "apply_to_node t p s =
     rbind (deref s p) (\<lambda>n. case content n of
       TransformationNode mat \<Rightarrow> Inr (store p (n\<lparr>content := TransformationNode (transformation_applyTransformation t mat)\<rparr>) s)
     | _ \<Rightarrow> Inl NullDeref)"

definition applyScaleFactor :: "fp64 \<Rightarrow> RepoScene \<Rightarrow> RepoScene result" where
  "applyScaleFactor scale s =
     (let p = rootNode (graph s) in
      if p = null then Inr s
      else rbind (apply_to_node (matrix_of_vector (\<lambda>x. x) [scale, 0, 0, 0, 0, scale, 0, 0, 0, 0, scale, 0, 0, 0, 0, 1]) p s) (\<lambda>s.
        let s = clearStash s;
            s = s\<lparr>worldOffset := map (\<lambda>w. bits64 (Fp64 w * scale)) (worldOffset s)\<rparr>
        in rbind (deref s p) (\<lambda>n. Inr (s\<lparr>newModified := finsert (sharedId n) (newModified s)\<rparr>))))"

definition reorientateDirectXModel :: "RepoScene \<Rightarrow> RepoScene result" where
  "reorientateDirectXModel s =
     (let p = rootNode (graph s) in
      if p = null then Inr s
      else rbind (apply_to_node (matrix_of_vector (\<lambda>x. x) [1, 0, 0, 0, 0, 0, 1, 0, 0, -1, 0, 0, 0, 0, 0, 1]) p s) (\<lambda>s.
        let s = clearStash s; w = worldOffset s in
        rbind (if length w = 0 then Inr s
               else if length w < 3 then Inl OutOfRange
               else Inr (s\<lparr>worldOffset := w [2 := bits64 (- Fp64 (w ! 1)), 1 := w ! 2]\<rparr>)) (\<lambda>s.
          rbind (deref s p) (\<lambda>n. Inr (s\<lparr>newModified := finsert (sharedId n) (newModified s)\<rparr>)))))"

definition shiftModel :: "double list \<Rightarrow> RepoScene \<Rightarrow> RepoScene result" where
  "shiftModel offs s =
     (if length offs < 3 then Inl OutOfRange
      else let m = matrix_of_vector (\<lambda>x. x)
                     [1, 0, 0, Fp64 (offs ! 0), 0, 1, 0, Fp64 (offs ! 1), 0, 0, 1, Fp64 (offs ! 2), 0, 0, 0, 1];
               g = rootNode (graph s); h = rootNode (stashGraph s)
           in rbind (if g = null then Inr s else apply_to_node m g s) (\<lambda>s.
                if h = null then Inr s else apply_to_node m h s))"

text \<open>The recursion has fuel for a chain of nodes.\<close>

fun getSceneBoundingBoxInternal :: "nat \<Rightarrow> GraphType \<Rightarrow> ptr \<Rightarrow> fp64 matrix \<Rightarrow> RepoScene \<Rightarrow> RepoBounds \<Rightarrow> RepoBounds result" where
  "getSceneBoundingBoxInternal 0 gType p mat s box = Inl StackOverflow"
| "getSceneBoundingBoxInternal (Suc fuel) gType p mat s box =
     (if p = null then Inr box
      else rbind (deref s p) (\<lambda>n. case content n of
        TransformationNode tm \<Rightarrow>
          rfold (\<lambda>child box. getSceneBoundingBoxInternal fuel gType child (matrix_mul mat (node_matrix tm)) s box)
            (getChildrenAsNodes gType (sharedId n) s) box
      | MeshNode msh \<Rightarrow> rbind (transformBoundingBox mat (boundingBox msh)) (\<lambda>b. Inr (encapsulate_bounds box b))
      | SupermeshNode msh \<Rightarrow> rbind (transformBoundingBox mat (boundingBox msh)) (\<lambda>b. Inr (encapsulate_bounds box b))
      | _ \<Rightarrow> Inr box))"

definition getSceneBoundingBox :: "nat \<Rightarrow> RepoScene \<Rightarrow> RepoBounds result" where
  "getSceneBoundingBox fuel s =
     (let gType = (if rootNode (stashGraph s) \<noteq> null then OPTIMIZED else DEFAULT)
      in getSceneBoundingBoxInternal fuel gType
           (if gType = OPTIMIZED then rootNode (stashGraph s) else rootNode (graph s)) identity_matrix s empty_bounds)"

definition skew :: "fp64 matrix" where
  "skew = identity_matrix [0 := Fp64 0x3FE6666666666666, 1 := Fp64 0xBFE6666666666666]"

definition skew_box :: RepoBounds where
  "skew_box = \<lparr>bmin = (0x4008000000000000, 0x4008000000000000, 0), bmax = (0x4010000000000000, 0x4010000000000000, 0)\<rparr>"

lemma sig_double: "sig = Fp64 0x3EE4F8B580000000"
  by (simp add: sig_def float_to_double_def widen_mag_def decode32_def encode64_def round_shift_def bit_len_literal mag_def unsigned_take_bit_eq Let_def)

lemmas matrix_eval = fp_eval fp64_ops up64_ops sig_double half_def d_lt_def fkey_def fp_sign_def [symmetric]

lemma skew_cells: "skew = [Fp64 0x3FE6666666666666, Fp64 0xBFE6666666666666, 0, 0, 0, 1, 0, 0, 0, 0, 1, 0, 0, 0, 0, 1]"
  by (simp add: skew_def identity_matrix_cells)

lemma skew_last_row: "\<not> last_row_has_values skew"
  by (simp add: last_row_has_values_def skew_cells matrix_eval cong: let_weak_cong)

lemma skew_point:
  "affine_image skew (v64 (0x4008000000000000, 0x4010000000000000, 0)) = (Fp64 13827852295878370920, Fp64 4616189618054758400, Fp64 0)"
  by (simp add: skew_cells matrix_eval cong: let_weak_cong)

lemma skew_center:
  "affine_image skew (vec_scale (vec_add (v64 (bmin skew_box)) (v64 (bmax skew_box))) half) = (Fp64 0, Fp64 4615063718147915776, Fp64 0)"
  by (simp add: skew_cells skew_box_def matrix_eval cong: let_weak_cong)

lemma skew_extents: "transformed_extents skew skew_box = (Fp64 4604480259023595110, Fp64 4602678819172646912, Fp64 0)"
  by (simp add: skew_cells skew_box_def transformed_extents_def abs_3x3_def upt_rec Let_def matrix_eval cong: let_weak_cong)

lemma skew_image:
  "transform_bounds skew skew_box = Inr (bounds_of (13827852295878370919, 0x4007FFFFFFFFFFFF, 0x8000000000000001) (4604480259023595111, 0x4010000000000001, 1))"
  unfolding transform_bounds_def transform64_def skew_center if_not_P [OF skew_last_row] rbind_simps Let_def skew_extents
  by (simp add: matrix_eval cong: let_weak_cong)


subsection \<open>Transformed corners enclose transformed points\<close>

lemma ieee64: "ieee TYPE(64)" by (simp add: ieee_def)

lemma finite_le: "vec_finite (x, y, z) \<longleftrightarrow> fp_finite x \<and> fp_finite y \<and> fp_finite z"
proof -
  have "fp_finite d \<longleftrightarrow> d_le d DBL_MAX \<and> d_le minus_DBL_MAX d" for d :: double
  proof -
    have k: "fkey DBL_MAX = 0x7FEFFFFFFFFFFFFF" "fkey minus_DBL_MAX = - 0x7FEFFFFFFFFFFFFF"
      by (simp_all add: fkey_def mag_def DBL_MAX_def minus_DBL_MAX_def)
    show ?thesis
      unfolding d_le_def k using key_cases [of d] mag_bound(1) [of d] not_nan_DBL_MAX [unfolded d_nan_def]
      by (auto simp: fp_finite_def d_nan_def inf_mag_def)
  qed
  then show ?thesis by (auto simp: vec_finite_def empty_bounds_def)
qed

text \<open>One row of the product.\<close>

definition row_value :: "double \<Rightarrow> double \<Rightarrow> double \<Rightarrow> double \<Rightarrow> vec3d \<Rightarrow> double" where
  "row_value c0 c1 c2 c3 p = (case p of (x, y, z) \<Rightarrow> fp_add (fp_add (fp_add (fp_mul c0 x) (fp_mul c1 y)) (fp_mul c2 z)) c3)"

lemma mul_corner:
  assumes "fp_finite c" and "fp_finite lo" and "fp_finite hi" and "fkey lo \<le> fkey x" and "fkey x \<le> fkey hi" and "fp_finite x"
  obtains l h where "l \<in> {lo, hi}" and "h \<in> {lo, hi}" and "fkey (fp_mul c l) \<le> fkey (fp_mul c x)" and "fkey (fp_mul c x) \<le> fkey (fp_mul c h)"
    and "\<not> fp_nan (fp_mul (c :: double) x)"
proof (cases "fp_sign c")
  case True
  show ?thesis
    by (rule that [of hi lo]) (use True assms fp_mul_mono [OF ieee64, of c lo x ToNearest] fp_mul_mono [OF ieee64, of c x hi ToNearest]
      fp_mul_finite_key(2) [OF ieee64, of c x ToNearest] in \<open>simp_all add: fp_mul_def\<close>)
next
  case False
  show ?thesis
    by (rule that [of lo hi]) (use False assms fp_mul_mono [OF ieee64, of c lo x ToNearest] fp_mul_mono [OF ieee64, of c x hi ToNearest]
      fp_mul_finite_key(2) [OF ieee64, of c x ToNearest] in \<open>simp_all add: fp_mul_def\<close>)
qed

lemma row_corner:
  assumes c: "fp_finite c0" "fp_finite c1" "fp_finite c2" and box: "bounds_proper b" "bounds_contains b p"
    and n: "\<And>q. q \<in> set (corners b) \<Longrightarrow> \<not> fp_nan (row_value c0 c1 c2 c3 q)"
  obtains l h where "l \<in> set (corners b)" and "h \<in> set (corners b)"
    and "fkey (row_value c0 c1 c2 c3 l) \<le> fkey (row_value c0 c1 c2 c3 p)"
    and "fkey (row_value c0 c1 c2 c3 p) \<le> fkey (row_value c0 c1 c2 c3 h)"
    and "\<not> fp_nan (row_value c0 c1 c2 c3 p)"
proof -
  obtain lx ly lz where lo: "bmin b = (lx, ly, lz)" by (cases "bmin b")
  obtain hx hy hz where hi: "bmax b = (hx, hy, hz)" by (cases "bmax b")
  obtain x y z where p: "p = (x, y, z)" by (cases p)
  have fin: "fp_finite lx" "fp_finite ly" "fp_finite lz" "fp_finite hx" "fp_finite hy" "fp_finite hz"
    using box(1) by (simp_all add: bounds_proper_def lo hi finite_le)
  have le: "fkey lx \<le> fkey x" "fkey x \<le> fkey hx" "fkey ly \<le> fkey y" "fkey y \<le> fkey hy" "fkey lz \<le> fkey z" "fkey z \<le> fkey hz"
    using box(2) by (simp_all add: bounds_contains_def lo hi p d_le_def)
  have pf: "fp_finite x" "fp_finite y" "fp_finite z"
    using fp_finite_between [OF fin(1,4) le(1,2)] fp_finite_between [OF fin(2,5) le(3,4)] fp_finite_between [OF fin(3,6) le(5,6)] by simp_all
  obtain xl xh where x: "xl \<in> {lx, hx}" "xh \<in> {lx, hx}" "fkey (fp_mul c0 xl) \<le> fkey (fp_mul c0 x)" "fkey (fp_mul c0 x) \<le> fkey (fp_mul c0 xh)"
    "\<not> fp_nan (fp_mul c0 x)" by (rule mul_corner [OF c(1) fin(1) fin(4) le(1,2) pf(1)])
  obtain yl yh where y: "yl \<in> {ly, hy}" "yh \<in> {ly, hy}" "fkey (fp_mul c1 yl) \<le> fkey (fp_mul c1 y)" "fkey (fp_mul c1 y) \<le> fkey (fp_mul c1 yh)"
    "\<not> fp_nan (fp_mul c1 y)" by (rule mul_corner [OF c(2) fin(2) fin(5) le(3,4) pf(2)])
  obtain zl zh where z: "zl \<in> {lz, hz}" "zh \<in> {lz, hz}" "fkey (fp_mul c2 zl) \<le> fkey (fp_mul c2 z)" "fkey (fp_mul c2 z) \<le> fkey (fp_mul c2 zh)"
    "\<not> fp_nan (fp_mul c2 z)" by (rule mul_corner [OF c(3) fin(3) fin(6) le(5,6) pf(3)])
  have corner: "(a, d, e) \<in> set (corners b)" if "a \<in> {xl, xh}" "d \<in> {yl, yh}" "e \<in> {zl, zh}" for a d e
    using that x(1,2) y(1,2) z(1,2) by (auto simp: corners_def lo hi)
  let ?S = "\<lambda>a d. fp_add_in ToNearest (fp_mul c0 a) (fp_mul c1 d)" and ?T = "\<lambda>a d e. fp_add_in ToNearest (fp_add_in ToNearest (fp_mul c0 a) (fp_mul c1 d)) (fp_mul c2 e)"
  have R: "row_value c0 c1 c2 c3 (a, d, e) = fp_add_in ToNearest (?T a d e) c3" for a d e by (simp add: row_value_def fp_add_def)
  have nR: "\<not> fp_nan (fp_add_in ToNearest (?T a d e) c3)" if "a \<in> {xl, xh}" "d \<in> {yl, yh}" "e \<in> {zl, zh}" for a d e
    using n [OF corner [OF that]] unfolding R .
  have nT: "\<not> fp_nan (?T a d e)" if "a \<in> {xl, xh}" "d \<in> {yl, yh}" "e \<in> {zl, zh}" for a d e
    using nR [OF that] fp_add_nan [OF ieee64, of ToNearest "?T a d e" c3] by blast
  have nS: "\<not> fp_nan (?S a d)" if "a \<in> {xl, xh}" "d \<in> {yl, yh}" for a d
    using nT [OF that, of zl] fp_add_nan [OF ieee64, of ToNearest "?S a d" "fp_mul c2 zl"] by blast
  have S: "\<not> fp_nan (?S x y)" "fkey (?S xl yl) \<le> fkey (?S x y)" "fkey (?S x y) \<le> fkey (?S xh yh)"
    by (rule fp_add_box [OF ieee64 x(3-5) y(3-5)]; rule nS; simp)+
  have T: "\<not> fp_nan (?T x y z)" "fkey (?T xl yl zl) \<le> fkey (?T x y z)" "fkey (?T x y z) \<le> fkey (?T xh yh zh)"
    by (rule fp_add_box [OF ieee64 S(2,3,1) z(3-5)]; rule nT; simp)+
  have nRp: "\<not> fp_nan (fp_add_in ToNearest (?T x y z) c3)"
    by (rule fp_add_between [OF ieee64 T(2,3,1)]; rule nR; simp)
  show thesis
  proof (rule that [of "(xl, yl, zl)" "(xh, yh, zh)"])
    show "fkey (row_value c0 c1 c2 c3 (xl, yl, zl)) \<le> fkey (row_value c0 c1 c2 c3 p)"
      unfolding p R by (rule fp_add_mono [OF ieee64 T(2) nR nRp]) simp_all
    show "fkey (row_value c0 c1 c2 c3 p) \<le> fkey (row_value c0 c1 c2 c3 (xh, yh, zh))"
      unfolding p R by (rule fp_add_mono [OF ieee64 T(3) nRp nR]) simp_all
    show "\<not> fp_nan (row_value c0 c1 c2 c3 p)" unfolding p R by (rule nRp)
  qed (rule corner; simp)+
qed

lemma row_enclosed:
  assumes "fp_finite c0" "fp_finite c1" "fp_finite c2" and "bounds_proper b" "bounds_contains b p"
    and box: "\<And>q. q \<in> set (corners b) \<Longrightarrow> d_le lo (row_value c0 c1 c2 c3 q) \<and> d_le (row_value c0 c1 c2 c3 q) hi"
  shows "d_le lo (row_value c0 c1 c2 c3 p)" and "d_le (row_value c0 c1 c2 c3 p) hi"
proof -
  have "\<not> fp_nan (row_value c0 c1 c2 c3 q)" if "q \<in> set (corners b)" for q using box [OF that] by (simp add: d_le_def)
  from row_corner [OF assms(1-5) this] obtain l h where lh: "l \<in> set (corners b)" "h \<in> set (corners b)"
    "fkey (row_value c0 c1 c2 c3 l) \<le> fkey (row_value c0 c1 c2 c3 p)" "fkey (row_value c0 c1 c2 c3 p) \<le> fkey (row_value c0 c1 c2 c3 h)"
    "\<not> fp_nan (row_value c0 c1 c2 c3 p)" by blast
  then show "d_le lo (row_value c0 c1 c2 c3 p)" "d_le (row_value c0 c1 c2 c3 p) hi"
    using box [of l] box [of h] by (simp_all add: d_le_def)
qed

lemma affine_image_rows:
  "raw64 (affine_image m (v64 p)) =
     (row_value (bits64 (m ! 0)) (bits64 (m ! 1)) (bits64 (m ! 2)) (bits64 (m ! 3)) p,
      row_value (bits64 (m ! 4)) (bits64 (m ! 5)) (bits64 (m ! 6)) (bits64 (m ! 7)) p,
      row_value (bits64 (m ! 8)) (bits64 (m ! 9)) (bits64 (m ! 10)) (bits64 (m ! 11)) p)"
  by (cases p) (simp add: row_value_def plus_fp64_def times_fp64_def)

definition linear_part_finite :: "fp64 matrix \<Rightarrow> bool" where
  "linear_part_finite m \<longleftrightarrow> (\<forall>i \<in> {0, 1, 2, 4, 5, 6, 8, 9, 10}. fp_finite (bits64 (m ! i)))"

text \<open>
  C16: the box of the transformed corners contains the image, as computed, of every point of the box: for a matrix with finite entries and a finite box, unless a corner already gives a NaN.
\<close>

theorem transformBoundingBox_encloses:
  assumes "\<not> last_row_has_values m" and "linear_part_finite m" and "bounds_proper b"
    and "\<forall>c \<in> set (corners b). vec_num (raw64 (affine_image m (v64 c)))"
  shows "\<exists>b'. transformBoundingBox m b = Inr b'
    \<and> (\<forall>p. bounds_contains b p \<longrightarrow> (\<exists>q. transform64 m (v64 p) = Inr q \<and> bounds_contains b' (raw64 q)))"
proof -
  let ?f = "\<lambda>c. raw64 (affine_image m (v64 c))"
  define B where "B = foldl encapsulate empty_bounds (map ?f (corners b))"
  have "rtraverse (\<lambda>c. transform64 m (v64 c)) (corners b) = Inr (map (\<lambda>c. affine_image m (v64 c)) (corners b))"
    using assms(1) by (intro rtraverse_all_Inr) (simp add: transform64_def)
  then have run: "transformBoundingBox m b = Inr B" by (simp add: transformBoundingBox_def comp_def B_def)
  have corner: "bounds_contains B (?f c)" if "c \<in> set (corners b)" for c
    using that assms(4) unfolding B_def by (intro foldl_encapsulate_adds) auto
  have "bounds_contains B (?f p)" if p: "bounds_contains b p" for p
  proof -
    note fin = assms(2) [unfolded linear_part_finite_def, rule_format]
    have c: "vec_le (bmin B) (?f c) \<and> vec_le (?f c) (bmax B)" if "c \<in> set (corners b)" for c
      using corner [OF that] by (simp only: bounds_contains_iff)
    obtain lx ly lz hx hy hz where box: "bmin B = (lx, ly, lz)" "bmax B = (hx, hy, hz)"
      by (cases "bmin B"; cases "bmax B")
    note c' = c [unfolded affine_image_rows box vec_le.simps]
    have r0: "d_le lx (row_value (bits64 (m ! 0)) (bits64 (m ! 1)) (bits64 (m ! 2)) (bits64 (m ! 3)) p) \<and>
        d_le (row_value (bits64 (m ! 0)) (bits64 (m ! 1)) (bits64 (m ! 2)) (bits64 (m ! 3)) p) hx"
      by (intro conjI row_enclosed [OF _ _ _ assms(3) p, where lo = lx and hi = hx]; (rule fin, simp)?; (drule c', simp only: simp_thms)?)
    have r1: "d_le ly (row_value (bits64 (m ! 4)) (bits64 (m ! 5)) (bits64 (m ! 6)) (bits64 (m ! 7)) p) \<and>
        d_le (row_value (bits64 (m ! 4)) (bits64 (m ! 5)) (bits64 (m ! 6)) (bits64 (m ! 7)) p) hy"
      by (intro conjI row_enclosed [OF _ _ _ assms(3) p, where lo = ly and hi = hy]; (rule fin, simp)?; (drule c', simp only: simp_thms)?)
    have r2: "d_le lz (row_value (bits64 (m ! 8)) (bits64 (m ! 9)) (bits64 (m ! 10)) (bits64 (m ! 11)) p) \<and>
        d_le (row_value (bits64 (m ! 8)) (bits64 (m ! 9)) (bits64 (m ! 10)) (bits64 (m ! 11)) p) hz"
      by (intro conjI row_enclosed [OF _ _ _ assms(3) p, where lo = lz and hi = hz]; (rule fin, simp)?; (drule c', simp only: simp_thms)?)
    show ?thesis unfolding bounds_contains_iff box affine_image_rows vec_le.simps using r0 r1 r2 by blast
  qed
  then show ?thesis using run assms(1) by (auto simp: transform64_def)
qed

lemma unit_box_corners:
  assumes "c \<in> set (corners \<lparr>bmin = (0, 0, 0), bmax = (0x3FF0000000000000, 0, 0)\<rparr>)"
  shows "vec_num (raw64 (affine_image skew (v64 c)))"
proof -
  have "vec_num (raw64 (affine_image skew (v64 (0, 0, 0))))" "vec_num (raw64 (affine_image skew (v64 (0x3FF0000000000000, 0, 0))))"
    by (simp_all add: skew_cells matrix_eval cong: let_weak_cong)
  moreover have "c = (0, 0, 0) \<or> c = (0x3FF0000000000000, 0, 0)" using assms by (auto simp: corners_def)
  ultimately show ?thesis by blast
qed

theorem transformBoundingBox_encloses_witness:
  "\<exists>b'. transformBoundingBox skew \<lparr>bmin = (0, 0, 0), bmax = (0x3FF0000000000000, 0, 0)\<rparr> = Inr b'
    \<and> (\<exists>q. transform64 skew (v64 (0x3FE0000000000000, 0, 0)) = Inr q \<and> bounds_contains b' (raw64 q))"
proof -
  have "linear_part_finite skew" by (simp add: linear_part_finite_def skew_cells fp_finite_def matrix_eval cong: let_weak_cong)
  moreover have "bounds_proper \<lparr>bmin = (0, 0, 0), bmax = (0x3FF0000000000000, 0, 0)\<rparr>"
    by (simp add: bounds_proper_def finite_le fp_finite_def matrix_eval d_le_def cong: let_weak_cong)
  moreover have "bounds_contains \<lparr>bmin = (0, 0, 0), bmax = (0x3FF0000000000000, 0, 0)\<rparr> (0x3FE0000000000000, 0, 0)"
    by (simp add: bounds_contains_def matrix_eval d_le_def cong: let_weak_cong)
  ultimately show ?thesis
    using transformBoundingBox_encloses [OF skew_last_row, of "\<lparr>bmin = (0, 0, 0), bmax = (0x3FF0000000000000, 0, 0)\<rparr>"] unit_box_corners by blast
qed

subsection \<open>Transformed meshes\<close>

definition box_of_vertices :: "mesh \<Rightarrow> bool" where
  "box_of_vertices msh \<longleftrightarrow> boundingBox msh = boundingBox (updateBoundingBox msh)"

lemma transform_vertices:
  "rfold (\<lambda>v (vs, box). rbind (transform32 m (v32 v)) (\<lambda>v. Inr (vs @ [raw32 v], encapsulate box (vec3_to_double (raw32 v))))) xs (vs, box) =
     (if last_row_has_values m \<and> xs \<noteq> [] then Inl ExitProcess
      else let ys = map (\<lambda>v. raw32 (narrow3 (affine_image m (widen3 (v32 v))))) xs
           in Inr (vs @ ys, foldl (\<lambda>b v. encapsulate b (vec3_to_double v)) box ys))"
proof (cases "last_row_has_values m")
  case True
  then show ?thesis by (cases xs) (simp_all add: transform32_def)
next
  case False
  then show ?thesis by (induction xs arbitrary: vs box) (simp_all add: transform32_def Let_def)
qed

definition normal_matrix :: "fp64 matrix \<Rightarrow> fp64 matrix" where
  "normal_matrix m = (transpose_matrix (inverse_matrix fp64_zero m)) [3 := 0, 7 := 0, 11 := 0, 12 := 0, 13 := 0, 14 := 0]"

lemma transformNormals_run:
  "transformNormals m ns =
     (if last_row_has_values (normal_matrix m) \<and> ns \<noteq> [] then Inl ExitProcess
      else Inr (map (\<lambda>n. raw32 (normalized sqrt32 (\<lambda>l. f_lt 0 (bits32 l)) (narrow3 (affine_image (normal_matrix m) (widen3 (v32 n)))))) ns))"
proof (cases "last_row_has_values (normal_matrix m)")
  case True
  then show ?thesis by (cases ns) (simp_all add: transformNormals_def normal_matrix_def [symmetric] transform32_def Let_def)
next
  case False
  then show ?thesis by (simp add: transformNormals_def normal_matrix_def [symmetric] transform32_def Let_def rtraverse_all_Inr)
qed


lemma zero_matrix_cells: "normal_matrix m = replicate 16 0" if "fp64_zero (determinant m)"
  using that by (simp add: normal_matrix_def inverse_matrix_def matrix_of_vector_self transpose_matrix_def matrix_of_coefficients_def
    upt_0_4 numeral_eq_Suc)

lemma zero_matrix_last_row: "last_row_has_values (replicate 16 0)"
  by (simp add: last_row_has_values_def nth_replicate matrix_eval cong: let_weak_cong)

lemma not_isIdentity:
  assumes "i < 16" and "i mod 5 \<noteq> 0" and "\<not> fp64_le \<bar>data ! i\<bar> (widen \<bar>eps\<bar>)"
  shows "\<not> isIdentity data eps"
proof -
  have "foldl (\<lambda>b i. b \<and> P i) a xs \<longleftrightarrow> a \<and> (\<forall>i \<in> set xs. P i)" for P a and xs :: "nat list"
    by (induction xs arbitrary: a) auto
  then show ?thesis using assms unfolding isIdentity_def Let_def by auto
qed

lemma widen_eps: "widen \<bar>default_eps\<bar> = Fp64 0x3F1A36E2E0000000"
  by (simp add: default_eps_def abs_fp32_def fp_abs_def fp_pack_def widen_def float_to_double_def widen_mag_def decode32_def encode64_def
    round_shift_def bit_len_literal mag_def unsigned_take_bit_eq Let_def)

text \<open>
  A matrix with determinant zero, for which the inverse is documented to be an error message, ends the process when the mesh has normals.
\<close>

theorem singular_transformation_exits:
  assumes "fp64_zero (determinant m)" and "\<not> isIdentity m default_eps" and "normals msh \<noteq> []"
  shows "mesh_applyTransformation m msh = Inl ExitProcess"
  using assms
  by (simp add: mesh_applyTransformation_def transform_vertices transformNormals_run zero_matrix_cells zero_matrix_last_row Let_def)

definition sheet :: mesh where
  "sheet = updateBoundingBox (empty_mesh\<lparr>vertices := [(0, 0, 0), (0x3F800000, 0, 0), (0, 0x3F800000, 0)], normals := [(0, 0, 0x3F800000)]\<rparr>)"


definition flat :: "fp64 matrix" where "flat = (replicate 16 0) [1 := 1, 15 := 1]"

theorem singular_transformation_exits_witness: "mesh_applyTransformation flat sheet = Inl ExitProcess"
proof (rule singular_transformation_exits)
  have c: "flat = [0, 1, 0, 0, 0, 0, 0, 0, 0, 0, 0, 0, 0, 0, 0, 1]" by (simp add: flat_def numeral_eq_Suc)
  show "fp64_zero (determinant flat)"
    by (simp add: c determinant_def d_eq_def matrix_eval cong: let_weak_cong)
  show "\<not> isIdentity flat default_eps"
    by (rule not_isIdentity [of 1])
      (simp_all add: c widen_eps d_le_def matrix_eval cong: let_weak_cong)
  show "normals sheet \<noteq> []" by (simp add: sheet_def updateBoundingBox_def)
qed

end
