(* ===== verification/Streaming.thy ===== *)
theory Streaming
  imports Transform
begin

text \<open>
  The meshes the optimiser streams through memory, \<open>core/model/bson/repo_node_streaming_mesh.cpp\<close>: the summary of a mesh that is
  always held, and its geometry, which is loaded from a buffer, baked into world space and dropped again.
\<close>

record SupermeshingData =
  data_uniqueId :: uuid
  data_vertices :: "vec3f list"
  data_faces :: "face list"
  data_normals :: "vec3f list"
  data_channels :: "vec2f list list"

record StreamingMeshNode =
  stream_sharedId :: uuid
  stream_numVertices :: "32 word"
  stream_parent :: uuid
  stream_bounds :: RepoBounds
  stream_grouping :: string
  supermeshingData :: "SupermeshingData option"

definition empty_streaming_mesh :: StreamingMeshNode where
  "empty_streaming_mesh = \<lparr>stream_sharedId = default_uuid, stream_numVertices = 0, stream_parent = default_uuid,
     stream_bounds = empty_bounds, stream_grouping = [], supermeshingData = None\<rparr>"

text \<open>\<open>parents[0]\<close> of an empty array is undefined behaviour.\<close>

definition first_parent :: "RepoBSON \<Rightarrow> uuid result" where
  "first_parent bson =
     rbind (getUUIDFieldArray bson REPO_NODE_LABEL_PARENTS) (\<lambda>ps. case ps of [] \<Rightarrow> Inl OutOfRange | p # _ \<Rightarrow> Inr p)"

definition StreamingMeshNode_of_bson :: "RepoBSON \<Rightarrow> StreamingMeshNode result" where
  "StreamingMeshNode_of_bson bson =
     rbind (read_field getUUIDField bson REPO_NODE_LABEL_SHARED_ID (\<lambda>v. stream_sharedId_update (\<lambda>_. v)) empty_streaming_mesh) (\<lambda>n.
     rbind (read_field getIntField bson REPO_NODE_MESH_LABEL_VERTICES_COUNT (\<lambda>v. stream_numVertices_update (\<lambda>_. v)) n) (\<lambda>n.
     rbind (if hasField bson REPO_NODE_LABEL_PARENTS then rbind (first_parent bson) (\<lambda>p. Inr (n\<lparr>stream_parent := p\<rparr>)) else Inr n) (\<lambda>n.
     rbind (read_field getBoundsField bson REPO_NODE_MESH_LABEL_BOUNDING_BOX (\<lambda>v. stream_bounds_update (\<lambda>_. v)) n) (\<lambda>n.
       read_field getStringField bson REPO_NODE_MESH_LABEL_GROUPING (\<lambda>v. stream_grouping_update (\<lambda>_. v)) n))))"

subsection \<open>Loading geometry\<close>

text \<open>
  \<open>deserialiseVector\<close>, for elements of \<open>k\<close> bytes: the vector gets room for the whole elements, then all bytes are copied,
  out of the buffer and into the vector without a check.
\<close>

definition deserialiseVector :: "nat \<Rightarrow> RepoBSON \<Rightarrow> bytes \<Rightarrow> bytes result" where
  "deserialiseVector k bson buffer =
     rbind (getLongField bson REPO_LABEL_BINARY_START) (\<lambda>start.
     rbind (getLongField bson REPO_LABEL_BINARY_SIZE) (\<lambda>sz.
       if sint sz < 0 then Inl (LogicError ''length_error'')
       else if unat sz mod k \<noteq> 0 then Inl OutOfRange
       else buffer_slice buffer start sz))"

text \<open>What \<open>elementsBson\<close> says about a field, if it has it.\<close>

definition load_element :: "nat \<Rightarrow> RepoBSON \<Rightarrow> bytes \<Rightarrow> string \<Rightarrow> (32 word list \<Rightarrow> 'a) \<Rightarrow> 'a \<Rightarrow> 'a result" where
  "load_element k elementsBson buffer label f none =
     (if hasField elementsBson label
      then rbind (getObjectField elementsBson label) (\<lambda>e. rbind (deserialiseVector k e buffer) (\<lambda>bs. Inr (f (words_of_bytes bs))))
      else Inr none)"

definition load_faces :: "RepoBSON \<Rightarrow> RepoBSON \<Rightarrow> bytes \<Rightarrow> face list result" where
  "load_faces bson elementsBson buffer =
     (if hasField elementsBson REPO_NODE_MESH_LABEL_FACES
      then rbind (getIntField bson REPO_NODE_MESH_LABEL_FACES_COUNT) (\<lambda>faceCount.
             if sint faceCount < 0 then Inl (LogicError ''length_error'')
             else rbind (load_element 4 elementsBson buffer REPO_NODE_MESH_LABEL_FACES (\<lambda>ws. ws) []) (\<lambda>serialisedFaces.
               case decode_faces serialisedFaces 0 [] of None \<Rightarrow> Inl Diverges | Some r \<Rightarrow> r))
      else Inr [])"

definition load_channels :: "RepoBSON \<Rightarrow> RepoBSON \<Rightarrow> bytes \<Rightarrow> bool \<Rightarrow> vec2f list list result" where
  "load_channels bson elementsBson buffer ignoreUVs =
     (if \<not> ignoreUVs
      then rbind (load_element 8 elementsBson buffer REPO_NODE_MESH_LABEL_UV_CHANNELS vec2s_of_words []) (\<lambda>serialisedChannels.
             if serialisedChannels \<noteq> []
             then rbind (getIntField bson REPO_NODE_MESH_LABEL_UV_CHANNELS_COUNT) (\<lambda>nChannels.
               if nChannels = 0 then Inl DivisionByZero
               else Inr (split_channels (unat nChannels) serialisedChannels))
             else Inr [])
      else Inr [])"

definition SupermeshingData_of :: "RepoBSON \<Rightarrow> bytes \<Rightarrow> bool \<Rightarrow> SupermeshingData result" where
  "SupermeshingData_of bson buffer ignoreUVs =
     rbind (getUUIDField bson REPO_NODE_LABEL_ID) (\<lambda>ident.
     rbind (getObjectField bson REPO_LABEL_BINARY_REFERENCE) (\<lambda>blobRefBson.
     rbind (getObjectField blobRefBson REPO_LABEL_BINARY_ELEMENTS) (\<lambda>elementsBson.
     rbind (load_element 12 elementsBson buffer REPO_NODE_MESH_LABEL_VERTICES vec3s_of_words []) (\<lambda>vs.
     rbind (load_element 12 elementsBson buffer REPO_NODE_MESH_LABEL_NORMALS vec3s_of_words []) (\<lambda>ns.
     rbind (load_faces bson elementsBson buffer) (\<lambda>fs.
     rbind (load_channels bson elementsBson buffer ignoreUVs) (\<lambda>cs.
       Inr \<lparr>data_uniqueId = ident, data_vertices = vs, data_faces = fs, data_normals = ns, data_channels = cs\<rparr>)))))))"

text \<open>Data that is already loaded is dropped first, so it is gone when loading throws.\<close>

definition loadSupermeshingData :: "RepoBSON \<Rightarrow> bytes \<Rightarrow> bool \<Rightarrow> StreamingMeshNode \<Rightarrow> unit result \<times> StreamingMeshNode" where
  "loadSupermeshingData bson buffer ignoreUVs n =
     (case SupermeshingData_of bson buffer ignoreUVs of
        Inl e \<Rightarrow> (Inl e, n\<lparr>supermeshingData := None\<rparr>)
      | Inr d \<Rightarrow> (Inr (), n\<lparr>supermeshingData := Some d\<rparr>))"

definition unloadSupermeshingData :: "StreamingMeshNode \<Rightarrow> StreamingMeshNode" where
  "unloadSupermeshingData n = n\<lparr>supermeshingData := None\<rparr>"

text \<open>Every access to the geometry starts with \<open>assertSupermeshingDataLoaded\<close>.\<close>

definition loaded :: "(SupermeshingData \<Rightarrow> 'a) \<Rightarrow> StreamingMeshNode \<Rightarrow> 'a result" where
  "loaded f n =
     (case supermeshingData n of
        None \<Rightarrow> Inl (RepoException ''Tried to access supermesh geometry of StreamingMeshNode without loading geometry first.'')
      | Some d \<Rightarrow> Inr (f d))"

definition getUniqueId :: "StreamingMeshNode \<Rightarrow> uuid result" where "getUniqueId = loaded data_uniqueId"
definition getNumLoadedFaces :: "StreamingMeshNode \<Rightarrow> 32 word result" where "getNumLoadedFaces = loaded (\<lambda>d. of_nat (length (data_faces d)))"
definition getLoadedFaces :: "StreamingMeshNode \<Rightarrow> face list result" where "getLoadedFaces = loaded data_faces"
definition getNumLoadedVertices :: "StreamingMeshNode \<Rightarrow> 32 word result" where "getNumLoadedVertices = loaded (\<lambda>d. of_nat (length (data_vertices d)))"
definition getLoadedVertices :: "StreamingMeshNode \<Rightarrow> vec3f list result" where "getLoadedVertices = loaded data_vertices"
definition getLoadedNormals :: "StreamingMeshNode \<Rightarrow> vec3f list result" where "getLoadedNormals = loaded data_normals"
definition getLoadedUVChannelsSeparated :: "StreamingMeshNode \<Rightarrow> vec2f list list result" where "getLoadedUVChannelsSeparated = loaded data_channels"

subsection \<open>World space\<close>

text \<open>Only the two extreme corners of the box are transformed.\<close>

definition transformBounds :: "fp64 matrix \<Rightarrow> StreamingMeshNode \<Rightarrow> StreamingMeshNode result" where
  "transformBounds m n =
     rbind (transform64 m (v64 (bmin (stream_bounds n)))) (\<lambda>newMinBound.
     rbind (transform64 m (v64 (bmax (stream_bounds n)))) (\<lambda>newMaxBound.
       Inr (n\<lparr>stream_bounds := bounds_of (raw64 newMinBound) (raw64 newMaxBound)\<rparr>)))"

definition bakeMeshes :: "fp64 matrix \<Rightarrow> SupermeshingData \<Rightarrow> SupermeshingData result" where
  "bakeMeshes m d =
     rbind (rtraverse (\<lambda>v. rbind (transform32 m (v32 v)) (\<lambda>v. Inr (raw32 v))) (data_vertices d)) (\<lambda>vs.
     rbind (transformNormals m (data_normals d)) (\<lambda>ns. Inr (d\<lparr>data_vertices := vs, data_normals := ns\<rparr>)))"

definition bakeLoadedMeshes :: "fp64 matrix \<Rightarrow> StreamingMeshNode \<Rightarrow> StreamingMeshNode result" where
  "bakeLoadedMeshes m n =
     rbind (loaded (bakeMeshes m) n) (\<lambda>r. rbind r (\<lambda>d. Inr (n\<lparr>supermeshingData := Some d\<rparr>)))"


subsection \<open>A stored mesh streams back\<close>

lemma deserialiseVector_entry:
  assumes e: "map_of (doc elems) name = Some (binary_entry start data)"
    and fits: "start + length data \<le> length buffer" and small: "length buffer < 2 ^ 63"
    and slice: "take (length data) (drop start buffer) = data" and k: "length data mod k = 0"
  shows "rbind (getObjectField elems name) (\<lambda>e. rbind (deserialiseVector k e buffer) (\<lambda>bs. Inr (f (words_of_bytes bs)))) =
         Inr (f (words_of_bytes data))"
proof -
  have u: "unat (of_nat start :: 64 word) = start" "unat (of_nat (length data) :: 64 word) = length data"
    using fits small by (simp_all add: unat_of_nat take_bit_nat_eq_self)
  have "sint (of_nat (length data) :: 64 word) = int (length data)"
    using sint_sbintrunc' [of "int (length data)", where 'a = 64]
      signed_take_bit_int_eq_self [of 63 "int (length data)"] fits small by simp
  then show ?thesis
    unfolding binary_entry_fields [OF e]
    using u fits slice k by (simp add: deserialiseVector_def getLongField_def binary_labels buffer_slice_def)
qed

lemma load_element_collected:
  assumes elems: "doc elems = core (fst (collect_binaries bigs (RepoBSONBuilder, [])))"
    and small: "length (concat (map snd bigs)) < 2 ^ 63"
    and k: "\<And>data. map_of bigs label = Some data \<Longrightarrow> length data mod k = 0"
  shows "load_element k elems (concat (map snd bigs)) label f none =
           Inr (case map_of bigs label of None \<Rightarrow> none | Some data \<Rightarrow> f (words_of_bytes data))"
proof (cases "map_of bigs label")
  case None
  then have "map_of (doc elems) label = None"
    using arg_cong [OF collect_binaries_names [of bigs "[]"], of set] by (simp add: map_of_eq_None_iff elems)
  with None show ?thesis by (simp add: load_element_def)
next
  case (Some data)
  then have e: "map_of (doc elems) label = Some (binary_entry (start_of bigs label) data)"
    using collect_binaries_entry [OF Some, of "[]"] by (simp add: elems)
  then show ?thesis
    using deserialiseVector_entry [OF e, of "concat (map snd bigs)" k f] start_of_slice [OF Some] small k [OF Some] Some
    by (simp add: load_element_def)
qed

text \<open>The document of a mesh node, with its binaries taken out into a buffer and a reference in their place.\<close>

definition mesh_document :: "RepoNode \<Rightarrow> mesh \<Rightarrow> RepoBSON" where
  "mesh_document n m = obj (mesh_serialise m (base_serialise n RepoBSONBuilder))"

lemma streamed_channels:
  assumes "mesh_storable m"
  shows "(if concat (channels m) = [] then [] else split_channels (length (channels m)) (concat (channels m))) = channels m"
    and "concat (channels m) \<noteq> [] \<Longrightarrow>
      (of_nat (length (channels m)) :: 32 word) \<noteq> 0 \<and> unat (of_nat (length (channels m)) :: 32 word) = length (channels m)"
proof -
  have st: "\<And>c. c \<in> set (channels m) \<Longrightarrow> length c = length (hd (channels m))"
      "\<And>c. c \<in> set (channels m) \<Longrightarrow> c \<noteq> []" and l: "length (channels m) < 2 ^ 31"
    using assms unfolding mesh_storable_def by blast+
  have e: "concat (channels m) = [] \<longleftrightarrow> channels m = []"
    using st(2) by (cases "channels m") auto
  show "(if concat (channels m) = [] then [] else split_channels (length (channels m)) (concat (channels m))) = channels m"
    using split_channels_concat [of "channels m"] st(1) by (auto simp only: e if_True if_False split: if_splits)
  show "(of_nat (length (channels m)) :: 32 word) \<noteq> 0 \<and> unat (of_nat (length (channels m)) :: 32 word) = length (channels m)"
    if "concat (channels m) \<noteq> []"
    using unat_of_nat_small [OF l] that e by (metis length_0_conv unat_0)
qed

lemma streamed_faces:
  assumes "mesh_storable m"
  shows "decode_faces (encode_faces (faces m)) 0 [] = Some (Inr (faces m))"
  using decode_faces_encoded [of "faces m" "[]" "[]" "[]"] assms by (simp add: mesh_storable_def decode_faces_end)

lemma mesh_document_lookups:
  "map_of (doc (mesh_document n m)) REPO_NODE_LABEL_ID = Some (bson_of_uuid (uniqueId n))"
  "map_of (doc (mesh_document n m)) REPO_NODE_MESH_LABEL_FACES_COUNT =
     (if faces m = [] then None else Some (BInt32 (of_nat (length (faces m)))))"
  "map_of (doc (mesh_document n m)) REPO_NODE_MESH_LABEL_UV_CHANNELS_COUNT =
     (if concat (channels m) = [] then None else Some (BInt32 (of_nat (length (channels m)))))"
  using mesh_carries [of n m] mesh_lookups(5,6) [of m n] by (simp_all add: mesh_document_def carries_def)

lemma stored_document:
  fixes b fileRef elemRefs :: RepoBSON
  assumes ser: "getBinariesAsBuffer b = (elemRefs, buffer)"
  defines "r \<equiv> replaceBinaryWithReference fileRef elemRefs b"
  shows "\<exists>blobRef. getObjectField r REPO_LABEL_BINARY_REFERENCE = Inr blobRef \<and>
      getObjectField blobRef REPO_LABEL_BINARY_ELEMENTS = Inr \<lparr>doc = doc elemRefs, bigFiles = []\<rparr>"
    and "doc elemRefs = core (fst (collect_binaries (bigFiles b) (RepoBSONBuilder, [])))"
    and "buffer = concat (map snd (bigFiles b))"
    and "l \<noteq> REPO_LABEL_BINARY_REFERENCE \<Longrightarrow> map_of (doc r) l = map_of (doc b) l"
proof -
  have lookup: "map_of (doc r) l = (if l = REPO_LABEL_BINARY_REFERENCE
      then Some (BDocument [(REPO_LABEL_BINARY_ELEMENTS, BDocument (doc elemRefs)),
                    (REPO_LABEL_BINARY_BUFFER, BDocument (doc fileRef))]) else map_of (doc b) l)" for l
    by (simp add: r_def replaceBinaryWithReference_def map_of_appendElementsUnique Let_def append_field_def)
  show "\<exists>blobRef. getObjectField r REPO_LABEL_BINARY_REFERENCE = Inr blobRef \<and>
      getObjectField blobRef REPO_LABEL_BINARY_ELEMENTS = Inr \<lparr>doc = doc elemRefs, bigFiles = []\<rparr>"
    using lookup [of REPO_LABEL_BINARY_REFERENCE] by (simp add: getters binary_labels)
  show "l \<noteq> REPO_LABEL_BINARY_REFERENCE \<Longrightarrow> map_of (doc r) l = map_of (doc b) l"
    by (simp add: lookup)
  show "doc elemRefs = core (fst (collect_binaries (bigFiles b) (RepoBSONBuilder, [])))"
    and "buffer = concat (map snd (bigFiles b))"
    using ser collect_binaries_buffer [of "bigFiles b" RepoBSONBuilder "[]"]
    by (auto simp: getBinariesAsBuffer_def split: if_splits prod.splits)
qed

lemma load_elements_of_mesh:
  fixes n :: RepoNode and m :: mesh
  defines "bigs \<equiv> bigFiles (mesh_document n m)"
  assumes elems: "doc elems = core (fst (collect_binaries bigs (RepoBSONBuilder, [])))"
    and small: "length (concat (map snd bigs)) < 2 ^ 63"
  shows "load_element 12 elems (concat (map snd bigs)) REPO_NODE_MESH_LABEL_VERTICES vec3s_of_words [] = Inr (vertices m)"
    "load_element 12 elems (concat (map snd bigs)) REPO_NODE_MESH_LABEL_NORMALS vec3s_of_words [] = Inr (normals m)"
    "load_element 4 elems (concat (map snd bigs)) REPO_NODE_MESH_LABEL_FACES (\<lambda>ws. ws) [] = Inr (encode_faces (faces m))"
    "load_element 8 elems (concat (map snd bigs)) REPO_NODE_MESH_LABEL_UV_CHANNELS vec2s_of_words [] = Inr (concat (channels m))"
    "hasField elems REPO_NODE_MESH_LABEL_FACES \<longleftrightarrow> faces m \<noteq> []"
proof -
  note b = mesh_binaries [of m n, folded obj_simps(2), folded mesh_document_def, folded bigs_def]
  note l = load_element_collected [OF elems small]
  show "load_element 12 elems (concat (map snd bigs)) REPO_NODE_MESH_LABEL_VERTICES vec3s_of_words [] = Inr (vertices m)"
    by (subst l) (auto simp: b split: if_splits)
  show "load_element 12 elems (concat (map snd bigs)) REPO_NODE_MESH_LABEL_NORMALS vec3s_of_words [] = Inr (normals m)"
    by (subst l) (auto simp: b split: if_splits)
  show "load_element 4 elems (concat (map snd bigs)) REPO_NODE_MESH_LABEL_FACES (\<lambda>ws. ws) [] = Inr (encode_faces (faces m))"
    by (subst l) (auto simp: b split: if_splits)
  show "load_element 8 elems (concat (map snd bigs)) REPO_NODE_MESH_LABEL_UV_CHANNELS vec2s_of_words [] = Inr (concat (channels m))"
    by (subst l) (auto simp: b split: if_splits)
  have "map_of (doc elems) REPO_NODE_MESH_LABEL_FACES = None \<longleftrightarrow> map_of bigs REPO_NODE_MESH_LABEL_FACES = None"
    using arg_cong [OF collect_binaries_names [of bigs "[]"], of set] by (simp add: map_of_eq_None_iff elems)
  then show "hasField elems REPO_NODE_MESH_LABEL_FACES \<longleftrightarrow> faces m \<noteq> []"
    by (simp add: b)
qed

text \<open>
  C20: what the optimiser streams in is what was stored: for a mesh node whose binaries have been taken out into a buffer, loading
  the geometry from the document with the reference and that buffer succeeds and gives the node's identifier and exactly its
  vertices, faces and normals, and its UV channels unless they are to be ignored.
\<close>

theorem streamed_geometry_is_stored:
  assumes m: "mesh_storable m" and ser: "getBinariesAsBuffer (mesh_document n m) = (elemRefs, buffer)"
    and small: "length buffer < 2 ^ 63"
  shows "SupermeshingData_of (replaceBinaryWithReference fileRef elemRefs (mesh_document n m)) buffer ignoreUVs =
     Inr \<lparr>data_uniqueId = uniqueId n, data_vertices = vertices m, data_faces = faces m, data_normals = normals m,
       data_channels = (if ignoreUVs then [] else channels m)\<rparr>"
proof -
  let ?r = "replaceBinaryWithReference fileRef elemRefs (mesh_document n m)"
  note st = stored_document [OF ser]
  have core: "doc \<lparr>doc = doc elemRefs, bigFiles = []\<rparr> =
      core (fst (collect_binaries (bigFiles (mesh_document n m)) (RepoBSONBuilder, [])))"
    using st(2) by simp
  note ld = load_elements_of_mesh [OF core small [unfolded st(3)], folded st(3)]
  note f = st(4) [of REPO_NODE_LABEL_ID fileRef] st(4) [of REPO_NODE_MESH_LABEL_FACES_COUNT fileRef]
    st(4) [of REPO_NODE_MESH_LABEL_UV_CHANNELS_COUNT fileRef]
  have label: "REPO_NODE_MESH_LABEL_FACES_COUNT \<noteq> REPO_LABEL_BINARY_REFERENCE"
    "REPO_NODE_MESH_LABEL_UV_CHANNELS_COUNT \<noteq> REPO_LABEL_BINARY_REFERENCE" by (simp_all add: mesh_labels binary_labels)
  have "REPO_NODE_LABEL_ID \<noteq> REPO_LABEL_BINARY_REFERENCE" by (simp add: node_labels binary_labels)
  then have ident: "getUUIDField ?r REPO_NODE_LABEL_ID = Inr (uniqueId n)"
    using f(1) by (simp add: found mesh_document_lookups)
  have fs: "load_faces ?r \<lparr>doc = doc elemRefs, bigFiles = []\<rparr> buffer = Inr (faces m)"
  proof (cases "faces m = []")
    case False
    have "getIntField ?r REPO_NODE_MESH_LABEL_FACES_COUNT = Inr (of_nat (length (faces m)))"
      using label(1) f(2) False by (simp add: found mesh_document_lookups)
    moreover have "sint (of_nat (length (faces m)) :: 32 word) = int (length (faces m))"
      using m by (intro sint_of_nat_small) (simp add: mesh_storable_def)
    ultimately show ?thesis
      by (simp add: load_faces_def ld(3) ld(5) False streamed_faces [OF m] del: hasField_iff)
  qed (simp add: load_faces_def ld(5) del: hasField_iff)
  have cs: "load_channels ?r \<lparr>doc = doc elemRefs, bigFiles = []\<rparr> buffer ignoreUVs = Inr (if ignoreUVs then [] else channels m)"
  proof (cases "concat (channels m) = []")
    case True
    then have "channels m = []" using streamed_channels(1) [OF m] by simp
    then show ?thesis by (simp add: load_channels_def ld(4))
  next
    case False
    have "getIntField ?r REPO_NODE_MESH_LABEL_UV_CHANNELS_COUNT = Inr (of_nat (length (channels m)))"
      using label(2) f(3) False by (simp add: found mesh_document_lookups del: concat_eq_Nil_conv)
    moreover have "split_channels (length (channels m)) (concat (channels m)) = channels m"
      using streamed_channels(1) [OF m] False by (simp del: concat_eq_Nil_conv)
    ultimately show ?thesis
      using streamed_channels(2) [OF m False] False by (simp add: load_channels_def ld(4) del: concat_eq_Nil_conv)
  qed
  obtain blobRef where br: "getObjectField ?r REPO_LABEL_BINARY_REFERENCE = Inr blobRef"
    "getObjectField blobRef REPO_LABEL_BINARY_ELEMENTS = Inr \<lparr>doc = doc elemRefs, bigFiles = []\<rparr>"
    using st(1) [of fileRef] by (elim exE conjE)
  show ?thesis
    by (simp only: SupermeshingData_of_def ident br rbind_simps fs cs ld(1,2))
qed

definition triangle_mesh :: mesh where
  "triangle_mesh = empty_mesh\<lparr>faces := [[0, 1, 2]], vertices := [(0, 0, 0), (f_one, 0, 0), (0, f_one, 0)],
     channels := [[(0, 0), (f_one, 0), (0, f_one)]]\<rparr>"

theorem streamed_geometry_is_stored_witness:
  "\<exists>n elemRefs buffer fileRef d. getBinariesAsBuffer (mesh_document n triangle_mesh) = (elemRefs, buffer) \<and>
     SupermeshingData_of (replaceBinaryWithReference fileRef elemRefs (mesh_document n triangle_mesh)) buffer False = Inr d \<and>
     data_faces d = [[0, 1, 2]] \<and> data_channels d = channels triangle_mesh"
proof -
  let ?n = sample_mesh_node
  have m: "mesh_storable triangle_mesh" by (simp add: mesh_storable_def triangle_mesh_def empty_mesh_def)
  obtain elemRefs buffer where ser: "getBinariesAsBuffer (mesh_document ?n triangle_mesh) = (elemRefs, buffer)"
    by (rule prod.exhaust)
  have "length buffer < 2 ^ 63"
    by (simp add: stored_document(3) [OF ser] mesh_document_def mesh_serialise_def appendVertices_def appendFaces_def
      appendNormals_def appendUVChannels_def getUVChannelsSerialised_def faces_level1_encode triangle_mesh_def empty_mesh_def
      appendLargeArray_def encode_faces_def mesh_labels case_prod_beta Let_def)
  from streamed_geometry_is_stored [OF m ser this, of "\<lparr>doc = [], bigFiles = []\<rparr>" False]
  show ?thesis using ser
    by (intro exI [of _ ?n] exI [of _ elemRefs] exI [of _ buffer] exI conjI) (auto simp: triangle_mesh_def)
qed

subsection \<open>Boxes that are moved by two corners\<close>

definition diagonal_turn :: "fp64 matrix" where
  "diagonal_turn = [1, Fp64 0xBFF0000000000000, 0, 0, 1, 1, 0, 0, 0, 0, 1, 0, 0, 0, 0, 1]"

definition unit_square :: RepoBounds where
  "unit_square = \<lparr>bmin = (0, 0, 0), bmax = (d_one, d_one, 0)\<rparr>"

lemma d_one_literal: "d_one = 0x3FF0000000000000" by (simp add: d_one_def)

lemma diagonal_images:
  "\<not> last_row_has_values diagonal_turn"
  "affine_image diagonal_turn (v64 (0, 0, 0)) = (0, 0, 0)"
  "affine_image diagonal_turn (v64 (d_one, d_one, 0)) = (0, Fp64 0x4000000000000000, 0)"
  "affine_image diagonal_turn (v64 (d_one, 0, 0)) = (Fp64 0x3FF0000000000000, Fp64 0x3FF0000000000000, Fp64 0)"
  by (simp_all add: last_row_has_values_def diagonal_turn_def d_one_literal matrix_eval cong: let_weak_cong)

lemma diagonal_square:
  assumes "stream_bounds n = unit_square"
  shows "transformBounds diagonal_turn n = Inr (n\<lparr>stream_bounds := bounds_of (0, 0, 0) (0, 0x4000000000000000, 0)\<rparr>)"
proof -
  have c: "v64 (bmin (stream_bounds n)) = v64 (0, 0, 0)" "v64 (bmax (stream_bounds n)) = v64 (d_one, d_one, 0)"
    by (simp_all add: assms unit_square_def)
  show ?thesis
    unfolding transformBounds_def transform64_def c if_not_P [OF diagonal_images(1)] rbind_simps diagonal_images
    by (simp add: zero_fp64_def)
qed



end
