(* ===== verification/Bvh.thy ===== *)
theory Bvh
  imports Streaming
begin

text \<open>
  The walks over a bounding volume hierarchy in \<open>manipulator/modeloptimizer/repo_optimizer_multipart.cpp\<close>. The hierarchy is an
  array of nodes, made by a library: a node is a leaf with a range of the array of primitives, or a branch whose
  two children follow one another. The walks are loops over a queue or a stack that would not end on an array with a
  cycle; what they do is proved for an array that represents a tree.
\<close>

subsection \<open>The array\<close>

text \<open>\<open>bvh::Bvh\<close>; the nodes and their number are one list. The box of a node is not used after the hierarchy is built.\<close>

record bvh_node =
  primitive_count :: nat
  first_child_or_primitive :: nat

definition is_leaf :: "bvh_node \<Rightarrow> bool" where
  "is_leaf node \<longleftrightarrow> primitive_count node \<noteq> 0"

record Bvh =
  bvh_nodes :: "bvh_node list"
  primitive_indices :: "nat list"

abbreviation node_count :: "Bvh \<Rightarrow> nat" where "node_count b \<equiv> length (bvh_nodes b)"

abbreviation left_child :: "bvh_node \<Rightarrow> nat" where "left_child node \<equiv> first_child_or_primitive node"
abbreviation right_child :: "bvh_node \<Rightarrow> nat" where "right_child node \<equiv> Suc (first_child_or_primitive node)"

definition leaf_primitives :: "Bvh \<Rightarrow> bvh_node \<Rightarrow> nat list result" where
  "leaf_primitives b node =
     rtraverse (\<lambda>i. MeshOps.at (primitive_indices b) (first_child_or_primitive node + i)) [0..<primitive_count node]"

subsection \<open>Walks\<close>

text \<open>\<open>flattenBvh\<close>: breadth first, because of the queue.\<close>

partial_function (option) flatten_loop ::
  "Bvh \<Rightarrow> nat list \<Rightarrow> nat list \<Rightarrow> nat list \<Rightarrow> (nat list \<times> nat list) result option" where
  "flatten_loop b nodeQueue leaves branches =
     (case nodeQueue of
        [] \<Rightarrow> Some (Inr (leaves, branches))
      | index # q \<Rightarrow>
          if node_count b \<le> index then Some (Inl OutOfRange)
          else let node = bvh_nodes b ! index
               in if is_leaf node then flatten_loop b q (leaves @ [index]) branches
                  else flatten_loop b (q @ [left_child node, right_child node]) leaves (branches @ [index]))"

declare flatten_loop.simps [code]

definition flattenBvh :: "Bvh \<Rightarrow> (nat list \<times> nat list) result option" where
  "flattenBvh b = flatten_loop b [0] [] []"

text \<open>\<open>getBranchPrimitives\<close>: depth first; the right child is on top of the stack.\<close>

partial_function (option) primitives_loop :: "Bvh \<Rightarrow> nat list \<Rightarrow> nat list \<Rightarrow> nat list result option" where
  "primitives_loop b nodeStack primitives =
     (case nodeStack of
        [] \<Rightarrow> Some (Inr primitives)
      | index # st \<Rightarrow>
          if node_count b \<le> index then Some (Inl OutOfRange)
          else let node = bvh_nodes b ! index
               in if is_leaf node
                  then (case leaf_primitives b node of
                          Inl e \<Rightarrow> Some (Inl e)
                        | Inr ps \<Rightarrow> primitives_loop b st (primitives @ ps))
                  else primitives_loop b (right_child node # left_child node # st) primitives)"

declare primitives_loop.simps [code]

definition getBranchPrimitives :: "Bvh \<Rightarrow> nat \<Rightarrow> nat list result option" where
  "getBranchPrimitives b head = primitives_loop b [head] []"

definition REPO_MP_MAX_VERTEX_COUNT :: nat where "REPO_MP_MAX_VERTEX_COUNT = 1200000"

partial_function (option) branch_nodes_loop :: "Bvh \<Rightarrow> nat list \<Rightarrow> nat list \<Rightarrow> nat list \<Rightarrow> nat list result option" where
  "branch_nodes_loop b vertexCounts nodeStack branchNodes =
     (case nodeStack of
        [] \<Rightarrow> Some (Inr branchNodes)
      | index # st \<Rightarrow>
          if node_count b \<le> index \<or> length vertexCounts \<le> index then Some (Inl OutOfRange)
          else let node = bvh_nodes b ! index
               in if vertexCounts ! index < REPO_MP_MAX_VERTEX_COUNT \<or> is_leaf node
                  then branch_nodes_loop b vertexCounts st (branchNodes @ [index])
                  else branch_nodes_loop b vertexCounts (right_child node # left_child node # st) branchNodes)"

declare branch_nodes_loop.simps [code]

definition getSupermeshBranchNodes :: "Bvh \<Rightarrow> nat list \<Rightarrow> nat list result option" where
  "getSupermeshBranchNodes b vertexCounts = branch_nodes_loop b vertexCounts [0] []"

subsection \<open>Vertex counts\<close>

text \<open>Sizes are \<open>size_t\<close> sums of 32-bit counts, which no array of meshes can make overflow.\<close>

definition leaf_vertex_count :: "Bvh \<Rightarrow> nat list \<Rightarrow> StreamingMeshNode list \<Rightarrow> bvh_node \<Rightarrow> nat result" where
  "leaf_vertex_count b binIndexes ms node =
     rfold (\<lambda>i vertexCount.
         rbind (MeshOps.at (primitive_indices b) (first_child_or_primitive node + i)) (\<lambda>primitiveIndex.
           if length binIndexes \<le> primitiveIndex
           then Inl (RepoException ''Primitive index out of bounds when calculating vertex counts for BVH nodes. This likely means there is a mismatch between the primitives in the BVH and the input meshes.'')
           else rbind (MeshOps.at ms (binIndexes ! primitiveIndex)) (\<lambda>mesh.
             Inr (vertexCount + unat (stream_numVertices mesh)))))
       [0..<primitive_count node] 0"

definition count_leaf :: "Bvh \<Rightarrow> nat list \<Rightarrow> StreamingMeshNode list \<Rightarrow> nat \<Rightarrow> nat list \<Rightarrow> nat list result" where
  "count_leaf b binIndexes ms nodeIndex vertexCounts =
     rbind (MeshOps.at (bvh_nodes b) nodeIndex) (\<lambda>node.
     rbind (leaf_vertex_count b binIndexes ms node) (\<lambda>vertexCount.
       Inr (vertexCounts[nodeIndex := vertexCount])))"

definition count_branch :: "Bvh \<Rightarrow> nat \<Rightarrow> nat list \<Rightarrow> nat list result" where
  "count_branch b nodeIndex vertexCounts =
     rbind (MeshOps.at (bvh_nodes b) nodeIndex) (\<lambda>node.
     rbind (MeshOps.at vertexCounts (left_child node)) (\<lambda>l.
     rbind (MeshOps.at vertexCounts (right_child node)) (\<lambda>r.
       Inr (vertexCounts[nodeIndex := l + r]))))"

definition getVertexCounts :: "Bvh \<Rightarrow> nat list \<Rightarrow> StreamingMeshNode list \<Rightarrow> nat list result option" where
  "getVertexCounts b binIndexes ms =
     map_option (\<lambda>r. rbind r (\<lambda>(leaves, flattened).
         rbind (rfold (count_leaf b binIndexes ms) leaves (replicate (node_count b) 0))
           (rfold (count_branch b) (rev flattened))))
       (flattenBvh b)"

subsection \<open>Trees\<close>

datatype bvh_tree = BvhLeaf nat "nat list" | BvhBranch nat bvh_tree bvh_tree

fun root_index :: "bvh_tree \<Rightarrow> nat" where
  "root_index (BvhLeaf i ps) = i"
| "root_index (BvhBranch i l r) = i"

fun tree_indices :: "bvh_tree \<Rightarrow> nat list" where
  "tree_indices (BvhLeaf i ps) = [i]"
| "tree_indices (BvhBranch i l r) = i # tree_indices l @ tree_indices r"

text \<open>The primitives, in the order \<open>getBranchPrimitives\<close> finds them.\<close>

fun tree_primitives :: "bvh_tree \<Rightarrow> nat list" where
  "tree_primitives (BvhLeaf i ps) = ps"
| "tree_primitives (BvhBranch i l r) = tree_primitives r @ tree_primitives l"

fun subtrees :: "bvh_tree \<Rightarrow> bvh_tree list" where
  "subtrees (BvhLeaf i ps) = [BvhLeaf i ps]"
| "subtrees (BvhBranch i l r) = BvhBranch i l r # subtrees l @ subtrees r"

fun is_leaf_tree :: "bvh_tree \<Rightarrow> bool" where
  "is_leaf_tree (BvhLeaf i ps) = True"
| "is_leaf_tree (BvhBranch i l r) = False"

text \<open>The part of the array below a node is the tree; a leaf of the library has a primitive.\<close>

fun represents :: "Bvh \<Rightarrow> bvh_tree \<Rightarrow> bool" where
  "represents b (BvhLeaf i ps) \<longleftrightarrow> i < node_count b \<and> is_leaf (bvh_nodes b ! i) \<and>
     leaf_primitives b (bvh_nodes b ! i) = Inr ps"
| "represents b (BvhBranch i l r) \<longleftrightarrow> i < node_count b \<and> \<not> is_leaf (bvh_nodes b ! i) \<and>
     root_index l = left_child (bvh_nodes b ! i) \<and> root_index r = right_child (bvh_nodes b ! i) \<and>
     represents b l \<and> represents b r"

text \<open>What a builder promises: the array is a tree with its root at index 0 over the primitives \<open>0..n-1\<close>, each of them once.\<close>

definition hierarchy :: "Bvh \<Rightarrow> nat \<Rightarrow> bvh_tree \<Rightarrow> bool" where
  "hierarchy b n t \<longleftrightarrow> represents b t \<and> root_index t = 0 \<and> distinct (tree_indices t) \<and> mset (tree_primitives t) = mset [0..<n]"

fun forest_step :: "bvh_tree \<Rightarrow> bvh_tree list" where
  "forest_step (BvhLeaf i ps) = []"
| "forest_step (BvhBranch i l r) = [l, r]"

function breadth_first :: "bvh_tree list \<Rightarrow> bvh_tree list" where
  "breadth_first [] = []"
| "breadth_first (t # ts) = t # breadth_first (ts @ forest_step t)"
  by pat_completeness auto
termination
proof (relation "measure (\<lambda>ts. sum_list (map (\<lambda>t. length (tree_indices t)) ts))")
  show "(ts @ forest_step t, t # ts) \<in> measure (\<lambda>ts. sum_list (map (\<lambda>t. length (tree_indices t)) ts))" for t ts
    by (cases t) auto
qed simp

fun cut :: "(nat \<Rightarrow> nat) \<Rightarrow> bvh_tree \<Rightarrow> bvh_tree list" where
  "cut vc (BvhLeaf i ps) = [BvhLeaf i ps]"
| "cut vc (BvhBranch i l r) =
     (if sum_list (map vc (tree_primitives (BvhBranch i l r))) < REPO_MP_MAX_VERTEX_COUNT
      then [BvhBranch i l r] else cut vc r @ cut vc l)"

lemma root_index_in [simp]: "root_index t \<in> set (tree_indices t)"
  by (cases t) auto

lemma represents_root: "represents b t \<Longrightarrow> root_index t < node_count b"
  by (cases t) auto

lemma represents_indices: "represents b t \<Longrightarrow> i \<in> set (tree_indices t) \<Longrightarrow> i < node_count b"
  by (induction t) auto

lemma represents_subtrees: "represents b t \<Longrightarrow> s \<in> set (subtrees t) \<Longrightarrow> represents b s"
  by (induction t) auto

lemma subtree_refl [simp]: "t \<in> set (subtrees t)"
  by (cases t) auto

lemma subtree_primitives: "s \<in> set (subtrees t) \<Longrightarrow> set (tree_primitives s) \<subseteq> set (tree_primitives t)"
  by (induction t) auto

lemma subtree_indices: "s \<in> set (subtrees t) \<Longrightarrow> set (tree_indices s) \<subseteq> set (tree_indices t)"
  by (induction t) auto

lemma subtree_root: "s \<in> set (subtrees t) \<Longrightarrow> root_index s \<in> set (tree_indices t)"
  using subtree_indices root_index_in by blast

lemma hierarchy_primitives: "hierarchy b n t \<Longrightarrow> set (tree_primitives t) = {0..<n} \<and> distinct (tree_primitives t)"
  by (metis hierarchy_def mset_eq_setD mset_eq_imp_distinct_iff set_upt distinct_upt)

subsection \<open>The walks on trees\<close>

lemma flatten_forest:
  assumes "\<forall>t \<in> set ts. represents b t"
  shows "flatten_loop b (map root_index ts) leaves branches =
    Some (Inr (leaves @ map root_index (filter is_leaf_tree (breadth_first ts)),
               branches @ map root_index (filter (\<lambda>t. \<not> is_leaf_tree t) (breadth_first ts))))"
  using assms
proof (induction ts arbitrary: leaves branches rule: breadth_first.induct)
  case 1
  then show ?case by (simp add: flatten_loop.simps)
next
  case (2 t ts)
  then have "\<forall>t \<in> set (ts @ forest_step t). represents b t" by (cases t) auto
  note IH = "2.IH" [OF this]
  show ?case
    using 2(2) by (subst flatten_loop.simps; cases t) (use IH in \<open>auto simp: Let_def\<close>)
qed

lemma primitives_of_tree:
  assumes "represents b t"
  shows "primitives_loop b (root_index t # st) primitives = primitives_loop b st (primitives @ tree_primitives t)"
  using assms
proof (induction t arbitrary: st primitives)
  case (BvhLeaf i ps)
  then show ?case by (subst primitives_loop.simps) simp
next
  case (BvhBranch i l r)
  let ?n = "bvh_nodes b ! i"
  have n: "\<not> node_count b \<le> i" "\<not> is_leaf ?n" "left_child ?n = root_index l" "Suc (root_index l) = root_index r"
    and c: "represents b l" "represents b r"
    using BvhBranch.prems by auto
  show ?case
    by (subst primitives_loop.simps) (simp only: root_index.simps list.case Let_def n if_False BvhBranch.IH(1) [OF c(1)]
      BvhBranch.IH(2) [OF c(2)] tree_primitives.simps append_assoc)
qed

lemma getBranchPrimitives_tree: "represents b t \<Longrightarrow> getBranchPrimitives b (root_index t) = Some (Inr (tree_primitives t))"
  by (simp add: getBranchPrimitives_def primitives_of_tree primitives_loop.simps [of b "[]"])

lemma branch_nodes_of_tree:
  assumes "represents b t" and "\<And>s. s \<in> set (subtrees t) \<Longrightarrow> root_index s < length counts \<and>
      counts ! root_index s = sum_list (map vc (tree_primitives s))"
  shows "branch_nodes_loop b counts (root_index t # st) acc = branch_nodes_loop b counts st (acc @ map root_index (cut vc t))"
  using assms
proof (induction t arbitrary: st acc)
  case (BvhLeaf i ps)
  then show ?case using BvhLeaf.prems(2) [of "BvhLeaf i ps"] by (subst branch_nodes_loop.simps) (auto simp: Let_def)
next
  case (BvhBranch i l r)
  have l: "branch_nodes_loop b counts (root_index l # st) acc = branch_nodes_loop b counts st (acc @ map root_index (cut vc l))" for st acc
    using BvhBranch.prems by (intro BvhBranch.IH) auto
  have r: "branch_nodes_loop b counts (root_index r # st) acc = branch_nodes_loop b counts st (acc @ map root_index (cut vc r))" for st acc
    using BvhBranch.prems by (intro BvhBranch.IH) auto
  let ?n = "bvh_nodes b ! i"
  have n: "\<not> (node_count b \<le> i \<or> length counts \<le> i)" "\<not> is_leaf ?n" "left_child ?n = root_index l" "Suc (root_index l) = root_index r"
    and c: "counts ! i = sum_list (map vc (tree_primitives (BvhBranch i l r)))"
    using BvhBranch.prems(1) BvhBranch.prems(2) [of "BvhBranch i l r"] by auto
  show ?case
  proof (cases "counts ! i < REPO_MP_MAX_VERTEX_COUNT")
    case True
    then show ?thesis
      by (subst branch_nodes_loop.simps) (simp only: root_index.simps list.case Let_def n if_False if_True True simp_thms,
        simp only: cut.simps c [symmetric] True if_True list.map root_index.simps)
  next
    case False
    then show ?thesis
      by (subst branch_nodes_loop.simps) (simp only: root_index.simps list.case Let_def n if_False False simp_thms l r,
        simp only: cut.simps c [symmetric] False if_False map_append append_assoc)
  qed
qed

subsection \<open>Counting\<close>

lemma set_breadth_first: "set (breadth_first ts) = (\<Union>t \<in> set ts. set (subtrees t))"
proof (induction ts rule: breadth_first.induct)
  case (2 t ts)
  then show ?case by (cases t) auto
qed simp

text \<open>A loop that writes into a vector.\<close>

lemma rfold_updates:
  assumes "\<And>i cs. i \<in> set is \<Longrightarrow> length cs = n \<Longrightarrow> f i cs = Inr (cs[i := v i])" and "length cs = n"
  shows "\<exists>cs'. rfold f is cs = Inr cs' \<and> length cs' = n \<and> (\<forall>j < n. cs' ! j = (if j \<in> set is then v j else cs ! j))"
  using assms
proof (induction "is" arbitrary: cs)
  case Nil
  then show ?case by simp
next
  case (Cons i "is")
  have "length (cs[i := v i]) = n" using Cons.prems(2) by simp
  then obtain cs' where "rfold f is (cs[i := v i]) = Inr cs'" "length cs' = n"
    "\<forall>j < n. cs' ! j = (if j \<in> set is then v j else cs[i := v i] ! j)"
    using Cons.IH [of "cs[i := v i]"] Cons.prems(1) by auto
  moreover have "f i cs = Inr (cs[i := v i])" using Cons.prems by simp
  ultimately show ?case using Cons.prems(2) by (auto simp: nth_list_update)
qed

lemma rfold_sum:
  assumes "rtraverse f xs = Inr ps" and "\<And>p acc. p \<in> set ps \<Longrightarrow> g p acc = Inr (acc + vc p)"
  shows "rfold (\<lambda>x acc. rbind (f x) (\<lambda>p. g p acc)) xs acc = Inr (acc + sum_list (map vc ps) :: nat)"
  using assms by (induction xs arbitrary: acc ps) (auto simp: rbind_Inr_iff)

definition mesh_count :: "nat list \<Rightarrow> StreamingMeshNode list \<Rightarrow> nat \<Rightarrow> nat" where
  "mesh_count binIndexes ms p = unat (stream_numVertices (ms ! (binIndexes ! p)))"

lemma count_leaf_tree:
  assumes "represents b (BvhLeaf i ps)" and "\<forall>p \<in> set ps. p < length binIndexes \<and> binIndexes ! p < length ms"
  shows "count_leaf b binIndexes ms i cs = Inr (cs[i := sum_list (map (mesh_count binIndexes ms) ps)])"
proof -
  have "leaf_vertex_count b binIndexes ms (bvh_nodes b ! i) = Inr (0 + sum_list (map (mesh_count binIndexes ms) ps))"
    unfolding leaf_vertex_count_def
    by (rule rfold_sum) (use assms in \<open>auto simp: leaf_primitives_def MeshOps.at_def mesh_count_def dest: leD\<close>)
  then show ?thesis using assms(1) by (simp add: count_leaf_def MeshOps.at_def)
qed

definition counted :: "(nat \<Rightarrow> nat) \<Rightarrow> nat list \<Rightarrow> bvh_tree \<Rightarrow> bool" where
  "counted vc counts s \<longleftrightarrow> counts ! root_index s = sum_list (map vc (tree_primitives s))"

lemma count_branches:
  assumes "\<forall>t \<in> set ts. represents b t" and "distinct (concat (map tree_indices ts))" and "length counts = node_count b"
    and "\<forall>s \<in> set (breadth_first ts). is_leaf_tree s \<longrightarrow> counted vc counts s"
  shows "\<exists>counts'. rfold (count_branch b) (rev (map root_index (filter (\<lambda>t. \<not> is_leaf_tree t) (breadth_first ts)))) counts = Inr counts' \<and>
     length counts' = node_count b \<and> (\<forall>s \<in> set (breadth_first ts). counted vc counts' s) \<and>
     (\<forall>j < node_count b. j \<notin> set (concat (map tree_indices ts)) \<longrightarrow> counts' ! j = counts ! j)"
  using assms
proof (induction ts rule: breadth_first.induct)
  case 1
  then show ?case by simp
next
  case (2 t ts)
  show ?case
  proof (cases t)
    case (BvhLeaf i ps)
    obtain counts' where c: "rfold (count_branch b) (rev (map root_index (filter (\<lambda>t. \<not> is_leaf_tree t) (breadth_first ts)))) counts = Inr counts'"
      "length counts' = node_count b" "\<forall>s \<in> set (breadth_first ts). counted vc counts' s"
      "\<forall>j < node_count b. j \<notin> set (concat (map tree_indices ts)) \<longrightarrow> counts' ! j = counts ! j"
      using "2.IH" "2.prems" BvhLeaf by auto
    have "counted vc counts' t"
      using c(4) "2.prems" BvhLeaf by (auto simp: counted_def)
    then show ?thesis using c BvhLeaf by auto
  next
    case (BvhBranch i l r)
    have prems: "\<forall>t \<in> set (ts @ [l, r]). represents b t" "distinct (concat (map tree_indices (ts @ [l, r])))"
      "\<forall>s \<in> set (breadth_first (ts @ [l, r])). is_leaf_tree s \<longrightarrow> counted vc counts s"
      using "2.prems" BvhBranch by auto
    from "2.IH" [unfolded BvhBranch forest_step.simps, OF prems(1,2) "2.prems"(3) prems(3)]
    obtain counts' where c: "rfold (count_branch b) (rev (map root_index (filter (\<lambda>t. \<not> is_leaf_tree t) (breadth_first (ts @ [l, r]))))) counts = Inr counts'"
      "length counts' = node_count b" "\<forall>s \<in> set (breadth_first (ts @ [l, r])). counted vc counts' s"
      "\<forall>j < node_count b. j \<notin> set (concat (map tree_indices (ts @ [l, r]))) \<longrightarrow> counts' ! j = counts ! j"
      by (elim exE conjE)
    define counts'' where "counts'' = counts'[i := counts' ! root_index l + counts' ! root_index r]"
    have rep: "i < node_count b" "root_index l = left_child (bvh_nodes b ! i)" "root_index r = right_child (bvh_nodes b ! i)"
      "root_index l < node_count b" "root_index r < node_count b"
      using "2.prems"(1) BvhBranch represents_root [of b l] represents_root [of b r] by auto
    have step: "count_branch b i counts' = Inr counts''"
      using rep c(2) by (simp add: count_branch_def MeshOps.at_def counts''_def)
    have lr: "counted vc counts' l" "counted vc counts' r"
      using c(3) by (auto simp: set_breadth_first)
    have "counted vc counts'' s" if "s \<in> set (breadth_first (ts @ [l, r]))" for s
    proof -
      have "root_index s \<in> set (concat (map tree_indices (ts @ [l, r])))"
        using that by (auto simp: set_breadth_first dest: subtree_root)
      moreover have "i \<notin> set (concat (map tree_indices (ts @ [l, r])))"
        using "2.prems"(2) BvhBranch by auto
      ultimately have "root_index s \<noteq> i" by metis
      then show ?thesis using c(3) that by (simp add: counted_def counts''_def)
    qed
    moreover have "counted vc counts'' t"
      using lr rep c(2) by (simp add: BvhBranch counted_def counts''_def)
    moreover have "\<forall>j < node_count b. j \<notin> set (concat (map tree_indices (t # ts))) \<longrightarrow> counts'' ! j = counts ! j"
      using c(4) BvhBranch by (auto simp: counts''_def)
    ultimately show ?thesis
      using c(1,2) step BvhBranch by (auto simp: rfold_append counts''_def)
  qed
qed

lemma flattenBvh_tree:
  assumes "represents b t" and "root_index t = 0"
  shows "flattenBvh b = Some (Inr (map root_index (filter is_leaf_tree (breadth_first [t])),
    map root_index (filter (\<lambda>t. \<not> is_leaf_tree t) (breadth_first [t]))))"
  using flatten_forest [of "[t]" b "[]" "[]"] assms by (simp add: flattenBvh_def)

lemma getVertexCounts_tree:
  assumes h: "hierarchy b n t" and n: "length binIndexes = n" and ms: "\<forall>i \<in> set binIndexes. i < length ms"
  shows "\<exists>counts. getVertexCounts b binIndexes ms = Some (Inr counts) \<and> length counts = node_count b \<and>
    (\<forall>s \<in> set (subtrees t). counted (mesh_count binIndexes ms) counts s)"
proof -
  note [simp del] = breadth_first.simps
  let ?vc = "mesh_count binIndexes ms" and ?leaves = "filter is_leaf_tree (breadth_first [t])"
  have rep: "represents b t" "root_index t = 0" "distinct (tree_indices t)" using h by (simp_all add: hierarchy_def)
  have bf: "set (breadth_first [t]) = set (subtrees t)" unfolding set_breadth_first by simp
  define v where "v i = (case leaf_primitives b (bvh_nodes b ! i) of Inr ps \<Rightarrow> sum_list (map ?vc ps) | Inl e \<Rightarrow> 0)" for i
  have leaf: "count_leaf b binIndexes ms (root_index s) cs = Inr (cs[root_index s := v (root_index s)]) \<and>
      v (root_index s) = sum_list (map ?vc (tree_primitives s))" if ls: "s \<in> set ?leaves" for s cs
  proof -
    have "is_leaf_tree s" using ls by simp
    then obtain i ps where s: "s = BvhLeaf i ps" by (cases s) simp_all
    have st: "s \<in> set (subtrees t)" using ls bf by simp
    have r: "represents b (BvhLeaf i ps)" using represents_subtrees [OF rep(1) st] s by simp
    have "\<forall>p \<in> set ps. p < length binIndexes \<and> binIndexes ! p < length ms"
      using subtree_primitives [OF st] hierarchy_primitives [OF h] n ms s by auto
    from count_leaf_tree [OF r this, of cs] r show ?thesis by (simp add: s v_def)
  qed
  have "\<exists>cs. rfold (count_leaf b binIndexes ms) (map root_index ?leaves) (replicate (node_count b) 0) = Inr cs \<and>
      length cs = node_count b \<and> (\<forall>j < node_count b. cs ! j = (if j \<in> set (map root_index ?leaves) then v j else replicate (node_count b) 0 ! j))"
    by (rule rfold_updates) (use leaf in auto)
  then obtain cs where cs: "rfold (count_leaf b binIndexes ms) (map root_index ?leaves) (replicate (node_count b) 0) = Inr cs"
    "length cs = node_count b" "\<forall>j < node_count b. j \<in> set (map root_index ?leaves) \<longrightarrow> cs ! j = v j"
    by auto
  have c: "\<forall>s \<in> set (breadth_first [t]). is_leaf_tree s \<longrightarrow> counted ?vc cs s"
  proof (intro ballI impI)
    fix s assume s: "s \<in> set (breadth_first [t])" "is_leaf_tree s"
    then have "root_index s < node_count b"
      using bf represents_root represents_subtrees [OF rep(1)] by metis
    with s cs(3) leaf [of s] show "counted ?vc cs s" by (simp add: counted_def)
  qed
  from count_branches [of "[t]" b cs ?vc] rep cs(2) c
  obtain cs' where "rfold (count_branch b) (rev (map root_index (filter (\<lambda>t. \<not> is_leaf_tree t) (breadth_first [t])))) cs = Inr cs'"
    "length cs' = node_count b" "\<forall>s \<in> set (breadth_first [t]). counted ?vc cs' s"
    by auto
  then show ?thesis
    by (intro exI [of _ cs']) (simp only: getVertexCounts_def flattenBvh_tree [OF rep(1,2)] option.map rbind_simps prod.case cs(1) bf simp_thms)
qed

text \<open>The heads are the cut of the tree.\<close>

lemma getSupermeshBranchNodes_tree:
  assumes "hierarchy b n t" and "length counts = node_count b" and "\<forall>s \<in> set (subtrees t). counted vc counts s"
  shows "getSupermeshBranchNodes b counts = Some (Inr (map root_index (cut vc t)))"
proof -
  have rep: "represents b t" and root0: "root_index t = 0" using assms(1) by (simp_all add: hierarchy_def)
  have "branch_nodes_loop b counts (root_index t # []) [] = branch_nodes_loop b counts [] ([] @ map root_index (cut vc t))"
  proof (rule branch_nodes_of_tree [OF rep])
    show "root_index s < length counts \<and> counts ! root_index s = sum_list (map vc (tree_primitives s))"
      if "s \<in> set (subtrees t)" for s
      using that assms(2,3) represents_root [OF represents_subtrees [OF rep that]] by (simp add: counted_def)
  qed
  then show ?thesis by (simp add: getSupermeshBranchNodes_def root0 branch_nodes_loop.simps [of b counts "[]"])
qed

lemma cut_primitives: "concat (map tree_primitives (cut vc t)) = tree_primitives t"
  by (induction t) auto

lemma cut_subtrees: "set (cut vc t) \<subseteq> set (subtrees t)"
  by (induction t) auto

lemma cut_small:
  "s \<in> set (cut vc t) \<Longrightarrow> is_leaf_tree s \<or> sum_list (map vc (tree_primitives s)) < REPO_MP_MAX_VERTEX_COUNT"
  by (induction t) (auto split: if_splits)

end
