(* ===== verification/Clusters.thy ===== *)
theory Clusters
  imports Bvh
begin

text \<open>
  Which meshes go into one supermesh: \<open>clusterMeshNodes\<close> of \<open>manipulator/modeloptimizer/repo_optimizer_multipart.cpp\<close>. The meshes
  with the fewest vertices for their size fill bins in that order; the others are clustered in space; clusters of too many meshes are
  cut. Meshes are their positions in a vector, which are \<open>int\<close>s that cannot overflow; the sums of vertices can, and are words.
\<close>

subsection \<open>Clusters in space\<close>

definition REPO_MP_MAX_MESHES_IN_SUPERMESH :: nat where "REPO_MP_MAX_MESHES_IN_SUPERMESH = 5000"

text \<open>The boxes the builder of the hierarchy gets: in single precision, with their centers left to the library.\<close>

definition narrow_point :: "vec3d \<Rightarrow> vec3f" where
  "narrow_point p = (case p of (x, y, z) \<Rightarrow> (double_to_float x, double_to_float y, double_to_float z))"

type_synonym bvh_builder = "(vec3f \<times> vec3f) list \<Rightarrow> Bvh"

definition buildBoundsBvh :: "bvh_builder \<Rightarrow> nat list \<Rightarrow> StreamingMeshNode list \<Rightarrow> Bvh result" where
  "buildBoundsBvh build binIndexes ms =
     rbind (rtraverse (MeshOps.at ms) binIndexes) (\<lambda>nodes.
       Inr (build (map (\<lambda>node. (narrow_point (bmin (stream_bounds node)), narrow_point (bmax (stream_bounds node)))) nodes)))"

text \<open>A walk may not end, so its result is an option.\<close>

definition owalk :: "'a result option \<Rightarrow> ('a \<Rightarrow> 'b result option) \<Rightarrow> 'b result option" where
  "owalk r f = (case r of None \<Rightarrow> None | Some (Inl e) \<Rightarrow> Some (Inl e) | Some (Inr x) \<Rightarrow> f x)"

fun owalk_all :: "('a \<Rightarrow> 'b result option) \<Rightarrow> 'a list \<Rightarrow> 'b list result option" where
  "owalk_all f [] = Some (Inr [])"
| "owalk_all f (x # xs) = owalk (f x) (\<lambda>y. owalk (owalk_all f xs) (\<lambda>ys. Some (Inr (y # ys))))"

definition clusterMeshNodesBvh ::
  "bvh_builder \<Rightarrow> StreamingMeshNode list \<Rightarrow> nat list \<Rightarrow> nat list list \<Rightarrow> nat list list result option" where
  "clusterMeshNodesBvh build ms binIndexes clusters =
     owalk (Some (buildBoundsBvh build binIndexes ms)) (\<lambda>b.
     owalk (getVertexCounts b binIndexes ms) (\<lambda>vertexCounts.
     owalk (getSupermeshBranchNodes b vertexCounts) (\<lambda>branchNodes.
     owalk (owalk_all (getBranchPrimitives b) branchNodes) (\<lambda>pss.
       Some (rbind (rtraverse (rtraverse (MeshOps.at binIndexes)) pss) (\<lambda>cs. Inr (clusters @ cs)))))))"

subsection \<open>Clusters of too many meshes\<close>

text \<open>\<open>remove_if\<close> goes through the clusters in order. The vector \<open>cluster\<close> is not cleared after the last part of a cluster is added.\<close>

fun fill_clusters :: "nat list \<Rightarrow> nat list \<Rightarrow> nat list list \<Rightarrow> nat list \<times> nat list list" where
  "fill_clusters [] cluster clusters = (cluster, clusters)"
| "fill_clusters (i # is) cluster clusters =
     (let cluster = cluster @ [i]
      in if REPO_MP_MAX_MESHES_IN_SUPERMESH \<le> length cluster then fill_clusters is [] (clusters @ [cluster])
         else fill_clusters is cluster clusters)"

fun split_clusters :: "nat list list \<Rightarrow> nat list \<Rightarrow> nat list list \<Rightarrow> nat list list" where
  "split_clusters [] cluster clusters = clusters"
| "split_clusters (clusterToSplit # rest) cluster clusters =
     (let (cluster, clusters) = fill_clusters clusterToSplit cluster clusters
      in split_clusters rest cluster (if cluster \<noteq> [] then clusters @ [cluster] else clusters))"

definition too_many :: "nat list \<Rightarrow> bool" where
  "too_many cluster \<longleftrightarrow> REPO_MP_MAX_MESHES_IN_SUPERMESH < length cluster"

definition splitBigClusters :: "nat list list \<Rightarrow> nat list list" where
  "splitBigClusters clusters =
     split_clusters (filter too_many clusters) [] (filter (\<lambda>c. \<not> too_many c) clusters)"

subsection \<open>Clusters by efficiency\<close>

record meshMetric =
  nodeIndex :: nat
  efficiency :: cfloat

definition mesh_metric :: "nat \<Rightarrow> StreamingMeshNode \<Rightarrow> meshMetric" where
  "mesh_metric i node =
     (case bounds_size (stream_bounds node) of (width, height, len) \<Rightarrow>
        \<lparr>nodeIndex = i,
         efficiency = bits32 (narrow (divide (widen (Fp32 (float_of_size (unat (stream_numVertices node))))) (width + height + len)))\<rparr>)"

definition REPO_MODEL_LOW_CLUSTERING_RATIO :: "64 word" where
  "REPO_MODEL_LOW_CLUSTERING_RATIO = 0" \<comment> \<open>a \<open>size_t\<close> initialised with \<open>0.2f\<close>\<close>

definition total_vertices :: "StreamingMeshNode list \<Rightarrow> 32 word" where
  "total_vertices ms = foldl (\<lambda>totalVertices mesh. totalVertices + stream_numVertices mesh) 0 ms"

definition modelLowerThreshold :: "StreamingMeshNode list \<Rightarrow> int" where
  "modelLowerThreshold ms =
     max (int REPO_MP_MAX_VERTEX_COUNT) (sint (ucast (scast (total_vertices ms) * REPO_MODEL_LOW_CLUSTERING_RATIO) :: 32 word))"

text \<open>The loop over the metrics: the clusters, the bin that is not full and the metrics that are left.\<close>

fun fill_bins ::
  "StreamingMeshNode list \<Rightarrow> meshMetric list \<Rightarrow> 32 word \<Rightarrow> 32 word \<Rightarrow> nat list \<Rightarrow> nat list list \<Rightarrow>
     (nat list list \<times> nat list \<times> meshMetric list) result" where
  "fill_bins ms [] binVertexCount binsVertexCount bin clusters = Inr (clusters, bin, [])"
| "fill_bins ms (item # metrics) binVertexCount binsVertexCount bin clusters =
     (if sint binsVertexCount \<le> modelLowerThreshold ms
      then rbind (MeshOps.at ms (nodeIndex item)) (\<lambda>node.
             let binVertexCount = binVertexCount + stream_numVertices node;
                 binsVertexCount = binsVertexCount + stream_numVertices node;
                 bin = bin @ [nodeIndex item]
             in if int REPO_MP_MAX_VERTEX_COUNT \<le> sint binVertexCount
                then fill_bins ms metrics 0 binsVertexCount [] (clusters @ [bin])
                else fill_bins ms metrics binVertexCount binsVertexCount bin clusters)
      else Inr (clusters, bin, item # metrics))"

text \<open>
  Sorting by efficiency, with the key of a float as a natural number. A NaN makes the comparison no order, for which
  \<open>std::sort\<close> is undefined.
\<close>

definition efficiency_key :: "meshMetric \<Rightarrow> nat" where
  "efficiency_key a = nat (fkey (efficiency a) + 2 ^ 32)"

definition sorted_metrics ::
  "((meshMetric \<Rightarrow> nat) \<Rightarrow> meshMetric list \<Rightarrow> meshMetric list) \<Rightarrow> StreamingMeshNode list \<Rightarrow> meshMetric list result" where
  "sorted_metrics srt ms =
     (let metrics = map2 mesh_metric [0..<length ms] ms
      in if \<exists>a \<in> set metrics. f_nan (efficiency a) then Inl OutOfRange else Inr (srt efficiency_key metrics))"

definition clusters_before_split ::
  "((meshMetric \<Rightarrow> nat) \<Rightarrow> meshMetric list \<Rightarrow> meshMetric list) \<Rightarrow> bvh_builder \<Rightarrow> StreamingMeshNode list \<Rightarrow>
     nat list list result option" where
  "clusters_before_split srt build ms =
     owalk (Some (sorted_metrics srt ms)) (\<lambda>metrics.
     owalk (Some (fill_bins ms metrics 0 0 [] [])) (\<lambda>(clusters, bin, rest).
       let clusters = (if bin \<noteq> [] then clusters @ [bin] else clusters);
           bin = map nodeIndex rest
       in if bin \<noteq> [] then clusterMeshNodesBvh build ms bin clusters else Some (Inr clusters)))"

definition clusterMeshNodes ::
  "((meshMetric \<Rightarrow> nat) \<Rightarrow> meshMetric list \<Rightarrow> meshMetric list) \<Rightarrow> bvh_builder \<Rightarrow> StreamingMeshNode list \<Rightarrow>
     nat list list result option" where
  "clusterMeshNodes srt build ms = owalk (clusters_before_split srt build ms) (\<lambda>clusters. Some (Inr (splitBigClusters clusters)))"

subsection \<open>What splitting keeps\<close>

lemma fill_clusters_chunks:
  assumes "length cluster < REPO_MP_MAX_MESHES_IN_SUPERMESH" and "fill_clusters is cluster clusters = (rest, clusters')"
  shows "\<exists>chunks. clusters' = clusters @ chunks \<and> cluster @ is = concat chunks @ rest \<and>
    length rest < REPO_MP_MAX_MESHES_IN_SUPERMESH \<and> (\<forall>c \<in> set chunks. length c = REPO_MP_MAX_MESHES_IN_SUPERMESH)"
  using assms
proof (induction "is" arbitrary: cluster clusters)
  case (Cons i "is")
  show ?case
  proof (cases "REPO_MP_MAX_MESHES_IN_SUPERMESH \<le> length (cluster @ [i])")
    case True
    then have "fill_clusters is [] (clusters @ [cluster @ [i]]) = (rest, clusters')"
      using Cons.prems(2) by (simp add: Let_def)
    from Cons.IH [OF _ this] obtain chunks where c: "clusters' = (clusters @ [cluster @ [i]]) @ chunks" "[] @ is = concat chunks @ rest"
      "length rest < REPO_MP_MAX_MESHES_IN_SUPERMESH" "\<forall>c \<in> set chunks. length c = REPO_MP_MAX_MESHES_IN_SUPERMESH"
      by (auto simp: REPO_MP_MAX_MESHES_IN_SUPERMESH_def)
    then show ?thesis
      using True Cons.prems(1) by (intro exI [of _ "(cluster @ [i]) # chunks"]) auto
  next
    case False
    then have "fill_clusters is (cluster @ [i]) clusters = (rest, clusters')"
      using Cons.prems(2) by (simp add: Let_def)
    with Cons.IH [OF _ this] False show ?thesis by simp
  qed
qed auto

text \<open>What is carried from one cluster that is split into the next, although it has been added already.\<close>

fun carried :: "nat list list \<Rightarrow> nat list \<Rightarrow> nat list" where
  "carried [] cluster = []"
| "carried (c # rest) cluster = cluster @ carried rest (fst (fill_clusters c cluster []))"

lemma fill_clusters_fst: "fst (fill_clusters is cluster clusters) = fst (fill_clusters is cluster clusters')"
  by (induction "is" arbitrary: cluster clusters clusters') (simp_all add: Let_def)

lemma split_clusters_result:
  assumes "length cluster < REPO_MP_MAX_MESHES_IN_SUPERMESH"
  shows "\<exists>new. split_clusters bigs cluster clusters = clusters @ new \<and>
    mset (concat new) = mset (concat bigs) + mset (carried bigs cluster) \<and>
    (\<forall>c \<in> set new. c \<noteq> [] \<and> length c \<le> REPO_MP_MAX_MESHES_IN_SUPERMESH)"
  using assms
proof (induction bigs arbitrary: cluster clusters)
  case (Cons big bigs)
  obtain rest clusters' where f: "fill_clusters big cluster clusters = (rest, clusters')" by fastforce
  from fill_clusters_chunks [OF Cons.prems f] obtain chunks where c: "clusters' = clusters @ chunks"
    "cluster @ big = concat chunks @ rest" "length rest < REPO_MP_MAX_MESHES_IN_SUPERMESH"
    "\<forall>c \<in> set chunks. length c = REPO_MP_MAX_MESHES_IN_SUPERMESH"
    by (elim exE conjE)
  let ?next = "if rest \<noteq> [] then clusters' @ [rest] else clusters'"
  obtain new where n: "split_clusters bigs rest ?next = ?next @ new"
    "mset (concat new) = mset (concat bigs) + mset (carried bigs rest)"
    "\<forall>c \<in> set new. c \<noteq> [] \<and> length c \<le> REPO_MP_MAX_MESHES_IN_SUPERMESH"
    using Cons.IH [OF c(3), of ?next] by (elim exE conjE)
  have "mset cluster + mset big = mset (concat chunks) + mset rest"
    using arg_cong [OF c(2), of mset] by simp
  moreover have "fst (fill_clusters big cluster []) = rest"
    using fill_clusters_fst [of big cluster "[]" clusters] f by simp
  moreover have "c \<noteq> []" if "c \<in> set chunks" for c
    using c(4) that by (auto simp: REPO_MP_MAX_MESHES_IN_SUPERMESH_def)
  ultimately show ?case
    using f c(1,3,4) n by (intro exI [of _ "chunks @ (if rest \<noteq> [] then [rest] else []) @ new"])
      (auto simp: ac_simps)
qed auto

lemma splitBigClusters_mset:
  "mset (concat (splitBigClusters clusters)) = mset (concat clusters) + mset (carried (filter too_many clusters) [])"
proof -
  have "mset (concat (filter too_many cs)) + mset (concat (filter (\<lambda>c. \<not> too_many c) cs)) = mset (concat cs)" for cs
    by (induction cs) (auto simp: ac_simps)
  then show ?thesis
    using split_clusters_result [of "[]" "filter too_many clusters" "filter (\<lambda>c. \<not> too_many c) clusters"]
    by (auto simp: splitBigClusters_def REPO_MP_MAX_MESHES_IN_SUPERMESH_def ac_simps)
qed

lemma splitBigClusters_small: "c \<in> set (splitBigClusters clusters) \<Longrightarrow> length c \<le> REPO_MP_MAX_MESHES_IN_SUPERMESH"
  using split_clusters_result [of "[]" "filter too_many clusters" "filter (\<lambda>c. \<not> too_many c) clusters"]
  by (auto simp: splitBigClusters_def too_many_def REPO_MP_MAX_MESHES_IN_SUPERMESH_def)

lemma carried_subset: "set (carried bigs cluster) \<subseteq> set cluster \<union> set (concat bigs)"
proof (induction bigs arbitrary: cluster)
  case (Cons big bigs)
  have "set (fst (fill_clusters big cluster [])) \<subseteq> set cluster \<union> set big" for cluster
  proof -
    have "set (fst (fill_clusters is cluster clusters)) \<subseteq> set cluster \<union> set is" for "is" cluster clusters
    proof (induction "is" arbitrary: cluster clusters)
      case (Cons i "is")
      then show ?case using Cons.IH [of "cluster @ [i]" clusters] Cons.IH [of "[]" "clusters @ [cluster @ [i]]"]
        by (auto simp: Let_def)
    qed simp
    then show ?thesis by blast
  qed
  then show ?case using Cons.IH [of "fst (fill_clusters big cluster [])"] by fastforce
qed simp

lemma splitBigClusters_set: "set (concat (splitBigClusters clusters)) = set (concat clusters)"
proof -
  have "set (carried (filter too_many clusters) []) \<subseteq> set (concat clusters)"
    using carried_subset [of "filter too_many clusters" "[]"] by auto
  moreover have "set (concat (splitBigClusters clusters)) = set (concat clusters) \<union> set (carried (filter too_many clusters) [])"
    using arg_cong [OF splitBigClusters_mset [of clusters], of set_mset] by simp
  ultimately show ?thesis by blast
qed

lemma carried_one: "carried (filter too_many clusters) [] = []" if "length (filter too_many clusters) \<le> 1"
  using that by (cases "filter too_many clusters"; cases "tl (filter too_many clusters)") auto

lemma carried_two: "carried [a, b] [] = drop (length a - length a mod REPO_MP_MAX_MESHES_IN_SUPERMESH) a"
proof -
  obtain rest clusters' where f: "fill_clusters a [] [] = (rest, clusters')" by fastforce
  from fill_clusters_chunks [OF _ f] obtain chunks where c: "a = concat chunks @ rest"
    "length rest < REPO_MP_MAX_MESHES_IN_SUPERMESH" "\<forall>c \<in> set chunks. length c = REPO_MP_MAX_MESHES_IN_SUPERMESH"
    by (auto simp: REPO_MP_MAX_MESHES_IN_SUPERMESH_def)
  have "length (concat cs) mod k = 0" if "\<forall>c \<in> set cs. length c = k" for k and cs :: "nat list list"
    using that by (induction cs) (auto simp: mod_add_eq [symmetric])
  from this [OF c(3)] c(2) have "length a mod REPO_MP_MAX_MESHES_IN_SUPERMESH = length rest"
    by (simp add: c(1) mod_add_left_eq [symmetric, where b = "length rest"])
  then show ?thesis by (simp add: f) (simp add: c(1))
qed

text \<open>
  C38: after splitting no cluster has more than 5000 meshes and no mesh is lost; when at most one cluster was too big each mesh
  is in as many clusters as before. But the vector that is filled is not cleared between two big clusters: the meshes left over from the
  first are added twice, once alone and once at the head of the second.
\<close>

theorem splitBigClusters_outcome:
  "(\<forall>c \<in> set (splitBigClusters clusters). length c \<le> REPO_MP_MAX_MESHES_IN_SUPERMESH) \<and>
   set (concat (splitBigClusters clusters)) = set (concat clusters) \<and>
   (length (filter too_many clusters) \<le> 1 \<longrightarrow> mset (concat (splitBigClusters clusters)) = mset (concat clusters)) \<and>
   (\<forall>a b. filter too_many clusters = [a, b] \<longrightarrow> mset (concat (splitBigClusters clusters)) =
      mset (concat clusters) + mset (drop (length a - length a mod REPO_MP_MAX_MESHES_IN_SUPERMESH) a))"
  using splitBigClusters_small splitBigClusters_set splitBigClusters_mset [of clusters] carried_one [of clusters] carried_two
  by (auto simp del: carried.simps set_concat)

theorem splitBigClusters_outcome_witness:
  "mset (concat (splitBigClusters [[0..<5001], [6000..<11001]])) =
     mset (concat [[0..<5001], [6000..<11001]]) + {#5000#}"
proof -
  have "filter too_many [[0..<5001], [6000..<11001]] = [[0..<5001], [6000..<11001]]"
    by (simp only: filter.simps too_many_def length_upt REPO_MP_MAX_MESHES_IN_SUPERMESH_def) simp
  then have "mset (concat (splitBigClusters [[0..<5001], [6000..<11001]])) = mset (concat [[0..<5001], [6000..<11001]]) +
      mset (drop (length [0..<5001] - length [0..<5001] mod REPO_MP_MAX_MESHES_IN_SUPERMESH) [0..<5001])"
    using splitBigClusters_outcome [of "[[0..<5001], [6000..<11001]]"] by blast
  also have "drop (length [0..<5001] - length [0..<5001] mod REPO_MP_MAX_MESHES_IN_SUPERMESH) [0..<5001] = [5000..<5001]"
    by (simp only: length_upt REPO_MP_MAX_MESHES_IN_SUPERMESH_def drop_upt) simp
  also have "mset [5000..<5001] = {#5000#}"
    by (simp add: upt_rec)
  finally show ?thesis .
qed

subsection \<open>Every mesh is in a cluster\<close>

lemma owalk_Inr [simp]: "owalk (Some (Inr x)) f = f x" "owalk (Some (Inl e)) f = Some (Inl e)" "owalk None f = None"
  by (simp_all add: owalk_def)

lemma owalk_all_Inr: "(\<And>x. x \<in> set xs \<Longrightarrow> f x = Some (Inr (g x))) \<Longrightarrow> owalk_all f xs = Some (Inr (map g xs))"
  by (induction xs) simp_all

definition spatial_clusters :: "nat list \<Rightarrow> StreamingMeshNode list \<Rightarrow> bvh_tree \<Rightarrow> nat list list" where
  "spatial_clusters bin ms t = map (\<lambda>s. map ((!) bin) (tree_primitives s)) (cut (mesh_count bin ms) t)"

text \<open>What is relied on of the builder.\<close>

definition builds_hierarchies :: "bvh_builder \<Rightarrow> bool" where
  "builds_hierarchies build \<longleftrightarrow> (\<forall>boxes. boxes \<noteq> [] \<longrightarrow> (\<exists>t. hierarchy (build boxes) (length boxes) t))"

lemma clusterMeshNodesBvh_tree:
  assumes build: "builds_hierarchies build" and bin: "bin \<noteq> []" "\<forall>i \<in> set bin. i < length ms"
  shows "\<exists>t. mset (tree_primitives t) = mset [0..<length bin] \<and>
    clusterMeshNodesBvh build ms bin clusters = Some (Inr (clusters @ spatial_clusters bin ms t))"
proof -
  define boxes where "boxes = map (\<lambda>node. (narrow_point (bmin (stream_bounds node)), narrow_point (bmax (stream_bounds node))))
      (map ((!) ms) bin)"
  have "rtraverse (MeshOps.at ms) bin = Inr (map ((!) ms) bin)"
    using bin(2) by (intro rtraverse_all_Inr) (simp add: MeshOps.at_def)
  then have b: "buildBoundsBvh build bin ms = Inr (build boxes)" by (simp add: buildBoundsBvh_def boxes_def)
  have boxes: "boxes \<noteq> []" "length boxes = length bin" using bin(1) by (simp_all add: boxes_def)
  obtain t where h: "hierarchy (build boxes) (length bin) t"
    using build boxes unfolding builds_hierarchies_def by metis
  obtain counts where c: "getVertexCounts (build boxes) bin ms = Some (Inr counts)" "length counts = node_count (build boxes)"
    "\<forall>s \<in> set (subtrees t). counted (mesh_count bin ms) counts s"
    using getVertexCounts_tree [OF h _ bin(2)] by auto
  let ?cut = "cut (mesh_count bin ms) t"
  have sub: "represents (build boxes) s" if "s \<in> set ?cut" for s
    using represents_subtrees [of "build boxes" t s] cut_subtrees [of "mesh_count bin ms" t] that h by (auto simp: hierarchy_def)
  have heads: "owalk_all (getBranchPrimitives (build boxes)) (map root_index ?cut) = Some (Inr (map tree_primitives ?cut))"
  proof -
    have "owalk_all (getBranchPrimitives (build boxes)) (map root_index ss) = Some (Inr (map tree_primitives ss))"
      if "\<forall>s \<in> set ss. represents (build boxes) s" for ss
      using that by (induction ss) (simp_all add: getBranchPrimitives_tree)
    then show ?thesis using sub by blast
  qed
  have "rtraverse (rtraverse (MeshOps.at bin)) (map tree_primitives ?cut) = Inr (map (\<lambda>ps. map ((!) bin) ps) (map tree_primitives ?cut))"
  proof (intro rtraverse_all_Inr)
    fix ps p assume "ps \<in> set (map tree_primitives ?cut)" and p: "p \<in> set ps"
    then obtain s where "s \<in> set (subtrees t)" "ps = tree_primitives s"
      using cut_subtrees [of "mesh_count bin ms" t] by auto
    then have "p < length bin" using subtree_primitives [of s t] p hierarchy_primitives [OF h] by auto
    then show "MeshOps.at bin p = Inr (bin ! p)" by (simp add: MeshOps.at_def)
  qed
  then have "clusterMeshNodesBvh build ms bin clusters = Some (Inr (clusters @ spatial_clusters bin ms t))"
    unfolding clusterMeshNodesBvh_def b owalk_Inr c(1) getSupermeshBranchNodes_tree [OF h c(2,3)] heads
    by (simp add: spatial_clusters_def comp_def)
  with h show ?thesis by (auto simp: hierarchy_def)
qed

lemma spatial_clusters_mset:
  assumes "mset (tree_primitives t) = mset [0..<length bin]"
  shows "mset (concat (spatial_clusters bin ms t)) = mset bin"
proof -
  have "concat (spatial_clusters bin ms t) = map ((!) bin) (concat (map tree_primitives (cut (mesh_count bin ms) t)))"
    by (simp add: spatial_clusters_def map_concat comp_def)
  also have "\<dots> = map ((!) bin) (tree_primitives t)" by (simp only: cut_primitives)
  finally have "mset (concat (spatial_clusters bin ms t)) = image_mset ((!) bin) (mset [0..<length bin])"
    by (simp only: mset_map assms)
  also have "\<dots> = mset (map ((!) bin) [0..<length bin])" by (simp only: mset_map)
  finally show ?thesis by (simp only: map_nth)
qed

lemma fill_bins_result:
  assumes "\<forall>a \<in> set metrics. nodeIndex a < length ms"
  shows "\<exists>new bin rest. fill_bins ms metrics binV binsV bin0 clusters = Inr (clusters @ new, bin, rest) \<and>
    bin0 @ map nodeIndex metrics = concat new @ bin @ map nodeIndex rest"
  using assms
proof (induction metrics arbitrary: binV binsV bin0 clusters)
  case (Cons item metrics)
  let ?n = "stream_numVertices (ms ! nodeIndex item)"
  have a: "MeshOps.at ms (nodeIndex item) = Inr (ms ! nodeIndex item)"
    using Cons.prems by (simp add: MeshOps.at_def)
  show ?case
  proof (cases "sint binsV \<le> modelLowerThreshold ms")
    case low: True
    show ?thesis
    proof (cases "int REPO_MP_MAX_VERTEX_COUNT \<le> sint (binV + ?n)")
      case True
      obtain new bin rest where "fill_bins ms metrics 0 (binsV + ?n) [] (clusters @ [bin0 @ [nodeIndex item]]) =
          Inr ((clusters @ [bin0 @ [nodeIndex item]]) @ new, bin, rest)"
        "[] @ map nodeIndex metrics = concat new @ bin @ map nodeIndex rest"
        using Cons.IH [of 0 "binsV + ?n" "[]"] Cons.prems by (metis list.set_intros(2))
      then show ?thesis
        using low True a by (intro exI [of _ "(bin0 @ [nodeIndex item]) # new"] exI [of _ bin] exI [of _ rest]) (simp add: Let_def)
    next
      case False
      obtain new bin rest where "fill_bins ms metrics (binV + ?n) (binsV + ?n) (bin0 @ [nodeIndex item]) clusters = Inr (clusters @ new, bin, rest)"
        "(bin0 @ [nodeIndex item]) @ map nodeIndex metrics = concat new @ bin @ map nodeIndex rest"
        using Cons.IH [of "binV + ?n" "binsV + ?n" "bin0 @ [nodeIndex item]" clusters] Cons.prems by (metis list.set_intros(2))
      then show ?thesis
        using low False a by (intro exI [of _ new] exI [of _ bin] exI [of _ rest]) (simp add: Let_def)
    qed
  qed simp
qed simp

lemma sorted_metrics_result:
  assumes "key_sort srt" and "\<forall>i < length ms. \<not> f_nan (efficiency (mesh_metric i (ms ! i)))"
  shows "\<exists>metrics. sorted_metrics srt ms = Inr metrics \<and> mset (map nodeIndex metrics) = mset [0..<length ms]"
proof -
  let ?metrics = "map2 mesh_metric [0..<length ms] ms"
  have "mset (srt efficiency_key ?metrics) = mset ?metrics" using assms(1) by (simp add: key_sort_def)
  then have "mset (map nodeIndex (srt efficiency_key ?metrics)) = mset (map nodeIndex ?metrics)" by (simp only: mset_map)
  also have "map nodeIndex ?metrics = [0..<length ms]"
    by (intro nth_equalityI) (simp_all add: mesh_metric_def split: prod.split)
  finally have "mset (map nodeIndex (srt efficiency_key ?metrics)) = mset [0..<length ms]" .
  moreover have "\<not> (\<exists>a \<in> set ?metrics. f_nan (efficiency a))"
    using assms(2) by (auto simp: in_set_conv_nth)
  ultimately show ?thesis by (simp add: sorted_metrics_def Let_def del: map_map)
qed

text \<open>
  C14: clustering ends, reads no vector out of range and loses no mesh: before big clusters are split the clusters are a partition of
  the meshes, and after it every mesh is still in a cluster and no cluster has more than 5000. This is for every sorting function
  and every builder that keep their promises, as long as no efficiency is a NaN.
\<close>

theorem clusterMeshNodes_partition:
  assumes srt: "key_sort srt" and build: "builds_hierarchies build"
    and num: "\<forall>i < length ms. \<not> f_nan (efficiency (mesh_metric i (ms ! i)))"
  shows "\<exists>before. clusters_before_split srt build ms = Some (Inr before) \<and> mset (concat before) = mset [0..<length ms] \<and>
    clusterMeshNodes srt build ms = Some (Inr (splitBigClusters before)) \<and>
    set (concat (splitBigClusters before)) = {0..<length ms} \<and>
    (\<forall>c \<in> set (splitBigClusters before). length c \<le> REPO_MP_MAX_MESHES_IN_SUPERMESH)"
proof -
  obtain metrics where m: "sorted_metrics srt ms = Inr metrics" "mset (map nodeIndex metrics) = mset [0..<length ms]"
    using sorted_metrics_result [OF srt num] by (elim exE conjE)
  have idx: "\<forall>a \<in> set metrics. nodeIndex a < length ms"
    using arg_cong [OF m(2), of set_mset] by auto
  obtain new bin rest where f: "fill_bins ms metrics 0 0 [] [] = Inr ([] @ new, bin, rest)"
    "[] @ map nodeIndex metrics = concat new @ bin @ map nodeIndex rest"
    using fill_bins_result [OF idx, of 0 0 "[]" "[]"] by (elim exE conjE)
  define low where "low = (if bin \<noteq> [] then new @ [bin] else new)"
  have all: "mset (concat low) + mset (map nodeIndex rest) = mset [0..<length ms]"
    using arg_cong [OF f(2), of mset] m(2) by (cases "bin = []") (simp_all add: low_def add.assoc)
  have "\<exists>before. clusters_before_split srt build ms = Some (Inr before) \<and> mset (concat before) = mset [0..<length ms]"
  proof (cases "map nodeIndex rest = []")
    case True
    then show ?thesis
      using all m(1) f(1) by (intro exI [of _ low]) (simp add: clusters_before_split_def low_def Let_def)
  next
    case False
    have "set (map nodeIndex rest) \<subseteq> set_mset (mset [0..<length ms])"
      unfolding all [symmetric] by simp
    then have "\<forall>i \<in> set (map nodeIndex rest). i < length ms" by auto
    from clusterMeshNodesBvh_tree [OF build False this, of low] obtain t
      where t: "mset (tree_primitives t) = mset [0..<length (map nodeIndex rest)]"
        "clusterMeshNodesBvh build ms (map nodeIndex rest) low = Some (Inr (low @ spatial_clusters (map nodeIndex rest) ms t))"
      by (elim exE conjE)
    have "clusters_before_split srt build ms = Some (Inr (low @ spatial_clusters (map nodeIndex rest) ms t))"
      unfolding clusters_before_split_def m(1) owalk_Inr f(1) prod.case append_Nil Let_def low_def [symmetric] t(2)
      by (simp only: False not_False_eq_True if_True)
    moreover have "mset (concat (low @ spatial_clusters (map nodeIndex rest) ms t)) = mset [0..<length ms]"
      using spatial_clusters_mset [OF t(1), of ms] all by (simp only: concat_append mset_append)
    ultimately show ?thesis by blast
  qed
  then obtain before where b: "clusters_before_split srt build ms = Some (Inr before)" "mset (concat before) = mset [0..<length ms]"
    by (elim exE conjE)
  have "clusterMeshNodes srt build ms = Some (Inr (splitBigClusters before))" by (simp add: clusterMeshNodes_def b(1))
  moreover have "set (concat (splitBigClusters before)) = {0..<length ms}"
    using arg_cong [OF b(2), of set_mset] by (simp add: splitBigClusters_set del: set_concat)
  ultimately show ?thesis using b splitBigClusters_small [of _ before] by blast
qed

definition one_leaf :: bvh_builder where
  "one_leaf boxes = \<lparr>bvh_nodes = [\<lparr>primitive_count = length boxes, first_child_or_primitive = 0\<rparr>], primitive_indices = [0..<length boxes]\<rparr>"

lemma one_leaf_builds: "builds_hierarchies one_leaf"
proof -
  have "hierarchy (one_leaf boxes) (length boxes) (BvhLeaf 0 [0..<length boxes])" if "boxes \<noteq> []" for boxes
  proof -
    have "rtraverse (MeshOps.at [0..<n]) [0..<n] = Inr (map (\<lambda>i. i) [0..<n])" for n
      by (intro rtraverse_all_Inr) (simp add: MeshOps.at_def)
    then show ?thesis using that by (simp add: hierarchy_def one_leaf_def is_leaf_def leaf_primitives_def)
  qed
  then show ?thesis unfolding builds_hierarchies_def by blast
qed

definition square_mesh :: StreamingMeshNode where
  "square_mesh = empty_streaming_mesh\<lparr>stream_numVertices := 3, stream_bounds := unit_square\<rparr>"

lemma square_metric_values:
  "float_of_size 3 = 0x40400000" "float_to_double 0x40400000 = 0x4008000000000000"
  "fp_div 0x4008000000000000 (0x4000000000000000 :: double) = 0x3FF8000000000000" "double_to_float 0x3FF8000000000000 = 0x3FC00000"
     apply (simp add: float_of_size_def encode32_def round_shift_def bit_len_literal Let_def)
    apply (simp add: float_to_double_def widen_mag_def decode32_def encode64_def round_shift_def bit_len_literal mag_def unsigned_take_bit_eq Let_def)
   apply (simp add: fp_div_def matrix_eval cong: let_weak_cong)
  apply (simp add: double_to_float_def narrow_mag_def decode64_def encode32_def round_shift_def bit_len_literal mag_def unsigned_take_bit_eq Let_def)
  done

lemma square_size: "bounds_size unit_square = (Fp64 0x3FF0000000000000, Fp64 0x3FF0000000000000, Fp64 0)"
  by (simp add: bounds_size_def unit_square_def d_one_literal matrix_eval cong: let_weak_cong)

lemma square_sum: "Fp64 0x3FF0000000000000 + Fp64 0x3FF0000000000000 + Fp64 0 = Fp64 0x4000000000000000"
  by (simp add: matrix_eval cong: let_weak_cong)

theorem clusterMeshNodes_partition_witness:
  "\<exists>before. clusterMeshNodes sort_key one_leaf [square_mesh, square_mesh] = Some (Inr (splitBigClusters before)) \<and>
     mset (concat before) = {#0, 1#}"
proof -
  have e: "\<not> f_nan (efficiency (mesh_metric i square_mesh))" for i
    by (simp add: mesh_metric_def square_mesh_def square_size square_sum square_metric_values narrow_def widen_def divide_fp64_def
      f_nan_def mag_def unsigned_take_bit_eq)
  have "\<forall>i < length [square_mesh, square_mesh]. \<not> f_nan (efficiency (mesh_metric i ([square_mesh, square_mesh] ! i)))"
    by (auto simp: less_Suc_eq e)
  from clusterMeshNodes_partition [OF key_sort_sort_key one_leaf_builds this] show ?thesis
    by (auto simp: upt_rec)
qed

end
