(* ===== verification/Supermesh.thy ===== *)
theory Supermesh
  imports Clusters MeshMap SceneCommit
begin

text \<open>
  Making supermeshes, in \<open>manipulator/modeloptimizer/repo_optimizer_multipart.cpp\<close>: a streamed mesh is appended to the supermesh
  that is being built, or, when it is too big for any supermesh, split over the hierarchy of its faces. A finished supermesh goes to
  the exporter, an interface: what it was given is part of the state, as is the number of identifiers drawn so far.
\<close>

record mapped_mesh_t =
  mapped_vertices :: "vec3f list"
  mapped_normals :: "vec3f list"
  mapped_faces :: "face list"
  mapped_uvChannels :: "vec2f list list"
  meshMapping :: "repo_mesh_mapping_t list"

definition empty_mapped :: mapped_mesh_t where
  "empty_mapped = \<lparr>mapped_vertices = [], mapped_normals = [], mapped_faces = [], mapped_uvChannels = [], meshMapping = []\<rparr>"

text \<open>The state of the optimiser: its exporter, the identifiers it has drawn and the names of its branch groups, which are pointed to by position.\<close>

record optimizer_state =
  exported :: "SupermeshData list"
  finalised :: bool
  drawn_ids :: nat
  branchGroups :: "string list"

type_synonym 'a opt_act = "(optimizer_state, 'a) act"

text \<open>The material of a mesh, by the shared identifier of the mesh; \<open>at\<close> throws \<open>std::out_of_range\<close>.\<close>

type_synonym MaterialPropMap = "(uuid \<times> RepoNode) list"

definition map_at :: "('k \<times> 'v) list \<Rightarrow> 'k \<Rightarrow> 'v result" where
  "map_at m k = (case map_of m k of Some v \<Rightarrow> Inr v | None \<Rightarrow> Inl (LogicError ''map::at''))"

definition getMaterialStruct :: "RepoNode \<Rightarrow> repo_material" where
  "getMaterialStruct n = (case content n of MaterialNode m \<Rightarrow> m | _ \<Rightarrow> default_material)"

subsection \<open>Exporting\<close>

text \<open>\<open>createSupermeshNode\<close>; without a mapping there is no node. The constructor that takes floats converts them to doubles.\<close>

definition float_bounds :: "vec3f \<Rightarrow> vec3f \<Rightarrow> RepoBounds" where
  "float_bounds lo hi = bounds_of (vec3_to_double lo) (vec3_to_double hi)"

definition mapping_box :: "repo_mesh_mapping_t list \<Rightarrow> RepoBounds" where
  "mapping_box ms =
     foldl (\<lambda>bbox m. encapsulate (encapsulate bbox (vec3_to_double (map_min m))) (vec3_to_double (map_max m)))
       (float_bounds (map_min (hd ms)) (map_max (hd ms))) (tl ms)"

text \<open>\<open>makeSupermeshNode\<close> with a name: the node keeps no shared identifier and draws its unique one.\<close>

definition makeNamedSupermeshNode ::
  "uuid \<Rightarrow> vec3f list \<Rightarrow> face list \<Rightarrow> vec3f list \<Rightarrow> RepoBounds \<Rightarrow> vec2f list list \<Rightarrow> string \<Rightarrow> repo_mesh_mapping_t list \<Rightarrow> SupermeshData" where
  "makeNamedSupermeshNode newId vs fs ns box uvs name ms =
     (let m = (setFaces fs (setVertices vs False empty_mesh))\<lparr>normals := ns, boundingBox := box\<rparr>;
          m = fold (\<lambda>(i, uvs). setUVChannel i uvs) (enumerate 0 uvs) m
      in \<lparr>super_node = changeName newId name True ((RepoNode_default newId)\<lparr>content := SupermeshNode m\<rparr>), mappings = ms, submeshIds = []\<rparr>)"

definition createSupermeshNode :: "uuid \<Rightarrow> mapped_mesh_t \<Rightarrow> SupermeshData option" where
  "createSupermeshNode newId mapped =
     (if meshMapping mapped = [] then None
      else Some (makeNamedSupermeshNode newId (mapped_vertices mapped) (mapped_faces mapped) (mapped_normals mapped)
                   (mapping_box (meshMapping mapped)) (mapped_uvChannels mapped) [] (meshMapping mapped)))"

definition set_supermesh_grouping :: "string \<Rightarrow> SupermeshData \<Rightarrow> SupermeshData" where
  "set_supermesh_grouping groupTag s =
     s\<lparr>super_node := (super_node s)\<lparr>content :=
        (case content (super_node s) of SupermeshNode m \<Rightarrow> SupermeshNode (m\<lparr>grouping := groupTag\<rparr>) | c \<Rightarrow> c)\<rparr>\<rparr>"

definition addSupermesh :: "SupermeshData \<Rightarrow> unit opt_act" where
  "addSupermesh s = amodify (\<lambda>w. w\<lparr>exported := exported w @ [s]\<rparr>)"

definition createSuperMesh :: "(nat \<Rightarrow> uuid) \<Rightarrow> mapped_mesh_t \<Rightarrow> string \<Rightarrow> unit opt_act" where
  "createSuperMesh newId mappedMesh groupTag =
     abind (agets drawn_ids) (\<lambda>k.
     abind (amodify (\<lambda>w. w\<lparr>drawn_ids := Suc k\<rparr>)) (\<lambda>_.
       case createSupermeshNode (newId k) mappedMesh of
         None \<Rightarrow> aresult (Inl NullDeref)
       | Some s \<Rightarrow> addSupermesh (set_supermesh_grouping groupTag s)))"

subsection \<open>Appending\<close>

definition material_mapping :: "MaterialPropMap \<Rightarrow> uuid \<Rightarrow> StreamingMeshNode \<Rightarrow> repo_mesh_mapping_t result" where
  "material_mapping matPropMap texId node =
     rbind (map_at matPropMap (stream_sharedId node)) (\<lambda>matNode.
     rbind (getUniqueId node) (\<lambda>ident.
       Inr (empty_mapping\<lparr>material_id := uniqueId matNode, map_material := getMaterialStruct matNode,
              texture_id := (if texId \<noteq> default_uuid then texId else default_uuid),
              mesh_id := ident, shared_id := stream_sharedId node\<rparr>)))"

text \<open>The offsets are \<open>int32_t\<close>, the indices unsigned: their sum wraps.\<close>

definition appendMesh :: "StreamingMeshNode \<Rightarrow> MaterialPropMap \<Rightarrow> mapped_mesh_t \<Rightarrow> uuid \<Rightarrow> mapped_mesh_t result" where
  "appendMesh node matPropMap mapped texId =
     rbind (material_mapping matPropMap texId node) (\<lambda>meshMap.
     let meshMap = meshMap\<lparr>map_min := narrow_point (bmin (stream_bounds node)), map_max := narrow_point (bmax (stream_bounds node))\<rparr>
     in rbind (getLoadedVertices node) (\<lambda>submVertices.
        rbind (getLoadedNormals node) (\<lambda>submNormals.
        rbind (getLoadedFaces node) (\<lambda>submFaces.
        rbind (getLoadedUVChannelsSeparated node) (\<lambda>submUVs.
          if submVertices \<noteq> [] \<and> submFaces \<noteq> []
          then let from = of_nat (length (mapped_vertices mapped));
                   meshMap = meshMap\<lparr>vertFrom := from, vertTo := from + of_nat (length submVertices),
                               triFrom := of_nat (length (mapped_faces mapped)),
                               triTo := of_nat (length (mapped_faces mapped) + length submFaces)\<rparr>;
                   mapped = mapped\<lparr>meshMapping := meshMapping mapped @ [meshMap],
                               mapped_vertices := mapped_vertices mapped @ submVertices,
                               mapped_faces := mapped_faces mapped @ map (map (\<lambda>idx. from + idx)) submFaces,
                               mapped_normals := mapped_normals mapped @ submNormals\<rparr>;
                   mapped = (if mapped_uvChannels mapped = [] then mapped\<lparr>mapped_uvChannels := map (\<lambda>_. []) submUVs\<rparr> else mapped)
               in if length (mapped_uvChannels mapped) = length submUVs
                  then Inr (mapped\<lparr>mapped_uvChannels := map2 (@) (mapped_uvChannels mapped) submUVs\<rparr>)
                  else Inl (RepoException ''Inconsistent UV channel count when appending mesh to supermesh. This likely means that meshes with and without UVs have been grouped together, which is not supported.'')
          else Inl (RepoException ''Failed merging meshes: Vertices or faces cannot be null!''))))))"

subsection \<open>Splitting\<close>

text \<open>\<open>operator[]\<close> of the index map; every index of a face in the part is in the set of its vertices.\<close>

definition local_index :: "32 word list \<Rightarrow> 32 word \<Rightarrow> 32 word" where
  "local_index globals i = (case map_of (zip globals [0..<length globals]) i of Some pos \<Rightarrow> of_nat pos | None \<Rightarrow> 0)"

definition mapped_from_branch ::
  "vec3f list \<Rightarrow> vec3f list \<Rightarrow> vec2f list list \<Rightarrow> face list \<Rightarrow> 32 word list \<Rightarrow> nat list \<Rightarrow> mapped_mesh_t result" where
  "mapped_from_branch vs ns uvs fs globals primitives =
     rbind (rtraverse (MeshOps.at fs) primitives) (\<lambda>partFaces.
     rbind (rtraverse (\<lambda>g. MeshOps.at vs (unat g)) globals) (\<lambda>partVertices.
     rbind (if ns \<noteq> [] then rtraverse (\<lambda>g. MeshOps.at ns (unat g)) globals else Inr []) (\<lambda>partNormals.
     rbind (rtraverse (\<lambda>uv. if uv \<noteq> [] then rtraverse (\<lambda>g. MeshOps.at uv (unat g)) globals else Inr []) uvs) (\<lambda>partUVs.
       Inr \<lparr>mapped_vertices = partVertices, mapped_normals = partNormals,
            mapped_faces = map (map (local_index globals)) partFaces, mapped_uvChannels = partUVs, meshMapping = []\<rparr>))))"

definition branch_mesh ::
  "StreamingMeshNode \<Rightarrow> MaterialPropMap \<Rightarrow> uuid \<Rightarrow> 32 word fset \<Rightarrow> nat list \<Rightarrow> mapped_mesh_t result" where
  "branch_mesh node matPropMap texId globalVertexIndices primitives =
     rbind (getLoadedFaces node) (\<lambda>fs. rbind (getLoadedVertices node) (\<lambda>vs.
     rbind (getLoadedNormals node) (\<lambda>ns. rbind (getLoadedUVChannelsSeparated node) (\<lambda>uvs.
     rbind (mapped_from_branch vs ns uvs fs (sorted_list_of_fset globalVertexIndices) primitives) (\<lambda>mapped.
     rbind (material_mapping matPropMap texId node) (\<lambda>mapping.
       let bounds = foldl encapsulate empty_bounds (map vec3_to_double (mapped_vertices mapped))
       in Inr (mapped\<lparr>meshMapping := [mapping\<lparr>vertFrom := 0, vertTo := of_nat (length (mapped_vertices mapped)),
                        triFrom := 0, triTo := of_nat (length (mapped_faces mapped)),
                        map_min := narrow_point (bmin bounds), map_max := narrow_point (bmax bounds)\<rparr>]\<rparr>)))))))"

definition createSupermeshFromBranch ::
  "(nat \<Rightarrow> uuid) \<Rightarrow> StreamingMeshNode \<Rightarrow> MaterialPropMap \<Rightarrow> uuid \<Rightarrow> string \<Rightarrow> 32 word fset \<Rightarrow> nat list \<Rightarrow> unit opt_act" where
  "createSupermeshFromBranch newId node matPropMap texId namedGrouping globalVertexIndices primitives =
     abind (aresult (branch_mesh node matPropMap texId globalVertexIndices primitives)) (\<lambda>mapped.
       createSuperMesh newId mapped namedGrouping)"

text \<open>The advancing front: for each node of the hierarchy a pointer to its vertices and one to its primitives, which may be null.\<close>

record split_front =
  verts :: "32 word fset option list"
  primitives :: "nat list option list"

fun afold :: "('a \<Rightarrow> 's \<Rightarrow> ('w, 's) act) \<Rightarrow> 'a list \<Rightarrow> 's \<Rightarrow> ('w, 's) act" where
  "afold f [] s = areturn s"
| "afold f (x # xs) s = abind (f x s) (afold f xs)"

definition pointed :: "'a option list \<Rightarrow> nat \<Rightarrow> 'a result" where
  "pointed ps i = rbind (MeshOps.at ps i) (\<lambda>p. case p of None \<Rightarrow> Inl NullDeref | Some x \<Rightarrow> Inr x)"

definition front_leaf :: "Bvh \<Rightarrow> face list \<Rightarrow> nat \<Rightarrow> split_front \<Rightarrow> split_front result" where
  "front_leaf b fs nodeIdx fr =
     rbind (MeshOps.at (bvh_nodes b) nodeIdx) (\<lambda>node.
     rbind (leaf_primitives b node) (\<lambda>uniquePrimitives.
     rbind (rtraverse (MeshOps.at fs) uniquePrimitives) (\<lambda>leafFaces.
       Inr (fr\<lparr>verts := (verts fr)[nodeIdx := Some (fset_of_list (concat leafFaces))],
               primitives := (primitives fr)[nodeIdx := Some uniquePrimitives]\<rparr>))))"

text \<open>A part that is cut off, and the pointers to it.\<close>

definition release :: "nat \<Rightarrow> split_front \<Rightarrow> split_front" where
  "release i fr = fr\<lparr>verts := (verts fr)[i := None], primitives := (primitives fr)[i := None]\<rparr>"

definition cut_off ::
  "(32 word fset \<Rightarrow> nat list \<Rightarrow> ('w, unit) act) \<Rightarrow> nat \<Rightarrow> split_front \<Rightarrow> ('w, unit) act" where
  "cut_off emit i fr =
     abind (aresult (pointed (verts fr) i)) (\<lambda>v. abind (aresult (pointed (primitives fr) i)) (\<lambda>ps. emit v ps))"

text \<open>A branch with one valid child: its pointers move up, or it is cut off.\<close>

definition front_single ::
  "(32 word fset \<Rightarrow> nat list \<Rightarrow> ('w, unit) act) \<Rightarrow> nat \<Rightarrow> nat \<Rightarrow> 32 word fset \<Rightarrow> split_front \<Rightarrow> ('w, split_front) act" where
  "front_single emit nodeIdx child v fr =
     (if fcard v \<le> REPO_MP_MAX_VERTEX_COUNT
      then abind (aresult (MeshOps.at (primitives fr) child)) (\<lambda>p.
             areturn (release child (fr\<lparr>verts := (verts fr)[nodeIdx := Some v], primitives := (primitives fr)[nodeIdx := p]\<rparr>)))
      else abind (cut_off emit child fr) (\<lambda>_. areturn (release child fr)))"

definition front_branch ::
  "(32 word fset \<Rightarrow> nat list \<Rightarrow> ('w, unit) act) \<Rightarrow> Bvh \<Rightarrow> nat \<Rightarrow> split_front \<Rightarrow> ('w, split_front) act" where
  "front_branch emit b nodeIdx fr =
     abind (aresult (MeshOps.at (bvh_nodes b) nodeIdx)) (\<lambda>bvhNode.
     let left = left_child bvhNode; right = right_child bvhNode
     in abind (aresult (MeshOps.at (verts fr) left)) (\<lambda>leftVerts.
        abind (aresult (MeshOps.at (verts fr) right)) (\<lambda>rightVerts.
          case (leftVerts, rightVerts) of
            (None, None) \<Rightarrow> areturn fr
          | (Some l, None) \<Rightarrow> front_single emit nodeIdx left l fr
          | (None, Some r) \<Rightarrow> front_single emit nodeIdx right r fr
          | (Some l, Some r) \<Rightarrow>
              let uniqueVertices = l |\<union>| r
              in if fcard uniqueVertices \<le> REPO_MP_MAX_VERTEX_COUNT
                 then abind (aresult (pointed (primitives fr) left)) (\<lambda>lp.
                      abind (aresult (pointed (primitives fr) right)) (\<lambda>rp.
                        areturn (release right (release left
                          (fr\<lparr>verts := (verts fr)[nodeIdx := Some uniqueVertices],
                              primitives := (primitives fr)[nodeIdx := Some (lp @ rp)]\<rparr>)))))
                 else abind (cut_off emit left fr) (\<lambda>_.
                      abind (cut_off emit right fr) (\<lambda>_.
                        areturn (release right (release left fr)))))))"

text \<open>\<open>branches.back()\<close> of no branches is undefined behaviour: that is a hierarchy of one leaf.\<close>

definition split_over ::
  "(32 word fset \<Rightarrow> nat list \<Rightarrow> ('w, unit) act) \<Rightarrow> Bvh \<Rightarrow> face list \<Rightarrow> nat list \<Rightarrow> nat list \<Rightarrow> ('w, unit) act" where
  "split_over emit b fs leaves branches =
     abind (aresult (rfold (front_leaf b fs) leaves
              \<lparr>verts = replicate (node_count b) None, primitives = replicate (node_count b) None\<rparr>)) (\<lambda>fr.
     abind (afold (front_branch emit b) (rev branches) fr) (\<lambda>fr.
       if rev branches = [] then aresult (Inl OutOfRange)
       else let rootIndex = last (rev branches)
            in abind (aresult (MeshOps.at (verts fr) rootIndex)) (\<lambda>leftoverVerts.
                 if leftoverVerts \<noteq> None then cut_off emit rootIndex fr else areturn ())))"

text \<open>The boxes of the faces, for the hierarchy over them.\<close>

definition extend_box :: "vec3f \<times> vec3f \<Rightarrow> vec3f \<Rightarrow> vec3f \<times> vec3f" where
  "extend_box box v =
     (case (box, v) of (((x, y, z), (a, b, c)), (p, q, r)) \<Rightarrow>
        ((merge_min x p, merge_min y q, merge_min z r), (merge_max a p, merge_max b q, merge_max c r)))"

definition face_box :: "vec3f list \<Rightarrow> face \<Rightarrow> (vec3f \<times> vec3f) result" where
  "face_box vs face =
     rbind (rtraverse (\<lambda>i. MeshOps.at vs (unat i)) face) (\<lambda>ps.
       case ps of [] \<Rightarrow> Inl OutOfRange | p # ps \<Rightarrow> Inr (foldl extend_box (p, p) ps))"

definition buildFacesBvh :: "bvh_builder \<Rightarrow> StreamingMeshNode \<Rightarrow> Bvh result" where
  "buildFacesBvh build node =
     rbind (getLoadedFaces node) (\<lambda>fs. rbind (getLoadedVertices node) (\<lambda>vs.
     rbind (rtraverse (face_box vs) fs) (\<lambda>boundingBoxes. Inr (build boundingBoxes))))"

definition splitMesh ::
  "(nat \<Rightarrow> uuid) \<Rightarrow> bvh_builder \<Rightarrow> StreamingMeshNode \<Rightarrow> MaterialPropMap \<Rightarrow> uuid \<Rightarrow> string \<Rightarrow> optimizer_state \<Rightarrow>
     (unit result \<times> optimizer_state) option" where
  "splitMesh newId build node matPropMap texId namedGrouping w =
     (case buildFacesBvh build node of
        Inl e \<Rightarrow> Some (Inl e, w)
      | Inr b \<Rightarrow>
          (case getLoadedFaces node of
             Inl e \<Rightarrow> Some (Inl e, w)
           | Inr fs \<Rightarrow>
               (case flattenBvh b of
                  None \<Rightarrow> None
                | Some (Inl e) \<Rightarrow> Some (Inl e, w)
                | Some (Inr (leaves, branches)) \<Rightarrow>
                    Some (split_over (createSupermeshFromBranch newId node matPropMap texId namedGrouping) b fs leaves branches w))))"

subsection \<open>The front on a tree\<close>

text \<open>What a branch does with what its children left: the pointers it keeps and the parts it cuts off.\<close>

type_synonym part = "32 word fset \<times> nat list"

fun join :: "part option \<Rightarrow> part option \<Rightarrow> part option \<times> part list" where
  "join None None = (None, [])"
| "join (Some l) None = (if fcard (fst l) \<le> REPO_MP_MAX_VERTEX_COUNT then (Some l, []) else (None, [l]))"
| "join None (Some r) = (if fcard (fst r) \<le> REPO_MP_MAX_VERTEX_COUNT then (Some r, []) else (None, [r]))"
| "join (Some l) (Some r) =
     (if fcard (fst l |\<union>| fst r) \<le> REPO_MP_MAX_VERTEX_COUNT then (Some (fst l |\<union>| fst r, snd l @ snd r), []) else (None, [l, r]))"

fun front_of :: "face list \<Rightarrow> bvh_tree \<Rightarrow> part option" where
  "front_of fs (BvhLeaf i ps) = Some (fset_of_list (concat (map ((!) fs) ps)), ps)"
| "front_of fs (BvhBranch i l r) = fst (join (front_of fs l) (front_of fs r))"

fun cut_parts :: "face list \<Rightarrow> bvh_tree \<Rightarrow> part list" where
  "cut_parts fs (BvhLeaf i ps) = []"
| "cut_parts fs (BvhBranch i l r) = cut_parts fs l @ cut_parts fs r @ snd (join (front_of fs l) (front_of fs r))"

definition all_parts :: "face list \<Rightarrow> bvh_tree \<Rightarrow> part list" where
  "all_parts fs t = cut_parts fs t @ (case front_of fs t of None \<Rightarrow> [] | Some p \<Rightarrow> [p])"

definition slot :: "split_front \<Rightarrow> nat \<Rightarrow> part option \<Rightarrow> bool" where
  "slot fr i p \<longleftrightarrow> verts fr ! i = map_option fst p \<and> primitives fr ! i = map_option snd p"

definition front_size :: "split_front \<Rightarrow> nat \<Rightarrow> bool" where
  "front_size fr n \<longleftrightarrow> length (verts fr) = n \<and> length (primitives fr) = n"

text \<open>Emitting a part succeeds and changes the state by \<open>upd\<close>.\<close>

definition emits :: "(32 word fset \<Rightarrow> nat list \<Rightarrow> ('w, unit) act) \<Rightarrow> (part \<Rightarrow> 'w \<Rightarrow> 'w) \<Rightarrow> part set \<Rightarrow> bool" where
  "emits emit upd P \<longleftrightarrow> (\<forall>p \<in> P. \<forall>w. emit (fst p) (snd p) w = (Inr (), upd p w))"

lemmas act_simps = abind_def areturn_def aresult_def

lemma cut_off_slot:
  assumes "emits emit upd P" and "p \<in> P" and "slot fr i (Some p)" and "front_size fr n" and "i < n"
  shows "cut_off emit i fr w = (Inr (), upd p w)"
  using assms by (simp add: cut_off_def act_simps pointed_def MeshOps.at_def slot_def front_size_def emits_def)

lemma front_single_step:
  assumes e: "emits emit upd P" and n: "front_size fr n" "i < n" "c < n" "i \<noteq> c"
    and c: "slot fr c (Some p)" and i: "slot fr i None" and P: "set (snd (join (Some p) None)) \<subseteq> P"
  shows "\<exists>fr'. front_single emit i c (fst p) fr w = (Inr fr', fold upd (snd (join (Some p) None)) w) \<and> front_size fr' n \<and>
    slot fr' i (fst (join (Some p) None)) \<and> slot fr' c None \<and>
    (\<forall>k < n. k \<noteq> i \<longrightarrow> k \<noteq> c \<longrightarrow> verts fr' ! k = verts fr ! k \<and> primitives fr' ! k = primitives fr ! k)"
proof (cases "fcard (fst p) \<le> REPO_MP_MAX_VERTEX_COUNT")
  case True
  then show ?thesis
    using n c i by (auto simp: front_single_def act_simps MeshOps.at_def release_def slot_def front_size_def)
next
  case False
  with P have "p \<in> P" by simp
  from cut_off_slot [OF e this c n(1,3)] show ?thesis
    using False n i by (auto simp: front_single_def act_simps release_def slot_def front_size_def)
qed

lemma front_branch_step:
  assumes e: "emits emit upd P" and n: "front_size fr n" "node_count b = n" "i < n"
    and l: "l = left_child (bvh_nodes b ! i)" "l < n" "i \<noteq> l" and r: "r = right_child (bvh_nodes b ! i)" "r < n" "i \<noteq> r"
    and s: "slot fr l pl" "slot fr r pr" "slot fr i None" and P: "set (snd (join pl pr)) \<subseteq> P"
  shows "\<exists>fr'. front_branch emit b i fr w = (Inr fr', fold upd (snd (join pl pr)) w) \<and> front_size fr' n \<and>
    slot fr' i (fst (join pl pr)) \<and> (\<forall>k < n. k \<notin> {i, l, r} \<longrightarrow> verts fr' ! k = verts fr ! k \<and> primitives fr' ! k = primitives fr ! k)"
proof -
  have len: "length (verts fr) = n" "length (primitives fr) = n" using n(1) by (simp_all add: front_size_def)
  have lr: "l \<noteq> r" using l(1) r(1) by simp
  have v: "verts fr ! l = map_option fst pl" "verts fr ! r = map_option fst pr"
    "primitives fr ! l = map_option snd pl" "primitives fr ! r = map_option snd pr"
    using s by (simp_all add: slot_def)
  have step: "front_branch emit b i fr w =
      (case (map_option fst pl, map_option fst pr) of
            (None, None) \<Rightarrow> areturn fr
          | (Some lv, None) \<Rightarrow> front_single emit i l lv fr
          | (None, Some rv) \<Rightarrow> front_single emit i r rv fr
          | (Some lv, Some rv) \<Rightarrow>
              (if fcard (lv |\<union>| rv) \<le> REPO_MP_MAX_VERTEX_COUNT
                 then abind (aresult (pointed (primitives fr) l)) (\<lambda>lp.
                      abind (aresult (pointed (primitives fr) r)) (\<lambda>rp.
                        areturn (release r (release l
                          (fr\<lparr>verts := (verts fr)[i := Some (lv |\<union>| rv)], primitives := (primitives fr)[i := Some (lp @ rp)]\<rparr>)))))
                 else abind (cut_off emit l fr) (\<lambda>_. abind (cut_off emit r fr) (\<lambda>_. areturn (release r (release l fr)))))) w"
  proof -
    have c: "first_child_or_primitive (bvh_nodes b ! i) = l" "Suc l = r" using l(1) r(1) by simp_all
    have at: "MeshOps.at (bvh_nodes b) i = Inr (bvh_nodes b ! i)" "MeshOps.at (verts fr) l = Inr (map_option fst pl)"
      "MeshOps.at (verts fr) r = Inr (map_option fst pr)"
      using n(2,3) l(2) r(2) len(1) v(1,2) by (simp_all add: MeshOps.at_def)
    have b: "abind (aresult (Inr x)) f w = f x w" for x and f :: "'c \<Rightarrow> ('a, split_front) act"
      by (simp add: abind_def aresult_def)
    show ?thesis by (simp only: front_branch_def b Let_def c at)
  qed
  show ?thesis
  proof (cases pl)
    case None
    show ?thesis
    proof (cases pr)
      case N: None
      show ?thesis using None N n(1) s unfolding step by (intro exI [of _ fr]) (simp add: areturn_def)
    next
      case (Some p)
      have "join pl pr = join (Some p) None" by (simp add: None Some)
      moreover have "front_branch emit b i fr w = front_single emit i r (fst p) fr w"
        unfolding step by (simp add: None Some)
      ultimately show ?thesis
        using front_single_step [OF e n(1,3) r(2,3), of p w] s P Some by auto
    qed
  next
    case (Some p)
    show ?thesis
    proof (cases pr)
      case None
      have "join pl pr = join (Some p) None" by (simp add: None Some)
      moreover have "front_branch emit b i fr w = front_single emit i l (fst p) fr w"
        unfolding step by (simp add: None Some)
      ultimately show ?thesis
        using front_single_step [OF e n(1,3) l(2,3), of p w] s P Some by auto
    next
      case R: (Some q)
      show ?thesis
      proof (cases "fcard (fst p |\<union>| fst q) \<le> REPO_MP_MAX_VERTEX_COUNT")
        case True
        have "front_branch emit b i fr w = (Inr (release r (release l
            (fr\<lparr>verts := (verts fr)[i := Some (fst p |\<union>| fst q)], primitives := (primitives fr)[i := Some (snd p @ snd q)]\<rparr>))), w)"
          unfolding step using Some R True v len l(2) r(2) by (simp add: act_simps pointed_def MeshOps.at_def)
        then show ?thesis
          using Some R True len n(3) l(3) r(3) lr by (auto simp: release_def slot_def front_size_def)
      next
        case False
        then have P2: "p \<in> P" "q \<in> P" using P Some R by simp_all
        have "front_branch emit b i fr w = (Inr (release r (release l fr)), upd q (upd p w))"
          unfolding step using Some R False cut_off_slot [OF e P2(1) _ n(1) l(2), of w]
            cut_off_slot [OF e P2(2) _ n(1) r(2), of "upd p w"] s by (simp add: abind_def areturn_def)
        then show ?thesis
          using Some R False len n(3) l(3) r(3) s(3) lr by (auto simp: release_def slot_def front_size_def)
      qed
    qed
  qed
qed

lemma afold_append: "afold f (xs @ ys) s = abind (afold f xs s) (afold f ys)"
proof (induction xs arbitrary: s)
  case Nil
  then show ?case by (simp add: fun_eq_iff act_simps)
next
  case (Cons x xs)
  then show ?case by (simp add: fun_eq_iff abind_def split: prod.split sum.split)
qed

lemma apart: "x \<in> A \<Longrightarrow> A \<inter> ({i} \<union> L \<union> R) = {} \<Longrightarrow> l \<in> L \<Longrightarrow> r \<in> R \<Longrightarrow> x \<notin> {i, l, r}"
  by blast

lemma front_forest:
  assumes e: "emits emit upd P"
    and "\<forall>t \<in> set ts. represents b t" and "distinct (concat (map tree_indices ts))" and "front_size fr (node_count b)"
    and "\<forall>s \<in> set (breadth_first ts). slot fr (root_index s) (if is_leaf_tree s then front_of fs s else None)"
    and "set (concat (map (cut_parts fs) ts)) \<subseteq> P"
  shows "\<exists>fr' parts. afold (front_branch emit b) (rev (map root_index (filter (\<lambda>t. \<not> is_leaf_tree t) (breadth_first ts)))) fr w =
      (Inr fr', fold upd parts w) \<and> front_size fr' (node_count b) \<and> (\<forall>t \<in> set ts. slot fr' (root_index t) (front_of fs t)) \<and>
    mset parts = mset (concat (map (cut_parts fs) ts)) \<and>
    (\<forall>k < node_count b. k \<notin> set (concat (map tree_indices ts)) \<longrightarrow> verts fr' ! k = verts fr ! k \<and> primitives fr' ! k = primitives fr ! k)"
  using assms(2-)
proof (induction ts rule: breadth_first.induct)
  case 1
  then show ?case by (intro exI [of _ fr] exI [of _ "[]"]) (simp add: areturn_def)
next
  case (2 t ts)
  let ?n = "node_count b"
  show ?case
  proof (cases t)
    case (BvhLeaf i ps)
    obtain fr' parts where c: "afold (front_branch emit b) (rev (map root_index (filter (\<lambda>t. \<not> is_leaf_tree t) (breadth_first ts)))) fr w =
        (Inr fr', fold upd parts w)" "front_size fr' ?n" "\<forall>t \<in> set ts. slot fr' (root_index t) (front_of fs t)"
      "mset parts = mset (concat (map (cut_parts fs) ts))"
      "\<forall>k < ?n. k \<notin> set (concat (map tree_indices ts)) \<longrightarrow> verts fr' ! k = verts fr ! k \<and> primitives fr' ! k = primitives fr ! k"
      using "2.IH" "2.prems" BvhLeaf by auto
    have "slot fr i (front_of fs t)" using "2.prems"(4) BvhLeaf by auto
    then have "slot fr' i (front_of fs t)"
      using c(5) "2.prems"(1,2) BvhLeaf by (auto simp: slot_def)
    then show ?thesis
      using c BvhLeaf by (intro exI [of _ fr'] exI [of _ parts]) auto
  next
    case (BvhBranch i l r)
    have prems: "\<forall>t \<in> set (ts @ [l, r]). represents b t" "distinct (concat (map tree_indices (ts @ [l, r])))"
      "\<forall>s \<in> set (breadth_first (ts @ [l, r])). slot fr (root_index s) (if is_leaf_tree s then front_of fs s else None)"
      "set (concat (map (cut_parts fs) (ts @ [l, r]))) \<subseteq> P"
      using "2.prems" BvhBranch by auto
    from "2.IH" [unfolded BvhBranch forest_step.simps, OF prems(1,2) "2.prems"(3) prems(3,4)]
    obtain fr' parts where c: "afold (front_branch emit b) (rev (map root_index (filter (\<lambda>t. \<not> is_leaf_tree t) (breadth_first (ts @ [l, r]))))) fr w =
        (Inr fr', fold upd parts w)" "front_size fr' ?n" "\<forall>t \<in> set (ts @ [l, r]). slot fr' (root_index t) (front_of fs t)"
      "mset parts = mset (concat (map (cut_parts fs) (ts @ [l, r])))"
      "\<forall>k < ?n. k \<notin> set (concat (map tree_indices (ts @ [l, r]))) \<longrightarrow> verts fr' ! k = verts fr ! k \<and> primitives fr' ! k = primitives fr ! k"
      by (elim exE conjE)
    have rep: "i < ?n" "root_index l = left_child (bvh_nodes b ! i)" "root_index r = right_child (bvh_nodes b ! i)"
      "root_index l < ?n" "root_index r < ?n"
      using "2.prems"(1) BvhBranch represents_root [of b l] represents_root [of b r] by auto
    have fresh: "i \<notin> set (concat (map tree_indices (ts @ [l, r])))" "i \<noteq> root_index l" "i \<noteq> root_index r"
      using "2.prems"(2) BvhBranch root_index_in [of l] root_index_in [of r] by (auto simp del: root_index_in)
    have "slot fr i None" using "2.prems"(4) BvhBranch by auto
    then have none: "slot fr' i None" using c(5) rep(1) fresh(1) by (simp add: slot_def)
    have lr: "slot fr' (root_index l) (front_of fs l)" "slot fr' (root_index r) (front_of fs r)" using c(3) by auto
    have P: "set (snd (join (front_of fs l) (front_of fs r))) \<subseteq> P" using "2.prems"(5) BvhBranch by auto
    obtain fr'' where f: "front_branch emit b i fr' (fold upd parts w) =
        (Inr fr'', fold upd (snd (join (front_of fs l) (front_of fs r))) (fold upd parts w))" "front_size fr'' ?n"
      "slot fr'' i (fst (join (front_of fs l) (front_of fs r)))"
      "\<forall>k < ?n. k \<notin> {i, root_index l, root_index r} \<longrightarrow> verts fr'' ! k = verts fr' ! k \<and> primitives fr'' ! k = primitives fr' ! k"
      using front_branch_step [OF e c(2) refl rep(1) rep(2) rep(4) fresh(2) rep(3) rep(5) fresh(3) lr none P, of "fold upd parts w"] by (elim exE conjE)
    have "slot fr'' (root_index s) (front_of fs s)" if "s \<in> set ts" for s
    proof -
      have "root_index s \<in> set (concat (map tree_indices ts))" using that by (auto intro: bexI [of _ s])
      moreover have "set (concat (map tree_indices ts)) \<inter> ({i} \<union> set (tree_indices l) \<union> set (tree_indices r)) = {}"
        using "2.prems"(2) BvhBranch by auto
      ultimately have "root_index s \<notin> {i, root_index l, root_index r}"
        by (rule apart [OF _ _ root_index_in root_index_in])
      moreover have "root_index s < ?n" using "2.prems"(1) that represents_root by auto
      ultimately show ?thesis using f(4) c(3) that by (simp add: slot_def)
    qed
    moreover have "k < ?n \<Longrightarrow> k \<notin> set (concat (map tree_indices (t # ts))) \<Longrightarrow>
        verts fr'' ! k = verts fr ! k \<and> primitives fr'' ! k = primitives fr ! k" for k
      using f(4) c(5) BvhBranch root_index_in [of l] root_index_in [of r] by (auto simp del: root_index_in)
    moreover have "mset (parts @ snd (join (front_of fs l) (front_of fs r))) = mset (concat (map (cut_parts fs) (t # ts)))"
      using c(4) BvhBranch by simp
    moreover have "afold (front_branch emit b) (rev (map root_index (filter (\<lambda>t. \<not> is_leaf_tree t) (breadth_first (t # ts))))) fr w =
        (Inr fr'', fold upd (parts @ snd (join (front_of fs l) (front_of fs r))) w)"
      using c(1) f(1) BvhBranch by (simp add: afold_append abind_def areturn_def)
    ultimately show ?thesis
      using f(2,3) BvhBranch by (intro exI [of _ fr''] exI [of _ "parts @ snd (join (front_of fs l) (front_of fs r))"]) auto
  qed
qed

lemma front_leaves:
  assumes "\<forall>t \<in> set ts. represents b t \<and> is_leaf_tree t \<and> (\<forall>p \<in> set (tree_primitives t). p < length fs)" and "front_size fr (node_count b)"
    and "\<forall>t \<in> set ts. slot fr (root_index t) None \<or> slot fr (root_index t) (front_of fs t)"
  shows "\<exists>fr'. rfold (front_leaf b fs) (map root_index ts) fr = Inr fr' \<and> front_size fr' (node_count b) \<and>
    (\<forall>t \<in> set ts. slot fr' (root_index t) (front_of fs t)) \<and>
    (\<forall>k. k \<notin> root_index ` set ts \<longrightarrow> verts fr' ! k = verts fr ! k \<and> primitives fr' ! k = primitives fr ! k)"
  using assms
proof (induction ts arbitrary: fr)
  case Nil
  then show ?case by simp
next
  case (Cons t ts)
  have "represents b t" "is_leaf_tree t" using Cons.prems(1) by simp_all
  then obtain i ps where t: "t = BvhLeaf i ps" by (cases t) simp_all
  have rep: "i < node_count b" "leaf_primitives b (bvh_nodes b ! i) = Inr ps" "\<forall>p \<in> set ps. p < length fs"
    using Cons.prems(1) t by simp_all
  let ?fr = "fr\<lparr>verts := (verts fr)[i := Some (fset_of_list (concat (map ((!) fs) ps)))], primitives := (primitives fr)[i := Some ps]\<rparr>"
  have "rtraverse (MeshOps.at fs) ps = Inr (map ((!) fs) ps)"
    using rep(3) by (intro rtraverse_all_Inr) (simp add: MeshOps.at_def)
  then have step: "front_leaf b fs i fr = Inr ?fr"
    using rep by (simp add: front_leaf_def MeshOps.at_def)
  have size: "front_size ?fr (node_count b)" using Cons.prems(2) by (simp add: front_size_def)
  have new: "slot ?fr i (front_of fs t)"
    using Cons.prems(2) rep(1) by (simp add: t slot_def front_size_def)
  have "slot ?fr (root_index s) None \<or> slot ?fr (root_index s) (front_of fs s)" if "s \<in> set ts" for s
  proof (cases "root_index s = i")
    case True
    have "represents b s" "is_leaf_tree s" using Cons.prems(1) that by simp_all
    then have "s = t" using True rep(2) t by (cases s) auto
    with new t show ?thesis by simp
  next
    case False
    then show ?thesis using Cons.prems(3) that by (auto simp: slot_def)
  qed
  then obtain fr' where c: "rfold (front_leaf b fs) (map root_index ts) ?fr = Inr fr'" "front_size fr' (node_count b)"
    "\<forall>t \<in> set ts. slot fr' (root_index t) (front_of fs t)"
    "\<forall>k. k \<notin> root_index ` set ts \<longrightarrow> verts fr' ! k = verts ?fr ! k \<and> primitives fr' ! k = primitives ?fr ! k"
    using Cons.IH [OF _ size] Cons.prems(1) by auto
  have "slot fr' i (front_of fs t)"
  proof (cases "i \<in> root_index ` set ts")
    case True
    then obtain s where s: "s \<in> set ts" "root_index s = i" by auto
    have "represents b s" "is_leaf_tree s" using Cons.prems(1) s by simp_all
    then have "s = t" using s(2) rep(2) t by (cases s) auto
    with c(3) s show ?thesis by auto
  next
    case False
    then show ?thesis using c(4) new by (simp add: slot_def)
  qed
  then show ?case
    using step c t by (intro exI [of _ fr']) auto
qed

lemma run_abind: "a w = (Inr x, w') \<Longrightarrow> abind a f w = f x w'"
  by (simp add: abind_def)

lemma abind_aresult [simp]: "abind (aresult (Inr x)) f w = f x w" "abind (aresult (Inl e)) f w = (Inl e, w)"
  by (simp_all add: act_simps)

lemma split_over_tree:
  assumes h: "hierarchy b (length fs) t"
  defines "leaves \<equiv> map root_index (filter is_leaf_tree (breadth_first [t]))"
    and "branches \<equiv> map root_index (filter (\<lambda>t. \<not> is_leaf_tree t) (breadth_first [t]))"
  shows "is_leaf_tree t \<Longrightarrow> split_over emit b fs leaves branches w = (Inl OutOfRange, w)"
    and "\<not> is_leaf_tree t \<Longrightarrow> emits emit upd (set (all_parts fs t)) \<Longrightarrow>
      \<exists>parts. split_over emit b fs leaves branches w = (Inr (), fold upd parts w) \<and> mset parts = mset (all_parts fs t)"
proof -
  note [simp del] = breadth_first.simps
  let ?n = "node_count b" and ?bf = "breadth_first [t]"
  let ?empty = "\<lparr>verts = replicate ?n None, primitives = replicate ?n None\<rparr> :: split_front"
  have rep: "represents b t" "root_index t = 0" "distinct (tree_indices t)" using h by (simp_all add: hierarchy_def)
  have bf: "set ?bf = set (subtrees t)" unfolding set_breadth_first by simp
  have sub: "represents b s" "root_index s < ?n" "\<forall>p \<in> set (tree_primitives s). p < length fs" if "s \<in> set ?bf" for s
    using represents_subtrees [OF rep(1)] represents_root subtree_primitives hierarchy_primitives [OF h] that bf by fastforce+
  have size: "front_size ?empty ?n" by (simp add: front_size_def)
  have "\<exists>fr'. rfold (front_leaf b fs) (map root_index (filter is_leaf_tree ?bf)) ?empty = Inr fr' \<and> front_size fr' ?n \<and>
    (\<forall>t \<in> set (filter is_leaf_tree ?bf). slot fr' (root_index t) (front_of fs t)) \<and>
    (\<forall>k. k \<notin> root_index ` set (filter is_leaf_tree ?bf) \<longrightarrow> verts fr' ! k = verts ?empty ! k \<and> primitives fr' ! k = primitives ?empty ! k)"
  proof (rule front_leaves [OF _ size])
    show "\<forall>s \<in> set (filter is_leaf_tree ?bf). represents b s \<and> is_leaf_tree s \<and> (\<forall>p \<in> set (tree_primitives s). p < length fs)"
      using sub by auto
    show "\<forall>s \<in> set (filter is_leaf_tree ?bf). slot ?empty (root_index s) None \<or> slot ?empty (root_index s) (front_of fs s)"
      using sub(2) by (auto simp: slot_def)
  qed
  then obtain fr where fr: "rfold (front_leaf b fs) leaves ?empty = Inr fr" "front_size fr ?n"
    "\<forall>s \<in> set (filter is_leaf_tree ?bf). slot fr (root_index s) (front_of fs s)"
    "\<forall>k. k \<notin> root_index ` set (filter is_leaf_tree ?bf) \<longrightarrow> verts fr ! k = verts ?empty ! k \<and> primitives fr ! k = primitives ?empty ! k"
    unfolding leaves_def by (elim exE conjE)
  {
    assume leaf: "is_leaf_tree t"
    then have "?bf = [t]" by (cases t) (simp_all add: breadth_first.simps)
    then have "branches = []" using leaf by (simp add: branches_def)
    then show "split_over emit b fs leaves branches w = (Inl OutOfRange, w)"
      by (simp add: split_over_def fr(1) abind_def areturn_def aresult_def)
  }
  assume branch: "\<not> is_leaf_tree t" and e: "emits emit upd (set (all_parts fs t))"
  have hd: "\<exists>bs. branches = root_index t # bs"
    using branch by (simp add: branches_def breadth_first.simps(2))
  have slots: "\<forall>s \<in> set ?bf. slot fr (root_index s) (if is_leaf_tree s then front_of fs s else None)"
  proof
    fix s assume s: "s \<in> set ?bf"
    show "slot fr (root_index s) (if is_leaf_tree s then front_of fs s else None)"
    proof (cases "is_leaf_tree s")
      case True
      then show ?thesis using fr(3) s by simp
    next
      case False
      have "root_index s \<noteq> root_index u" if "u \<in> set (filter is_leaf_tree ?bf)" for u
      proof
        assume eq: "root_index s = root_index u"
        have "represents b u" "is_leaf_tree u" using sub(1) that by auto
        then have "is_leaf (bvh_nodes b ! root_index u)" by (cases u) auto
        moreover have "\<not> is_leaf (bvh_nodes b ! root_index s)" using sub(1) [OF s] False by (cases s) auto
        ultimately show False using eq by simp
      qed
      then have "root_index s \<notin> root_index ` set (filter is_leaf_tree ?bf)" by blast
      then show ?thesis using fr(4) sub(2) [OF s] False by (simp add: slot_def)
    qed
  qed
  have P: "set (concat (map (cut_parts fs) [t])) \<subseteq> set (all_parts fs t)" by (simp add: all_parts_def)
  have "\<exists>fr' parts. afold (front_branch emit b) (rev (map root_index (filter (\<lambda>t. \<not> is_leaf_tree t) ?bf))) fr w =
      (Inr fr', fold upd parts w) \<and> front_size fr' ?n \<and> (\<forall>t \<in> set [t]. slot fr' (root_index t) (front_of fs t)) \<and>
    mset parts = mset (concat (map (cut_parts fs) [t])) \<and>
    (\<forall>k < ?n. k \<notin> set (concat (map tree_indices [t])) \<longrightarrow> verts fr' ! k = verts fr ! k \<and> primitives fr' ! k = primitives fr ! k)"
    by (rule front_forest [OF e _ _ fr(2) slots P]) (use rep in simp_all)
  then obtain fr' parts where f: "afold (front_branch emit b) (rev branches) fr w = (Inr fr', fold upd parts w)" "front_size fr' ?n"
      "slot fr' (root_index t) (front_of fs t)" "mset parts = mset (cut_parts fs t)"
    unfolding branches_def by auto
  have last: "rev branches \<noteq> []" "last (rev branches) = root_index t" using hd by auto
  have at: "MeshOps.at (verts fr') (root_index t) = Inr (map_option fst (front_of fs t))"
    using f(2,3) represents_root [OF rep(1)] by (simp add: MeshOps.at_def slot_def front_size_def)
  have run: "split_over emit b fs leaves branches w =
      (if map_option fst (front_of fs t) \<noteq> None then cut_off emit (root_index t) fr' else areturn ()) (fold upd parts w)"
    unfolding split_over_def fr(1) abind_aresult run_abind [where a = "afold (front_branch emit b) (rev branches) fr", OF f(1)]
      if_not_P [OF last(1)] Let_def last(2) at ..
  show "\<exists>parts. split_over emit b fs leaves branches w = (Inr (), fold upd parts w) \<and> mset parts = mset (all_parts fs t)"
  proof (cases "front_of fs t")
    case None
    then show ?thesis using run f(4) by (intro exI [of _ parts]) (simp add: all_parts_def areturn_def)
  next
    case (Some p)
    have "cut_off emit (root_index t) fr' (fold upd parts w) = (Inr (), upd p (fold upd parts w))"
      by (rule cut_off_slot [OF e _ f(3) [unfolded Some] f(2) represents_root [OF rep(1)]]) (simp add: all_parts_def Some)
    then show ?thesis using run f(4) Some by (intro exI [of _ "parts @ [p]"]) (simp add: all_parts_def)
  qed
qed

subsection \<open>The parts\<close>

definition part_primitives :: "part option \<Rightarrow> nat multiset" where
  "part_primitives p = (case p of None \<Rightarrow> {#} | Some q \<Rightarrow> mset (snd q))"

lemma join_primitives:
  "mset (concat (map snd (snd (join l r)))) + part_primitives (fst (join l r)) = part_primitives l + part_primitives r"
  by (cases l; cases r) (auto simp: part_primitives_def)

lemma all_parts_primitives: "mset (concat (map snd (all_parts fs t))) = mset (tree_primitives t)"
proof -
  have "mset (concat (map snd (cut_parts fs t))) + part_primitives (front_of fs t) = mset (tree_primitives t)"
  proof (induction t)
    case (BvhBranch i l r)
    then show ?case
      using join_primitives [of "front_of fs l" "front_of fs r"] by (simp add: ac_simps)
  qed (simp add: part_primitives_def)
  then show ?thesis by (cases "front_of fs t") (simp_all add: all_parts_def part_primitives_def)
qed

definition part_ok :: "face list \<Rightarrow> bvh_tree \<Rightarrow> part \<Rightarrow> bool" where
  "part_ok fs t p \<longleftrightarrow> fst p = fset_of_list (concat (map ((!) fs) (snd p))) \<and>
     (fcard (fst p) \<le> REPO_MP_MAX_VERTEX_COUNT \<or> (\<exists>i. BvhLeaf i (snd p) \<in> set (subtrees t)))"

lemma join_ok:
  assumes "\<forall>p \<in> set_option l. part_ok fs t p" and "\<forall>p \<in> set_option r. part_ok fs t p"
  shows "\<forall>p \<in> set_option (fst (join l r)) \<union> set (snd (join l r)). part_ok fs t p"
proof (cases l; cases r)
  fix p q assume lr: "l = Some p" "r = Some q"
  then have ok: "part_ok fs t p" "part_ok fs t q" using assms by simp_all
  then have "fst p |\<union>| fst q = fset_of_list (concat (map ((!) fs) (snd p @ snd q)))"
    by (simp only: part_ok_def map_append concat_append fset_of_list_append)
  then have "fcard (fst p |\<union>| fst q) \<le> REPO_MP_MAX_VERTEX_COUNT \<Longrightarrow> part_ok fs t (fst p |\<union>| fst q, snd p @ snd q)"
    by (simp only: part_ok_def fst_conv snd_conv simp_thms)
  then show ?thesis using ok lr by simp
qed (use assms in simp_all)

lemma parts_of_subtree_ok:
  "set (subtrees s) \<subseteq> set (subtrees t) \<Longrightarrow> \<forall>p \<in> set_option (front_of fs s) \<union> set (cut_parts fs s). part_ok fs t p"
proof (induction s)
  case (BvhLeaf i ps)
  then have "part_ok fs t (fset_of_list (concat (map ((!) fs) ps)), ps)" by (auto simp: part_ok_def)
  then show ?case by simp
next
  case (BvhBranch i l r)
  then have l: "\<forall>p \<in> set_option (front_of fs l) \<union> set (cut_parts fs l). part_ok fs t p"
    and r: "\<forall>p \<in> set_option (front_of fs r) \<union> set (cut_parts fs r). part_ok fs t p" by simp_all
  have "\<forall>p \<in> set_option (fst (join (front_of fs l) (front_of fs r))) \<union> set (snd (join (front_of fs l) (front_of fs r))). part_ok fs t p"
    by (rule join_ok) (use l r in blast)+
  then show ?case using l r unfolding front_of.simps cut_parts.simps set_append by blast
qed

lemma all_parts_ok: "p \<in> set (all_parts fs t) \<Longrightarrow> part_ok fs t p"
  using parts_of_subtree_ok [of t t fs] by (cases "front_of fs t") (auto simp only: all_parts_def option.case set_append set_simps
    option.set Un_iff empty_iff insert_iff list.set append_Nil2)

lemma mset_concat_map: "mset xs = mset ys \<Longrightarrow> mset (concat (map f xs)) = mset (concat (map f ys))"
proof -
  have "mset (concat (map f zs)) = (\<Sum>z \<in># mset zs. mset (f z))" for zs
    by (induction zs) simp_all
  then show "mset xs = mset ys \<Longrightarrow> ?thesis" by simp
qed

subsection \<open>What is exported\<close>

definition geometry_ok :: "SupermeshingData \<Rightarrow> bool" where
  "geometry_ok d \<longleftrightarrow> (\<forall>f \<in> set (data_faces d). f \<noteq> [] \<and> (\<forall>i \<in> set f. unat i < length (data_vertices d))) \<and>
     (data_normals d = [] \<or> length (data_normals d) = length (data_vertices d)) \<and>
     (\<forall>uvs \<in> set (data_channels d). uvs = [] \<or> length uvs = length (data_vertices d))"

definition exported_mesh :: "SupermeshData \<Rightarrow> mesh" where
  "exported_mesh s = (case content (super_node s) of SupermeshNode m \<Rightarrow> m | _ \<Rightarrow> empty_mesh)"

text \<open>A mesh holds copies of the faces of another one: the same corners, with the same normals.\<close>

definition copies_faces :: "SupermeshingData \<Rightarrow> nat list \<Rightarrow> mesh \<Rightarrow> bool" where
  "copies_faces d ps m \<longleftrightarrow> length (faces m) = length ps \<and>
     (\<forall>j < length ps. length (faces m ! j) = length (data_faces d ! (ps ! j)) \<and>
       (\<forall>k < length (faces m ! j). unat (faces m ! j ! k) < length (vertices m) \<and>
          vertices m ! unat (faces m ! j ! k) = data_vertices d ! unat (data_faces d ! (ps ! j) ! k) \<and>
          (data_normals d \<noteq> [] \<longrightarrow> normals m ! unat (faces m ! j ! k) = data_normals d ! unat (data_faces d ! (ps ! j) ! k))))"

definition export_of :: "(nat \<Rightarrow> uuid) \<Rightarrow> nat \<Rightarrow> string \<Rightarrow> mapped_mesh_t \<Rightarrow> SupermeshData" where
  "export_of newId k groupTag mapped = set_supermesh_grouping groupTag (the (createSupermeshNode (newId k) mapped))"

definition after_export :: "(nat \<Rightarrow> uuid) \<Rightarrow> string \<Rightarrow> mapped_mesh_t \<Rightarrow> optimizer_state \<Rightarrow> optimizer_state" where
  "after_export newId groupTag mapped w =
     w\<lparr>drawn_ids := Suc (drawn_ids w), exported := exported w @ [export_of newId (drawn_ids w) groupTag mapped]\<rparr>"

lemma createSuperMesh_exports:
  "meshMapping mapped \<noteq> [] \<Longrightarrow> createSuperMesh newId mapped groupTag w = (Inr (), after_export newId groupTag mapped w)"
  by (simp add: createSuperMesh_def act_simps agets_def amodify_def addSupermesh_def createSupermeshNode_def after_export_def export_of_def)

lemma setUVChannels_keep:
  "vertices (fold (\<lambda>(i, uvs). setUVChannel i uvs) xs m) = vertices m \<and> faces (fold (\<lambda>(i, uvs). setUVChannel i uvs) xs m) = faces m \<and>
   normals (fold (\<lambda>(i, uvs). setUVChannel i uvs) xs m) = normals m"
proof (induction xs arbitrary: m)
  case (Cons x xs)
  then show ?case by (cases x) (simp add: setUVChannel_def Let_def)
qed simp

lemma exported_mesh_of:
  assumes "meshMapping mapped \<noteq> []"
  shows "vertices (exported_mesh (export_of newId k groupTag mapped)) = mapped_vertices mapped"
    "faces (exported_mesh (export_of newId k groupTag mapped)) = mapped_faces mapped"
    "normals (exported_mesh (export_of newId k groupTag mapped)) = mapped_normals mapped"
    "mappings (export_of newId k groupTag mapped) = meshMapping mapped"
  using assms setUVChannels_keep
  by (simp_all add: exported_mesh_def export_of_def createSupermeshNode_def makeNamedSupermeshNode_def set_supermesh_grouping_def
      changeName_def setFaces_def setVertices_def Let_def)

lemma local_index_finds:
  assumes "g \<in> set globals" and "distinct globals"
  shows "unat (local_index globals g) < length globals \<and> globals ! unat (local_index globals g) = g"
proof -
  obtain pos where pos: "pos < length globals" "globals ! pos = g" using assms(1) by (auto simp: in_set_conv_nth)
  have "map_of (zip globals [0..<length globals]) (globals ! pos) = Some ([0..<length globals] ! pos)"
    using assms(2) pos(1) by (intro map_of_zip_nth) simp_all
  then have "local_index globals g = of_nat pos" using pos by (simp add: local_index_def)
  moreover have "length globals \<le> 2 ^ 32"
    using card_mono [of "UNIV :: 32 word set" "set globals"] assms(2) by (simp add: distinct_card card_word)
  ultimately show ?thesis using pos by (simp add: unat_of_nat take_bit_nat_eq_self)
qed

text \<open>The supermesh of a part.\<close>

definition branch_part :: "StreamingMeshNode \<Rightarrow> MaterialPropMap \<Rightarrow> uuid \<Rightarrow> part \<Rightarrow> mapped_mesh_t" where
  "branch_part node matPropMap texId p = the_result (branch_mesh node matPropMap texId (fst p) (snd p)) empty_mapped"

lemma branch_mesh_copies:
  fixes node :: StreamingMeshNode and texId :: uuid
  assumes d: "supermeshingData node = Some d" and g: "geometry_ok d" and mat: "map_of matPropMap (stream_sharedId node) = Some mat"
    and v: "fst p = fset_of_list (concat (map ((!) (data_faces d)) (snd p)))" and ps: "\<forall>i \<in> set (snd p). i < length (data_faces d)"
  defines "mapped \<equiv> branch_part node matPropMap texId p"
  shows "branch_mesh node matPropMap texId (fst p) (snd p) = Inr mapped" and "meshMapping mapped \<noteq> []"
    and "length (mapped_vertices mapped) = fcard (fst p)"
    and "copies_faces d (snd p) (exported_mesh (export_of newId k groupTag mapped))"
proof -
  let ?gl = "sorted_list_of_fset (fst p)" and ?fs = "data_faces d" and ?vs = "data_vertices d"
  have mem: "set ?gl = (\<Union>j \<in> set (snd p). set (?fs ! j))" by (auto simp: v sorted_list_of_fset.rep_eq fset_of_list.rep_eq)
  have dist: "distinct ?gl" by (simp add: sorted_list_of_fset.rep_eq)
  have rng: "unat i < length ?vs" if "i \<in> set ?gl" for i
    using that g ps unfolding mem geometry_ok_def by auto
  have f: "rtraverse (MeshOps.at ?fs) (snd p) = Inr (map ((!) ?fs) (snd p))"
    using ps by (intro rtraverse_all_Inr) (simp add: MeshOps.at_def)
  have look: "rtraverse (\<lambda>g. MeshOps.at xs (unat g)) ?gl = Inr (map (\<lambda>g. xs ! unat g) ?gl)"
    if "length xs = length ?vs" for xs :: "'b list"
    using rng that by (intro rtraverse_all_Inr) (simp add: MeshOps.at_def)
  define us where "us = map (\<lambda>uv. if uv \<noteq> [] then map (\<lambda>g. uv ! unat g) ?gl else []) (data_channels d)"
  have u: "rtraverse (\<lambda>uv. if uv \<noteq> [] then rtraverse (\<lambda>g. MeshOps.at uv (unat g)) ?gl else Inr []) (data_channels d) = Inr us"
    unfolding us_def
  proof (rule rtraverse_all_Inr)
    fix uv assume "uv \<in> set (data_channels d)"
    then have "uv = [] \<or> length uv = length ?vs" using g by (simp add: geometry_ok_def)
    then show "(if uv \<noteq> [] then rtraverse (\<lambda>g. MeshOps.at uv (unat g)) ?gl else Inr []) =
        Inr (if uv \<noteq> [] then map (\<lambda>g. uv ! unat g) ?gl else [])" using look [of uv] by auto
  qed
  define ns where "ns = (if data_normals d \<noteq> [] then map (\<lambda>g. data_normals d ! unat g) ?gl else [])"
  have n: "(if data_normals d \<noteq> [] then rtraverse (\<lambda>g. MeshOps.at (data_normals d) (unat g)) ?gl else Inr []) = Inr ns"
    using g look [of "data_normals d"] by (auto simp: geometry_ok_def ns_def)
  define m0 where "m0 = \<lparr>mapped_vertices = map (\<lambda>g. ?vs ! unat g) ?gl, mapped_normals = ns,
    mapped_faces = map (map (local_index ?gl)) (map ((!) ?fs) (snd p)), mapped_uvChannels = us, meshMapping = []\<rparr>"
  have mb: "mapped_from_branch ?vs (data_normals d) (data_channels d) ?fs ?gl (snd p) = Inr m0"
    unfolding mapped_from_branch_def f rbind_simps look [OF refl] n u m0_def ..
  have mm: "\<exists>mm. material_mapping matPropMap texId node = Inr mm"
    by (simp add: material_mapping_def map_at_def mat getUniqueId_def loaded_def d)
  then obtain mp where b: "branch_mesh node matPropMap texId (fst p) (snd p) = Inr (m0\<lparr>meshMapping := [mp]\<rparr>)"
    by (auto simp: branch_mesh_def getLoadedFaces_def getLoadedVertices_def getLoadedNormals_def getLoadedUVChannelsSeparated_def
      loaded_def d mb Let_def)
  then have mapped: "mapped = m0\<lparr>meshMapping := [mp]\<rparr>" by (simp add: mapped_def branch_part_def the_result_def)
  show "branch_mesh node matPropMap texId (fst p) (snd p) = Inr mapped" "meshMapping mapped \<noteq> []" by (simp_all add: b mapped)
  show "length (mapped_vertices mapped) = fcard (fst p)"
    by (simp add: mapped m0_def sorted_list_of_fset.rep_eq fcard.rep_eq)
  have loc: "unat (local_index ?gl (?fs ! (snd p ! j) ! k)) < length ?gl \<and> ?gl ! unat (local_index ?gl (?fs ! (snd p ! j) ! k)) = ?fs ! (snd p ! j) ! k"
    if "j < length (snd p)" "k < length (?fs ! (snd p ! j))" for j k
  proof (rule local_index_finds [OF _ dist])
    have "?fs ! (snd p ! j) ! k \<in> set (?fs ! (snd p ! j))" "snd p ! j \<in> set (snd p)" using that by simp_all
    then show "?fs ! (snd p ! j) ! k \<in> set ?gl" unfolding mem by blast
  qed
  have ne: "meshMapping mapped \<noteq> []" by (simp add: mapped)
  show "copies_faces d (snd p) (exported_mesh (export_of newId k groupTag mapped))"
    unfolding copies_faces_def exported_mesh_of [OF ne]
    using loc by (simp add: mapped m0_def ns_def)
qed

text \<open>
  C8: splitting a mesh that is too big loses, repeats and invents no face: over a hierarchy of its faces with at least one branch it
  succeeds, and the exported supermeshes are copies of the faces in disjoint parts that are together all faces, each face with the
  corners and normals it had; a part has at most 1200000 vertices unless it is one leaf of the hierarchy. Over a hierarchy that is a single leaf
  the last element of an empty vector is read.
\<close>

theorem splitMesh_partitions_faces:
  assumes d: "supermeshingData node = Some d" and g: "geometry_ok d" and mat: "map_of matPropMap (stream_sharedId node) = Some mat"
    and b: "buildFacesBvh build node = Inr b" and h: "hierarchy b (length (data_faces d)) t"
  shows "(is_leaf_tree t \<longrightarrow> splitMesh newId build node matPropMap texId groupTag w = Some (Inl OutOfRange, w)) \<and>
    (\<not> is_leaf_tree t \<longrightarrow> (\<exists>w' pss ms. splitMesh newId build node matPropMap texId groupTag w = Some (Inr (), w') \<and>
       exported w' = exported w @ ms \<and> mset (concat pss) = mset [0..<length (data_faces d)] \<and>
       list_all2 (\<lambda>ps s. copies_faces d ps (exported_mesh s) \<and>
         (length (vertices (exported_mesh s)) \<le> REPO_MP_MAX_VERTEX_COUNT \<or> (\<exists>i. BvhLeaf i ps \<in> set (subtrees t)))) pss ms))"
proof -
  let ?fs = "data_faces d" and ?emit = "createSupermeshFromBranch newId node matPropMap texId groupTag"
  define upd where "upd p = after_export newId groupTag (branch_part node matPropMap texId p)" for p
  have rep: "represents b t" "root_index t = 0" using h by (simp_all add: hierarchy_def)
  have run: "splitMesh newId build node matPropMap texId groupTag w =
      Some (split_over ?emit b ?fs (map root_index (filter is_leaf_tree (breadth_first [t])))
        (map root_index (filter (\<lambda>t. \<not> is_leaf_tree t) (breadth_first [t]))) w)"
    unfolding splitMesh_def b getLoadedFaces_def loaded_def d option.case sum.case flattenBvh_tree [OF rep] prod.case ..
  have ok: "fst p = fset_of_list (concat (map ((!) ?fs) (snd p)))" "\<forall>i \<in> set (snd p). i < length ?fs" if "p \<in> set (all_parts ?fs t)" for p
  proof -
    show "fst p = fset_of_list (concat (map ((!) ?fs) (snd p)))" using all_parts_ok [OF that] by (simp add: part_ok_def)
    have "set (snd p) \<subseteq> set_mset (mset (concat (map snd (all_parts ?fs t))))" using that by auto
    then show "\<forall>i \<in> set (snd p). i < length ?fs"
      unfolding all_parts_primitives using hierarchy_primitives [OF h] by auto
  qed
  note mesh = branch_mesh_copies [OF d g mat ok, where texId = texId]
  have e: "emits ?emit upd (set (all_parts ?fs t))"
    unfolding emits_def createSupermeshFromBranch_def
    using mesh(1,2) createSuperMesh_exports by (auto simp: upd_def)
  have fold_exports: "exported (fold upd ps w) = exported w @ map (\<lambda>(k, p). export_of newId k groupTag (branch_part node matPropMap texId p))
      (enumerate (drawn_ids w) ps)" for ps w
    by (induction ps arbitrary: w) (simp_all add: upd_def after_export_def)
  show ?thesis
  proof (intro conjI impI)
    assume "is_leaf_tree t"
    then show "splitMesh newId build node matPropMap texId groupTag w = Some (Inl OutOfRange, w)"
      unfolding run by (simp only: split_over_tree(1) [OF h])
  next
    assume "\<not> is_leaf_tree t"
    from split_over_tree(2) [OF h this e, of w] obtain parts where
      p: "split_over ?emit b ?fs (map root_index (filter is_leaf_tree (breadth_first [t])))
        (map root_index (filter (\<lambda>t. \<not> is_leaf_tree t) (breadth_first [t]))) w = (Inr (), fold upd parts w)"
        "mset parts = mset (all_parts ?fs t)" by (elim exE conjE)
    have mem: "set parts = set (all_parts ?fs t)" using p(2) by (metis set_mset_mset)
    let ?ms = "map (\<lambda>(k, p). export_of newId k groupTag (branch_part node matPropMap texId p)) (enumerate (drawn_ids w) parts)"
    have "mset (concat (map snd parts)) = mset (concat (map snd (all_parts ?fs t)))"
      by (rule mset_concat_map [OF p(2)])
    then have "mset (concat (map snd parts)) = mset [0..<length ?fs]"
      using h by (simp only: all_parts_primitives hierarchy_def)
    moreover have "list_all2 (\<lambda>ps s. copies_faces d ps (exported_mesh s) \<and>
         (length (vertices (exported_mesh s)) \<le> REPO_MP_MAX_VERTEX_COUNT \<or> (\<exists>i. BvhLeaf i ps \<in> set (subtrees t)))) (map snd parts) ?ms"
    proof (rule list_all2_all_nthI)
      fix j assume "j < length (map snd parts)"
      then have j: "j < length parts" "parts ! j \<in> set (all_parts ?fs t)" using mem nth_mem by auto
      have s: "?ms ! j = export_of newId (drawn_ids w + j) groupTag (branch_part node matPropMap texId (parts ! j))"
        using j(1) by (simp add: nth_enumerate_eq)
      show "copies_faces d (map snd parts ! j) (exported_mesh (?ms ! j)) \<and>
         (length (vertices (exported_mesh (?ms ! j))) \<le> REPO_MP_MAX_VERTEX_COUNT \<or> (\<exists>i. BvhLeaf i (map snd parts ! j) \<in> set (subtrees t)))"
        unfolding s nth_map [OF j(1)] using mesh(4) [OF j(2) j(2)] all_parts_ok [OF j(2), unfolded part_ok_def, THEN conjunct2]
        by (simp only: exported_mesh_of(1) [OF mesh(2) [OF j(2) j(2)]] mesh(3) [OF j(2) j(2)] simp_thms)
    qed simp
    ultimately show "\<exists>w' pss ms. splitMesh newId build node matPropMap texId groupTag w = Some (Inr (), w') \<and>
       exported w' = exported w @ ms \<and> mset (concat pss) = mset [0..<length ?fs] \<and>
       list_all2 (\<lambda>ps s. copies_faces d ps (exported_mesh s) \<and>
         (length (vertices (exported_mesh s)) \<le> REPO_MP_MAX_VERTEX_COUNT \<or> (\<exists>i. BvhLeaf i ps \<in> set (subtrees t)))) pss ms"
      using run p(1) fold_exports [of parts w]
      by (intro exI [of _ "fold upd parts w"] exI [of _ "map snd parts"] exI [of _ ?ms]) simp
  qed
qed

text \<open>Two faces in two leaves.\<close>

definition two_faces :: SupermeshingData where
  "two_faces = \<lparr>data_uniqueId = 7, data_vertices = [(0, 0, 0), (f_one, 0, 0), (0, f_one, 0), (f_one, f_one, 0)],
     data_faces = [[0, 1, 2], [2, 1, 3]], data_normals = [], data_channels = []\<rparr>"

definition two_face_node :: StreamingMeshNode where
  "two_face_node = empty_streaming_mesh\<lparr>stream_sharedId := 5, supermeshingData := Some two_faces\<rparr>"

definition two_leaves :: bvh_builder where
  "two_leaves boxes = \<lparr>bvh_nodes = [\<lparr>primitive_count = 0, first_child_or_primitive = 1\<rparr>, \<lparr>primitive_count = 1, first_child_or_primitive = 1\<rparr>,
     \<lparr>primitive_count = 1, first_child_or_primitive = 0\<rparr>], primitive_indices = [0, 1]\<rparr>"

theorem splitMesh_partitions_faces_witness:
  "\<exists>w' pss ms. splitMesh (\<lambda>k. of_nat k) two_leaves two_face_node [(5, RepoNode_default 6)] 0 ''floor''
       \<lparr>exported = [], finalised = False, drawn_ids = 3, branchGroups = []\<rparr> = Some (Inr (), w') \<and>
     exported w' = ms \<and> mset (concat pss) = {#0, 1#} \<and> list_all2 (\<lambda>ps s. copies_faces two_faces ps (exported_mesh s)) pss ms"
proof -
  let ?t = "BvhBranch 0 (BvhLeaf 1 [1]) (BvhLeaf 2 [0])"
  have d: "supermeshingData two_face_node = Some two_faces" by (simp add: two_face_node_def)
  have g: "geometry_ok two_faces" by (simp add: geometry_ok_def two_faces_def)
  have mat: "map_of [(5, RepoNode_default 6)] (stream_sharedId two_face_node) = Some (RepoNode_default 6)"
    by (simp add: two_face_node_def)
  have b: "buildFacesBvh two_leaves two_face_node = Inr (two_leaves [])"
    by (simp add: buildFacesBvh_def getLoadedFaces_def getLoadedVertices_def loaded_def two_face_node_def two_faces_def two_leaves_def
      face_box_def MeshOps.at_def)
  have h: "hierarchy (two_leaves []) (length (data_faces two_faces)) ?t"
    by (simp add: hierarchy_def two_leaves_def two_faces_def is_leaf_def leaf_primitives_def MeshOps.at_def upt_rec)
  from splitMesh_partitions_faces [OF d g mat b h, of "\<lambda>k. of_nat k" 0 "''floor''" "\<lparr>exported = [], finalised = False, drawn_ids = 3, branchGroups = []\<rparr>"]
  obtain w' pss ms where "splitMesh (\<lambda>k. of_nat k) two_leaves two_face_node [(5, RepoNode_default 6)] 0 ''floor''
       \<lparr>exported = [], finalised = False, drawn_ids = 3, branchGroups = []\<rparr> = Some (Inr (), w')" "exported w' = ms"
     "mset (concat pss) = mset [0..<length (data_faces two_faces)]" "list_all2 (\<lambda>ps s. copies_faces two_faces ps (exported_mesh s) \<and>
         (length (vertices (exported_mesh s)) \<le> REPO_MP_MAX_VERTEX_COUNT \<or> (\<exists>i. BvhLeaf i ps \<in> set (subtrees ?t)))) pss ms"
    by auto
  then show ?thesis
    by (intro exI [of _ w'] exI [of _ pss] exI [of _ ms]) (auto simp: two_faces_def upt_rec elim: list_all2_mono)
qed

subsection \<open>Meshes side by side\<close>

text \<open>A mapping of a supermesh covers a mesh: its vertices as they are, its faces with their indices moved.\<close>

definition slice :: "nat \<Rightarrow> nat \<Rightarrow> 'a list \<Rightarrow> 'a list" where
  "slice a b xs = take (b - a) (drop a xs)"

definition covers :: "mapped_mesh_t \<Rightarrow> repo_mesh_mapping_t \<Rightarrow> SupermeshingData \<Rightarrow> bool" where
  "covers mapped mm d \<longleftrightarrow> mesh_id mm = data_uniqueId d \<and>
     unat (vertFrom mm) \<le> unat (vertTo mm) \<and> unat (vertTo mm) \<le> length (mapped_vertices mapped) \<and>
     unat (triFrom mm) \<le> unat (triTo mm) \<and> unat (triTo mm) \<le> length (mapped_faces mapped) \<and>
     slice (unat (vertFrom mm)) (unat (vertTo mm)) (mapped_vertices mapped) = data_vertices d \<and>
     slice (unat (triFrom mm)) (unat (triTo mm)) (mapped_faces mapped) = map (map (\<lambda>i. vertFrom mm + i)) (data_faces d)"

lemma slice_append: "a \<le> b \<Longrightarrow> b \<le> length xs \<Longrightarrow> slice a b (xs @ ys) = slice a b xs"
  by (simp add: slice_def)

lemma slice_end: "slice (length xs) (length xs + length ys) (xs @ ys) = ys"
  by (simp add: slice_def)

lemma covers_mono:
  assumes "covers mapped mm d" and "mapped_vertices mapped' = mapped_vertices mapped @ vs" and "mapped_faces mapped' = mapped_faces mapped @ fs"
  shows "covers mapped' mm d"
  using assms by (simp add: covers_def slice_append)

definition mesh_of :: "StreamingMeshNode \<Rightarrow> SupermeshingData" where
  "mesh_of node = the (supermeshingData node)"

lemma appendMesh_covers:
  assumes a: "appendMesh node matPropMap mapped texId = Inr mapped'"
    and small: "length (mapped_vertices mapped') < 2 ^ 31" "length (mapped_faces mapped') < 2 ^ 31"
  shows "\<exists>mm vs fs. meshMapping mapped' = meshMapping mapped @ [mm] \<and> mapped_vertices mapped' = mapped_vertices mapped @ vs \<and>
    mapped_faces mapped' = mapped_faces mapped @ fs \<and> covers mapped' mm (mesh_of node)"
proof -
  let ?off = "of_nat (length (mapped_vertices mapped)) :: 32 word"
  obtain mm0 where mat: "material_mapping matPropMap texId node = Inr mm0"
    using a by (auto simp: appendMesh_def rbind_Inr_iff)
  obtain d where d: "supermeshingData node = Some d"
    using a by (cases "supermeshingData node") (auto simp: appendMesh_def rbind_Inr_iff Let_def getLoadedVertices_def loaded_def)
  have id: "mesh_id mm0 = data_uniqueId d"
    using mat by (auto simp: material_mapping_def rbind_Inr_iff getUniqueId_def loaded_def d)
  define mm where "mm = mm0\<lparr>map_min := narrow_point (bmin (stream_bounds node)), map_max := narrow_point (bmax (stream_bounds node)),
    vertFrom := ?off, vertTo := ?off + of_nat (length (data_vertices d)), triFrom := of_nat (length (mapped_faces mapped)),
    triTo := of_nat (length (mapped_faces mapped) + length (data_faces d))\<rparr>"
  have m': "meshMapping mapped' = meshMapping mapped @ [mm]" "mapped_vertices mapped' = mapped_vertices mapped @ data_vertices d"
    "mapped_faces mapped' = mapped_faces mapped @ map (map (\<lambda>idx. ?off + idx)) (data_faces d)"
    using a by (auto simp: appendMesh_def mat d loaded_def getLoadedVertices_def getLoadedNormals_def getLoadedFaces_def
      getLoadedUVChannelsSeparated_def Let_def mm_def split: if_splits)
  have u: "unat ?off = length (mapped_vertices mapped)"
    "unat (?off + of_nat (length (data_vertices d))) = length (mapped_vertices mapped) + length (data_vertices d)"
    "unat (of_nat (length (mapped_faces mapped)) :: 32 word) = length (mapped_faces mapped)"
    "unat (of_nat (length (mapped_faces mapped) + length (data_faces d)) :: 32 word) = length (mapped_faces mapped) + length (data_faces d)"
    using small by (simp_all add: m' unat_of_nat take_bit_nat_eq_self flip: of_nat_add)
  have "covers mapped' mm d"
    using u slice_end [of "mapped_vertices mapped" "data_vertices d"]
      slice_end [of "mapped_faces mapped" "map (map (\<lambda>idx. ?off + idx)) (data_faces d)"]
    by (simp add: covers_def mm_def m' id)
  then show ?thesis using m' d by (simp add: mesh_of_def)
qed

text \<open>
  C21: meshes that are appended one after the other lie side by side in the supermesh: there is one mapping for each mesh, in order,
  and it covers exactly the vertices of its mesh and its faces, moved by the number of vertices before them, as long as the supermesh stays below
  the range of the mapping's 32-bit integers.
\<close>

theorem appended_meshes_covered:
  assumes "rfold (\<lambda>node m. appendMesh node matPropMap m texId) nodes empty_mapped = Inr mapped"
    and "length (mapped_vertices mapped) < 2 ^ 31" and "length (mapped_faces mapped) < 2 ^ 31"
  shows "list_all2 (covers mapped) (meshMapping mapped) (map mesh_of nodes)"
  using assms
proof (induction nodes arbitrary: mapped rule: rev_induct)
  case Nil
  then show ?case by (auto simp: empty_mapped_def)
next
  case (snoc node nodes)
  obtain m where m: "rfold (\<lambda>node m. appendMesh node matPropMap m texId) nodes empty_mapped = Inr m"
    "appendMesh node matPropMap m texId = Inr mapped"
    using snoc.prems(1) by (auto simp: rfold_append rbind_Inr_iff)
  obtain mm vs fs where a: "meshMapping mapped = meshMapping m @ [mm]" "mapped_vertices mapped = mapped_vertices m @ vs"
    "mapped_faces mapped = mapped_faces m @ fs" "covers mapped mm (mesh_of node)"
    using appendMesh_covers [OF m(2) snoc.prems(2,3)] by (elim exE conjE)
  have "list_all2 (covers m) (meshMapping m) (map mesh_of nodes)"
    using snoc.IH [OF m(1)] snoc.prems(2,3) a(2,3) by simp
  then have "list_all2 (covers mapped) (meshMapping m) (map mesh_of nodes)"
    by (rule list_all2_mono) (rule covers_mono [OF _ a(2,3)])
  then show ?case using a(1,4) by (simp add: list_all2_appendI)
qed

theorem appended_meshes_covered_witness:
  "\<exists>mapped. rfold (\<lambda>node m. appendMesh node [(5, RepoNode_default 6)] m 0) [two_face_node, two_face_node] empty_mapped = Inr mapped \<and>
     list_all2 (covers mapped) (meshMapping mapped) [two_faces, two_faces] \<and> length (mapped_faces mapped) = 4"
proof -
  let ?r = "rfold (\<lambda>node m. appendMesh node [(5, RepoNode_default 6)] m 0) [two_face_node, two_face_node] empty_mapped"
  obtain mapped where m: "?r = Inr mapped" "length (mapped_vertices mapped) = 8" "length (mapped_faces mapped) = 4"
    by (simp add: appendMesh_def two_face_node_def two_faces_def empty_mapped_def material_mapping_def map_at_def getUniqueId_def loaded_def
      getLoadedVertices_def getLoadedNormals_def getLoadedFaces_def getLoadedUVChannelsSeparated_def Let_def)
  from appended_meshes_covered [OF m(1)] m show ?thesis
    by (intro exI [of _ mapped]) (simp add: mesh_of_def two_face_node_def)
qed

end
