(* ===== verification/Multipart.thy ===== *)
theory Multipart
  imports Supermesh FileService
begin

text \<open>
  \<open>MultipartOptimizer\<close> of \<open>manipulator/modeloptimizer/repo_optimizer_multipart.cpp\<close> as a whole: the transformations and materials of a
  revision are read, the meshes are asked for in jobs by their material, primitive and normals, each job's meshes are grouped and
  clustered, and each cluster becomes supermeshes. The database only answers queries here, each with its projection.
\<close>

subsection \<open>State\<close>

type_synonym query_function = "string \<Rightarrow> string \<Rightarrow> RepoQuery \<Rightarrow> RepoQuery \<Rightarrow> RepoBSON list result"

record ('s, 'd) multipart_env =
  files_env :: "('s, 'd) manager_env"
  file_manager :: "('s, 'd) manager"
  findCursor :: query_function \<comment> \<open>\<open>findCursorByCriteria\<close>, read to its end\<close>
  findAll :: query_function
  bounds_builder :: bvh_builder
  faces_builder :: bvh_builder \<comment> \<open>with leaves of at most 16 primitives\<close>
  sort_metrics :: "(meshMetric \<Rightarrow> nat) \<Rightarrow> meshMetric list \<Rightarrow> meshMetric list"
  new_uuid :: "nat \<Rightarrow> uuid"
  uuid_name :: "uuid \<Rightarrow> string"
  groups_order :: "(string \<times> nat option) list \<Rightarrow> (string \<times> nat option) list" \<comment> \<open>of an \<open>unordered_map\<close>\<close>
  parse_time :: "int \<Rightarrow> tm"
  splitByFloor :: bool

record TransformInfo =
  info_matrix :: "fp64 matrix"
  info_branch :: "nat option"

type_synonym TransformMap = "(uuid \<times> TransformInfo) list"

definition empty_info :: TransformInfo where
  "empty_info = \<lparr>info_matrix = identity_matrix, info_branch = None\<rparr>"

record ProcessingJob =
  description :: string
  job_filter :: RepoQuery
  job_texId :: uuid

definition isTexturedJob :: "ProcessingJob \<Rightarrow> bool" where
  "isTexturedJob job \<longleftrightarrow> job_texId job \<noteq> default_uuid"

text \<open>\<open>insert\<close> of a map leaves an entry that is there.\<close>

definition insert_new :: "'k \<Rightarrow> 'v \<Rightarrow> ('k \<times> 'v) list \<Rightarrow> ('k \<times> 'v) list" where
  "insert_new k v m = (if map_of m k = None then m @ [(k, v)] else m)"

text \<open>A walk or loop that does not end.\<close>

definition of_walk :: "'a result option \<Rightarrow> 'a result" where
  "of_walk r = (case r of None \<Rightarrow> Inl Diverges | Some r \<Rightarrow> r)"

subsection \<open>Transformations\<close>

definition by_revision :: "uuid \<Rightarrow> string \<Rightarrow> RepoQuery list" where
  "by_revision revisionId type = [Eq REPO_NODE_REVISION_ID [VUUID revisionId], Eq REPO_NODE_LABEL_TYPE [VString type]]"

definition scene_collection :: "string \<Rightarrow> string" where
  "scene_collection collection = collection @ ''.'' @ REPO_COLLECTION_SCENE"

type_synonym child_map = "(uuid \<times> RepoBSON list) list"

definition add_child :: "uuid \<Rightarrow> RepoBSON \<Rightarrow> child_map \<Rightarrow> child_map" where
  "add_child parent bson m =
     (case map_of m parent of Some cs \<Rightarrow> AList.update parent (cs @ [bson]) m | None \<Rightarrow> AList.update parent [bson] m)"

text \<open>One document of the cursor: its place below its first parent or as the root, and an entry for it.\<close>

definition transform_row :: "RepoBSON \<Rightarrow> child_map \<times> RepoBSON \<times> TransformMap \<Rightarrow> (child_map \<times> RepoBSON \<times> TransformMap) result" where
  "transform_row bson = (\<lambda>(childNodeMap, rootNode, transformMap).
     rbind (if hasField bson REPO_NODE_LABEL_PARENTS
            then rbind (first_parent bson) (\<lambda>p. Inr (add_child p bson childNodeMap, rootNode))
            else Inr (childNodeMap, bson)) (\<lambda>(childNodeMap, rootNode).
     rbind (getUUIDField bson REPO_NODE_LABEL_SHARED_ID) (\<lambda>ident.
       Inr (childNodeMap, rootNode, insert_new ident empty_info transformMap))))"

definition REPO_METADATA_GROUPING_FLOOR :: string where "REPO_METADATA_GROUPING_FLOOR = ''Asite 3DRepo::Floor''"

definition createBranchGroup :: "string \<Rightarrow> nat opt_act" where
  "createBranchGroup name =
     abind (agets (\<lambda>w. length (branchGroups w))) (\<lambda>k.
     abind (amodify (\<lambda>w. w\<lparr>branchGroups := branchGroups w @ [name]\<rparr>)) (\<lambda>_. areturn k))"

definition set_branch :: "nat \<Rightarrow> uuid \<Rightarrow> TransformMap \<Rightarrow> TransformMap" where
  "set_branch g parent transforms =
     (case map_of transforms parent of
        Some info \<Rightarrow> AList.update parent (info\<lparr>info_branch := Some g\<rparr>) transforms
      | None \<Rightarrow> transforms)"

text \<open>\<open>boost::get\<close> of another type throws \<open>bad_get\<close>.\<close>

definition floor_of :: "(string \<times> RepoVariant) list \<Rightarrow> string result" where
  "floor_of entries =
     rbind (map_at entries REPO_METADATA_GROUPING_FLOOR) (\<lambda>v. case v of VString s \<Rightarrow> Inr s | _ \<Rightarrow> Inl (LogicError ''boost::bad_get''))"

definition branch_row ::
  "('s, 'd) multipart_env \<Rightarrow> RepoBSON \<Rightarrow> (string \<times> nat) list \<times> TransformMap \<Rightarrow> ((string \<times> nat) list \<times> TransformMap) opt_act" where
  "branch_row env bson = (\<lambda>(branchGroupsByTag, transforms).
     abind (aresult (MetadataNode_of_bson (parse_time env) bson)) (\<lambda>metadataNode.
     abind (aresult (floor_of (case content metadataNode of MetadataNode m \<Rightarrow> m | _ \<Rightarrow> []))) (\<lambda>name.
     abind (case map_of branchGroupsByTag name of
              Some g \<Rightarrow> areturn (g, branchGroupsByTag)
            | None \<Rightarrow> abind (createBranchGroup name) (\<lambda>g. areturn (g, (name, g) # branchGroupsByTag))) (\<lambda>(g, tags).
       areturn (tags, fold (set_branch g) (getParentIDs metadataNode) transforms)))))"

definition applyBranchGroups ::
  "('s, 'd) multipart_env \<Rightarrow> string \<Rightarrow> string \<Rightarrow> uuid \<Rightarrow> TransformMap \<Rightarrow> TransformMap opt_act" where
  "applyBranchGroups env database collection revisionId transforms =
     abind (aresult (findCursor env database (scene_collection collection)
              (RepoQueryBuilder (by_revision revisionId REPO_NODE_TYPE_METADATA @
                [ArrayContains REPO_NODE_LABEL_METADATA (Eq REPO_NODE_LABEL_META_KEY [VString REPO_METADATA_GROUPING_FLOOR])]))
              (RepoProjectionBuilder [REPO_NODE_LABEL_SHARED_ID, REPO_NODE_LABEL_PARENTS, REPO_NODE_LABEL_METADATA] [REPO_NODE_LABEL_ID]))) (\<lambda>bsons.
     abind (afold (branch_row env) bsons ([], transforms)) (\<lambda>(_, transforms). areturn transforms))"

text \<open>
  \<open>traverseTransformTree\<close>: depth first, with the information of the parent on the stack. On documents that
  make a cycle it does not end.
\<close>

definition visit_transform ::
  "child_map \<Rightarrow> RepoBSON \<Rightarrow> TransformInfo \<Rightarrow> TransformMap \<Rightarrow> ((RepoBSON \<times> TransformInfo) list \<times> TransformMap) result" where
  "visit_transform childNodeMap bson parentInfo transforms =
     rbind (getUUIDField bson REPO_NODE_LABEL_SHARED_ID) (\<lambda>nodeId.
     rbind (getMatrixField bson REPO_NODE_LABEL_MATRIX) (\<lambda>mat.
     rbind (map_at transforms nodeId) (\<lambda>info.
       let info = info\<lparr>info_matrix := matrix_mul (info_matrix parentInfo) (map Fp64 mat),
                       info_branch := (if info_branch info = None then info_branch parentInfo else info_branch info)\<rparr>
       in Inr (map (\<lambda>child. (child, info)) (case map_of childNodeMap nodeId of Some cs \<Rightarrow> cs | None \<Rightarrow> []),
               AList.update nodeId info transforms))))"

partial_function (option) traverse_loop ::
  "child_map \<Rightarrow> (RepoBSON \<times> TransformInfo) list \<Rightarrow> TransformMap \<Rightarrow> TransformMap result option" where
  "traverse_loop childNodeMap stack transforms =
     (case stack of
        [] \<Rightarrow> Some (Inr transforms)
      | item # stack \<Rightarrow>
          (case visit_transform childNodeMap (fst item) (snd item) transforms of
             Inl e \<Rightarrow> Some (Inl e)
           | Inr r \<Rightarrow> traverse_loop childNodeMap (rev (fst r) @ stack) (snd r)))"

declare traverse_loop.simps [code]

definition traverseTransformTree :: "RepoBSON \<Rightarrow> child_map \<Rightarrow> TransformMap \<Rightarrow> TransformMap result option" where
  "traverseTransformTree rootBson childNodeMap transforms = traverse_loop childNodeMap [(rootBson, empty_info)] transforms"

definition getAllTransforms :: "('s, 'd) multipart_env \<Rightarrow> string \<Rightarrow> string \<Rightarrow> uuid \<Rightarrow> TransformMap opt_act" where
  "getAllTransforms env database collection revisionId =
     abind (aresult (findCursor env database (scene_collection collection) (RepoQueryBuilder (by_revision revisionId REPO_NODE_TYPE_TRANSFORMATION))
              (RepoProjectionBuilder [REPO_NODE_LABEL_SHARED_ID, REPO_NODE_LABEL_MATRIX, REPO_NODE_LABEL_PARENTS] [REPO_NODE_LABEL_ID]))) (\<lambda>bsons.
     abind (aresult (rfold transform_row bsons ([], \<lparr>doc = [], bigFiles = []\<rparr>, []))) (\<lambda>(childNodeMap, rootNode, transformMap).
     abind (if splitByFloor env then applyBranchGroups env database collection revisionId transformMap else areturn transformMap) (\<lambda>transformMap.
       if isEmpty rootNode then aresult (Inl (RepoException ''getAllTransforms; no root node found.''))
       else aresult (of_walk (traverseTransformTree rootNode childNodeMap transformMap)))))"

subsection \<open>Materials, textures and jobs\<close>

definition material_row :: "RepoBSON \<Rightarrow> MaterialPropMap \<Rightarrow> MaterialPropMap result" where
  "material_row bson mats =
     rbind (MaterialNode_of_bson bson) (\<lambda>matNode.
     rbind (getUUIDFieldArray bson REPO_NODE_LABEL_PARENTS) (\<lambda>parents.
       Inr (fold (\<lambda>parent. insert_new parent matNode) parents mats)))"

definition getAllMaterials :: "('s, 'd) multipart_env \<Rightarrow> string \<Rightarrow> string \<Rightarrow> uuid \<Rightarrow> MaterialPropMap result" where
  "getAllMaterials env database collection revisionId =
     rbind (findAll env database (scene_collection collection) (RepoQueryBuilder (by_revision revisionId REPO_NODE_TYPE_MATERIAL))
             (RepoProjectionBuilder [] []))
       (\<lambda>bsons. rfold material_row bsons [])"

definition getAllTextureIds :: "('s, 'd) multipart_env \<Rightarrow> string \<Rightarrow> string \<Rightarrow> uuid \<Rightarrow> uuid list result" where
  "getAllTextureIds env database collection revisionId =
     rbind (findCursor env database (scene_collection collection) (RepoQueryBuilder (by_revision revisionId REPO_NODE_TYPE_TEXTURE))
             (RepoProjectionBuilder [REPO_NODE_LABEL_ID] []))
       (rtraverse (\<lambda>bson. getUUIDField bson REPO_NODE_LABEL_ID))"

definition REPO_FILTER_TAG_OPAQUE :: string where "REPO_FILTER_TAG_OPAQUE = ''materialProperties.isOpaque''"
definition REPO_FILTER_TAG_TRANSPARENT :: string where "REPO_FILTER_TAG_TRANSPARENT = ''materialProperties.isTransparent''"
definition REPO_FILTER_TAG_NORMALS :: string where "REPO_FILTER_TAG_NORMALS = ''_blobRef.elements.normals''"

definition createUntexturedJob :: "uuid \<Rightarrow> nat \<Rightarrow> bool \<Rightarrow> bool \<Rightarrow> ProcessingJob" where
  "createUntexturedJob revisionId prim isOpaque hasNormals =
     \<lparr>description = ''Untextured Job - Primitive: '' @ (if prim = 2 then ''2'' else ''3'') @ ''; '' @ (if isOpaque then ''Opaque'' else ''Transparent'') @
        ''; '' @ (if hasNormals then ''Has Normals'' else ''No Normals''),
      job_filter = RepoQueryBuilder [Eq REPO_NODE_LABEL_TYPE [VString REPO_NODE_TYPE_MESH], Eq REPO_NODE_REVISION_ID [VUUID revisionId],
        Eq REPO_NODE_MESH_LABEL_PRIMITIVE [VInt (of_nat prim)],
        Eq (if isOpaque then REPO_FILTER_TAG_OPAQUE else REPO_FILTER_TAG_TRANSPARENT) [VBool True],
        Exists REPO_FILTER_TAG_NORMALS hasNormals],
      job_texId = default_uuid\<rparr>"

definition createTexturedJob :: "('s, 'd) multipart_env \<Rightarrow> uuid \<Rightarrow> nat \<Rightarrow> bool \<Rightarrow> uuid \<Rightarrow> ProcessingJob" where
  "createTexturedJob env revisionId prim hasNormals texId =
     \<lparr>description = ''Textured Job - Texture: '' @ uuid_name env texId @ ''; Primitive: '' @ (if prim = 2 then ''2'' else ''3'') @ ''; '' @
        (if hasNormals then ''Has Normals'' else ''No Normals''),
      job_filter = RepoQueryBuilder [Eq REPO_NODE_LABEL_TYPE [VString REPO_NODE_TYPE_MESH], Eq REPO_NODE_REVISION_ID [VUUID revisionId],
        Eq REPO_FILTER_TAG_TEXTURE_ID [VUUID texId], Eq REPO_NODE_MESH_LABEL_PRIMITIVE [VInt (of_nat prim)],
        Exists REPO_FILTER_TAG_NORMALS hasNormals],
      job_texId = texId\<rparr>"

text \<open>The jobs in the order \<open>processScene\<close> makes them.\<close>

definition all_jobs :: "('s, 'd) multipart_env \<Rightarrow> uuid \<Rightarrow> uuid list \<Rightarrow> ProcessingJob list" where
  "all_jobs env revisionId texIds =
     [createUntexturedJob revisionId p isOpaque hasNormals. p \<leftarrow> [2, 3], isOpaque \<leftarrow> [False, True], hasNormals \<leftarrow> [False, True]] @
     [createTexturedJob env revisionId p hasNormals texId. texId \<leftarrow> texIds, p \<leftarrow> [2, 3], hasNormals \<leftarrow> [False, True]]"

subsection \<open>Building supermeshes\<close>

record ('s, 'd) building =
  mesh_nodes :: "StreamingMeshNode list"
  currentSupermesh :: mapped_mesh_t
  blobHandler :: "('s, 'd) blob"

text \<open>
  Loading the geometry of the mesh a document is about and baking it; the pointers into the vector of meshes are
  positions.
\<close>

definition load_node ::
  "('s, 'd) multipart_env \<Rightarrow> string \<Rightarrow> string \<Rightarrow> TransformMap \<Rightarrow> uuid \<Rightarrow> (uuid \<times> nat) list \<Rightarrow> RepoBSON \<Rightarrow>
     ('s, 'd) building \<Rightarrow> (nat \<times> StreamingMeshNode \<times> ('s, 'd) building) result" where
  "load_node env database sceneCollection transformMap texId clusterMap nodeBson st =
     rbind (getUUIDField nodeBson REPO_NODE_LABEL_SHARED_ID) (\<lambda>ident.
     rbind (map_at clusterMap ident) (\<lambda>idx.
     rbind (MeshOps.at (mesh_nodes st) idx) (\<lambda>sNode.
     rbind (getBinaryReference nodeBson) (\<lambda>binRef.
     rbind (DataRef_deserialise binRef) (\<lambda>dataRef.
     case readToBuffer (files_env env) database sceneCollection dataRef (blobHandler st) of
       (Inl e, _) \<Rightarrow> Inl e
     | (Inr buffer, blob) \<Rightarrow>
         (case loadSupermeshingData nodeBson buffer (texId = default_uuid) sNode of
            (Inl e, _) \<Rightarrow> Inl e
          | (Inr _, sNode) \<Rightarrow>
              rbind (map_at transformMap (stream_parent sNode)) (\<lambda>transform.
              rbind (bakeLoadedMeshes (info_matrix transform) sNode) (\<lambda>sNode.
                Inr (idx, sNode, st\<lparr>blobHandler := blob\<rparr>)))))))))"

text \<open>Where a loaded mesh goes: onto the current supermesh, into parts, or onto a new supermesh.\<close>

definition place_mesh ::
  "('s, 'd) multipart_env \<Rightarrow> MaterialPropMap \<Rightarrow> uuid \<Rightarrow> string \<Rightarrow> StreamingMeshNode \<Rightarrow> mapped_mesh_t \<Rightarrow> mapped_mesh_t opt_act" where
  "place_mesh env matPropMap texId namedGrouping sNode current =
     abind (aresult (getNumLoadedVertices sNode)) (\<lambda>n.
       if length (mapped_vertices current) + unat n \<le> REPO_MP_MAX_VERTEX_COUNT
       then aresult (appendMesh sNode matPropMap current texId)
       else if unat n > REPO_MP_MAX_VERTEX_COUNT
       then abind (\<lambda>w. case splitMesh (new_uuid env) (faces_builder env) sNode matPropMap texId namedGrouping w of
                      None \<Rightarrow> (Inl Diverges, w) | Some r \<Rightarrow> r) (\<lambda>_. areturn current)
       else abind (createSuperMesh (new_uuid env) current namedGrouping) (\<lambda>_.
              aresult (appendMesh sNode matPropMap empty_mapped texId)))"

definition build_mesh ::
  "('s, 'd) multipart_env \<Rightarrow> string \<Rightarrow> string \<Rightarrow> TransformMap \<Rightarrow> MaterialPropMap \<Rightarrow> uuid \<Rightarrow> string \<Rightarrow> (uuid \<times> nat) list \<Rightarrow>
     RepoBSON \<Rightarrow> ('s, 'd) building \<Rightarrow> ('s, 'd) building opt_act" where
  "build_mesh env database sceneCollection transformMap matPropMap texId namedGrouping clusterMap nodeBson st =
     abind (aresult (load_node env database sceneCollection transformMap texId clusterMap nodeBson st)) (\<lambda>(idx, sNode, st).
     abind (place_mesh env matPropMap texId namedGrouping sNode (currentSupermesh st)) (\<lambda>current.
       areturn (st\<lparr>mesh_nodes := (mesh_nodes st)[idx := unloadSupermeshingData sNode], currentSupermesh := current\<rparr>)))"

text \<open>The last supermesh of a cluster.\<close>

definition flush_supermesh :: "('s, 'd) multipart_env \<Rightarrow> string \<Rightarrow> mapped_mesh_t \<Rightarrow> unit opt_act" where
  "flush_supermesh env namedGrouping current =
     (if mapped_vertices current \<noteq> [] then createSuperMesh (new_uuid env) current namedGrouping else areturn ())"

definition createSuperMeshes_projection :: RepoQuery where
  "createSuperMeshes_projection =
     RepoProjectionBuilder [REPO_NODE_LABEL_SHARED_ID, REPO_NODE_MESH_LABEL_VERTICES_COUNT, REPO_NODE_MESH_LABEL_FACES_COUNT,
       REPO_NODE_MESH_LABEL_UV_CHANNELS_COUNT, REPO_NODE_MESH_LABEL_PRIMITIVE, REPO_LABEL_BINARY_REFERENCE] [REPO_NODE_LABEL_ID]"

definition cluster_supermeshes ::
  "('s, 'd) multipart_env \<Rightarrow> string \<Rightarrow> string \<Rightarrow> TransformMap \<Rightarrow> MaterialPropMap \<Rightarrow> uuid \<Rightarrow> string \<Rightarrow> nat list \<Rightarrow>
     StreamingMeshNode list \<times> ('s, 'd) blob \<Rightarrow> (StreamingMeshNode list \<times> ('s, 'd) blob) opt_act" where
  "cluster_supermeshes env database sceneCollection transformMap matPropMap texId namedGrouping cluster = (\<lambda>(ns, blob).
     abind (aresult (rtraverse (MeshOps.at ns) cluster)) (\<lambda>nodes.
     let sharedIdsInCluster = map stream_sharedId nodes;
         clusterMap = fold (\<lambda>(ident, idx). insert_new ident idx) (zip sharedIdsInCluster cluster) []
     in abind (aresult (findAll env database sceneCollection (Eq REPO_NODE_LABEL_SHARED_ID (map VUUID sharedIdsInCluster))
                createSuperMeshes_projection)) (\<lambda>binNodes.
        abind (afold (build_mesh env database sceneCollection transformMap matPropMap texId namedGrouping clusterMap) binNodes
                 \<lparr>mesh_nodes = ns, currentSupermesh = empty_mapped, blobHandler = blob\<rparr>) (\<lambda>st.
        abind (flush_supermesh env namedGrouping (currentSupermesh st)) (\<lambda>_.
          areturn (mesh_nodes st, blobHandler st))))))"

definition createSuperMeshes ::
  "('s, 'd) multipart_env \<Rightarrow> string \<Rightarrow> string \<Rightarrow> TransformMap \<Rightarrow> MaterialPropMap \<Rightarrow> StreamingMeshNode list \<Rightarrow> nat list list \<Rightarrow>
     uuid \<Rightarrow> string \<Rightarrow> unit opt_act" where
  "createSuperMeshes env database collection transformMap matPropMap ns clusters texId namedGrouping =
     abind (afold (cluster_supermeshes env database (scene_collection collection) transformMap matPropMap texId namedGrouping) clusters
              (ns, \<lparr>blob_manager = file_manager env, activeFile = None, readStreams = []\<rparr>)) (\<lambda>_. areturn ())"

subsection \<open>Groups and jobs\<close>

type_synonym mesh_groups = "((string \<times> nat option) \<times> StreamingMeshNode list) list"

definition group_row :: "TransformMap \<Rightarrow> RepoBSON \<Rightarrow> mesh_groups \<Rightarrow> mesh_groups result" where
  "group_row transformMap bson groups =
     rbind (StreamingMeshNode_of_bson bson) (\<lambda>node.
     rbind (map_at transformMap (stream_parent node)) (\<lambda>transform.
     rbind (transformBounds (info_matrix transform) node) (\<lambda>node.
       let k = (stream_grouping node, info_branch transform)
       in Inr (case map_of groups k of
                 Some ns \<Rightarrow> AList.update k (ns @ [node]) groups
               | None \<Rightarrow> groups @ [(k, [node])]))))"

definition supermesh_group ::
  "('s, 'd) multipart_env \<Rightarrow> string \<Rightarrow> string \<Rightarrow> TransformMap \<Rightarrow> MaterialPropMap \<Rightarrow> ProcessingJob \<Rightarrow> mesh_groups \<Rightarrow>
     string \<times> nat option \<Rightarrow> unit opt_act" where
  "supermesh_group env database collection transformMap matPropMap job groups k =
     abind (aresult (map_at groups k)) (\<lambda>nodes.
     abind (aresult (of_walk (clusterMeshNodes (sort_metrics env) (bounds_builder env) nodes))) (\<lambda>clusters.
     abind (agets (\<lambda>w. case snd k of None \<Rightarrow> [] | Some g \<Rightarrow> branchGroups w ! g)) (\<lambda>groupTag.
       createSuperMeshes env database collection transformMap matPropMap nodes clusters
         (if isTexturedJob job then job_texId job else default_uuid) groupTag)))"

definition clusterAndSupermesh ::
  "('s, 'd) multipart_env \<Rightarrow> string \<Rightarrow> string \<Rightarrow> TransformMap \<Rightarrow> MaterialPropMap \<Rightarrow> ProcessingJob \<Rightarrow> unit \<Rightarrow> unit opt_act" where
  "clusterAndSupermesh env database collection transformMap matPropMap job _ =
     abind (aresult (findCursor env database (scene_collection collection) (job_filter job)
              (RepoProjectionBuilder [REPO_NODE_LABEL_SHARED_ID, REPO_NODE_MESH_LABEL_BOUNDING_BOX, REPO_NODE_MESH_LABEL_VERTICES_COUNT,
                REPO_NODE_LABEL_PARENTS, REPO_NODE_MESH_LABEL_GROUPING] [REPO_NODE_LABEL_ID]))) (\<lambda>bsons.
     abind (aresult (rfold (group_row transformMap) bsons [])) (\<lambda>groups.
       if groups = [] then areturn ()
       else afold (\<lambda>k _. supermesh_group env database collection transformMap matPropMap job groups k)
              (groups_order env (map fst groups)) ()))"

definition processScene :: "('s, 'd) multipart_env \<Rightarrow> string \<Rightarrow> string \<Rightarrow> uuid \<Rightarrow> unit opt_act" where
  "processScene env database collection revisionId =
     abind (getAllTransforms env database collection revisionId) (\<lambda>transformMap.
     abind (aresult (getAllMaterials env database collection revisionId)) (\<lambda>matPropMap.
     abind (aresult (getAllTextureIds env database collection revisionId)) (\<lambda>texIds.
     abind (afold (clusterAndSupermesh env database collection transformMap matPropMap) (all_jobs env revisionId texIds) ()) (\<lambda>_.
       amodify (\<lambda>w. w\<lparr>finalised := True\<rparr>)))))"

subsection \<open>The tree of transformations\<close>

datatype transform_tree = TNode (node_doc: RepoBSON) (child_trees: "transform_tree list")

definition doc_id :: "RepoBSON \<Rightarrow> uuid" where "doc_id b = the_result (getUUIDField b REPO_NODE_LABEL_SHARED_ID) default_uuid"
definition doc_matrix :: "RepoBSON \<Rightarrow> fp64 matrix" where "doc_matrix b = map Fp64 (the_result (getMatrixField b REPO_NODE_LABEL_MATRIX) [])"

fun tree_docs :: "transform_tree \<Rightarrow> RepoBSON list" where
  "tree_docs (TNode b ts) = b # concat (map tree_docs ts)"

text \<open>The documents from the root down to a node.\<close>

fun tree_paths :: "transform_tree \<Rightarrow> RepoBSON list list" where
  "tree_paths (TNode b ts) = [b] # map ((#) b) (concat (map tree_paths ts))"

definition children_in :: "child_map \<Rightarrow> uuid \<Rightarrow> RepoBSON list" where
  "children_in childNodeMap i = (case map_of childNodeMap i of Some cs \<Rightarrow> cs | None \<Rightarrow> [])"

definition readable :: "RepoBSON \<Rightarrow> bool" where
  "readable b \<longleftrightarrow> getUUIDField b REPO_NODE_LABEL_SHARED_ID = Inr (doc_id b) \<and>
     (\<exists>m. getMatrixField b REPO_NODE_LABEL_MATRIX = Inr m \<and> doc_matrix b = map Fp64 m)"

fun follows :: "child_map \<Rightarrow> transform_tree \<Rightarrow> bool" where
  "follows cm (TNode b ts) \<longleftrightarrow> readable b \<and> children_in cm (doc_id b) = map node_doc ts \<and> (\<forall>t \<in> set ts. follows cm t)"

text \<open>One step down a path: the matrix is multiplied, the branch group replaced if the node has one.\<close>

definition inherit :: "TransformMap \<Rightarrow> TransformInfo \<Rightarrow> RepoBSON \<Rightarrow> TransformInfo" where
  "inherit transforms info b =
     \<lparr>info_matrix = matrix_mul (info_matrix info) (doc_matrix b),
      info_branch = (case map_of transforms (doc_id b) of
         Some own \<Rightarrow> if info_branch own = None then info_branch info else info_branch own | None \<Rightarrow> info_branch info)\<rparr>"

fun bake :: "TransformInfo \<Rightarrow> transform_tree \<Rightarrow> TransformMap \<Rightarrow> TransformMap" where
  "bake parent (TNode b ts) transforms =
     foldr (bake (inherit transforms parent b)) ts (AList.update (doc_id b) (inherit transforms parent b) transforms)"

lemma foldr_bake_dom: "(\<And>t tr. t \<in> set ts \<Longrightarrow> dom (map_of (bake info t tr)) = dom (map_of tr) \<union> doc_id ` set (tree_docs t)) \<Longrightarrow>
  dom (map_of (foldr (bake info) ts tr)) = dom (map_of tr) \<union> doc_id ` (\<Union>t \<in> set ts. set (tree_docs t))"
  by (induction ts) auto

lemma bake_dom: "dom (map_of (bake parent t tr)) = dom (map_of tr) \<union> doc_id ` set (tree_docs t)"
proof (induction t arbitrary: parent tr)
  case (TNode b ts)
  show ?case
    using foldr_bake_dom [of ts "inherit tr parent b", OF TNode.IH] by (auto simp: update_conv')
qed

text \<open>What is not below a node keeps its entry.\<close>

lemma bake_other: "i \<notin> doc_id ` set (tree_docs t) \<Longrightarrow> map_of (bake parent t tr) i = map_of tr i"
proof (induction t arbitrary: parent tr)
  case (TNode b ts)
  have ni: "i \<notin> doc_id ` set (tree_docs u)" if "u \<in> set ts" for u
    using TNode.prems that by auto
  have "map_of (foldr (bake info) us tr) i = map_of tr i" if "set us \<subseteq> set ts" for info us tr
    using that by (induction us) (simp_all add: TNode.IH ni)
  from this [of ts] show ?case using TNode.prems by (simp add: update_conv')
qed

lemma foldr_bake_other: "i \<notin> doc_id ` (\<Union>t \<in> set ts. set (tree_docs t)) \<Longrightarrow> map_of (foldr (bake info) ts tr) i = map_of tr i"
  by (induction ts) (simp_all add: bake_other image_Un)

lemma inherit_cong: "map_of tr (doc_id b) = map_of tr' (doc_id b) \<Longrightarrow> inherit tr info b = inherit tr' info b"
  by (simp add: inherit_def)

lemma path_docs: "bs \<in> set (tree_paths t) \<Longrightarrow> bs \<noteq> [] \<and> set bs \<subseteq> set (tree_docs t)"
proof (induction t arbitrary: bs)
  case (TNode b ts)
  then show ?case by (auto; blast)
qed

lemma foldl_inherit_cong:
  "(\<And>b. b \<in> set bs \<Longrightarrow> map_of tr (doc_id b) = map_of tr' (doc_id b)) \<Longrightarrow> foldl (inherit tr) info bs = foldl (inherit tr') info bs"
  by (induction bs arbitrary: info) (simp_all add: inherit_cong [of tr _ tr'])

lemma bake_path:
  assumes "distinct (map doc_id (tree_docs t))" and "bs \<in> set (tree_paths t)"
  shows "map_of (bake parent t tr) (doc_id (last bs)) = Some (foldl (inherit tr) parent bs)"
  using assms
proof (induction t arbitrary: parent tr bs)
  case (TNode b ts)
  define info where "info = inherit tr parent b"
  define tr1 where "tr1 = AList.update (doc_id b) info tr"
  have b: "doc_id b \<notin> doc_id ` (\<Union>t \<in> set ts. set (tree_docs t))" using TNode.prems(1) by auto
  have run: "bake parent (TNode b ts) tr = foldr (bake info) ts tr1" by (simp add: info_def tr1_def)
  show ?case
  proof (cases "bs = [b]")
    case True
    then show ?thesis
      using foldr_bake_other [OF b, of info tr1] by (simp only: run) (simp add: tr1_def update_conv' info_def)
  next
    case False
    then obtain t cs where t: "t \<in> set ts" "cs \<in> set (tree_paths t)" "bs = b # cs" using TNode.prems(2) by auto
    then obtain us vs where ts: "ts = us @ t # vs" by (auto dest: split_list)
    define tr2 where "tr2 = foldr (bake info) vs tr1"
    have cs: "cs \<noteq> []" "set cs \<subseteq> set (tree_docs t)" using path_docs [OF t(2)] by simp_all
    have dist: "distinct (map doc_id (tree_docs t))" using TNode.prems(1) ts by simp
    have apart: "doc_id ` set (tree_docs t) \<inter> doc_id ` (\<Union>t \<in> set us. set (tree_docs t)) = {}"
      "doc_id ` set (tree_docs t) \<inter> doc_id ` (\<Union>t \<in> set vs. set (tree_docs t)) = {}" "doc_id b \<notin> doc_id ` set (tree_docs t)"
      using TNode.prems(1) by (simp_all add: ts Int_Un_distrib Int_commute)
    have last: "doc_id (last cs) \<in> doc_id ` set (tree_docs t)" using cs last_in_set [of cs] by blast
    have "map_of (bake info t tr2) (doc_id (last cs)) = Some (foldl (inherit tr2) info cs)"
      by (rule TNode.IH [OF t(1) dist t(2)])
    also have "foldl (inherit tr2) info cs = foldl (inherit tr) info cs"
    proof (rule foldl_inherit_cong)
      fix c assume "c \<in> set cs"
      then have c: "doc_id c \<in> doc_id ` set (tree_docs t)" using cs(2) by auto
      then have "doc_id c \<noteq> doc_id b" "doc_id c \<notin> doc_id ` (\<Union>t \<in> set vs. set (tree_docs t))" using apart(2,3) by (metis, metis disjoint_iff)
      then show "map_of tr2 (doc_id c) = map_of tr (doc_id c)"
        using foldr_bake_other [of "doc_id c" vs info tr1] by (simp add: tr2_def tr1_def update_conv')
    qed
    finally have "map_of (foldr (bake info) us (bake info t tr2)) (doc_id (last cs)) = Some (foldl (inherit tr) info cs)"
      using foldr_bake_other [of "doc_id (last cs)" us info] last apart(1) by (metis disjoint_iff)
    then show ?thesis unfolding run using t(3) cs(1) by (simp add: ts tr2_def info_def)
  qed
qed

text \<open>The walk over the tree ends, with the baked map.\<close>

lemma visit_doc:
  assumes "readable b" and "map_of tr (doc_id b) \<noteq> None"
  shows "visit_transform cm b parent tr =
    Inr (map (\<lambda>c. (c, inherit tr parent b)) (children_in cm (doc_id b)), AList.update (doc_id b) (inherit tr parent b) tr)"
proof -
  obtain own where own: "map_of tr (doc_id b) = Some own" using assms(2) by auto
  obtain m where m: "getMatrixField b REPO_NODE_LABEL_MATRIX = Inr m" "doc_matrix b = map Fp64 m"
    "getUUIDField b REPO_NODE_LABEL_SHARED_ID = Inr (doc_id b)" using assms(1) by (auto simp: readable_def)
  have i: "inherit tr parent b = own\<lparr>info_matrix := matrix_mul (info_matrix parent) (map Fp64 m),
      info_branch := (if info_branch own = None then info_branch parent else info_branch own)\<rparr>"
    by (simp add: inherit_def own m(2))
  show ?thesis
    unfolding i by (simp only: visit_transform_def m rbind_simps map_at_def own option.case Let_def children_in_def)
qed

lemma traverse_tree:
  assumes "follows cm t" and "doc_id ` set (tree_docs t) \<subseteq> dom (map_of tr)"
  shows "traverse_loop cm ((node_doc t, parent) # stack) tr = traverse_loop cm stack (bake parent t tr)"
  using assms
proof (induction t arbitrary: parent stack tr)
  case (TNode b ts)
  define info where "info = inherit tr parent b"
  have forest: "traverse_loop cm (rev (map (\<lambda>c. (c, info)) (map node_doc us)) @ stack) tr' = traverse_loop cm stack (foldr (bake info) us tr')"
    if "set us \<subseteq> set ts" "doc_id ` (\<Union>t \<in> set ts. set (tree_docs t)) \<subseteq> dom (map_of tr')" for us tr' stack
    using that
  proof (induction us arbitrary: tr' stack rule: rev_induct)
    case (snoc u us)
    have u: "u \<in> set ts" "follows cm u" "doc_id ` set (tree_docs u) \<subseteq> dom (map_of tr')" using snoc.prems TNode.prems(1) by auto
    have "doc_id ` (\<Union>t \<in> set ts. set (tree_docs t)) \<subseteq> dom (map_of (bake info u tr'))" using snoc.prems(2) by (auto simp: bake_dom)
    with snoc.IH [OF _ this, of stack] snoc.prems(1)
    show ?case using TNode.IH [OF u] by simp
  qed simp
  have b: "readable b" "map_of tr (doc_id b) \<noteq> None" "children_in cm (doc_id b) = map node_doc ts" using TNode.prems by auto
  have "traverse_loop cm ((b, parent) # stack) tr =
      traverse_loop cm (rev (map (\<lambda>c. (c, info)) (map node_doc ts)) @ stack) (AList.update (doc_id b) info tr)"
    by (subst traverse_loop.simps) (simp add: visit_doc [OF b(1,2)] b(3) info_def)
  also have "\<dots> = traverse_loop cm stack (foldr (bake info) ts (AList.update (doc_id b) info tr))"
    using TNode.prems(2) by (intro forest) (auto simp: update_conv')
  finally show ?case by (simp add: info_def)
qed

subsection \<open>The documents of a tree\<close>

definition child_of :: "uuid \<Rightarrow> RepoBSON \<Rightarrow> bool" where
  "child_of i b \<longleftrightarrow> hasField b REPO_NODE_LABEL_PARENTS \<and> first_parent b = Inr i"

fun grown_from :: "RepoBSON list \<Rightarrow> transform_tree \<Rightarrow> bool" where
  "grown_from bsons (TNode b ts) \<longleftrightarrow> map node_doc ts = filter (child_of (doc_id b)) bsons \<and> (\<forall>t \<in> set ts. grown_from bsons t)"

definition row_readable :: "RepoBSON \<Rightarrow> bool" where
  "row_readable b \<longleftrightarrow> readable b \<and> (hasField b REPO_NODE_LABEL_PARENTS \<longrightarrow> (\<exists>p. first_parent b = Inr p))"

text \<open>The documents are those of a tree: one has no parents, the others are below their first parent, in the order of the documents.\<close>

definition document_tree :: "RepoBSON list \<Rightarrow> transform_tree \<Rightarrow> bool" where
  "document_tree bsons t \<longleftrightarrow> mset (tree_docs t) = mset bsons \<and> distinct (map doc_id bsons) \<and> (\<forall>b \<in> set bsons. row_readable b) \<and>
     filter (\<lambda>b. \<not> hasField b REPO_NODE_LABEL_PARENTS) bsons = [node_doc t] \<and> grown_from bsons t"

lemma children_in_add: "children_in (add_child p b m) i = children_in m i @ (if i = p then [b] else [])"
  by (simp add: children_in_def add_child_def update_conv' split: option.split)

lemma transform_rows:
  assumes "\<forall>b \<in> set bsons. row_readable b"
  shows "\<exists>cm r tm. rfold transform_row bsons ([], e, []) = Inr (cm, r, tm) \<and>
    (\<forall>i. children_in cm i = filter (child_of i) bsons) \<and>
    r = last (e # filter (\<lambda>b. \<not> hasField b REPO_NODE_LABEL_PARENTS) bsons) \<and>
    (\<forall>i. map_of tm i = (if i \<in> doc_id ` set bsons then Some empty_info else None))"
  using assms
proof (induction bsons rule: rev_induct)
  case Nil
  then show ?case by (simp add: children_in_def)
next
  case (snoc b bsons)
  then obtain cm r tm where c: "rfold transform_row bsons ([], e, []) = Inr (cm, r, tm)" "\<forall>i. children_in cm i = filter (child_of i) bsons"
    "r = last (e # filter (\<lambda>b. \<not> hasField b REPO_NODE_LABEL_PARENTS) bsons)"
    "\<forall>i. map_of tm i = (if i \<in> doc_id ` set bsons then Some empty_info else None)" by auto
  have ident: "getUUIDField b REPO_NODE_LABEL_SHARED_ID = Inr (doc_id b)" using snoc.prems by (simp add: row_readable_def readable_def)
  have tm: "map_of (insert_new (doc_id b) empty_info tm) i = (if i \<in> doc_id ` set (bsons @ [b]) then Some empty_info else None)" for i
    using c(4) by (auto simp: insert_new_def map_add_def split: option.split)
  show ?case
  proof (cases "hasField b REPO_NODE_LABEL_PARENTS")
    case True
    then obtain p where p: "first_parent b = Inr p" using snoc.prems by (auto simp: row_readable_def)
    have "rfold transform_row (bsons @ [b]) ([], e, []) = Inr (add_child p b cm, r, insert_new (doc_id b) empty_info tm)"
      using True by (simp add: rfold_append c(1) transform_row_def p ident del: hasField_iff)
    moreover have "children_in (add_child p b cm) i = filter (child_of i) (bsons @ [b])" for i
      using c(2) True p by (auto simp: children_in_add child_of_def)
    moreover have "r = last (e # filter (\<lambda>b. \<not> hasField b REPO_NODE_LABEL_PARENTS) (bsons @ [b]))" using c(3) True by (simp del: hasField_iff)
    ultimately show ?thesis using tm by blast
  next
    case False
    have "rfold transform_row (bsons @ [b]) ([], e, []) = Inr (cm, b, insert_new (doc_id b) empty_info tm)"
      using False by (simp add: rfold_append c(1) transform_row_def ident del: hasField_iff)
    moreover have "children_in cm i = filter (child_of i) (bsons @ [b])" for i
      using c(2) False by (simp add: child_of_def del: hasField_iff)
    moreover have "b = last (e # filter (\<lambda>b. \<not> hasField b REPO_NODE_LABEL_PARENTS) (bsons @ [b]))" using False by (simp del: hasField_iff)
    ultimately show ?thesis using tm by blast
  qed
qed

lemma follows_grown:
  assumes "grown_from bsons t" and "\<forall>b \<in> set (tree_docs t). readable b" and "\<forall>i. children_in cm i = filter (child_of i) bsons"
  shows "follows cm t"
  using assms(1,2)
proof (induction t)
  case (TNode b ts)
  then show ?case using assms(3) by auto
qed

lemma foldl_inherit_info:
  "info_matrix (foldl (inherit tr) info bs) = foldl matrix_mul (info_matrix info) (map doc_matrix bs) \<and>
   ((\<forall>b \<in> set bs. map_of tr (doc_id b) = Some empty_info) \<longrightarrow> info_branch (foldl (inherit tr) info bs) = info_branch info)"
  by (induction bs arbitrary: info) (auto simp: inherit_def empty_info_def)

lemma node_doc_in: "node_doc t \<in> set (tree_docs t)"
  by (cases t) simp

text \<open>
  C18: the transformations of a revision are baked: when its documents are those of a tree, reading them ends with an entry for every
  document and no other, and the matrix of a node is the product of the matrices on the path from the root down to it, in that order. Without a document
  that has no parents it is an exception.
\<close>

theorem getAllTransforms_bakes:
  assumes "\<not> splitByFloor env"
    and q: "findCursor env database (scene_collection collection) (RepoQueryBuilder (by_revision rid REPO_NODE_TYPE_TRANSFORMATION))
      (RepoProjectionBuilder [REPO_NODE_LABEL_SHARED_ID, REPO_NODE_LABEL_MATRIX, REPO_NODE_LABEL_PARENTS] [REPO_NODE_LABEL_ID]) = Inr bsons"
  shows "(document_tree bsons t \<longrightarrow> (\<exists>m. getAllTransforms env database collection rid w = (Inr m, w) \<and>
      dom (map_of m) = doc_id ` set bsons \<and>
      (\<forall>bs \<in> set (tree_paths t). \<exists>i. map_of m (doc_id (last bs)) = Some i \<and>
         info_matrix i = foldl matrix_mul identity_matrix (map doc_matrix bs) \<and> info_branch i = None))) \<and>
    ((\<forall>b \<in> set bsons. row_readable b \<and> hasField b REPO_NODE_LABEL_PARENTS) \<longrightarrow>
      getAllTransforms env database collection rid w = (Inl (RepoException ''getAllTransforms; no root node found.''), w))"
proof (intro conjI impI)
  let ?e = "\<lparr>doc = [], bigFiles = []\<rparr> :: RepoBSON"
  assume d: "document_tree bsons t"
  have set: "set (tree_docs t) = set bsons" using d unfolding document_tree_def by (metis set_mset_mset)
  have dist: "distinct (map doc_id (tree_docs t))"
    using d unfolding document_tree_def by (metis mset_map mset_eq_imp_distinct_iff)
  have rd: "\<forall>b \<in> set bsons. row_readable b" "filter (\<lambda>b. \<not> hasField b REPO_NODE_LABEL_PARENTS) bsons = [node_doc t]" "grown_from bsons t"
    using d unfolding document_tree_def by simp_all
  obtain cm tm where c: "rfold transform_row bsons ([], ?e, []) = Inr (cm, node_doc t, tm)"
    "\<forall>i. children_in cm i = filter (child_of i) bsons" "\<forall>i. map_of tm i = (if i \<in> doc_id ` set bsons then Some empty_info else None)"
    using transform_rows [OF rd(1), of ?e] rd(2) by auto
  have "readable (node_doc t)" using rd(1) node_doc_in [of t] set by (auto simp: row_readable_def)
  then have ne: "\<not> isEmpty (node_doc t)" by (auto simp: isEmpty_def readable_def getters field_as_def getField_def)
  have f: "follows cm t"
    using follows_grown [OF rd(3) _ c(2)] rd(1) set by (auto simp: row_readable_def)
  have dom: "doc_id ` set (tree_docs t) \<subseteq> dom (map_of tm)" using c(3) set by auto
  have "traverseTransformTree (node_doc t) cm tm = Some (Inr (bake empty_info t tm))"
    unfolding traverseTransformTree_def traverse_tree [OF f dom] by (simp add: traverse_loop.simps)
  then have run: "getAllTransforms env database collection rid w = (Inr (bake empty_info t tm), w)"
    using assms(1) ne by (simp add: getAllTransforms_def q c(1) of_walk_def aresult_def areturn_def abind_def)
  have "dom (map_of (bake empty_info t tm)) = doc_id ` set bsons"
    using c(3) set by (auto simp: bake_dom split: if_splits)
  moreover have "\<forall>bs \<in> set (tree_paths t). \<exists>i. map_of (bake empty_info t tm) (doc_id (last bs)) = Some i \<and>
      info_matrix i = foldl matrix_mul identity_matrix (map doc_matrix bs) \<and> info_branch i = None"
  proof
    fix bs assume bs: "bs \<in> set (tree_paths t)"
    have "\<forall>b \<in> set bs. map_of tm (doc_id b) = Some empty_info" using path_docs [OF bs] set c(3) by auto
    then show "\<exists>i. map_of (bake empty_info t tm) (doc_id (last bs)) = Some i \<and>
        info_matrix i = foldl matrix_mul identity_matrix (map doc_matrix bs) \<and> info_branch i = None"
      using bake_path [OF dist bs, of empty_info tm] foldl_inherit_info [of tm empty_info bs] by (simp add: empty_info_def)
  qed
  ultimately show "\<exists>m. getAllTransforms env database collection rid w = (Inr m, w) \<and> dom (map_of m) = doc_id ` set bsons \<and>
      (\<forall>bs \<in> set (tree_paths t). \<exists>i. map_of m (doc_id (last bs)) = Some i \<and>
         info_matrix i = foldl matrix_mul identity_matrix (map doc_matrix bs) \<and> info_branch i = None)"
    using run by blast
next
  let ?e = "\<lparr>doc = [], bigFiles = []\<rparr> :: RepoBSON"
  assume r: "\<forall>b \<in> set bsons. row_readable b \<and> hasField b REPO_NODE_LABEL_PARENTS"
  then have "filter (\<lambda>b. \<not> hasField b REPO_NODE_LABEL_PARENTS) bsons = []" by (simp add: filter_empty_conv)
  with r transform_rows [of bsons ?e] obtain cm tm where "rfold transform_row bsons ([], ?e, []) = Inr (cm, ?e, tm)" by auto
  then show "getAllTransforms env database collection rid w = (Inl (RepoException ''getAllTransforms; no root node found.''), w)"
    using assms(1) by (simp add: getAllTransforms_def q aresult_def areturn_def abind_def isEmpty_def)
qed

text \<open>A program whose database answers with the same documents to every query.\<close>

definition sample_multipart :: "RepoBSON list \<Rightarrow> (file_system, (string \<times> string \<times> bson) \<Rightarrow> RepoBSON option) multipart_env" where
  "sample_multipart bsons = \<lparr>files_env = sample_manager_env, file_manager = empty_manager, findCursor = (\<lambda>_ _ _ _. Inr bsons),
     findAll = (\<lambda>_ _ _ _. Inr bsons), bounds_builder = one_leaf, faces_builder = two_leaves, sort_metrics = sort_key, new_uuid = of_nat,
     uuid_name = (\<lambda>_. ''id''), groups_order = (\<lambda>ks. ks), parse_time = (\<lambda>_. \<lparr>tm_sec = 0, tm_min = 0, tm_hour = 0, tm_mday = 1, tm_mon = 0,
     tm_year = 70, tm_wday = 0, tm_yday = 0, tm_isdst = 0\<rparr>), splitByFloor = False\<rparr>"

definition transform_doc :: "uuid \<Rightarrow> double list \<Rightarrow> uuid list \<Rightarrow> RepoBSON" where
  "transform_doc i m ps = \<lparr>doc = [(REPO_NODE_LABEL_SHARED_ID, bson_of_uuid i), (REPO_NODE_LABEL_MATRIX, bson_of_matrix m)] @
     (if ps = [] then [] else [(REPO_NODE_LABEL_PARENTS, bson_of_array bson_of_uuid ps)]), bigFiles = []\<rparr>"

lemma transform_doc_fields:
  assumes "length m = 16"
  shows "doc_id (transform_doc i m ps) = i" "doc_matrix (transform_doc i m ps) = map Fp64 m" "readable (transform_doc i m ps)"
    "hasField (transform_doc i m ps) REPO_NODE_LABEL_PARENTS \<longleftrightarrow> ps \<noteq> []"
    "ps \<noteq> [] \<Longrightarrow> first_parent (transform_doc i m ps) = Inr (hd ps)"
proof -
  let ?b = "transform_doc i m ps"
  have i: "getUUIDField ?b REPO_NODE_LABEL_SHARED_ID = Inr i" by (simp add: found transform_doc_def)
  have m: "getMatrixField ?b REPO_NODE_LABEL_MATRIX = Inr m"
    using assms by (intro getMatrixField_bson_of_matrix) (simp_all add: transform_doc_def node_labels subclass_labels)
  show "doc_id ?b = i" "doc_matrix ?b = map Fp64 m" "readable ?b"
    using i m by (simp_all add: doc_id_def doc_matrix_def readable_def the_result_def)
  show "hasField ?b REPO_NODE_LABEL_PARENTS \<longleftrightarrow> ps \<noteq> []" by (simp add: transform_doc_def node_labels subclass_labels)
  have "ps \<noteq> [] \<Longrightarrow> getUUIDFieldArray ?b REPO_NODE_LABEL_PARENTS = Inr ps"
    by (rule getUUIDFieldArray_found) (simp add: transform_doc_def node_labels subclass_labels)
  then show "ps \<noteq> [] \<Longrightarrow> first_parent ?b = Inr (hd ps)" by (cases ps) (simp_all add: first_parent_def)
qed

definition scaling :: "double \<Rightarrow> double list" where
  "scaling s = [s, 0, 0, 0, 0, s, 0, 0, 0, 0, s, 0, 0, 0, 0, d_one]"

definition new_optimizer :: optimizer_state where
  "new_optimizer = \<lparr>exported = [], finalised = False, drawn_ids = 0, branchGroups = []\<rparr>"

theorem getAllTransforms_bakes_witness:
  "\<exists>m i. getAllTransforms (sample_multipart [transform_doc 2 (scaling d_one) [1], transform_doc 1 (scaling d_two) []]) ''db'' ''c'' 9 new_optimizer = (Inr m, new_optimizer) \<and>
     map_of m 2 = Some i \<and> info_matrix i = matrix_mul (matrix_mul identity_matrix (map Fp64 (scaling d_two))) (map Fp64 (scaling d_one))"
proof -
  let ?r = "transform_doc 1 (scaling d_two) []" and ?c = "transform_doc 2 (scaling d_one) [1]"
  let ?t = "TNode ?r [TNode ?c []]" and ?env = "sample_multipart [?c, ?r]"
  have l: "length (scaling s) = 16" for s by (simp add: scaling_def)
  note f = transform_doc_fields [OF l]
  have cr: "child_of 1 ?c" "\<not> child_of i ?r" "\<not> child_of 2 ?c" for i
    by (simp_all add: child_of_def f del: hasField_iff)
  have t: "document_tree [?c, ?r] ?t"
    by (simp add: document_tree_def f row_readable_def cr del: hasField_iff)
  have q: "findCursor ?env ''db'' (scene_collection ''c'') (RepoQueryBuilder (by_revision 9 REPO_NODE_TYPE_TRANSFORMATION))
      (RepoProjectionBuilder [REPO_NODE_LABEL_SHARED_ID, REPO_NODE_LABEL_MATRIX, REPO_NODE_LABEL_PARENTS] [REPO_NODE_LABEL_ID]) = Inr [?c, ?r]"
    by (simp add: sample_multipart_def)
  have "\<not> splitByFloor ?env" by (simp add: sample_multipart_def)
  from getAllTransforms_bakes [OF this q, of ?t new_optimizer] t obtain m where m: "getAllTransforms ?env ''db'' ''c'' 9 new_optimizer = (Inr m, new_optimizer)"
    "\<forall>bs \<in> set (tree_paths ?t). \<exists>i. map_of m (doc_id (last bs)) = Some i \<and>
         info_matrix i = foldl matrix_mul identity_matrix (map doc_matrix bs) \<and> info_branch i = None" by blast
  have "[?r, ?c] \<in> set (tree_paths ?t)" by simp
  with m(2) obtain i where "map_of m (doc_id (last [?r, ?c])) = Some i"
    "info_matrix i = foldl matrix_mul identity_matrix (map doc_matrix [?r, ?c])" by blast
  with m(1) show ?thesis by (intro exI [of _ m] exI [of _ i]) (simp add: f)
qed

end
