(* ===== verification/MongoQuery.thy ===== *)
theory MongoQuery
  imports SceneStore
begin

text \<open>
  The documents \<open>core/handler/repo_database_handler_mongo.cpp\<close> makes of the queries of \<open>core/handler/database/repo_query.h\<close>: a
  filter is one document whose fields are conditions on the fields of a stored document, all of which have to hold. What
  the server makes of a filter is the interface \<open>filter_server\<close>.
\<close>

subsection \<open>Filters\<close>

lemma rtraverse_cong [fundef_cong]:
  "xs = ys \<Longrightarrow> (\<And>x. x \<in> set ys \<Longrightarrow> f x = g x) \<Longrightarrow> rtraverse f xs = rtraverse g ys"
  by (induction ys arbitrary: xs) simp_all

lemma rfold_cong [fundef_cong]:
  "xs = ys \<Longrightarrow> s = t \<Longrightarrow> (\<And>x s. x \<in> set ys \<Longrightarrow> f x s = g x s) \<Longrightarrow> rfold f xs s = rfold g ys t"
proof (induction ys arbitrary: xs s t)
  case (Cons y ys)
  then have "rfold f ys = rfold g ys" by (intro ext) simp
  then show ?case using Cons.prems by simp
qed simp

definition operator :: "string \<Rightarrow> bson \<Rightarrow> bson" where
  "operator name v = BDocument (doc (obj (append_field name v RepoBSONBuilder)))"

text \<open>\<open>MongoQueryFilterVistior\<close>, one equation for each call operator.\<close>

fun filter_into :: "(tm \<Rightarrow> int) \<Rightarrow> RepoQuery \<Rightarrow> builder \<Rightarrow> builder result" where
  "filter_into mktime (Eq f vs) b =
     (if length vs > 1
      then rbind (rtraverse (bson_of_variant mktime) vs) (\<lambda>xs. Inr (append_field f (operator ''$in'' (BArray xs)) b))
      else if length vs = 1 then rbind (bson_of_variant mktime (vs ! 0)) (\<lambda>x. Inr (append_field f x b))
      else Inr b)"
| "filter_into mktime (Exists f e) b = Inr (append_field f (operator ''$exists'' (BBool e)) b)"
| "filter_into mktime (ArrayContains f q) b =
     rbind (filter_into mktime q RepoBSONBuilder) (\<lambda>c. Inr (append_field f (operator ''$elemMatch'' (BDocument (doc (obj c)))) b))"
| "filter_into mktime (Or qs) b =
     rbind (rtraverse (\<lambda>q. rbind (filter_into mktime q RepoBSONBuilder) (\<lambda>c. Inr (BDocument (doc (obj c))))) qs) (\<lambda>results.
       Inr (append_field ''$or'' (BArray results) b))"
| "filter_into mktime (RepoQueryBuilder qs) b = rfold (\<lambda>q b. filter_into mktime q b) qs b"
| "filter_into mktime (RepoProjectionBuilder included excluded) b =
     Inr (foldl (\<lambda>b f. append_field f (BInt32 0) b) (foldl (\<lambda>b f. append_field f (BInt32 1) b) b included) excluded)"

definition makeQueryFilterDocument :: "(tm \<Rightarrow> int) \<Rightarrow> RepoQuery \<Rightarrow> RepoBSON result" where
  "makeQueryFilterDocument mktime query = rbind (filter_into mktime query RepoBSONBuilder) (\<lambda>b. Inr (obj b))"

subsection \<open>Updates\<close>

text \<open>The identifiers of an \<open>AddParent\<close> are a \<open>std::set\<close>; \<open>MongoUpdateVisitor\<close> makes the filter and the update.\<close>

record AddParent =
  parent_of :: uuid
  added_parents :: "uuid fset"

definition update_documents :: "AddParent \<Rightarrow> (RepoBSON \<times> RepoBSON) result" where
  "update_documents u =
     rbind (filter_into tm_sec (Eq REPO_LABEL_ID [VUUID (parent_of u)]) RepoBSONBuilder) (\<lambda>query.
       let ids = sorted_list_of_fset (added_parents u);
           operation = (if length ids = 1
             then append_field REPO_NODE_LABEL_PARENTS (bson_of_uuid (ids ! 0)) RepoBSONBuilder
             else append_field REPO_NODE_LABEL_PARENTS (operator ''$each'' (bson_of_array bson_of_uuid ids)) RepoBSONBuilder)
       in Inr (obj query, obj (append_field ''$addToSet'' (BDocument (doc (obj operation))) RepoBSONBuilder)))"

subsection \<open>What a query asks for\<close>

text \<open>
  The documented meaning of the operators the filters use. \<open>holds f v d\<close> is that the field \<open>f\<close> of \<open>d\<close> has the value \<open>v\<close>, \<open>present\<close>
  that it has one, and \<open>elements f d\<close> are the documents in the array \<open>f\<close>; names of operators start with a dollar sign.
\<close>

definition field_name :: "string \<Rightarrow> bool" where
  "field_name f \<longleftrightarrow> take 1 f \<noteq> ''$''"

fun is_document :: "bson \<Rightarrow> bool" where
  "is_document (BDocument _) = True"
| "is_document _ = False"

locale filter_server =
  fixes sat :: "document \<Rightarrow> document \<Rightarrow> bool"
    and holds :: "string \<Rightarrow> bson \<Rightarrow> document \<Rightarrow> bool"
    and present :: "string \<Rightarrow> document \<Rightarrow> bool"
    and elements :: "string \<Rightarrow> document \<Rightarrow> document list"
  assumes all_fields: "sat q d \<longleftrightarrow> (\<forall>c \<in> set q. sat [c] d)"
    and value_of: "field_name f \<Longrightarrow> \<not> is_document v \<Longrightarrow> sat [(f, v)] d \<longleftrightarrow> holds f v d"
    and one_of: "field_name f \<Longrightarrow> sat [(f, operator ''$in'' (BArray vs))] d \<longleftrightarrow> (\<exists>v \<in> set vs. holds f v d)"
    and there: "field_name f \<Longrightarrow> sat [(f, operator ''$exists'' (BBool e))] d \<longleftrightarrow> present f d = e"
    and some_element: "field_name f \<Longrightarrow> sat [(f, operator ''$elemMatch'' (BDocument q))] d \<longleftrightarrow> (\<exists>x \<in> set (elements f d). sat q x)"
    and some_filter: "qs \<noteq> [] \<Longrightarrow> sat [(''$or'', BArray (map BDocument qs))] d \<longleftrightarrow> (\<exists>q \<in> set qs. sat q d)"

text \<open>What a query means, over the same three predicates.\<close>

fun selects ::
  "(string \<Rightarrow> bson \<Rightarrow> document \<Rightarrow> bool) \<Rightarrow> (string \<Rightarrow> document \<Rightarrow> bool) \<Rightarrow> (string \<Rightarrow> document \<Rightarrow> document list) \<Rightarrow> (tm \<Rightarrow> int) \<Rightarrow>
     RepoQuery \<Rightarrow> document \<Rightarrow> bool" where
  "selects holds present elements mktime (Eq f vs) d \<longleftrightarrow> list_ex (\<lambda>v. case bson_of_variant mktime v of Inr x \<Rightarrow> holds f x d | Inl _ \<Rightarrow> False) vs"
| "selects holds present elements mktime (Exists f e) d \<longleftrightarrow> present f d = e"
| "selects holds present elements mktime (ArrayContains f q) d \<longleftrightarrow> list_ex (selects holds present elements mktime q) (elements f d)"
| "selects holds present elements mktime (Or qs) d \<longleftrightarrow> list_ex (\<lambda>q. selects holds present elements mktime q d) qs"
| "selects holds present elements mktime (RepoQueryBuilder qs) d \<longleftrightarrow> list_all (\<lambda>q. selects holds present elements mktime q d) qs"
| "selects holds present elements mktime (RepoProjectionBuilder included excluded) d \<longleftrightarrow> False"

text \<open>The queries that are filters: no projection, no alternative of nothing, fields for names.\<close>

fun askable :: "RepoQuery \<Rightarrow> bool" where
  "askable (Eq f vs) \<longleftrightarrow> field_name f \<and> vs \<noteq> []"
| "askable (Exists f e) \<longleftrightarrow> field_name f"
| "askable (ArrayContains f q) \<longleftrightarrow> field_name f \<and> askable q"
| "askable (Or qs) \<longleftrightarrow> qs \<noteq> [] \<and> list_all askable qs"
| "askable (RepoQueryBuilder qs) \<longleftrightarrow> list_all askable qs"
| "askable (RepoProjectionBuilder included excluded) \<longleftrightarrow> False"

lemma variant_not_document: "bson_of_variant mktime v = Inr x \<Longrightarrow> \<not> is_document x"
  by (cases v) (auto simp: bson_of_uuid_def bson_of_tm_def bson_of_time_def Let_def split: if_splits)

text \<open>A visit only adds fields.\<close>

definition adds :: "builder \<Rightarrow> document \<Rightarrow> builder" where
  "adds b new = b\<lparr>core := core b @ new\<rparr>"

lemma adds_simps: "append_field f v b = adds b [(f, v)]" "adds (adds b xs) ys = adds b (xs @ ys)" "adds b [] = b"
  "adds RepoBSONBuilder xs = \<lparr>core = xs, binMapping = []\<rparr>" "core (adds b xs) = core b @ xs" "binMapping (adds b xs) = binMapping b"
  by (simp_all add: adds_def append_field_def RepoBSONBuilder_def)

context filter_server
begin

lemma sat_Nil: "sat [] d"
  by (subst all_fields) simp

lemma sat_append: "sat (xs @ ys) d \<longleftrightarrow> sat xs d \<and> sat ys d"
  by (subst (1 2 3) all_fields) auto

lemma filter_into_selects:
  "askable q \<Longrightarrow> filter_into mktime q b = Inr b' \<Longrightarrow>
    \<exists>new. b' = adds b new \<and> (\<forall>d. sat new d \<longleftrightarrow> selects holds present elements mktime q d)"
proof (induction mktime q b arbitrary: b' rule: filter_into.induct)
  case (1 mktime f vs b)
  consider (one) v where "vs = [v]" | (many) "length vs > 1" using 1(1) by (cases vs; cases "tl vs") auto
  then show ?case
  proof cases
    case one
    then show ?thesis using 1
      by (auto simp: rbind_Inr_iff adds_simps value_of variant_not_document)
  next
    case many
    then obtain xs where xs: "rtraverse (bson_of_variant mktime) vs = Inr xs" "b' = adds b [(f, operator ''$in'' (BArray xs))]"
      using 1(2) by (auto simp: rbind_Inr_iff adds_simps)
    have "(\<exists>x \<in> set xs. holds f x d) \<longleftrightarrow> selects holds present elements mktime (Eq f vs) d" for d
      using xs(1) by (induction vs arbitrary: xs) (auto simp: rbind_Inr_iff)
    then show ?thesis using xs(2) 1(1) one_of by auto
  qed
next
  case (2 mktime f e b)
  then show ?case using there by (auto simp: adds_simps)
next
  case (3 mktime f q b)
  obtain c where c: "filter_into mktime q RepoBSONBuilder = Inr c" "b' = adds b [(f, operator ''$elemMatch'' (BDocument (core c)))]"
    using 3(3) by (auto simp: rbind_Inr_iff adds_simps)
  obtain new where new: "c = adds RepoBSONBuilder new" "\<forall>d. sat new d \<longleftrightarrow> selects holds present elements mktime q d"
    using 3(1) [OF _ c(1)] 3(2) by auto
  show ?case using c(2) 3(2) new some_element
    by (intro exI [of _ "[(f, operator ''$elemMatch'' (BDocument new))]"]) (simp add: adds_simps list_ex_iff)
next
  case (4 mktime qs b)
  let ?f = "\<lambda>q. rbind (filter_into mktime q RepoBSONBuilder) (\<lambda>c. Inr (BDocument (doc (obj c))))"
  obtain rs where rs: "rtraverse ?f qs = Inr rs" "b' = adds b [(''$or'', BArray rs)]"
    using 4(3) by (auto simp: rbind_Inr_iff adds_simps)
  have one: "\<exists>new. ?f q = Inr (BDocument new) \<and> (\<forall>d. sat new d \<longleftrightarrow> selects holds present elements mktime q d)"
    if q: "q \<in> set qs" "?f q = Inr r" for q r
  proof -
    obtain c where c: "filter_into mktime q RepoBSONBuilder = Inr c" using q(2) by (auto simp: rbind_Inr_iff)
    have "askable q" using 4(2) q(1) by (simp add: list_all_iff)
    from 4(1) [OF q(1) this c] obtain new where "c = adds RepoBSONBuilder new" "\<forall>d. sat new d \<longleftrightarrow> selects holds present elements mktime q d" by blast
    then show ?thesis using c by (intro exI [of _ new]) (simp add: adds_simps)
  qed
  have "\<exists>news. rs = map BDocument news \<and> length news = length qs \<and>
      (\<forall>d. (\<exists>new \<in> set news. sat new d) \<longleftrightarrow> (\<exists>q \<in> set qs. selects holds present elements mktime q d))"
    using rs(1) one
  proof (induction qs arbitrary: rs)
    case (Cons q qs)
    obtain r rs' where r: "?f q = Inr r" "rtraverse ?f qs = Inr rs'" "rs = r # rs'"
      using Cons.prems(1) by (auto simp: rbind_Inr_iff)
    obtain new where new: "r = BDocument new" "\<forall>d. sat new d \<longleftrightarrow> selects holds present elements mktime q d"
      using Cons.prems(2) [of q r] r(1) by auto
    have "\<exists>news. rs' = map BDocument news \<and> length news = length qs \<and>
      (\<forall>d. (\<exists>new \<in> set news. sat new d) \<longleftrightarrow> (\<exists>q \<in> set qs. selects holds present elements mktime q d))"
      by (rule Cons.IH [OF r(2)]) (rule Cons.prems(2), auto)
    then obtain news where "rs' = map BDocument news" "length news = length qs"
      "\<forall>d. (\<exists>new \<in> set news. sat new d) \<longleftrightarrow> (\<exists>q \<in> set qs. selects holds present elements mktime q d)" by (elim exE conjE)
    then show ?case using r(3) new by (intro exI [of _ "new # news"]) auto
  qed simp
  then obtain news where "rs = map BDocument news" "length news = length qs"
      "\<forall>d. (\<exists>new \<in> set news. sat new d) \<longleftrightarrow> (\<exists>q \<in> set qs. selects holds present elements mktime q d)" by blast
  moreover from this(2) have "news \<noteq> []" using 4(2) by auto
  ultimately show ?case using rs(2) some_filter [of news]
    by (intro exI [of _ "[(''$or'', BArray rs)]"]) (simp add: list_ex_iff)
next
  case (5 mktime qs b)
  from 5(2,3) 5(1) show ?case
  proof (induction qs arbitrary: b)
    case Nil
    then show ?case by (intro exI [of _ "[]"]) (simp add: adds_simps sat_Nil)
  next
    case (Cons q qs)
    obtain c where c: "filter_into mktime q b = Inr c" "rfold (\<lambda>q b. filter_into mktime q b) qs c = Inr b'"
      using Cons.prems(2) by (auto simp: rbind_Inr_iff)
    obtain new where new: "c = adds b new" "\<forall>d. sat new d \<longleftrightarrow> selects holds present elements mktime q d"
      using Cons.prems(3) [of q] Cons.prems(1) c(1) by auto
    obtain new' where "b' = adds c new'" "\<forall>d. sat new' d \<longleftrightarrow> selects holds present elements mktime (RepoQueryBuilder qs) d"
      using Cons.IH [of c] Cons.prems c(2) by auto
    then show ?case using new by (intro exI [of _ "new @ new'"]) (simp add: adds_simps sat_append)
  qed
next
  case (6 mktime included excluded b)
  then show ?case by simp
qed

lemma makeQueryFilterDocument_selects:
  "askable q \<Longrightarrow> makeQueryFilterDocument mktime q = Inr f \<Longrightarrow> sat (doc f) d \<longleftrightarrow> selects holds present elements mktime q d"
  using filter_into_selects [of q mktime RepoBSONBuilder]
  by (auto simp: makeQueryFilterDocument_def rbind_Inr_iff adds_simps)

end

text \<open>
  C11: the filter document of a query means the query: on every server that gives the operators their documented meaning, a stored document
  satisfies the filter exactly when the query selects it. The exception is equality with one of no values, which selects nothing: it leaves no condition
  in the filter, so that every document satisfies it.
\<close>

theorem filter_documents_refine_queries:
  assumes "filter_server sat holds present elements" and "makeQueryFilterDocument mktime q = Inr f"
  shows "(askable q \<longrightarrow> (sat (doc f) d \<longleftrightarrow> selects holds present elements mktime q d)) \<and>
    (q = Eq field [] \<longrightarrow> sat (doc f) d \<and> \<not> selects holds present elements mktime q d)"
  using filter_server.makeQueryFilterDocument_selects [OF assms(1) _ assms(2)] filter_server.sat_Nil [OF assms(1)] assms(2)
  by (auto simp: makeQueryFilterDocument_def RepoBSONBuilder_def)

subsection \<open>A reference server\<close>

text \<open>Conditions on the fields of a document; a field that is an array has each of its elements as value too.\<close>

definition field_holds :: "string \<Rightarrow> bson \<Rightarrow> document \<Rightarrow> bool" where
  "field_holds f v d = (case map_of d f of Some x \<Rightarrow> x = v \<or> (case x of BArray xs \<Rightarrow> v \<in> set xs | _ \<Rightarrow> False) | None \<Rightarrow> v = BNull)"

definition field_present :: "string \<Rightarrow> document \<Rightarrow> bool" where
  "field_present f d \<longleftrightarrow> map_of d f \<noteq> None"

fun documents_in :: "bson list \<Rightarrow> document list" where
  "documents_in [] = []"
| "documents_in (BDocument d # xs) = d # documents_in xs"
| "documents_in (x # xs) = documents_in xs"

definition field_elements :: "string \<Rightarrow> document \<Rightarrow> document list" where
  "field_elements f d = (case map_of d f of Some (BArray xs) \<Rightarrow> documents_in xs | _ \<Rightarrow> [])"

lemma documents_in_size: "q \<in> set (documents_in qs) \<Longrightarrow> size_list (size_prod (\<lambda>_. 0) size) q < size_list size qs"
  by (induction qs rule: documents_in.induct) auto

lemma condition_size: "(f, v) \<in> set q \<Longrightarrow> size v < Suc (size_list (size_prod (\<lambda>_. 0) size) q)"
  by (induction q) auto

function server_sat :: "document \<Rightarrow> document \<Rightarrow> bool" and server_condition :: "string \<Rightarrow> bson \<Rightarrow> document \<Rightarrow> bool" where
  "server_sat q d \<longleftrightarrow> list_all (\<lambda>(f, v). server_condition f v d) q"
| "server_condition f v d \<longleftrightarrow>
     (case v of
        BArray qs \<Rightarrow> if f = ''$or'' then list_ex (\<lambda>q. server_sat q d) (documents_in qs) else field_holds f v d
      | BDocument [(name, BArray vs)] \<Rightarrow> if name = ''$in'' then list_ex (\<lambda>v. field_holds f v d) vs else field_holds f v d
      | BDocument [(name, BBool e)] \<Rightarrow> if name = ''$exists'' then field_present f d = e else field_holds f v d
      | BDocument [(name, BDocument q)] \<Rightarrow> if name = ''$elemMatch'' then list_ex (server_sat q) (field_elements f d) else field_holds f v d
      | _ \<Rightarrow> field_holds f v d)"
  by pat_completeness auto

termination
  by (relation "measure (case_sum (\<lambda>(q, d). Suc (2 * size_list (size_prod (\<lambda>_. 0) size) q)) (\<lambda>(f, v, d). 2 * size v))")
    (auto dest: documents_in_size condition_size)

declare server_sat.simps [simp del] server_condition.simps [simp del]

lemma documents_in_map [simp]: "documents_in (map BDocument ds) = ds"
  by (induction ds) simp_all

lemma server_condition_value: "field_name f \<Longrightarrow> \<not> is_document v \<Longrightarrow> server_condition f v d \<longleftrightarrow> field_holds f v d"
  by (subst server_condition.simps) (auto simp: field_name_def split: bson.splits)

lemma server_condition_operators:
  "server_condition f (operator ''$in'' (BArray vs)) d \<longleftrightarrow> (\<exists>v \<in> set vs. field_holds f v d)"
  "server_condition f (operator ''$exists'' (BBool e)) d \<longleftrightarrow> field_present f d = e"
  "server_condition f (operator ''$elemMatch'' (BDocument q)) d \<longleftrightarrow> (\<exists>x \<in> set (field_elements f d). server_sat q x)"
  "server_condition ''$or'' (BArray qs) d \<longleftrightarrow> (\<exists>q \<in> set (documents_in qs). server_sat q d)"
  by (simp_all add: server_condition.simps operator_def append_field_def RepoBSONBuilder_def list_ex_iff)

interpretation server: filter_server server_sat field_holds field_present field_elements
proof
  show "server_sat q d \<longleftrightarrow> (\<forall>c \<in> set q. server_sat [c] d)" for q d
    by (simp add: server_sat.simps list_all_iff)
qed (simp_all add: server_sat.simps server_condition_value server_condition_operators)

theorem filter_documents_refine_queries_witness:
  "server_sat (doc (the_result (makeQueryFilterDocument tm_sec (RepoQueryBuilder [Eq ''type'' [VString ''mesh'', VString ''meta''], Exists ''parents'' False]))
       \<lparr>doc = [], bigFiles = []\<rparr>)) [(''type'', BString ''meta'')] \<and>
   server_sat (doc (the_result (makeQueryFilterDocument tm_sec (Eq ''type'' [])) \<lparr>doc = [(''x'', BNull)], bigFiles = []\<rparr>)) [(''type'', BString ''meta'')]"
proof -
  let ?q = "RepoQueryBuilder [Eq ''type'' [VString ''mesh'', VString ''meta''], Exists ''parents'' False]" and ?d = "[(''type'', BString ''meta'')]"
  obtain f where f: "makeQueryFilterDocument tm_sec ?q = Inr f" by (simp add: makeQueryFilterDocument_def)
  obtain g where g: "makeQueryFilterDocument tm_sec (Eq ''type'' []) = Inr g" by (simp add: makeQueryFilterDocument_def)
  have "selects field_holds field_present field_elements tm_sec ?q ?d"
    by (simp add: field_holds_def field_present_def)
  then show ?thesis
    using filter_documents_refine_queries [OF server.filter_server_axioms f, of ?d] filter_documents_refine_queries [OF server.filter_server_axioms g, of ?d "''type''"]
    by (simp add: f g the_result_def field_name_def)
qed

end
