(* ===== verification/MongoHandler.thy ===== *)
theory MongoHandler
  imports MongoQuery
begin

text \<open>
  \<open>MongoDatabaseHandler\<close> of \<open>core/handler/repo_database_handler_mongo.cpp\<close> over the operations of the mongocxx driver, which are a record:
  what the handler asks of the server and in which order, how it stores binaries with the file manager, and what it throws. The state
  is that of the file manager, whose database is the server. A cursor is the list of what it returns.
\<close>

subsection \<open>The driver\<close>

record find_options =
  sort_by :: "(string \<times> 32 word) option"
  find_limit :: "32 word"
  find_skip :: "64 word"
  projected :: "document option"

definition no_options :: find_options where
  "no_options = \<lparr>sort_by = None, find_limit = 0, find_skip = 0, projected = None\<rparr>"

datatype write_op = InsertOne document | UpdateOne document document

record 'd driver =
  create_index :: "'d \<Rightarrow> string \<Rightarrow> string \<Rightarrow> document \<Rightarrow> bool \<Rightarrow> unit result \<times> 'd"
  drop_collection :: "'d \<Rightarrow> string \<Rightarrow> string \<Rightarrow> unit result \<times> 'd"
  delete_one :: "'d \<Rightarrow> string \<Rightarrow> string \<Rightarrow> document \<Rightarrow> unit result \<times> 'd"
  find_docs :: "'d \<Rightarrow> string \<Rightarrow> string \<Rightarrow> document \<Rightarrow> find_options \<Rightarrow> document list result"
  find_one :: "'d \<Rightarrow> string \<Rightarrow> string \<Rightarrow> document \<Rightarrow> find_options \<Rightarrow> document option result"
  list_collection_names :: "'d \<Rightarrow> string \<Rightarrow> string list result"
  insert_one :: "'d \<Rightarrow> string \<Rightarrow> string \<Rightarrow> document \<Rightarrow> unit result \<times> 'd"
  insert_many :: "'d \<Rightarrow> string \<Rightarrow> string \<Rightarrow> document list \<Rightarrow> unit result \<times> 'd"
  replace_one :: "'d \<Rightarrow> string \<Rightarrow> string \<Rightarrow> document \<Rightarrow> document \<Rightarrow> bool \<Rightarrow> unit result \<times> 'd" \<comment> \<open>the flag is upsert\<close>
  update_one :: "'d \<Rightarrow> string \<Rightarrow> string \<Rightarrow> document \<Rightarrow> document \<Rightarrow> bool \<Rightarrow> unit result \<times> 'd"
  count_documents :: "'d \<Rightarrow> string \<Rightarrow> string \<Rightarrow> document \<Rightarrow> nat result"
  bulk_write :: "'d \<Rightarrow> string \<Rightarrow> string \<Rightarrow> write_op list \<Rightarrow> unit result \<times> 'd"
  objsize :: "document \<Rightarrow> nat"

record ('s, 'd) mongo =
  driver_of :: "'d driver"
  files_of :: "('s, 'd) manager_env"
  uri_text :: "string option" \<comment> \<open>what the client prints, none when there is no client\<close>

type_synonym ('s, 'd, 'a) mongo_act = "(('s, 'd) manager, 'a) act"

subsection \<open>Connection strings and exceptions\<close>

text \<open>\<open>std::string::find\<close>; \<open>npos + 3\<close> is 2.\<close>

fun find_text :: "string \<Rightarrow> string \<Rightarrow> nat option" where
  "find_text p [] = (if p = [] then Some 0 else None)"
| "find_text p (c # s) = (if take (length p) (c # s) = p then Some 0 else map_option Suc (find_text p s))"

definition after_scheme :: "string \<Rightarrow> nat" where
  "after_scheme uri = (case find_text ''://'' uri of Some i \<Rightarrow> i + 3 | None \<Rightarrow> 2)"

text \<open>The credentials of a connection string are masked.\<close>

definition mask :: "nat \<Rightarrow> nat \<Rightarrow> string \<Rightarrow> string" where
  "mask from to uri = map (\<lambda>i. if from \<le> i \<and> i < to then CHR ''*'' else uri ! i) [0..<length uri]"

definition getUri :: "string option \<Rightarrow> string" where
  "getUri uri = (case uri of
     None \<Rightarrow> '' Uri: Unable to get URI''
   | Some uri \<Rightarrow> '' Uri: '' @ (case find_text ''@'' uri of None \<Rightarrow> uri | Some to \<Rightarrow> mask (after_scheme uri) to uri))"

record ConnectionOptions =
  maxConnections :: "32 word"
  connectionTimeout :: "32 word"
  socket_timeout :: "32 word"

definition connection_string :: "string \<Rightarrow> string \<Rightarrow> string \<Rightarrow> ConnectionOptions \<Rightarrow> string result" where
  "connection_string connectionString username password options =
     rbind (if find_text ''@'' connectionString = None \<and> username \<noteq> [] \<and> password \<noteq> []
            then let pos = after_scheme connectionString
                 in if pos \<le> length connectionString
                    then Inr (take pos connectionString @ username @ '':'' @ password @ ''@'' @ drop pos connectionString)
                    else Inl (LogicError ''basic_string::insert'')
            else Inr connectionString) (\<lambda>s.
       Inr (s @ (if find_text ''?'' s = None then ''/?'' else ''&'') @ ''maxConnecting='' @ nat_string (unat (maxConnections options)) @
         ''&socketTimeoutMS='' @ nat_string (unat (socket_timeout options)) @
         ''&serverSelectionTimeoutMS='' @ nat_string (unat (connectionTimeout options)) @
         ''&connectTimeoutMS='' @ nat_string (unat (connectionTimeout options))))"

text \<open>\<open>throw_with_nested\<close> in a \<open>catch (...)\<close>; the outer exception is a \<open>RepoException\<close>.\<close>

definition mongo_exception :: "('s, 'd) mongo \<Rightarrow> string \<Rightarrow> exn" where
  "mongo_exception env msg = RepoException (''MongoDatabaseHandler exception: '' @ msg @ getUri (uri_text env))"

definition in_method :: "string \<Rightarrow> string \<Rightarrow> string \<Rightarrow> string" where
  "in_method method db collection = ''in '' @ method @ '' on: '' @ db @ ''.'' @ collection"

definition nested :: "exn \<Rightarrow> 'a result \<Rightarrow> 'a result" where
  "nested outer r = (case r of Inl e \<Rightarrow> Inl (if is_std_exception e then outer else e) | Inr x \<Rightarrow> Inr x)"

definition atry :: "exn \<Rightarrow> ('w, 'a) act \<Rightarrow> ('w, 'a) act" where
  "atry outer a w = (case a w of (r, w) \<Rightarrow> (nested outer r, w))"

definition on_server :: "('d \<Rightarrow> 'a result \<times> 'd) \<Rightarrow> ('s, 'd, 'a) mongo_act" where
  "on_server f m = (case f (dbase m) of (r, d) \<Rightarrow> (r, m\<lparr>dbase := d\<rparr>))"

definition from_server :: "('d \<Rightarrow> 'a result) \<Rightarrow> ('s, 'd, 'a) mongo_act" where
  "from_server f m = (f (dbase m), m)"

abbreviation mongo_time :: "('s, 'd) mongo \<Rightarrow> tm \<Rightarrow> int" where
  "mongo_time env \<equiv> make_time (files_of env)"

subsection \<open>Reading\<close>

definition MAX_PARALLEL_BSON :: nat where "MAX_PARALLEL_BSON = 10000"

definition bson_of_doc :: "document \<Rightarrow> RepoBSON" where
  "bson_of_doc d = \<lparr>doc = d, bigFiles = []\<rparr>"

definition loadBinaryBuffers :: "('s, 'd) mongo \<Rightarrow> string \<Rightarrow> string \<Rightarrow> ('s, 'd) manager \<Rightarrow> RepoBSON \<Rightarrow> RepoBSON result" where
  "loadBinaryBuffers env database collection m bson =
     (if hasFileReference bson
      then rbind (getBinaryReference bson) (\<lambda>ref.
           rbind (DataRef_deserialise ref) (\<lambda>dataRef.
           rbind (fst (readToBuffer (files_of env) database collection dataRef \<lparr>blob_manager = m, activeFile = None, readStreams = []\<rparr>)) (\<lambda>buffer.
             initBinaryBuffer buffer bson)))
      else Inr bson)"

definition mongo_findAllByCriteria ::
  "('s, 'd) mongo \<Rightarrow> string \<Rightarrow> string \<Rightarrow> RepoQuery \<Rightarrow> RepoQuery \<Rightarrow> bool \<Rightarrow> ('s, 'd, RepoBSON list) mongo_act" where
  "mongo_findAllByCriteria env database collection query projection loadBinaries =
     atry (mongo_exception env (in_method ''findAllByCriteria'' database collection))
       (abind (aresult (makeQueryFilterDocument (mongo_time env) query)) (\<lambda>criteria.
        if \<not> isEmpty criteria \<and> database \<noteq> [] \<and> collection \<noteq> []
        then abind (aresult (makeQueryFilterDocument (mongo_time env) projection)) (\<lambda>projectionBson.
             abind (from_server (\<lambda>d. find_docs (driver_of env) d database collection (doc criteria) no_options)) (\<lambda>docs m.
               (rtraverse (\<lambda>d. if loadBinaries then loadBinaryBuffers env database collection m (bson_of_doc d) else Inr (bson_of_doc d)) docs, m)))
        else areturn []))"

definition mongo_findOneByCriteria :: "('s, 'd) mongo \<Rightarrow> string \<Rightarrow> string \<Rightarrow> RepoQuery \<Rightarrow> string \<Rightarrow> 'd \<Rightarrow> RepoBSON result" where
  "mongo_findOneByCriteria env database collection query sortField d =
     nested (mongo_exception env (in_method ''findOneByCriteria'' database collection))
       (rbind (makeQueryFilterDocument (mongo_time env) query) (\<lambda>criteria.
        if \<not> isEmpty criteria \<and> database \<noteq> [] \<and> collection \<noteq> []
        then rbind (find_one (driver_of env) d database collection (doc criteria)
                 (if sortField \<noteq> [] then no_options\<lparr>sort_by := Some (sortField, -1)\<rparr> else no_options)) (\<lambda>findResult.
             case findResult of Some d \<Rightarrow> Inr (bson_of_doc d) | None \<Rightarrow> Inr (bson_of_doc []))
        else Inr (bson_of_doc [])))"

definition findOneBySharedID :: "('s, 'd) mongo \<Rightarrow> string \<Rightarrow> string \<Rightarrow> uuid \<Rightarrow> string \<Rightarrow> 'd \<Rightarrow> RepoBSON result" where
  "findOneBySharedID env database collection u sortField = mongo_findOneByCriteria env database collection (Eq ''shared_id'' [VUUID u]) sortField"

text \<open>The two overloads of \<open>findOneByUniqueID\<close>.\<close>

fun key_variant :: "ref_key \<Rightarrow> RepoVariant" where
  "key_variant (KString s) = VString s"
| "key_variant (KUUID u) = VUUID u"

definition findOneByKey :: "('s, 'd) mongo \<Rightarrow> string \<Rightarrow> string \<Rightarrow> ref_key \<Rightarrow> 'd \<Rightarrow> RepoBSON result" where
  "findOneByKey env database collection key = mongo_findOneByCriteria env database collection (Eq REPO_LABEL_ID [key_variant key]) []"

definition getAllFromCollectionTailable ::
  "('s, 'd) mongo \<Rightarrow> string \<Rightarrow> string \<Rightarrow> 64 word \<Rightarrow> 32 word \<Rightarrow> string list \<Rightarrow> string \<Rightarrow> 32 word \<Rightarrow> 'd \<Rightarrow> RepoBSON list result" where
  "getAllFromCollectionTailable env database collection skip limit names sortField sortOrder d =
     nested (mongo_exception env (in_method ''getAllFromCollectionTailable'' database collection))
       (if database = [] \<or> collection = [] then Inr []
        else rbind (find_docs (driver_of env) d database collection []
               \<lparr>sort_by = (if sortField \<noteq> [] then Some (sortField, sortOrder) else None), find_limit = limit, find_skip = skip,
                projected = (if length names > 0 then Some (map (\<lambda>n. (n, BInt32 1)) names) else None)\<rparr>) (\<lambda>docs.
             Inr (map bson_of_doc docs)))"

definition getCollections :: "('s, 'd) mongo \<Rightarrow> string \<Rightarrow> 'd \<Rightarrow> string list result" where
  "getCollections env database d =
     nested (mongo_exception env (''in getCollections on: '' @ database))
       (if database = [] then Inr [] else list_collection_names (driver_of env) d database)"

definition testConnection :: "('s, 'd) mongo \<Rightarrow> 'd \<Rightarrow> unit result" where
  "testConnection env d = nested (RepoException ''MongoDatabaseHandler exception: testConnection() failed.'') (rbind (getCollections env ''admin'' d) (\<lambda>_. Inr ()))"

definition getBigFile :: "('s, 'd) mongo \<Rightarrow> string \<Rightarrow> string \<Rightarrow> string \<Rightarrow> ('s, 'd) manager \<Rightarrow> bytes result" where
  "getBigFile env database collection fileName = getFile (files_of env) database collection (KString fileName) NoEncoding"

definition getProjectFromCollection :: "string \<Rightarrow> string \<Rightarrow> string" where
  "getProjectFromCollection ns projectExt = (case find_text (''.'' @ projectExt) ns of Some ind \<Rightarrow> take ind ns | None \<Rightarrow> [])"

definition getNamespace :: "string \<Rightarrow> string \<Rightarrow> string" where
  "getNamespace database collection = database @ ''.'' @ collection"

definition countDocuments :: "('s, 'd) mongo \<Rightarrow> string \<Rightarrow> string \<Rightarrow> RepoQuery \<Rightarrow> 'd \<Rightarrow> nat result" where
  "countDocuments env database collection criteria d =
     rbind (makeQueryFilterDocument (mongo_time env) criteria) (\<lambda>f. count_documents (driver_of env) d database collection (doc f))"

definition findCursorByCriteria :: "('s, 'd) mongo \<Rightarrow> string \<Rightarrow> string \<Rightarrow> RepoQuery \<Rightarrow> RepoQuery \<Rightarrow> 'd \<Rightarrow> RepoBSON list result" where
  "findCursorByCriteria env database collection query projection d =
     nested (mongo_exception env (in_method ''findCursorByCriteria'' database collection))
       (rbind (makeQueryFilterDocument (mongo_time env) query) (\<lambda>criteria.
        if \<not> isEmpty criteria \<and> database \<noteq> [] \<and> collection \<noteq> []
        then rbind (makeQueryFilterDocument (mongo_time env) projection) (\<lambda>projectionBson.
             rbind (find_docs (driver_of env) d database collection (doc criteria) no_options) (\<lambda>docs. Inr (map bson_of_doc docs)))
        else Inl (mongo_exception env
               ''Invalid call to findCursorByCriteria; all of database, collection, and criteria must be provided.'')))"

subsection \<open>Writing\<close>

definition mongo_createIndex :: "('s, 'd) mongo \<Rightarrow> string \<Rightarrow> string \<Rightarrow> RepoIndex \<Rightarrow> bool \<Rightarrow> ('s, 'd, unit) mongo_act" where
  "mongo_createIndex env database collection index sparse =
     atry (mongo_exception env (in_method ''createIndex'' database collection))
       (if database \<noteq> [] \<and> collection \<noteq> []
        then on_server (\<lambda>d. create_index (driver_of env) d database collection (doc (index_bson index)) sparse) else areturn ())"

definition dropCollection :: "('s, 'd) mongo \<Rightarrow> string \<Rightarrow> string \<Rightarrow> ('s, 'd, unit) mongo_act" where
  "dropCollection env database collection =
     atry (mongo_exception env (in_method ''dropCollection'' database collection))
       (if database \<noteq> [] \<and> collection \<noteq> [] then on_server (\<lambda>d. drop_collection (driver_of env) d database collection) else areturn ())"

definition mongo_dropDocument :: "('s, 'd) mongo \<Rightarrow> RepoBSON \<Rightarrow> string \<Rightarrow> string \<Rightarrow> 'd \<Rightarrow> unit result \<times> 'd" where
  "mongo_dropDocument env bson database collection =
     atry (mongo_exception env (in_method ''dropDocument'' database collection))
       (if database = [] \<or> collection = [] then areturn ()
        else case map_of (doc bson) ''_id'' of
          Some v \<Rightarrow> (\<lambda>d. delete_one (driver_of env) d database collection [(''_id'', v)])
        | None \<Rightarrow> aresult (Inl (RepoException ''Cannot drop a document without an _id field'')))"

definition mongo_insertDocument :: "('s, 'd) mongo \<Rightarrow> string \<Rightarrow> string \<Rightarrow> RepoBSON \<Rightarrow> ('s, 'd, unit) mongo_act" where
  "mongo_insertDocument env database collection b =
     atry (mongo_exception env (in_method ''insertDocument'' database collection))
       (if hasOversizeFiles b
        then aresult (Inl (RepoException ''insertDocument cannot be used with BSONs holding binary files. Use insertManyDocuments instead.''))
        else on_server (\<lambda>d. insert_one (driver_of env) d database collection (doc b)))"

text \<open>A document with its binaries moved to a blob file. Binaries that are all empty are neither stored nor referenced.\<close>

definition store_node :: "('s, 'd) mongo \<Rightarrow> string \<Rightarrow> string \<Rightarrow> ref_metadata \<Rightarrow> RepoBSON \<Rightarrow> (('s, 'd) blob, document) act" where
  "store_node env database collection mdata node =
     (let (elemRefs, data) = getBinariesAsBuffer node
      in if data \<noteq> []
         then abind (insertBinary (files_of env) database collection mdata data) (\<lambda>ref.
                areturn (doc (replaceBinaryWithReference (DataRef_serialise ref) elemRefs node)))
         else areturn (doc node))"

definition on_blob_server :: "('d \<Rightarrow> 'a result \<times> 'd) \<Rightarrow> (('s, 'd) blob, 'a) act" where
  "on_blob_server f b = (case on_server f (blob_manager b) of (r, m) \<Rightarrow> (r, b\<lparr>blob_manager := m\<rparr>))"

function insert_chunks :: "('s, 'd) mongo \<Rightarrow> string \<Rightarrow> string \<Rightarrow> ref_metadata \<Rightarrow> RepoBSON list \<Rightarrow> (('s, 'd) blob, unit) act" where
  "insert_chunks env database collection mdata objs =
     (if objs = [] then areturn ()
      else abind (atraverse (store_node env database collection mdata) (take MAX_PARALLEL_BSON objs)) (\<lambda>toCommit.
           abind (on_blob_server (\<lambda>d. insert_many (driver_of env) d database collection toCommit)) (\<lambda>_.
             insert_chunks env database collection mdata (drop MAX_PARALLEL_BSON objs))))"
  by pat_completeness auto
termination by (relation "measure (\<lambda>(env, database, collection, mdata, objs). length objs)") (auto simp: MAX_PARALLEL_BSON_def)

declare insert_chunks.simps [simp del]

definition mongo_insertManyDocuments ::
  "('s, 'd) mongo \<Rightarrow> string \<Rightarrow> string \<Rightarrow> RepoBSON list \<Rightarrow> ref_metadata \<Rightarrow> ('s, 'd, unit) mongo_act" where
  "mongo_insertManyDocuments env database collection objs mdata m =
     (case abind (insert_chunks env database collection mdata objs) (\<lambda>_. finished (files_of env) database collection mdata)
             \<lparr>blob_manager = m, activeFile = None, readStreams = []\<rparr> of
        (r, b) \<Rightarrow> (nested (mongo_exception env (in_method ''insertManyDocuments'' database collection)) r, blob_manager b))"

text \<open>A document without an identifier: \<open>get_value\<close> of no element throws.\<close>

definition mongo_upsertDocument :: "('s, 'd) mongo \<Rightarrow> string \<Rightarrow> string \<Rightarrow> RepoBSON \<Rightarrow> bool \<Rightarrow> 'd \<Rightarrow> unit result \<times> 'd" where
  "mongo_upsertDocument env database collection b overwrite =
     atry (mongo_exception env (in_method ''upsertDocument'' database collection))
       (if hasOversizeFiles b then aresult (Inl (RepoException ''upsertDocument cannot be used with BSONs holding binary files.''))
        else if overwrite
        then case map_of (doc b) REPO_LABEL_ID of
               None \<Rightarrow> aresult (Inl BsoncxxException)
             | Some v \<Rightarrow> (\<lambda>d. replace_one (driver_of env) d database collection [(REPO_LABEL_ID, v)] (doc b) True)
        else let query = filter (\<lambda>(k, _). k = REPO_LABEL_ID) (doc b);
                 set = filter (\<lambda>(k, _). k \<noteq> REPO_LABEL_ID) (doc b)
             in (\<lambda>d. update_one (driver_of env) d database collection query
                  [(''$set'', BDocument set), (''$setOnInsert'', BDocument query)] True))"

subsection \<open>Bulk writes\<close>

record ('s, 'd) write_context =
  ctx_blob :: "('s, 'd) blob"
  bulk :: "write_op list"
  bulkSize :: nat
  bulkOps :: nat

definition getBulkWriteContext :: "('s, 'd) manager \<Rightarrow> ('s, 'd) write_context" where
  "getBulkWriteContext m = \<lparr>ctx_blob = \<lparr>blob_manager = m, activeFile = None, readStreams = []\<rparr>, bulk = [], bulkSize = 0, bulkOps = 0\<rparr>"

definition on_blob :: "(('s, 'd) blob, 'a) act \<Rightarrow> (('s, 'd) write_context, 'a) act" where
  "on_blob a c = (case a (ctx_blob c) of (r, b) \<Rightarrow> (r, c\<lparr>ctx_blob := b\<rparr>))"

definition executeBulkWrite :: "('s, 'd) mongo \<Rightarrow> string \<Rightarrow> string \<Rightarrow> (('s, 'd) write_context, unit) act" where
  "executeBulkWrite env database collection =
     abind (agets (\<lambda>c. (bulkSize c, bulk c))) (\<lambda>(n, ops).
     abind (if n \<noteq> 0 then on_blob (on_blob_server (\<lambda>d. bulk_write (driver_of env) d database collection ops)) else areturn ()) (\<lambda>_.
       amodify (\<lambda>c. c\<lparr>bulk := [], bulkSize := 0\<rparr>)))"

definition checkBulkWrite :: "('s, 'd) mongo \<Rightarrow> string \<Rightarrow> string \<Rightarrow> (('s, 'd) write_context, unit) act" where
  "checkBulkWrite env database collection =
     abind (agets bulkSize) (\<lambda>n. if n > 16 * 1024 * 1024 then executeBulkWrite env database collection else areturn ())"

definition append_op :: "nat \<Rightarrow> write_op \<Rightarrow> (('s, 'd) write_context, unit) act" where
  "append_op n op = amodify (\<lambda>c. c\<lparr>bulk := bulk c @ [op], bulkSize := bulkSize c + n, bulkOps := Suc (bulkOps c)\<rparr>)"

definition context_exception :: "string \<Rightarrow> string \<Rightarrow> exn" where
  "context_exception method collection =
     RepoException (''MongoDatabaseHandler exception: MongoWriteContext::'' @ method @ '' on '' @ collection)"

definition context_insertDocument :: "('s, 'd) mongo \<Rightarrow> string \<Rightarrow> string \<Rightarrow> RepoBSON \<Rightarrow> (('s, 'd) write_context, unit) act" where
  "context_insertDocument env database collection b =
     atry (context_exception ''insertDocument'' collection)
       (abind (on_blob (store_node env database collection [] b)) (\<lambda>d.
        abind (append_op (objsize (driver_of env) d) (InsertOne d)) (\<lambda>_. checkBulkWrite env database collection)))"

definition context_updateDocument :: "('s, 'd) mongo \<Rightarrow> string \<Rightarrow> string \<Rightarrow> AddParent \<Rightarrow> (('s, 'd) write_context, unit) act" where
  "context_updateDocument env database collection update =
     atry (context_exception ''updateDocument'' collection)
       (abind (aresult (update_documents update)) (\<lambda>(query, d).
        abind (append_op (objsize (driver_of env) (doc query) + objsize (driver_of env) (doc d)) (UpdateOne (doc query) (doc d))) (\<lambda>_.
          checkBulkWrite env database collection)))"

definition context_flush :: "('s, 'd) mongo \<Rightarrow> string \<Rightarrow> string \<Rightarrow> (('s, 'd) write_context, unit) act" where
  "context_flush env database collection =
     abind (executeBulkWrite env database collection) (\<lambda>_. on_blob (finished (files_of env) database collection []))"

text \<open>\<open>strcasecmp\<close> compares the lower-case letters as unsigned characters.\<close>

definition tolower :: "char \<Rightarrow> nat" where
  "tolower c = (let n = of_char c in if 65 \<le> n \<and> n \<le> 90 then n + 32 else n)"

fun strcasecmp_le :: "string \<Rightarrow> string \<Rightarrow> bool" where
  "strcasecmp_le [] s = True"
| "strcasecmp_le (c # s) [] = False"
| "strcasecmp_le (c # s) (e # t) = (if tolower c = tolower e then strcasecmp_le s t else tolower c < tolower e)"

definition caseInsensitiveStringCompare :: "string \<Rightarrow> string \<Rightarrow> bool" where
  "caseInsensitiveStringCompare = strcasecmp_le"

end
