(* ===== verification/MongoStore.thy ===== *)
theory MongoStore
  imports MongoHandler
begin

text \<open>
  What the database handler keeps of its promises over a server whose collections are lists of documents, the interface
  \<open>collection_server\<close>: it is a database for the file manager, documents stored with their binaries are found and loaded again, and
  bulk writes reach the collection in order.
\<close>

subsection \<open>The server\<close>

fun run_op :: "(document \<Rightarrow> document \<Rightarrow> document list \<Rightarrow> document list) \<Rightarrow> write_op \<Rightarrow> document list \<Rightarrow> document list" where
  "run_op upd (InsertOne x) ds = ds @ [x]"
| "run_op upd (UpdateOne q u) ds = upd q u ds"

locale collection_server =
  fixes drv :: "'d driver"
    and contents :: "'d \<Rightarrow> string \<times> string \<Rightarrow> document list"
    and sat :: "document \<Rightarrow> document \<Rightarrow> bool"
    and upd :: "document \<Rightarrow> document \<Rightarrow> document list \<Rightarrow> document list"
  assumes inserted: "insert_many drv d db col docs = (Inr (), d') \<Longrightarrow> contents d' = (contents d)((db, col) := contents d (db, col) @ docs)"
    and written: "bulk_write drv d db col ops = (Inr (), d') \<Longrightarrow> contents d' = (contents d)((db, col) := fold (run_op upd) ops (contents d (db, col)))"
    and found: "\<exists>docs. find_docs drv d db col q no_options = Inr docs \<and> mset docs = mset (filter (sat q) (contents d (db, col)))"
    and one_found: "contents d (db, col) = contents d' (db, col) \<Longrightarrow> find_one drv d db col q opt = find_one drv d' db col q opt"
    and replaced_elsewhere: "replace_one drv d db col q x up = (r, d') \<Longrightarrow> k \<noteq> (db, col) \<Longrightarrow> contents d' k = contents d k"
    and replaced: "replace_one drv d db col [(REPO_LABEL_ID, key_bson key)] x True = (Inr (), d') \<Longrightarrow>
      map_of x REPO_LABEL_ID = Some (key_bson key) \<Longrightarrow>
      db \<noteq> [] \<and> col \<noteq> [] \<and> (\<exists>y. find_one drv d' db col [(REPO_LABEL_ID, key_bson key)] no_options = Inr (Some y) \<and> map_of y = map_of x)"
    and replaced_others: "replace_one drv d db col [(REPO_LABEL_ID, key_bson key)] x True = (r, d') \<Longrightarrow>
      map_of x REPO_LABEL_ID = Some (key_bson key) \<Longrightarrow> key' \<noteq> key \<Longrightarrow>
      find_one drv d' db col [(REPO_LABEL_ID, key_bson key')] no_options = find_one drv d db col [(REPO_LABEL_ID, key_bson key')] no_options"

subsection \<open>A database for the file manager\<close>

fun key_of_bson :: "bson \<Rightarrow> ref_key" where
  "key_of_bson (BBinary _ bs) = KUUID (uuid_of_data bs)"
| "key_of_bson (BString s) = KString s"
| "key_of_bson _ = KString []"

lemma key_of_key [simp]: "key_of_bson (key_bson key) = key"
  by (cases key) (simp_all add: bson_of_uuid_def)

definition mongo_ref_ops :: "('s, 'd) mongo \<Rightarrow> 'd db_ops" where
  "mongo_ref_ops env = \<lparr>findOneByUniqueID = (\<lambda>d db col k. findOneByKey env db col (key_of_bson k) d),
     upsertDocument = (\<lambda>d db col b overwrite. mongo_upsertDocument env db col b overwrite d),
     dropDocument = (\<lambda>d b db col. mongo_dropDocument env b db col d)\<rparr>"

lemma nested_Inr [simp]: "nested e r = Inr x \<longleftrightarrow> r = Inr x" "nested e (Inr x) = Inr x"
  by (auto simp: nested_def split: sum.splits)

lemma key_filter: "makeQueryFilterDocument mktime (Eq REPO_LABEL_ID [key_variant key]) = Inr \<lparr>doc = [(REPO_LABEL_ID, key_bson key)], bigFiles = []\<rparr>"
  by (cases key) (simp_all add: makeQueryFilterDocument_def RepoBSONBuilder_def append_field_def obj_def)

lemma findOneByKey_eq:
  "findOneByKey env db col key d = nested (mongo_exception env (in_method ''findOneByCriteria'' db col))
     (if db = [] \<or> col = [] then Inr (bson_of_doc [])
      else rbind (find_one (driver_of env) d db col [(REPO_LABEL_ID, key_bson key)] no_options)
        (\<lambda>x. case x of Some d \<Rightarrow> Inr (bson_of_doc d) | None \<Rightarrow> Inr (bson_of_doc [])))"
  by (auto simp: findOneByKey_def mongo_findOneByCriteria_def key_filter isEmpty_def)

lemma upsert_eq:
  assumes "map_of (doc b) REPO_LABEL_ID = Some k"
  shows "mongo_upsertDocument env db col b True d = atry (mongo_exception env (in_method ''upsertDocument'' db col))
    (if hasOversizeFiles b then aresult (Inl (RepoException ''upsertDocument cannot be used with BSONs holding binary files.''))
     else (\<lambda>d. replace_one (driver_of env) d db col [(REPO_LABEL_ID, k)] (doc b) True)) d"
  using assms by (simp add: mongo_upsertDocument_def)

context collection_server
begin

lemma ref_store_laws_mongo:
  assumes drv: "driver_of env = drv"
  shows "ref_store_laws (mongo_ref_ops env)"
  unfolding ref_store_laws_def mongo_ref_ops_def db_ops.simps
proof (intro conjI allI impI)
  fix d db col b k d'
  assume a: "mongo_upsertDocument env db col b True d = (Inr (), d') \<and> map_of (doc b) REPO_LABEL_ID = Some (key_bson k)"
  then have "replace_one drv d db col [(REPO_LABEL_ID, key_bson k)] (doc b) True = (Inr (), d')"
    by (auto simp: upsert_eq atry_def aresult_def drv split: prod.splits if_splits)
  from replaced [OF this] a show "\<exists>b'. findOneByKey env db col (key_of_bson (key_bson k)) d' = Inr b' \<and> map_of (doc b') = map_of (doc b)"
    by (auto simp: findOneByKey_eq drv bson_of_doc_def)
next
  fix d db col b k r d' k'
  assume a: "mongo_upsertDocument env db col b True d = (r, d') \<and> map_of (doc b) REPO_LABEL_ID = Some (key_bson k) \<and> k' \<noteq> k"
  then have "d' = d \<or> (\<exists>r. replace_one drv d db col [(REPO_LABEL_ID, key_bson k)] (doc b) True = (r, d'))"
    by (auto simp: upsert_eq atry_def aresult_def drv split: prod.splits if_splits)
  then have "find_one drv d' db col [(REPO_LABEL_ID, key_bson k')] no_options = find_one drv d db col [(REPO_LABEL_ID, key_bson k')] no_options"
    using replaced_others [of d db col k "doc b"] a by blast
  then show "findOneByKey env db col (key_of_bson (key_bson k')) d' = findOneByKey env db col (key_of_bson (key_bson k')) d"
    by (simp add: findOneByKey_eq drv)
qed

lemma upsert_elsewhere:
  assumes drv: "driver_of env = drv" and r: "mongo_upsertDocument env db col b True d = (r, d')" and k: "k \<noteq> (db, col)"
  shows "contents d' k = contents d k"
  using r replaced_elsewhere [OF _ k]
  by (auto simp: mongo_upsertDocument_def atry_def aresult_def drv split: prod.splits if_splits option.splits)

text \<open>Storing files touches the collection of references only.\<close>

lemma upload_elsewhere:
  assumes drv: "driver_of env = drv" and ops: "dbHandler (files_of env) = mongo_ref_ops env" and k: "k \<noteq> (db, ref_collection col)"
    and r: "uploadFileAndCommit (files_of env) db col key bin mdata enc m = (r, m')"
  shows "contents (dbase m') k = contents (dbase m) k"
proof -
  have up: "contents (dbase m2) k = contents (dbase m1) k"
    if "upsertFileRef (files_of env) db col key link REF_FS n md m1 = (r', m2)" for link n md m1 m2 r'
    using that upsert_elsewhere [OF drv _ k]
    by (auto simp: upsertFileRef_def ops mongo_ref_ops_def split: sum.splits prod.splits if_splits)
  show ?thesis
    using r up by (fastforce simp: uploadFileAndCommit_def Let_def split: prod.splits sum.splits if_splits)
qed

lemma commitActiveFile_elsewhere:
  assumes "driver_of env = drv" and "dbHandler (files_of env) = mongo_ref_ops env" and "k \<noteq> (db, ref_collection col)"
    and "commitActiveFile (files_of env) db col mdata b = (r, b')"
  shows "contents (dbase (blob_manager b')) k = contents (dbase (blob_manager b)) k"
  using assms(4) upload_elsewhere [OF assms(1-3)]
  by (fastforce simp: commitActiveFile_def split: option.splits prod.splits sum.splits)

lemma insertBinary_elsewhere:
  assumes a: "driver_of env = drv" "dbHandler (files_of env) = mongo_ref_ops env" "k \<noteq> (db, ref_collection col)"
    and r: "insertBinary (files_of env) db col mdata data b = (r, b')"
  shows "contents (dbase (blob_manager b')) k = contents (dbase (blob_manager b)) k"
proof -
  have "contents (dbase (blob_manager b2)) k = contents (dbase (blob_manager b1)) k"
    if "newActiveFile (files_of env) db col mdata b1 = (q, b2)" for b1 b2 q
    using that commitActiveFile_elsewhere [OF a]
    by (fastforce simp: newActiveFile_def Let_def split: prod.splits sum.splits)
  then show ?thesis using r by (fastforce simp: insertBinary_def Let_def split: prod.splits sum.splits option.splits if_splits)
qed

lemma store_node_elsewhere:
  assumes "driver_of env = drv" "dbHandler (files_of env) = mongo_ref_ops env" "k \<noteq> (db, ref_collection col)"
    and "store_node env db col mdata node b = (r, b')"
  shows "contents (dbase (blob_manager b')) k = contents (dbase (blob_manager b)) k"
  using assms(4) insertBinary_elsewhere [OF assms(1-3)]
  by (fastforce simp: store_node_def abind_def areturn_def split: prod.splits sum.splits if_splits)

text \<open>Documents in other collections do not matter for the files.\<close>

lemma blob_inv_server:
  assumes drv: "driver_of env = drv" and ops: "dbHandler (files_of env) = mongo_ref_ops env"
    and same: "contents d (db, ref_collection col) = contents (dbase (blob_manager b)) (db, ref_collection col)"
    and inv: "blob_inv (files_of env) db col handed b"
  shows "blob_inv (files_of env) db col handed (b\<lparr>blob_manager := (blob_manager b)\<lparr>dbase := d\<rparr>\<rparr>)"
proof -
  let ?m = "blob_manager b"
  have "find_one drv d db (ref_collection col) q no_options = find_one drv (dbase ?m) db (ref_collection col) q no_options" for q
    by (rule one_found [OF same])
  then have "getFileRef (files_of env) db col key (?m\<lparr>dbase := d\<rparr>) = getFileRef (files_of env) db col key ?m" for key
    by (cases key) (simp_all add: getFileRef_def ops mongo_ref_ops_def findOneByKey_eq drv del: key_bson.simps)
  then have "stored (files_of env) db col (KString f) c (?m\<lparr>dbase := d\<rparr>) \<longleftrightarrow> stored (files_of env) db col (KString f) c ?m" for f c
    by (simp add: stored_def)
  then show ?thesis using inv by (simp add: blob_inv_def made_name_def)
qed

end

subsection \<open>Storing and loading documents\<close>

text \<open>What is stored for a document, given the references handed out with their data.\<close>

definition stored_as :: "(DataRef \<times> bytes) list \<Rightarrow> RepoBSON \<Rightarrow> document \<Rightarrow> bool" where
  "stored_as handed b d \<longleftrightarrow> (case getBinariesAsBuffer b of (elemRefs, data) \<Rightarrow>
     if data = [] then d = doc b
     else \<exists>ref. (ref, data) \<in> set handed \<and> d = doc (replaceBinaryWithReference (DataRef_serialise ref) elemRefs b))"

lemma stored_as_mono: "stored_as handed b d \<Longrightarrow> set handed \<subseteq> set handed' \<Longrightarrow> stored_as handed' b d"
  by (auto simp: stored_as_def split: prod.splits if_splits)

text \<open>What the file manager needs to store the binaries.\<close>

definition files_ready :: "('s, 'd) mongo \<Rightarrow> 's file_ops \<Rightarrow> nat \<Rightarrow> string \<Rightarrow> string \<Rightarrow> ref_metadata \<Rightarrow> bool" where
  "files_ready env h n db col mdata \<longleftrightarrow> fsHandler (files_of env) = h \<and> dbHandler (files_of env) = mongo_ref_ops env \<and>
     fresh_uuids (files_of env) n \<and> unreserved mdata \<and> uploads_succeed (files_of env) db col mdata"

lemma ref_collection_neq: "(db, col) \<noteq> (db, ref_collection col)"
  by (simp add: ref_collection_def)

context collection_server
begin

lemma store_node_inv:
  assumes drv: "driver_of env = drv" and ready: "files_ready env (fs_ops fs_env dir level) n db col mdata"
    and n: "Suc (made (blob_manager b)) < n" and inv: "blob_inv (files_of env) db col handed b"
    and len: "length (snd (getBinariesAsBuffer node)) < 2 ^ 62"
  shows "\<exists>d b' handed'. store_node env db col mdata node b = (Inr d, b') \<and> stored_as handed' node d \<and>
    blob_inv (files_of env) db col handed' b' \<and> set handed \<subseteq> set handed' \<and> made (blob_manager b') \<le> made (blob_manager b) + 2"
proof -
  obtain elemRefs data where e: "getBinariesAsBuffer node = (elemRefs, data)" by fastforce
  have laws: "ref_store_laws (dbHandler (files_of env))" and f: "fsHandler (files_of env) = fs_ops fs_env dir level"
    "fresh_uuids (files_of env) n" "unreserved mdata" "uploads_succeed (files_of env) db col mdata"
    using ready ref_store_laws_mongo [OF drv] by (simp_all add: files_ready_def)
  show ?thesis
  proof (cases "data = []")
    case True
    then show ?thesis using e inv by (auto simp: store_node_def areturn_def stored_as_def)
  next
    case False
    obtain r b' where "insertBinary (files_of env) db col mdata data b = (Inr r, b')"
      "made (blob_manager b') \<le> Suc (Suc (made (blob_manager b)))" "blob_inv (files_of env) db col ((r, data) # handed) b'"
      using fs.insertBinary_inv [OF f(1) laws f(2-4) n inv, of data] len e by auto
    then show ?thesis using e False
      by (intro exI [of _ "doc (replaceBinaryWithReference (DataRef_serialise r) elemRefs node)"] exI [of _ b'] exI [of _ "(r, data) # handed"])
        (auto simp: store_node_def stored_as_def abind_def areturn_def)
  qed
qed

lemma store_nodes_inv:
  assumes drv: "driver_of env = drv" and ready: "files_ready env (fs_ops fs_env dir level) n db col mdata"
  shows "made (blob_manager b) + 2 * length bs < n \<Longrightarrow> blob_inv (files_of env) db col handed b \<Longrightarrow>
    \<forall>x \<in> set bs. length (snd (getBinariesAsBuffer x)) < 2 ^ 62 \<Longrightarrow>
    \<exists>docs b' handed'. atraverse (store_node env db col mdata) bs b = (Inr docs, b') \<and> list_all2 (stored_as handed') bs docs \<and>
      blob_inv (files_of env) db col handed' b' \<and> set handed \<subseteq> set handed' \<and>
      made (blob_manager b') \<le> made (blob_manager b) + 2 * length bs \<and>
      contents (dbase (blob_manager b')) (db, col) = contents (dbase (blob_manager b)) (db, col)"
proof (induction bs arbitrary: b handed)
  case Nil
  then show ?case by (auto simp: areturn_def)
next
  case (Cons x bs)
  have ops: "dbHandler (files_of env) = mongo_ref_ops env" using ready by (simp add: files_ready_def)
  obtain d b1 h1 where s: "store_node env db col mdata x b = (Inr d, b1)" "stored_as h1 x d" "blob_inv (files_of env) db col h1 b1"
    "set handed \<subseteq> set h1" "made (blob_manager b1) \<le> made (blob_manager b) + 2"
    using store_node_inv [OF drv ready _ Cons.prems(2), of x] Cons.prems(1,3) by auto
  obtain docs b2 h2 where r: "atraverse (store_node env db col mdata) bs b1 = (Inr docs, b2)" "list_all2 (stored_as h2) bs docs"
    "blob_inv (files_of env) db col h2 b2" "set h1 \<subseteq> set h2" "made (blob_manager b2) \<le> made (blob_manager b1) + 2 * length bs"
    "contents (dbase (blob_manager b2)) (db, col) = contents (dbase (blob_manager b1)) (db, col)"
    using Cons.IH [OF _ s(3)] Cons.prems(1,3) s(5) by auto
  have "contents (dbase (blob_manager b1)) (db, col) = contents (dbase (blob_manager b)) (db, col)"
    by (rule store_node_elsewhere [OF drv ops ref_collection_neq s(1)])
  then show ?case using s r stored_as_mono [OF s(2) r(4)]
    by (intro exI [of _ "d # docs"] exI [of _ b2] exI [of _ h2]) (auto simp: abind_def areturn_def)
qed

lemma insert_chunks_inv:
  assumes drv: "driver_of env = drv" and ready: "files_ready env (fs_ops fs_env dir level) n db col mdata"
  shows "insert_chunks env db col mdata bs b = (Inr (), b') \<Longrightarrow>
    made (blob_manager b) + 2 * length bs < n \<Longrightarrow> blob_inv (files_of env) db col handed b \<Longrightarrow>
    \<forall>x \<in> set bs. length (snd (getBinariesAsBuffer x)) < 2 ^ 62 \<Longrightarrow>
    \<exists>docs handed'. list_all2 (stored_as handed') bs docs \<and> blob_inv (files_of env) db col handed' b' \<and> set handed \<subseteq> set handed' \<and>
      made (blob_manager b') \<le> made (blob_manager b) + 2 * length bs \<and>
      contents (dbase (blob_manager b')) (db, col) = contents (dbase (blob_manager b)) (db, col) @ docs"
proof (induction "length bs" arbitrary: bs b handed rule: less_induct)
  case less
  have ops: "dbHandler (files_of env) = mongo_ref_ops env" using ready by (simp add: files_ready_def)
  show ?case
  proof (cases "bs = []")
    case True
    then show ?thesis using less.prems by (auto simp: insert_chunks.simps areturn_def)
  next
    case False
    let ?now = "take MAX_PARALLEL_BSON bs" and ?later = "drop MAX_PARALLEL_BSON bs"
    have len: "length ?now + length ?later = length bs" by (simp add: length_append [symmetric] del: length_append length_take length_drop)
    have short: "length ?later < length bs" using False by (simp add: MAX_PARALLEL_BSON_def)
    have now: "made (blob_manager b) + 2 * length ?now < n" "\<forall>x \<in> set ?now. length (snd (getBinariesAsBuffer x)) < 2 ^ 62"
      using less.prems(2,4) len by (auto dest: in_set_takeD)
    obtain docs b1 h1 where s: "atraverse (store_node env db col mdata) ?now b = (Inr docs, b1)" "list_all2 (stored_as h1) ?now docs"
      "blob_inv (files_of env) db col h1 b1" "set handed \<subseteq> set h1" "made (blob_manager b1) \<le> made (blob_manager b) + 2 * length ?now"
      "contents (dbase (blob_manager b1)) (db, col) = contents (dbase (blob_manager b)) (db, col)"
      using store_nodes_inv [OF drv ready now(1) less.prems(3) now(2)] by blast
    obtain d where d: "insert_many drv (dbase (blob_manager b1)) db col docs = (Inr (), d)"
      "insert_chunks env db col mdata ?later (b1\<lparr>blob_manager := (blob_manager b1)\<lparr>dbase := d\<rparr>\<rparr>) = (Inr (), b')"
      using less.prems(1) False s(1)
      by (subst (asm) insert_chunks.simps) (auto simp: abind_def on_blob_server_def on_server_def drv split: prod.splits sum.splits)
    let ?b2 = "b1\<lparr>blob_manager := (blob_manager b1)\<lparr>dbase := d\<rparr>\<rparr>"
    note c = inserted [OF d(1)]
    have inv2: "blob_inv (files_of env) db col h1 ?b2"
      by (rule blob_inv_server [OF drv ops _ s(3)]) (simp add: c ref_collection_def)
    have later: "made (blob_manager ?b2) + 2 * length ?later < n" "\<forall>x \<in> set ?later. length (snd (getBinariesAsBuffer x)) < 2 ^ 62"
      using less.prems(2,4) len s(5) by (auto dest: in_set_dropD)
    obtain docs' h2 where r: "list_all2 (stored_as h2) ?later docs'" "blob_inv (files_of env) db col h2 b'" "set h1 \<subseteq> set h2"
      "made (blob_manager b') \<le> made (blob_manager ?b2) + 2 * length ?later"
      "contents (dbase (blob_manager b')) (db, col) = contents (dbase (blob_manager ?b2)) (db, col) @ docs'"
      using less.hyps [OF short d(2) later(1) inv2 later(2)] by blast
    have "list_all2 (stored_as h2) ?now docs" using s(2) stored_as_mono [OF _ r(3)] by (rule list_all2_mono)
    from list_all2_appendI [OF this r(1)] have "list_all2 (stored_as h2) bs (docs @ docs')" by simp
    then show ?thesis using r s(4,5,6) c len
      by (intro exI [of _ "docs @ docs'"] exI [of _ h2]) auto
  qed
qed

text \<open>Everything that is stored by one call, with the references into files that can be read.\<close>

lemma insertManyDocuments_stored:
  assumes drv: "driver_of env = drv" and ready: "files_ready env (fs_ops fs_env dir level) n db col mdata"
    and ins: "mongo_insertManyDocuments env db col bs mdata m = (Inr (), m')" and n: "made m + 2 * length bs < n"
    and len: "\<forall>x \<in> set bs. length (snd (getBinariesAsBuffer x)) < 2 ^ 62"
  shows "\<exists>docs handed. list_all2 (stored_as handed) bs docs \<and>
    blob_inv (files_of env) db col handed \<lparr>blob_manager = m', activeFile = None, readStreams = []\<rparr> \<and>
    contents (dbase m') (db, col) = contents (dbase m) (db, col) @ docs"
proof -
  let ?b = "\<lparr>blob_manager = m, activeFile = None, readStreams = []\<rparr>"
  have laws: "ref_store_laws (dbHandler (files_of env))" and f: "fsHandler (files_of env) = fs_ops fs_env dir level"
    "fresh_uuids (files_of env) n" "unreserved mdata" "uploads_succeed (files_of env) db col mdata"
    and ops: "dbHandler (files_of env) = mongo_ref_ops env"
    using ready ref_store_laws_mongo [OF drv] by (simp_all add: files_ready_def)
  obtain b1 b2 where r: "insert_chunks env db col mdata bs ?b = (Inr (), b1)" "finished (files_of env) db col mdata b1 = (Inr (), b2)"
    "m' = blob_manager b2"
    using ins by (auto simp: mongo_insertManyDocuments_def abind_def split: prod.splits sum.splits)
  have b: "blob_inv (files_of env) db col [] ?b" by (rule blob_invI) simp_all
  obtain docs h where i: "list_all2 (stored_as h) bs docs" "blob_inv (files_of env) db col h b1"
    "made (blob_manager b1) \<le> made m + 2 * length bs"
    "contents (dbase (blob_manager b1)) (db, col) = contents (dbase m) (db, col) @ docs"
    using insert_chunks_inv [OF drv ready r(1) _ b len] n by auto
  have "made (blob_manager b1) < n" using i(3) n by simp
  from fs.commitActiveFile_inv [OF f(1) laws f(2-4) this i(2)] r(2)
  have c: "activeFile b2 = None" "blob_inv (files_of env) db col h b2" by (auto simp: finished_def)
  have "contents (dbase (blob_manager b2)) (db, col) = contents (dbase (blob_manager b1)) (db, col)"
    by (rule commitActiveFile_elsewhere [OF drv ops ref_collection_neq r(2) [unfolded finished_def]])
  moreover have "blob_inv (files_of env) db col h \<lparr>blob_manager = m', activeFile = None, readStreams = []\<rparr>"
    using c r(3) by (simp add: blob_inv_def)
  ultimately show ?thesis using i(1,4) r(3) by metis
qed

end

text \<open>A document that is loaded again: every field but the reference, and every binary.\<close>

definition loaded_again :: "RepoBSON \<Rightarrow> RepoBSON \<Rightarrow> bool" where
  "loaded_again b b' \<longleftrightarrow> (\<forall>l. l \<noteq> REPO_LABEL_BINARY_REFERENCE \<longrightarrow> map_of (doc b') l = map_of (doc b) l) \<and>
     (if snd (getBinariesAsBuffer b) = [] then bigFiles b' = [] else map_of (bigFiles b') = map_of (bigFiles b))"

lemma replaced_reference:
  "hasFileReference (replaceBinaryWithReference r e b)" "getBinaryReference (replaceBinaryWithReference r e b) = Inr \<lparr>doc = doc r, bigFiles = []\<rparr>"
  "bigFiles (replaceBinaryWithReference r e b) = []"
  by (simp_all add: hasFileReference_def getBinaryReference_def replaceBinaryWithReference_def map_of_appendElementsUnique Let_def getters binary_labels)

lemma stored_as_loads:
  assumes inv: "blob_inv (files_of env) db col handed \<lparr>blob_manager = m, activeFile = None, readStreams = []\<rparr>"
    and h: "fsHandler (files_of env) = fs_ops fs_env dir level"
    and st: "stored_as handed b d" and len: "length (snd (getBinariesAsBuffer b)) < 2 ^ 62" and nr: "\<not> hasFileReference b"
  shows "\<exists>b'. loadBinaryBuffers env db col m (bson_of_doc d) = Inr b' \<and> loaded_again b b'"
proof -
  obtain elemRefs data where e: "getBinariesAsBuffer b = (elemRefs, data)" by fastforce
  show ?thesis
  proof (cases "data = []")
    case True
    then have d: "d = doc b" using st e by (simp add: stored_as_def)
    then have "\<not> hasFileReference (bson_of_doc d)" using nr by (simp add: hasFileReference_def bson_of_doc_def)
    then show ?thesis using True e by (simp add: loadBinaryBuffers_def loaded_again_def bson_of_doc_def d)
  next
    case False
    then obtain ref where ref: "(ref, data) \<in> set handed" "d = doc (replaceBinaryWithReference (DataRef_serialise ref) elemRefs b)"
      using st e by (auto simp: stored_as_def)
    let ?r = "replaceBinaryWithReference (DataRef_serialise ref) elemRefs b"
    have d: "bson_of_doc d = ?r" by (simp add: bson_of_doc_def ref(2) replaced_reference(3))
    obtain b1 where b1: "readToBuffer (files_of env) db col ref \<lparr>blob_manager = m, activeFile = None, readStreams = []\<rparr> = (Inr data, b1)"
      using fs.readToBuffer_inv [OF h inv ref(1)] by auto
    have small: "length data < 2 ^ 64" using len e by simp
    obtain b' where "initBinaryBuffer data ?r = Inr b'" "map_of (bigFiles b') = map_of (bigFiles b)"
      "\<forall>l. l \<noteq> REPO_LABEL_BINARY_REFERENCE \<longrightarrow> map_of (doc b') l = map_of (doc b) l"
      using initBinaryBuffer_restores [OF small e, of "DataRef_serialise ref"] by (elim exE conjE)
    moreover have "DataRef_deserialise \<lparr>doc = doc (DataRef_serialise ref), bigFiles = []\<rparr> = Inr ref"
      using data_ref_roundtrip [of ref] by (simp add: DataRef_serialise_def obj_def RepoBSONBuilder_def append_field_def)
    ultimately show ?thesis using b1 False e
      by (simp add: loadBinaryBuffers_def d replaced_reference loaded_again_def)
  qed
qed

lemma rtraverse_related:
  "list_all2 R xs ys \<Longrightarrow> (\<And>x y. x \<in> set xs \<Longrightarrow> R x y \<Longrightarrow> \<exists>z. f y = Inr z \<and> Q x z) \<Longrightarrow> \<exists>zs. rtraverse f ys = Inr zs \<and> list_all2 Q xs zs"
proof (induction xs ys rule: list_all2_induct)
  case (Cons x xs y ys)
  obtain z where "f y = Inr z" "Q x z" using Cons.hyps(1) Cons.prems by (meson list.set_intros(1))
  moreover obtain zs where "rtraverse f ys = Inr zs" "list_all2 Q xs zs" using Cons.IH Cons.prems by (meson list.set_intros(2))
  ultimately show ?case by simp
qed simp

lemma stored_as_selected:
  assumes "stored_as handed b d" and "\<forall>d. (\<forall>l. l \<noteq> REPO_LABEL_BINARY_REFERENCE \<longrightarrow> map_of d l = map_of (doc b) l) \<longrightarrow> P d"
  shows "P d"
proof -
  have "map_of d l = map_of (doc b) l" if "l \<noteq> REPO_LABEL_BINARY_REFERENCE" for l
    using assms(1) that
    by (auto simp: stored_as_def replaceBinaryWithReference_def map_of_appendElementsUnique Let_def split: prod.splits if_splits)
  then show ?thesis using assms(2) by blast
qed


subsection \<open>A server of lists\<close>

type_synonym list_server = "string \<times> string \<Rightarrow> document list"

definition add_to_set :: "string \<Rightarrow> bson list \<Rightarrow> document \<Rightarrow> document" where
  "add_to_set f vs d = (case map_of d f of
     Some (BArray xs) \<Rightarrow> AList.update f (BArray (xs @ filter (\<lambda>v. v \<notin> set xs) (remdups vs))) d
   | _ \<Rightarrow> AList.update f (BArray (remdups vs)) d)"

definition each_value :: "bson \<Rightarrow> bson list" where
  "each_value v = (case v of BDocument [(name, BArray vs)] \<Rightarrow> if name = ''$each'' then vs else [v] | _ \<Rightarrow> [v])"

definition server_update :: "document \<Rightarrow> document \<Rightarrow> document" where
  "server_update u d = (case u of [(name, BDocument [(f, v)])] \<Rightarrow> if name = ''$addToSet'' then add_to_set f (each_value v) d else d | _ \<Rightarrow> d)"

fun update_first :: "document \<Rightarrow> document \<Rightarrow> document list \<Rightarrow> document list" where
  "update_first q u [] = []"
| "update_first q u (d # ds) = (if server_sat q d then server_update u d # ds else d # update_first q u ds)"

definition list_driver :: "list_server driver" where
  "list_driver = \<lparr>create_index = (\<lambda>d db col i sparse. (Inr (), d)), drop_collection = (\<lambda>d db col. (Inr (), d((db, col) := []))),
     delete_one = (\<lambda>d db col q. (Inr (), case List.find (server_sat q) (d (db, col)) of None \<Rightarrow> d | Some x \<Rightarrow> d((db, col) := remove1 x (d (db, col))))),
     find_docs = (\<lambda>d db col q opt. Inr (filter (server_sat q) (d (db, col)))),
     find_one = (\<lambda>d db col q opt. Inr (List.find (server_sat q) (d (db, col)))),
     list_collection_names = (\<lambda>d db. Inr []),
     insert_one = (\<lambda>d db col x. (Inr (), d((db, col) := d (db, col) @ [x]))),
     insert_many = (\<lambda>d db col xs. (Inr (), d((db, col) := d (db, col) @ xs))),
     replace_one = (\<lambda>d db col q x up. if db = [] \<or> col = [] then (Inl (DatabaseException ''Invalid namespace''), d)
       else (Inr (), d((db, col) := x # filter (\<lambda>y. map_of y REPO_LABEL_ID \<noteq> map_of x REPO_LABEL_ID) (d (db, col))))),
     update_one = (\<lambda>d db col q u up. (Inr (), d((db, col) := update_first q u (d (db, col))))),
     count_documents = (\<lambda>d db col q. Inr (length (filter (server_sat q) (d (db, col))))),
     bulk_write = (\<lambda>d db col ops. (Inr (), d((db, col) := fold (run_op update_first) ops (d (db, col))))),
     objsize = (\<lambda>x. 5 + length x)\<rparr>"

lemma key_condition: "server_sat [(REPO_LABEL_ID, key_bson key)] d \<longleftrightarrow> field_holds REPO_LABEL_ID (key_bson key) d"
  by (cases key) (simp_all add: server_sat.simps server_condition_value field_name_def REPO_LABEL_ID_def bson_of_uuid_def)

lemma key_not_array: "key_bson key \<noteq> BArray xs"
  by (cases key) (simp_all add: bson_of_uuid_def)

lemma key_holds_other: "map_of x REPO_LABEL_ID = Some (key_bson key) \<Longrightarrow> field_holds REPO_LABEL_ID (key_bson key') x \<longleftrightarrow> key' = key"
  using key_not_array [of key] by (auto simp: field_holds_def key_bson_inject split: bson.splits)

lemma find_filter: "(\<And>x. x \<in> set xs \<Longrightarrow> P x \<Longrightarrow> Q x) \<Longrightarrow> List.find P (filter Q xs) = List.find P xs"
  by (induction xs) auto

interpretation lists: collection_server list_driver "\<lambda>d. d" server_sat update_first
proof (unfold_locales, goal_cases)
  case (6 d db col key x d')
  then show ?case by (auto simp: list_driver_def key_condition key_holds_other split: if_splits)
next
  case (7 d db col key x r d' key')
  have "List.find (server_sat [(REPO_LABEL_ID, key_bson key')]) (filter (\<lambda>y. map_of y REPO_LABEL_ID \<noteq> map_of x REPO_LABEL_ID) ds) =
      List.find (server_sat [(REPO_LABEL_ID, key_bson key')]) ds" for ds
    by (rule find_filter) (use 7 key_holds_other in \<open>auto simp: key_condition\<close>)
  then show ?case using 7 by (auto simp: list_driver_def key_condition key_holds_other split: if_splits)
qed (auto simp: list_driver_def split: if_splits)

definition list_files :: "list_server db_ops \<Rightarrow> (file_system, list_server) manager_env" where
  "list_files ops = \<lparr>fsHandler = fs_ops good_env ''/store'' 0, dbHandler = ops, uuid_at = of_nat,
     uuid_string = (\<lambda>u. map (\<lambda>i. if bit u i then CHR ''1'' else CHR ''0'') [0..<128]),
     gzip = rev, gunzip = (\<lambda>b. Inr (rev b)), make_time = tm_sec\<rparr>"

definition no_ops :: "list_server db_ops" where
  "no_ops = \<lparr>findOneByUniqueID = (\<lambda>_ _ _ _. Inr (bson_of_doc [])), upsertDocument = (\<lambda>d _ _ _ _. (Inr (), d)),
     dropDocument = (\<lambda>d _ _ _. (Inr (), d))\<rparr>"

text \<open>A handler and the file manager refer to each other; what the manager asks of the handler does not need the manager.\<close>

definition list_mongo :: "(file_system, list_server) mongo" where
  "list_mongo = \<lparr>driver_of = list_driver,
     files_of = list_files (mongo_ref_ops \<lparr>driver_of = list_driver, files_of = list_files no_ops, uri_text = None\<rparr>), uri_text = None\<rparr>"

lemma mongo_ref_ops_cong: "driver_of env = driver_of env' \<Longrightarrow> uri_text env = uri_text env' \<Longrightarrow> mongo_ref_ops env = mongo_ref_ops env'"
  by (simp add: mongo_ref_ops_def findOneByKey_eq mongo_upsertDocument_def mongo_dropDocument_def mongo_exception_def
      cong: if_cong option.case_cong)

lemma list_mongo_simps:
  "driver_of list_mongo = list_driver" "dbHandler (files_of list_mongo) = mongo_ref_ops list_mongo"
  "fsHandler (files_of list_mongo) = fs_ops good_env ''/store'' 0" "make_time (files_of list_mongo) = tm_sec"
  "uuid_string (files_of list_mongo) = uuid_string sample_manager_env" "uuid_at (files_of list_mongo) = uuid_at sample_manager_env"
  by (simp_all add: list_mongo_def list_files_def sample_manager_env_def) (rule mongo_ref_ops_cong, simp_all)

lemma list_uploads_succeed:
  assumes "db \<noteq> []"
  shows "uploads_succeed (files_of list_mongo) db col []"
  unfolding uploads_succeed_def
proof (intro allI)
  fix key bin and m :: "(file_system, list_server) manager"
  let ?env = "files_of list_mongo"
  let ?name = "uuid_string ?env (uuid_at ?env (made m))"
  have name: "?name \<noteq> []" by (simp add: list_mongo_simps sample_uuid_string)
  obtain s where u: "uploadFile good_env ''/store'' 0 db col ?name bin (fstore m) = (Inr ?name, s)"
    by (simp add: uploadFile_def write_attempts.simps [of _ _ _ 0] write_once_def good_env_def)
  have "fst (upsertFileRef ?env db col key ?name REF_FS n [] m') = Inr True" for n m'
  proof -
    obtain b where b: "ref_bson (make_time ?env) key (RepoRef_new ?name (ucast n) []) = Inr b" "bigFiles b = []"
      by (simp add: ref_bson_def refT_serialise_def ref_serialise_def RepoRef_new_def Let_def append_field_def RepoBSONBuilder_def obj_def)
    have "map_of (doc b) REPO_LABEL_ID = Some (key_bson key)" using ref_bson_fields(5) [OF b(1)] by (simp add: unreserved_def)
    with assms b show ?thesis
      by (simp add: upsertFileRef_def makeRepoRef_def list_mongo_simps mongo_ref_ops_def upsert_eq atry_def hasOversizeFiles_def
          list_driver_def ref_collection_def)
  qed
  with u name show "fst (uploadFileAndCommit ?env db col key bin [] NoEncoding m) = Inr True"
    by (simp add: uploadFileAndCommit_def Let_def list_mongo_simps encode_def encoded_metadata_def)
qed

lemma list_files_ready: "db \<noteq> [] \<Longrightarrow> files_ready list_mongo (fs_ops good_env ''/store'' 0) 1000 db col []"
  using sample_fresh by (simp add: files_ready_def list_mongo_simps list_uploads_succeed unreserved_def fresh_uuids_def)

lemma list_insertManyDocuments:
  assumes db: "db \<noteq> []" and bs: "bs \<noteq> []" "length bs \<le> MAX_PARALLEL_BSON" "made m + 2 * length bs < 1000"
    "\<forall>x \<in> set bs. length (snd (getBinariesAsBuffer x)) < 2 ^ 62"
  shows "\<exists>m'. mongo_insertManyDocuments list_mongo db col bs [] m = (Inr (), m')"
proof -
  let ?env = "files_of list_mongo" and ?b = "\<lparr>blob_manager = m, activeFile = None, readStreams = []\<rparr>"
  note ready = list_files_ready [OF db, of col]
  have b: "blob_inv ?env db col [] ?b" by (rule blob_invI) simp_all
  have "made (blob_manager ?b) + 2 * length bs < 1000" using bs(3) by simp
  from lists.store_nodes_inv [OF list_mongo_simps(1) ready this b bs(4)]
  obtain docs b1 h where s: "atraverse (store_node list_mongo db col []) bs ?b = (Inr docs, b1)" "blob_inv ?env db col h b1"
    "made (blob_manager b1) \<le> made m + 2 * length bs" by auto
  let ?d = "(dbase (blob_manager b1))((db, col) := dbase (blob_manager b1) (db, col) @ docs)"
  let ?b2 = "b1\<lparr>blob_manager := (blob_manager b1)\<lparr>dbase := ?d\<rparr>\<rparr>"
  have inv: "blob_inv ?env db col h ?b2"
    by (rule lists.blob_inv_server [OF list_mongo_simps(1,2) _ s(2)]) (simp add: ref_collection_def)
  have made: "made (blob_manager ?b2) < 1000" using s(3) bs(3) by simp
  have f: "fsHandler ?env = fs_ops good_env ''/store'' 0" "fresh_uuids ?env 1000" "unreserved []" "uploads_succeed ?env db col []"
    using ready by (simp_all add: files_ready_def)
  have laws: "ref_store_laws (dbHandler ?env)"
    unfolding list_mongo_simps(2) by (rule lists.ref_store_laws_mongo [OF list_mongo_simps(1)])
  obtain b3 where "finished ?env db col [] ?b2 = (Inr (), b3)"
    using fs.commitActiveFile_inv [OF f(1) laws f(2-4) made inv] by (auto simp: finished_def)
  moreover have "insert_chunks list_mongo db col [] bs ?b = (Inr (), ?b2)"
    using bs(1,2) s(1)
    by (simp add: insert_chunks.simps [of _ _ _ _ bs] insert_chunks.simps [of _ _ _ _ "[]"] abind_def areturn_def on_blob_server_def
        on_server_def list_mongo_simps list_driver_def)
  ultimately show ?thesis by (simp add: mongo_insertManyDocuments_def abind_def)
qed

definition two_documents :: "RepoBSON list" where
  "two_documents = [\<lparr>doc = [(REPO_NODE_REVISION_ID, bson_of_uuid 9), (''n'', BInt32 1)], bigFiles = [(''faces'', [1, 2, 3])]\<rparr>,
     \<lparr>doc = [(REPO_NODE_REVISION_ID, bson_of_uuid 9), (''n'', BInt32 2)], bigFiles = []\<rparr>]"

definition empty_list_server :: "(file_system, list_server) manager" where
  "empty_list_server = \<lparr>fstore = empty_fs, dbase = (\<lambda>_. []), made = 0\<rparr>"


end
