(* ===== verification/MongoBulk.thy ===== *)
theory MongoBulk
  imports MongoStore
begin

text \<open>
  Bulk writes of the database handler reach the collection in the order of the calls, in batches that do not wait for
  more than sixteen megabytes, and what exceptions of the handler show of its connection string.
\<close>

subsection \<open>Bulk writes\<close>

datatype bulk_call = CallInsert RepoBSON | CallUpdate AddParent

fun bulk_act :: "('s, 'd) mongo \<Rightarrow> string \<Rightarrow> string \<Rightarrow> bulk_call \<Rightarrow> (('s, 'd) write_context, unit) act" where
  "bulk_act env db col (CallInsert b) = context_insertDocument env db col b"
| "bulk_act env db col (CallUpdate u) = context_updateDocument env db col u"

text \<open>The operation on the server a call stands for: the document with its binaries replaced by some reference, or the update.\<close>

fun op_of :: "bulk_call \<Rightarrow> write_op \<Rightarrow> bool" where
  "op_of (CallInsert b) op \<longleftrightarrow> (case getBinariesAsBuffer b of (elemRefs, data) \<Rightarrow>
     if data = [] then op = InsertOne (doc b) else \<exists>ref. op = InsertOne (doc (replaceBinaryWithReference (DataRef_serialise ref) elemRefs b)))"
| "op_of (CallUpdate u) op \<longleftrightarrow> (\<exists>q d. update_documents u = Inr (q, d) \<and> op = UpdateOne (doc q) (doc d))"

abbreviation server_of :: "('s, 'd) write_context \<Rightarrow> 'd" where
  "server_of c \<equiv> dbase (blob_manager (ctx_blob c))"

definition bulk_inv ::
  "('d \<Rightarrow> string \<times> string \<Rightarrow> document list) \<Rightarrow> (document \<Rightarrow> document \<Rightarrow> document list \<Rightarrow> document list) \<Rightarrow> string \<times> string \<Rightarrow>
     'd \<Rightarrow> bulk_call list \<Rightarrow> ('s, 'd) write_context \<Rightarrow> bool" where
  "bulk_inv contents upd k d calls c \<longleftrightarrow>
     bulkOps c = length calls \<and> (bulk c = [] \<longleftrightarrow> bulkSize c = 0) \<and> bulkSize c \<le> 16 * 1024 * 1024 \<and>
     (\<exists>ops. list_all2 op_of calls ops \<and>
        fold (run_op upd) (bulk c) (contents (server_of c) k) = fold (run_op upd) ops (contents d k))"

lemma atry_Inr: "atry e a w = (Inr x, w') \<longleftrightarrow> a w = (Inr x, w')"
  by (auto simp: atry_def nested_def split: prod.splits sum.splits)

context collection_server
begin

lemma executeBulkWrite_contents:
  assumes drv: "driver_of env = drv" and e: "executeBulkWrite env db col c = (Inr (), c')" and none: "bulkSize c = 0 \<longrightarrow> bulk c = []"
  shows "bulk c' = []" "bulkSize c' = 0" "bulkOps c' = bulkOps c"
    "contents (server_of c') (db, col) = fold (run_op upd) (bulk c) (contents (server_of c) (db, col))"
  using e none written
  by (auto simp: executeBulkWrite_def abind_def agets_def amodify_def areturn_def on_blob_def on_blob_server_def on_server_def drv
      split: prod.splits sum.splits if_splits)

text \<open>What is left after a document or an update is appended and the size is checked.\<close>

lemma append_and_check:
  assumes drv: "driver_of env = drv" and inv: "bulk_inv contents upd (db, col) d calls c"
    and same: "contents (server_of c1) (db, col) = contents (server_of c) (db, col)" "bulk c1 = bulk c" "bulkSize c1 = bulkSize c" "bulkOps c1 = bulkOps c"
    and n: "0 < n" and op: "op_of call op"
    and r: "abind (append_op n op) (\<lambda>_. checkBulkWrite env db col) c1 = (Inr (), c')"
  shows "bulk_inv contents upd (db, col) d (calls @ [call]) c'"
proof -
  obtain ops where ops: "list_all2 op_of calls ops"
    "fold (run_op upd) (bulk c) (contents (server_of c) (db, col)) = fold (run_op upd) ops (contents d (db, col))"
    using inv by (auto simp: bulk_inv_def)
  let ?c2 = "c1\<lparr>bulk := bulk c1 @ [op], bulkSize := bulkSize c1 + n, bulkOps := Suc (bulkOps c1)\<rparr>"
  have r': "checkBulkWrite env db col ?c2 = (Inr (), c')" using r by (simp add: abind_def append_op_def amodify_def)
  have run: "fold (run_op upd) (bulk ?c2) (contents (server_of ?c2) (db, col)) = fold (run_op upd) (ops @ [op]) (contents d (db, col))"
    using ops(2) same by simp
  have all: "list_all2 op_of (calls @ [call]) (ops @ [op])" using ops(1) op by (simp add: list_all2_appendI)
  show ?thesis
  proof (cases "bulkSize ?c2 > 16 * 1024 * 1024")
    case True
    then have "executeBulkWrite env db col ?c2 = (Inr (), c')" using r' by (simp add: checkBulkWrite_def abind_def agets_def)
    from executeBulkWrite_contents [OF drv this] n run
    show ?thesis using inv same(4) all unfolding bulk_inv_def by (intro conjI exI [of _ "ops @ [op]"]) simp_all
  next
    case False
    then have "c' = ?c2" using r' by (simp add: checkBulkWrite_def abind_def agets_def areturn_def)
    then show ?thesis using inv same(4) all n run False unfolding bulk_inv_def by (intro conjI exI [of _ "ops @ [op]"]) simp_all
  qed
qed

lemma bulk_act_inv:
  assumes drv: "driver_of env = drv" and ops: "dbHandler (files_of env) = mongo_ref_ops env" and pos: "\<And>x. 0 < objsize drv x"
    and inv: "bulk_inv contents upd (db, col) d calls c" and r: "bulk_act env db col call c = (Inr (), c')"
  shows "bulk_inv contents upd (db, col) d (calls @ [call]) c'"
proof (cases call)
  case (CallInsert b)
  obtain x b1 where s: "store_node env db col [] b (ctx_blob c) = (Inr x, b1)"
    "abind (append_op (objsize drv x) (InsertOne x)) (\<lambda>_. checkBulkWrite env db col) (c\<lparr>ctx_blob := b1\<rparr>) = (Inr (), c')"
    using r by (auto simp: CallInsert context_insertDocument_def atry_Inr abind_def on_blob_def drv split: prod.splits sum.splits)
  have "contents (dbase (blob_manager b1)) (db, col) = contents (server_of c) (db, col)"
    by (rule store_node_elsewhere [OF drv ops ref_collection_neq s(1)])
  moreover have "op_of call (InsertOne x)"
    using s(1) by (auto simp: CallInsert store_node_def abind_def areturn_def split: prod.splits sum.splits if_splits)
  ultimately show ?thesis by (intro append_and_check [OF drv inv _ _ _ _ pos _ s(2)]) simp_all
next
  case (CallUpdate u)
  obtain q x where s: "update_documents u = Inr (q, x)"
    "abind (append_op (objsize drv (doc q) + objsize drv (doc x)) (UpdateOne (doc q) (doc x))) (\<lambda>_. checkBulkWrite env db col) c = (Inr (), c')"
    using r by (auto simp: CallUpdate context_updateDocument_def atry_Inr abind_def aresult_def drv split: prod.splits sum.splits)
  have "op_of call (UpdateOne (doc q) (doc x))" using s(1) by (simp add: CallUpdate)
  moreover have "0 < objsize drv (doc q) + objsize drv (doc x)" using pos by simp
  ultimately show ?thesis by (intro append_and_check [OF drv inv _ _ _ _ _ _ s(2)]) simp_all
qed

lemma bulk_acts_inv:
  assumes drv: "driver_of env = drv" and ops: "dbHandler (files_of env) = mongo_ref_ops env" and pos: "\<And>x. 0 < objsize drv x"
  shows "bulk_inv contents upd (db, col) d past c \<Longrightarrow> atraverse (bulk_act env db col) calls c = (Inr us, c') \<Longrightarrow>
    bulk_inv contents upd (db, col) d (past @ calls) c'"
proof (induction calls arbitrary: past c us)
  case (Cons call calls)
  obtain c1 us' where "bulk_act env db col call c = (Inr (), c1)" "atraverse (bulk_act env db col) calls c1 = (Inr us', c')"
    using Cons.prems(2) by (auto simp: abind_def areturn_def split: prod.splits sum.splits)
  then show ?case using Cons.IH bulk_act_inv [OF drv ops pos Cons.prems(1)] by fastforce
qed (simp add: areturn_def)

end

text \<open>
  C23: bulk writes reach the collection in the order of the calls: after any inserts and updates that do not throw, what the server holds together
  with the operations still waiting is what executing one operation for each call, in order, would give; what waits is never
  more than sixteen megabytes, and after flushing nothing waits and the collection holds all of it.
\<close>

theorem bulk_writes_in_order:
  assumes server: "collection_server (driver_of env) contents sat upd" and ops: "dbHandler (files_of env) = mongo_ref_ops env"
    and pos: "\<forall>x. 0 < objsize (driver_of env) x"
    and run: "atraverse (bulk_act env db col) calls (getBulkWriteContext m) = (Inr us, c)"
  shows "\<exists>ops. list_all2 op_of calls ops \<and> bulkOps c = length calls \<and> bulkSize c \<le> 16 * 1024 * 1024 \<and>
    fold (run_op upd) (bulk c) (contents (server_of c) (db, col)) = fold (run_op upd) ops (contents (dbase m) (db, col)) \<and>
    (\<forall>c'. context_flush env db col c = (Inr (), c') \<longrightarrow>
       bulk c' = [] \<and> contents (server_of c') (db, col) = fold (run_op upd) ops (contents (dbase m) (db, col)))"
proof -
  have start: "bulk_inv contents upd (db, col) (dbase m) [] (getBulkWriteContext m)" by (simp add: bulk_inv_def getBulkWriteContext_def)
  have inv: "bulk_inv contents upd (db, col) (dbase m) calls c"
    using collection_server.bulk_acts_inv [OF server refl ops _ start run] pos by simp
  have flush: "bulk c' = [] \<and> contents (server_of c') (db, col) = fold (run_op upd) (bulk c) (contents (server_of c) (db, col))"
    if f: "context_flush env db col c = (Inr (), c')" for c'
  proof -
    obtain c1 b where c1: "executeBulkWrite env db col c = (Inr (), c1)"
      "finished (files_of env) db col [] (ctx_blob c1) = (Inr (), b)" "c' = c1\<lparr>ctx_blob := b\<rparr>"
      using f by (auto simp: context_flush_def abind_def on_blob_def split: prod.splits sum.splits)
    have "contents (dbase (blob_manager b)) (db, col) = contents (server_of c1) (db, col)"
      by (rule collection_server.commitActiveFile_elsewhere [OF server refl ops ref_collection_neq c1(2) [unfolded finished_def]])
    then show ?thesis
      using collection_server.executeBulkWrite_contents [OF server refl c1(1)] inv c1(3) by (simp add: bulk_inv_def)
  qed
  obtain os where "list_all2 op_of calls os"
    "fold (run_op upd) (bulk c) (contents (server_of c) (db, col)) = fold (run_op upd) os (contents (dbase m) (db, col))"
    using inv by (auto simp: bulk_inv_def)
  then show ?thesis using inv flush by (intro exI [of _ os]) (simp add: bulk_inv_def)
qed

definition child_document :: RepoBSON where
  "child_document = \<lparr>doc = [(REPO_LABEL_ID, bson_of_uuid 7), (REPO_NODE_LABEL_PARENTS, bson_of_array bson_of_uuid [3])], bigFiles = []\<rparr>"

theorem bulk_writes_in_order_witness:
  "\<exists>us c c'. atraverse (bulk_act list_mongo ''db'' ''c'') [CallInsert child_document, CallUpdate \<lparr>parent_of = 7, added_parents = {|5|}\<rparr>]
       (getBulkWriteContext empty_list_server) = (Inr us, c) \<and> length (bulk c) = 2 \<and>
     context_flush list_mongo ''db'' ''c'' c = (Inr (), c') \<and>
     map (\<lambda>d. map_of d REPO_NODE_LABEL_PARENTS) (server_of c' (''db'', ''c'')) = [Some (bson_of_array bson_of_uuid [3, 5])]"
proof -
  let ?calls = "[CallInsert child_document, CallUpdate \<lparr>parent_of = 7, added_parents = {|5|}\<rparr>]"
  let ?q = "\<lparr>doc = [(REPO_LABEL_ID, bson_of_uuid 7)], bigFiles = []\<rparr> :: RepoBSON"
  let ?u = "\<lparr>doc = [(''$addToSet'', BDocument [(REPO_NODE_LABEL_PARENTS, bson_of_uuid 5)])], bigFiles = []\<rparr> :: RepoBSON"
  have "sorted_list_of_fset {|5 :: uuid|} = [5]" by code_simp
  then have u: "update_documents \<lparr>parent_of = 7, added_parents = {|5|}\<rparr> = Inr (?q, ?u)"
    by (simp add: update_documents_def append_field_def RepoBSONBuilder_def obj_def)
  have st: "store_node list_mongo ''db'' ''c'' [] child_document b = (Inr (doc child_document), b)" for b
    by (simp add: store_node_def child_document_def getBinariesAsBuffer_def areturn_def)
  have small: "objsize list_driver x = 5 + length x" "length (doc child_document) = 2" for x
    by (simp_all add: list_driver_def child_document_def)
  have differ: "bson_of_uuid 5 \<noteq> bson_of_uuid 3" using key_bson_inject [of "KUUID 5" "KUUID 3"] by simp
  define c where "c = (getBulkWriteContext empty_list_server)\<lparr>bulk := [InsertOne (doc child_document), UpdateOne (doc ?q) (doc ?u)], bulkSize := 19, bulkOps := 2\<rparr>"
  have run: "atraverse (bulk_act list_mongo ''db'' ''c'') ?calls (getBulkWriteContext empty_list_server) = (Inr [(), ()], c)"
    by (simp add: c_def context_insertDocument_def context_updateDocument_def atry_def abind_def on_blob_def st u aresult_def append_op_def amodify_def
        checkBulkWrite_def agets_def areturn_def list_mongo_simps small getBulkWriteContext_def numeral_2_eq_2)
  have server: "collection_server (driver_of list_mongo) (\<lambda>d. d) server_sat update_first"
    unfolding list_mongo_simps(1) by (rule lists.collection_server_axioms)
  have pos: "\<forall>x. 0 < objsize (driver_of list_mongo) x" by (simp add: list_mongo_simps list_driver_def)
  have flush: "\<exists>c'. context_flush list_mongo ''db'' ''c'' c = (Inr (), c')"
    by (simp add: context_flush_def executeBulkWrite_def abind_def agets_def amodify_def on_blob_def on_blob_server_def on_server_def
        c_def list_mongo_simps list_driver_def finished_def commitActiveFile_def getBulkWriteContext_def)
  then obtain c' where c': "context_flush list_mongo ''db'' ''c'' c = (Inr (), c')" ..
  obtain ops where ops: "list_all2 op_of ?calls ops" "server_of c' (''db'', ''c'') = fold (run_op update_first) ops (dbase empty_list_server (''db'', ''c''))"
    using bulk_writes_in_order [OF server list_mongo_simps(2) pos run] c' by blast
  have "ops = [InsertOne (doc child_document), UpdateOne (doc ?q) (doc ?u)]"
    using ops(1) by (auto simp: list_all2_Cons1 u child_document_def getBinariesAsBuffer_def)
  moreover have "server_sat (doc ?q) (doc child_document)"
    using key_condition [of "KUUID 7"] by (simp add: field_holds_def child_document_def)
  ultimately have "map (\<lambda>d. map_of d REPO_NODE_LABEL_PARENTS) (server_of c' (''db'', ''c'')) = [Some (bson_of_array bson_of_uuid [3, 5])]"
    using ops(2) differ by (simp add: empty_list_server_def server_update_def add_to_set_def each_value_def bson_of_array_def
        child_document_def REPO_LABEL_ID_def node_labels) (simp add: bson_of_uuid_def)
  then show ?thesis using run c' by (intro exI [of _ "[(), ()]"] exI [of _ c] exI [of _ c']) (simp add: c_def)
qed

subsection \<open>What exceptions show\<close>

lemma find_text_first: "c \<notin> set xs \<Longrightarrow> find_text (c # p) (xs @ (c # p) @ ys) = Some (length xs)"
  by (induction xs) auto

lemma find_text_none: "c \<notin> set xs \<Longrightarrow> find_text (c # p) xs = None"
  by (induction xs) auto

lemma mask_middle: "mask (length xs) (length xs + length ys) (xs @ ys @ zs) = xs @ replicate (length ys) CHR ''*'' @ zs"
  by (rule nth_equalityI) (auto simp: mask_def nth_append)

lemma after_scheme_eq: "CHR '':'' \<notin> set scheme \<Longrightarrow> after_scheme (scheme @ ''://'' @ rest) = length scheme + 3"
  using find_text_first [of "CHR '':''" scheme "''//''" rest] by (simp add: after_scheme_def)



end
